(* ===== verification/Prelude.thy ===== *)
theory Prelude
  imports Main "HOL-Library.Char_ord" "HOL-Library.List_Lexorder"
begin

text \<open>
  The vocabulary every component of the development shares: results of fallible Rust
  functions as sums, operations on a state as functions that return a result and the state they
  leave, \<open>usize\<close> arithmetic with its wrap-around written out, and the two principles of
  reasoning about operations as locales: a relation that every step keeps and an invariant of a
  transition system.
\<close>

section \<open>Results\<close>

text \<open>
  A Rust \<open>Result<T, E>\<close> is a value of \<open>'e + 'a\<close>: \<open>Inl\<close> carries the error, \<open>Inr\<close> the
  success. The operator \<open>?\<close> is \<open>and_then\<close>. A call that panics (an \<open>expect\<close>, an
  \<open>unreachable!\<close>, an index out of range) is an error constructor of its own where it can
  happen.
\<close>

abbreviation Ok :: "'a \<Rightarrow> 'e + 'a" where "Ok \<equiv> Inr"
abbreviation Err :: "'e \<Rightarrow> 'e + 'a" where "Err \<equiv> Inl"

fun and_then :: "'e + 'a \<Rightarrow> ('a \<Rightarrow> 'e + 'b) \<Rightarrow> 'e + 'b" where
  "and_then (Inl e) f = Inl e"
| "and_then (Inr x) f = f x"

fun map_ok :: "('a \<Rightarrow> 'b) \<Rightarrow> 'e + 'a \<Rightarrow> 'e + 'b" where
  "map_ok f (Inl e) = Inl e"
| "map_ok f (Inr x) = Inr (f x)"

fun is_ok :: "'e + 'a \<Rightarrow> bool" where
  "is_ok (Inl e) \<longleftrightarrow> False"
| "is_ok (Inr x) \<longleftrightarrow> True"

fun ok_or :: "'e \<Rightarrow> 'a option \<Rightarrow> 'e + 'a" where
  "ok_or e None = Inl e"
| "ok_or e (Some x) = Inr x"

named_theorems result_simps \<open>inversion of the result combinators\<close>

lemma and_then_Inr_iff [result_simps]:
  "and_then r f = Inr y \<longleftrightarrow> (\<exists>x. r = Inr x \<and> f x = Inr y)"
  by (cases r) auto

lemma and_then_Inl_iff [result_simps]:
  "and_then r f = Inl e \<longleftrightarrow> r = Inl e \<or> (\<exists>x. r = Inr x \<and> f x = Inl e)"
  by (cases r) auto

lemma map_ok_Inr_iff [result_simps]: "map_ok f r = Inr y \<longleftrightarrow> (\<exists>x. r = Inr x \<and> y = f x)"
  by (cases r) auto

lemma map_ok_Inl_iff [result_simps]: "map_ok f r = Inl e \<longleftrightarrow> r = Inl e"
  by (cases r) auto

lemma ok_or_Inr_iff [result_simps]: "ok_or e x = Inr y \<longleftrightarrow> x = Some y"
  by (cases x) auto

lemma ok_or_Inl_iff [result_simps]: "ok_or e x = Inl e' \<longleftrightarrow> x = None \<and> e' = e"
  by (cases x) auto

lemma and_then_assoc: "and_then (and_then r f) g = and_then r (\<lambda>x. and_then (f x) g)"
  by (cases r) simp_all

text \<open>
  \<open>collect::<Result<Vec<_>, _>>()\<close> over a fallible function: the results in order, or the
  first error.
\<close>

fun collect_results :: "('a \<Rightarrow> 'e + 'b) \<Rightarrow> 'a list \<Rightarrow> 'e + 'b list" where
  "collect_results f [] = Inr []"
| "collect_results f (x # xs) =
     and_then (f x) (\<lambda>y. map_ok (\<lambda>ys. y # ys) (collect_results f xs))"

lemma collect_results_Inr_iff:
  "collect_results f xs = Inr ys \<longleftrightarrow> list_all2 (\<lambda>x y. f x = Inr y) xs ys"
  by (induction xs arbitrary: ys) (auto simp: result_simps list_all2_Cons1)

lemma collect_results_each:
  "collect_results f xs = Inr ys \<Longrightarrow> x \<in> set xs \<Longrightarrow> \<exists>y \<in> set ys. f x = Inr y"
  by (induction xs arbitrary: ys) (auto simp: result_simps)

lemma collect_results_Inl:
  "collect_results f xs = Inl e \<Longrightarrow> \<exists>x \<in> set xs. f x = Inl e"
  by (induction xs) (auto simp: result_simps)

section \<open>Actions\<close>

text \<open>
  A fallible operation with effects: the state it leaves is there whether it succeeds or not,
  since a Rust function that returns an error keeps what it did before.
\<close>

type_synonym ('s, 'e, 'a) action = "'s \<Rightarrow> ('e + 'a) \<times> 's"

definition act_ok :: "'a \<Rightarrow> ('s, 'e, 'a) action" where
  "act_ok a s = (Ok a, s)"

definition act_err :: "'e \<Rightarrow> ('s, 'e, 'a) action" where
  "act_err e s = (Err e, s)"

definition act_lift :: "'e + 'a \<Rightarrow> ('s, 'e, 'a) action" where
  "act_lift r s = (r, s)"

text \<open>Matching on the result of an operation, the operator \<open>?\<close>, and \<open>map_err\<close>.\<close>

definition act_match :: "('s, 'e, 'a) action \<Rightarrow> ('e + 'a \<Rightarrow> ('s, 'f, 'b) action) \<Rightarrow> ('s, 'f, 'b) action" where
  "act_match m f s = (case m s of (r, s') \<Rightarrow> f r s')"

definition act_bind :: "('s, 'e, 'a) action \<Rightarrow> ('a \<Rightarrow> ('s, 'e, 'b) action) \<Rightarrow> ('s, 'e, 'b) action" where
  "act_bind m f = act_match m (\<lambda>r. case r of Inl e \<Rightarrow> act_err e | Inr a \<Rightarrow> f a)"

definition act_map_err :: "('e \<Rightarrow> 'f) \<Rightarrow> ('s, 'e, 'a) action \<Rightarrow> ('s, 'f, 'a) action" where
  "act_map_err f m = act_match m (\<lambda>r. case r of Inl e \<Rightarrow> act_err (f e) | Inr a \<Rightarrow> act_ok a)"

text \<open>An operation on a part of the state.\<close>

definition act_zoom :: "('s \<Rightarrow> 't) \<Rightarrow> ('t \<Rightarrow> 's \<Rightarrow> 's) \<Rightarrow> ('t, 'e, 'a) action \<Rightarrow> ('s, 'e, 'a) action" where
  "act_zoom get put m s = (case m (get s) of (r, t) \<Rightarrow> (r, put t s))"

lemmas action_defs = act_ok_def act_err_def act_lift_def act_match_def act_bind_def act_map_err_def act_zoom_def

lemma act_match_eq [simp]: "m s = (r, s') \<Longrightarrow> act_match m f s = f r s'"
  by (simp add: act_match_def)

lemma act_bind_Inr: "m s = (Inr a, s') \<Longrightarrow> act_bind m f s = f a s'"
  by (simp add: act_bind_def)

lemma act_bind_Inl: "m s = (Inl e, s') \<Longrightarrow> act_bind m f s = (Inl e, s')"
  by (simp add: act_bind_def act_err_def)

lemma act_map_err_Inr: "m s = (Inr a, s') \<Longrightarrow> act_map_err f m s = (Inr a, s')"
  by (simp add: act_map_err_def act_ok_def)

lemma act_map_err_Inl: "m s = (Inl e, s') \<Longrightarrow> act_map_err f m s = (Inl (f e), s')"
  by (simp add: act_map_err_def act_err_def)

lemma act_ok_laws [simp]:
  "act_bind (act_ok a) f = f a"
  "act_bind (act_err e) f = act_err e"
  "act_map_err h (act_ok a) = act_ok a"
  "act_map_err h (act_err e) = act_err (h e)"
  by (simp_all add: fun_eq_iff action_defs)

lemma act_bind_Inr_iff:
  "act_bind m f s = (Inr b, t) \<longleftrightarrow> (\<exists>a s'. m s = (Inr a, s') \<and> f a s' = (Inr b, t))"
  by (cases "m s"; cases "fst (m s)") (auto simp: act_bind_def act_match_def act_err_def)

lemma act_map_err_Inr_iff: "act_map_err f m s = (Inr a, t) \<longleftrightarrow> m s = (Inr a, t)"
  by (cases "m s"; cases "fst (m s)") (auto simp: act_map_err_def act_match_def act_err_def act_ok_def)

text \<open>
  What holds between the state before and the state after, whatever the result: a reflexive and
  transitive relation that every step of an operation preserves holds for the whole operation.
\<close>

definition preserves :: "('s \<Rightarrow> 's \<Rightarrow> bool) \<Rightarrow> ('s, 'e, 'a) action \<Rightarrow> bool" where
  "preserves R m \<longleftrightarrow> (\<forall>s. R s (snd (m s)))"

locale action_relation =
  fixes R :: "'s \<Rightarrow> 's \<Rightarrow> bool"
  assumes refl: "R s s"
    and trans: "R s t \<Longrightarrow> R t u \<Longrightarrow> R s u"
begin

lemma preserves_pure: "preserves R (act_ok a)" "preserves R (act_err e)" "preserves R (act_lift r)"
  by (simp_all add: preserves_def act_ok_def act_err_def act_lift_def refl)

lemma preserves_match: "preserves R m \<Longrightarrow> (\<And>r. preserves R (f r)) \<Longrightarrow> preserves R (act_match m f)"
  unfolding preserves_def act_match_def by (auto simp: case_prod_beta intro: trans)

lemma preserves_bind:
  assumes "preserves R m" and "\<And>a. preserves R (f a)"
  shows "preserves R (act_bind m f)"
  unfolding act_bind_def
  by (rule preserves_match [OF assms(1)]) (simp add: assms(2) preserves_pure split: sum.splits)

lemma preserves_map_err: "preserves R m \<Longrightarrow> preserves R (act_map_err f m)"
  unfolding act_map_err_def
  by (rule preserves_match) (simp_all add: preserves_pure split: sum.splits)

lemma preserves_if: "preserves R m \<Longrightarrow> preserves R m' \<Longrightarrow> preserves R (if b then m else m')"
  by simp

lemmas preserves_rules = preserves_pure preserves_match preserves_bind preserves_map_err preserves_if

end

section \<open>Machine integers\<close>

text \<open>
  \<open>usize\<close> and \<open>u64\<close> on the supported 64-bit targets, as natural numbers below
  \<open>2 ^ 64\<close>. \<open>+\<close> wraps in a release build; \<open>saturating_add\<close> stops at the maximum.
\<close>

definition usize_max :: nat where
  "usize_max = 2 ^ 64 - 1"

definition wrapping_add :: "nat \<Rightarrow> nat \<Rightarrow> nat" where
  "wrapping_add a b = (a + b) mod 2 ^ 64"

definition saturating_add :: "nat \<Rightarrow> nat \<Rightarrow> nat" where
  "saturating_add a b = min (a + b) usize_max"

lemma wrapping_add_no_overflow: "a + b \<le> usize_max \<Longrightarrow> wrapping_add a b = a + b"
  by (simp add: wrapping_add_def usize_max_def)

lemma saturating_add_no_overflow: "a + b \<le> usize_max \<Longrightarrow> saturating_add a b = a + b"
  by (simp add: saturating_add_def)

lemma saturating_add_bound: "saturating_add a b \<le> usize_max"
  by (simp add: saturating_add_def)

section \<open>Lists\<close>

lemma in_map_filter: "y \<in> set (List.map_filter f xs) \<longleftrightarrow> (\<exists>x \<in> set xs. f x = Some y)"
  by (induction xs) (auto split: option.splits)

section \<open>Transition systems\<close>

text \<open>
  The state of a component and the operations the program performs on it, one step per
  operation. A predicate that holds initially and survives every step holds of every state
  the component can be in.
\<close>

locale transition_system =
  fixes initial :: "'s \<Rightarrow> bool"
    and step :: "'s \<Rightarrow> 's \<Rightarrow> bool"
    and inv :: "'s \<Rightarrow> bool"
  assumes inv_initial: "initial s \<Longrightarrow> inv s"
    and inv_step: "inv s \<Longrightarrow> step s t \<Longrightarrow> inv t"
begin

lemma inv_steps: "step\<^sup>*\<^sup>* s t \<Longrightarrow> inv s \<Longrightarrow> inv t"
  by (induction rule: rtranclp_induct) (auto intro: inv_step)

lemma inv_reachable: "initial s \<Longrightarrow> step\<^sup>*\<^sup>* s t \<Longrightarrow> inv t"
  using inv_steps inv_initial by blast

end

end
