(* ===== verification/Ordered_Map.thy ===== *)
theory Ordered_Map
  imports Prelude
begin

text \<open>
  Rust's \<open>BTreeMap\<close> as an association list kept strictly sorted by key. Iteration order is
  the list's order, which is what the code relies on when it walks a map to emit warnings,
  pick a first entry or print; lookups, insertions and removals obey the interface
  \<open>map_spec\<close> below, and two maps with the same lookups are equal.
\<close>

type_synonym ('k, 'v) bmap = "('k \<times> 'v) list"

definition bm_inv :: "('k::linorder, 'v) bmap \<Rightarrow> bool" where
  "bm_inv m \<longleftrightarrow> sorted_wrt (<) (map fst m)"

abbreviation bm_get :: "('k, 'v) bmap \<Rightarrow> 'k \<Rightarrow> 'v option" where
  "bm_get \<equiv> map_of"

definition bm_contains :: "('k, 'v) bmap \<Rightarrow> 'k \<Rightarrow> bool" where
  "bm_contains m k \<longleftrightarrow> bm_get m k \<noteq> None"

definition bm_keys :: "('k, 'v) bmap \<Rightarrow> 'k list" where
  "bm_keys m = map fst m"

definition bm_values :: "('k, 'v) bmap \<Rightarrow> 'v list" where
  "bm_values m = map snd m"

fun bm_insert :: "'k::linorder \<Rightarrow> 'v \<Rightarrow> ('k, 'v) bmap \<Rightarrow> ('k, 'v) bmap" where
  "bm_insert k v [] = [(k, v)]"
| "bm_insert k v ((k', v') # m) =
     (if k < k' then (k, v) # (k', v') # m
      else if k = k' then (k, v) # m
      else (k', v') # bm_insert k v m)"

fun bm_remove :: "'k \<Rightarrow> ('k, 'v) bmap \<Rightarrow> ('k, 'v) bmap" where
  "bm_remove k [] = []"
| "bm_remove k ((k', v') # m) = (if k = k' then m else (k', v') # bm_remove k m)"

text \<open>\<open>extend\<close> and \<open>from_iter\<close>: insert the pairs one after another.\<close>

definition bm_extend :: "('k::linorder, 'v) bmap \<Rightarrow> ('k \<times> 'v) list \<Rightarrow> ('k, 'v) bmap" where
  "bm_extend m kvs = foldl (\<lambda>acc (k, v). bm_insert k v acc) m kvs"

text \<open>A strictly sorted association list is determined by its lookups.\<close>

lemma alist_of_keys:
  "distinct (map fst xs) \<Longrightarrow> xs = map (\<lambda>kv. (fst kv, the (map_of xs (fst kv)))) xs"
  by (rule sym, rule map_idI) auto

lemma sorted_alist_eqI:
  fixes xs ys :: "('k::linorder \<times> 'v) list"
  assumes "sorted_wrt (<) (map fst xs)" and "sorted_wrt (<) (map fst ys)"
    and "map_of xs = map_of ys"
  shows "xs = ys"
proof -
  have "set (map fst xs) = set (map fst ys)"
    using assms(3) dom_map_of_conv_image_fst [of xs] dom_map_of_conv_image_fst [of ys] by simp
  then have keys: "map fst xs = map fst ys"
    using assms(1,2) strict_sorted_equal by blast
  have dist: "distinct (map fst xs)" "distinct (map fst ys)"
    using assms(1,2) strict_sorted_iff by auto
  have "xs = map (\<lambda>k. (k, the (map_of xs k))) (map fst xs)"
    using alist_of_keys [OF dist(1)] by (simp add: comp_def)
  also have "\<dots> = map (\<lambda>k. (k, the (map_of ys k))) (map fst ys)"
    using keys assms(3) by simp
  also have "\<dots> = ys"
    using alist_of_keys [OF dist(2)] by (simp add: comp_def)
  finally show ?thesis .
qed

section \<open>The map interface\<close>

text \<open>
  What a client may assume of a map: an abstraction into partial functions, insertion and
  removal as pointwise updates, and an invariant every operation keeps.
\<close>

locale map_spec =
  fixes empty :: "'m"
    and insert :: "'k \<Rightarrow> 'v \<Rightarrow> 'm \<Rightarrow> 'm"
    and remove :: "'k \<Rightarrow> 'm \<Rightarrow> 'm"
    and get :: "'m \<Rightarrow> 'k \<Rightarrow> 'v option"
    and inv :: "'m \<Rightarrow> bool"
  assumes inv_empty: "inv empty"
    and inv_insert: "inv m \<Longrightarrow> inv (insert k v m)"
    and inv_remove: "inv m \<Longrightarrow> inv (remove k m)"
    and get_empty: "get empty k = None"
    and get_insert: "inv m \<Longrightarrow> get (insert k v m) k' = (if k' = k then Some v else get m k')"
    and get_remove: "inv m \<Longrightarrow> get (remove k m) k' = (if k' = k then None else get m k')"
begin

lemma inv_extend: "inv m \<Longrightarrow> inv (foldl (\<lambda>acc (k, v). insert k v acc) m kvs)"
  by (induction kvs arbitrary: m) (auto intro: inv_insert)

lemma get_extend:
  "inv m \<Longrightarrow> get (foldl (\<lambda>acc (k, v). insert k v acc) m kvs) k =
     (case map_of (rev kvs) k of None \<Rightarrow> get m k | Some v \<Rightarrow> Some v)"
proof (induction kvs rule: rev_induct)
  case Nil
  then show ?case by simp
next
  case (snoc kv kvs)
  then show ?case
    by (cases kv) (auto simp: get_insert [OF inv_extend])
qed

lemma inv_fold_remove: "inv m \<Longrightarrow> inv (foldl (\<lambda>acc k. remove k acc) m ks)"
  by (induction ks arbitrary: m) (auto intro: inv_remove)

lemma get_fold_remove:
  "inv m \<Longrightarrow> get (foldl (\<lambda>acc k. remove k acc) m ks) k =
     (if k \<in> set ks then None else get m k)"
  by (induction ks arbitrary: m) (auto simp: get_remove inv_remove)

end

text \<open>An ordered map also lists its entries, sorted, and is determined by its lookups.\<close>

locale ordered_map_spec = map_spec empty insert remove get inv
  for empty :: "'m" and insert :: "'k::linorder \<Rightarrow> 'v \<Rightarrow> 'm \<Rightarrow> 'm" and remove get inv +
  fixes entries :: "'m \<Rightarrow> ('k \<times> 'v) list"
  assumes entries_sorted: "inv m \<Longrightarrow> sorted_wrt (<) (map fst (entries m))"
    and get_entries: "inv m \<Longrightarrow> get m = map_of (entries m)"
begin

lemma entries_distinct: "inv m \<Longrightarrow> distinct (map fst (entries m))"
  using entries_sorted strict_sorted_iff by blast

lemma entries_iff: "inv m \<Longrightarrow> (k, v) \<in> set (entries m) \<longleftrightarrow> get m k = Some v"
  by (simp add: get_entries entries_distinct)

lemma entries_eqI:
  assumes "inv m" and "inv m'" and "get m = get m'"
  shows "entries m = entries m'"
  using assms entries_sorted get_entries by (intro sorted_alist_eqI) auto

end

section \<open>The sorted list provides the interface\<close>

lemma bm_keys_insert: "set (map fst (bm_insert k v m)) = insert k (set (map fst m))"
  by (induction k v m rule: bm_insert.induct) auto

lemma bm_inv_insert: "bm_inv m \<Longrightarrow> bm_inv (bm_insert k v m)"
  unfolding bm_inv_def
proof (induction k v m rule: bm_insert.induct)
  case (2 k v k' v' m)
  then show ?case
    using bm_keys_insert [of k v m] by auto
qed simp

lemma bm_get_insert: "bm_inv m \<Longrightarrow> bm_get (bm_insert k v m) k' = (if k' = k then Some v else bm_get m k')"
  unfolding bm_inv_def by (induction k v m rule: bm_insert.induct) auto

lemma bm_keys_remove: "set (map fst (bm_remove k m)) \<subseteq> set (map fst m)"
  by (induction k m rule: bm_remove.induct) auto

lemma bm_inv_remove: "bm_inv m \<Longrightarrow> bm_inv (bm_remove k m)"
  unfolding bm_inv_def
proof (induction k m rule: bm_remove.induct)
  case (2 k k' v' m)
  then show ?case
    using bm_keys_remove [of k m] by fastforce
qed simp

lemma bm_get_notin: "k \<notin> set (map fst m) \<Longrightarrow> bm_get m k = None"
  by (simp add: map_of_eq_None_iff)

lemma bm_get_remove: "bm_inv m \<Longrightarrow> bm_get (bm_remove k m) k' = (if k' = k then None else bm_get m k')"
  unfolding bm_inv_def
proof (induction k m rule: bm_remove.induct)
  case (2 k k1 v1 m)
  then have "k1 \<notin> set (map fst m)"
    by auto
  with 2 show ?case
    by (cases "k = k1") (auto simp: map_of_eq_None_iff split: if_splits intro: rev_image_eqI)
qed simp

interpretation bm: ordered_map_spec "[]" bm_insert bm_remove bm_get bm_inv "\<lambda>m. m"
  by unfold_locales
    (auto simp: bm_inv_insert bm_inv_remove bm_get_insert bm_get_remove,
     auto simp: bm_inv_def)

lemma bm_extend_inv [simp]: "bm_inv m \<Longrightarrow> bm_inv (bm_extend m kvs)"
  unfolding bm_extend_def by (rule bm.inv_extend)

lemma bm_extend_get:
  "bm_inv m \<Longrightarrow> bm_get (bm_extend m kvs) k =
     (case map_of (rev kvs) k of None \<Rightarrow> bm_get m k | Some v \<Rightarrow> Some v)"
  unfolding bm_extend_def by (rule bm.get_extend)

lemma bm_inv_Nil [simp]: "bm_inv []"
  by (rule bm.inv_empty)

lemma bm_eqI: "bm_inv m \<Longrightarrow> bm_inv m' \<Longrightarrow> bm_get m = bm_get m' \<Longrightarrow> m = m'"
  by (rule bm.entries_eqI)

lemma set_bm_insert: "set (bm_insert k v m) \<subseteq> insert (k, v) (set m)"
  by (induction k v m rule: bm_insert.induct) auto

lemma set_bm_remove: "set (bm_remove k m) \<subseteq> set m"
  by (induction k m rule: bm_remove.induct) auto

end
