(* ===== verification/Activations.thy ===== *)
theory Activations
  imports Text Ordered_Map
begin

text \<open>
  The activation state of one environment (\<open>flox-core/src/activations.rs\<close>): which processes
  are attached to which start of the environment, which start is ready, which process is the
  executive, and the operations that \<open>flox activate\<close> and the executive perform on the
  \<open>state.json\<close> file under its lock.

  Liveness of a process (\<open>pid_is_running\<close>) is the parameter \<open>alive\<close>; the clock is the
  parameter \<open>now\<close>. A path is the list of its components.
\<close>

section \<open>Data\<close>

type_synonym Pid = int
type_synonym path = "string list"
type_synonym time = int

definition EXECUTIVE_NOT_STARTED :: Pid where
  "EXECUTIVE_NOT_STARTED = 0"

datatype ActivateMode = Dev | Run

fun show_mode :: "ActivateMode \<Rightarrow> string" where
  "show_mode Dev = ''dev''"
| "show_mode Run = ''run''"

definition parse_mode :: "string \<Rightarrow> ActivateMode option" where
  "parse_mode s = (if s = ''dev'' then Some Dev else if s = ''run'' then Some Run else None)"

datatype RunningProcesses = Attachments "Pid list" | Executive Pid

definition from_pids :: "(Pid \<Rightarrow> bool) \<Rightarrow> Pid list \<Rightarrow> Pid \<Rightarrow> RunningProcesses option" where
  "from_pids alive attached executive =
     (let running_attached = filter alive attached;
          running_executive =
            (if executive \<noteq> EXECUTIVE_NOT_STARTED \<and> alive executive then Some executive else None)
      in if running_attached \<noteq> [] then Some (Attachments running_attached)
         else map_option Executive running_executive)"

datatype UnsupportedVersion =
    UvWithRunningAttachments "Pid list"
  | UvWithRunningExecutive Pid

fun uv_from_running_processes :: "RunningProcesses \<Rightarrow> UnsupportedVersion" where
  "uv_from_running_processes (Attachments pids) = UvWithRunningAttachments pids"
| "uv_from_running_processes (Executive pid) = UvWithRunningExecutive pid"

fun show_uv :: "UnsupportedVersion \<Rightarrow> string" where
  "show_uv (UvWithRunningAttachments pids) =
     ''This environment has already been activated with an incompatible version of 'flox'.''
     @ newline @ newline
     @ ''Exit all activations of the environment and try again.'' @ newline
     @ ''PIDs of the running activations: '' @ join '', '' (map show_int pids)"
| "show_uv (UvWithRunningExecutive pid) =
     ''This environment has already been activated with an incompatible version of 'flox'.''
     @ newline @ newline
     @ ''The executive process is still running.'' @ newline
     @ ''Wait for it to finish, or stop it with: 'kill '' @ show_int pid @ [CHR 0x27]"

datatype ModeMismatch =
    MmWithRunningAttachments ActivateMode ActivateMode "Pid list"
  | MmWithRunningExecutive ActivateMode ActivateMode Pid

fun mm_from_running_processes ::
  "ActivateMode \<Rightarrow> ActivateMode \<Rightarrow> RunningProcesses \<Rightarrow> ModeMismatch" where
  "mm_from_running_processes current requested (Attachments pids) =
     MmWithRunningAttachments current requested pids"
| "mm_from_running_processes current requested (Executive pid) =
     MmWithRunningExecutive current requested pid"

fun show_mm :: "ModeMismatch \<Rightarrow> string" where
  "show_mm (MmWithRunningAttachments current requested pids) =
     ''Environment can't be activated in '' @ quoted (show_mode requested)
     @ '' mode whilst there are existing activations in '' @ quoted (show_mode current) @ '' mode''
     @ newline @ newline
     @ ''Exit all activations of the environment and try again.'' @ newline
     @ ''PIDs of the running activations: '' @ join '', '' (map show_int pids)"
| "show_mm (MmWithRunningExecutive current requested pid) =
     ''Environment can't be activated in '' @ quoted (show_mode requested)
     @ '' mode whilst there are existing activations in '' @ quoted (show_mode current) @ '' mode''
     @ newline @ newline
     @ ''The executive process is still running.'' @ newline
     @ ''Wait for it to finish, or stop it with: 'kill '' @ show_int pid @ [CHR 0x27]"

record AttachedPid =
  ap_pid :: Pid
  ap_expiration :: "time option"

text \<open>
  A start of the environment: the store path it runs and the time of the start in
  milliseconds. The derived order compares the fields in their order.
\<close>

datatype StartIdentifier = StartIdentifier (sid_store_path: path) (sid_timestamp: int)

instantiation StartIdentifier :: linorder
begin

definition less_eq_StartIdentifier :: "StartIdentifier \<Rightarrow> StartIdentifier \<Rightarrow> bool" where
  "less_eq_StartIdentifier a b \<longleftrightarrow>
     sid_store_path a < sid_store_path b \<or>
     sid_store_path a = sid_store_path b \<and> sid_timestamp a \<le> sid_timestamp b"

definition less_StartIdentifier :: "StartIdentifier \<Rightarrow> StartIdentifier \<Rightarrow> bool" where
  "less_StartIdentifier a b \<longleftrightarrow>
     sid_store_path a < sid_store_path b \<or>
     sid_store_path a = sid_store_path b \<and> sid_timestamp a < sid_timestamp b"

instance
  by standard
    (auto simp: less_eq_StartIdentifier_def less_StartIdentifier_def StartIdentifier.expand)

end

text \<open>\<open>Path::file_name\<close>: the last component, unless the path is a root or ends in \<open>..\<close>.\<close>

definition file_name :: "path \<Rightarrow> string option" where
  "file_name p = (if p = [] \<or> last p = ''..'' then None else Some (last p))"

definition parent :: "path \<Rightarrow> path option" where
  "parent p = (if p = [] then None else Some (butlast p))"

text \<open>
  \<open>{runtime_dir}/activations/{hash}-{basename}\<close>; the hash function is a parameter.
\<close>

definition activation_state_dir_path :: "(path \<Rightarrow> string) \<Rightarrow> path \<Rightarrow> path \<Rightarrow> path" where
  "activation_state_dir_path path_hash runtime_dir dot_flox_path =
     (let basename = (case Option.bind (parent dot_flox_path) file_name of
                        Some name \<Rightarrow> name | None \<Rightarrow> ''root'')
      in runtime_dir @ [''activations'', path_hash dot_flox_path @ ''-'' @ basename])"

definition state_json_path :: "path \<Rightarrow> path" where
  "state_json_path dir = dir @ [''state.json'']"

datatype StateDirError = InvalidStorePath

definition start_state_dir :: "StartIdentifier \<Rightarrow> path \<Rightarrow> StateDirError + path" where
  "start_state_dir sid activation_state_dir =
     (case file_name (sid_store_path sid) of
        None \<Rightarrow> Err InvalidStorePath
      | Some base \<Rightarrow> Ok (activation_state_dir @ [base @ ''.'' @ show_int (sid_timestamp sid)]))"

record Attachment =
  att_start_id :: StartIdentifier
  att_expiration :: "time option"

datatype Ready =
    NotReady
  | IsReady StartIdentifier
  | Starting Pid StartIdentifier

record EnvironmentInfo =
  info_dot_flox_path :: "path option"
  info_flox_env :: path

record ActivationState =
  st_info :: EnvironmentInfo
  st_mode :: ActivateMode
  st_ready :: Ready
  st_executive_pid :: Pid
  st_process_compose :: "StartIdentifier option"
  st_attached :: "(Pid, Attachment) bmap"

datatype StartOrAttachResult =
    Start StartIdentifier
  | Attach StartIdentifier
  | AlreadyStarting Pid StartIdentifier

section \<open>Operations\<close>

definition new_state :: "ActivateMode \<Rightarrow> path option \<Rightarrow> path \<Rightarrow> ActivationState" where
  "new_state mode dot_flox flox_env =
     \<lparr> st_info = \<lparr> info_dot_flox_path = dot_flox, info_flox_env = flox_env \<rparr>,
       st_mode = mode,
       st_ready = NotReady,
       st_executive_pid = EXECUTIVE_NOT_STARTED,
       st_process_compose = None,
       st_attached = [] \<rparr>"

text \<open>The map from start to its attachments: \<open>entry(start).or_default().push(..)\<close> in a fold.\<close>

definition attachments_by_start_id ::
  "ActivationState \<Rightarrow> (StartIdentifier, (Pid \<times> time option) list) bmap" where
  "attachments_by_start_id s =
     foldl (\<lambda>acc (pid, a).
              let prev = (case bm_get acc (att_start_id a) of None \<Rightarrow> [] | Some l \<Rightarrow> l)
              in bm_insert (att_start_id a) (prev @ [(pid, att_expiration a)]) acc)
       [] (st_attached s)"

definition attached_pids_is_empty :: "ActivationState \<Rightarrow> bool" where
  "attached_pids_is_empty s \<longleftrightarrow> st_attached s = []"

definition all_attached_pids_and_expiration :: "ActivationState \<Rightarrow> (Pid \<times> time option) list" where
  "all_attached_pids_and_expiration s = map (\<lambda>(pid, a). (pid, att_expiration a)) (st_attached s)"

definition running_processes :: "(Pid \<Rightarrow> bool) \<Rightarrow> ActivationState \<Rightarrow> RunningProcesses option" where
  "running_processes alive s = from_pids alive (bm_keys (st_attached s)) (st_executive_pid s)"

definition set_executive_pid :: "Pid \<Rightarrow> ActivationState \<Rightarrow> ActivationState" where
  "set_executive_pid pid s = s\<lparr> st_executive_pid := pid \<rparr>"

definition set_ready :: "StartIdentifier \<Rightarrow> ActivationState \<Rightarrow> ActivationState" where
  "set_ready sid s = s\<lparr> st_ready := IsReady sid \<rparr>"

definition start :: "time \<Rightarrow> Pid \<Rightarrow> path \<Rightarrow> ActivationState \<Rightarrow> StartIdentifier \<times> ActivationState" where
  "start now pid store s =
     (let sid = StartIdentifier store now
      in (sid, s\<lparr> st_ready := Starting pid sid,
                  st_attached := bm_insert pid
                    \<lparr> att_start_id = sid, att_expiration = None \<rparr> (st_attached s) \<rparr>))"

definition attach :: "Pid \<Rightarrow> Attachment \<Rightarrow> ActivationState \<Rightarrow> ActivationState" where
  "attach pid a s = s\<lparr> st_attached := bm_insert pid a (st_attached s) \<rparr>"

definition start_or_attach ::
  "(Pid \<Rightarrow> bool) \<Rightarrow> time \<Rightarrow> Pid \<Rightarrow> path \<Rightarrow> ActivationState \<Rightarrow> StartOrAttachResult \<times> ActivationState" where
  "start_or_attach alive now pid store s =
     (let fresh = (let (sid, s') = start now pid store s in (Start sid, s'))
      in case st_ready s of
           Starting starting_pid sid \<Rightarrow>
             if alive starting_pid then (AlreadyStarting starting_pid sid, s) else fresh
         | IsReady sid \<Rightarrow>
             if sid_store_path sid = store
             then (Attach sid, attach pid \<lparr> att_start_id = sid, att_expiration = None \<rparr> s)
             else fresh
         | NotReady \<Rightarrow> fresh)"

datatype DetachError =
    NotAttached Pid
  | DetachUnreachable

text \<open>\<open>None\<close> is the \<open>unreachable!\<close> of the code.\<close>

definition update_ready_after_detach :: "ActivationState \<Rightarrow> ActivationState option" where
  "update_ready_after_detach s =
     (if st_attached s = [] then None
      else (case st_ready s of
              IsReady sid \<Rightarrow>
                if \<not> bm_contains (attachments_by_start_id s) sid
                then Some (s\<lparr> st_ready := NotReady \<rparr>) else Some s
            | Starting _ _ \<Rightarrow> Some s
            | NotReady \<Rightarrow> Some s))"

definition detach ::
  "Pid \<Rightarrow> ActivationState \<Rightarrow> (DetachError + StartIdentifier option) \<times> ActivationState" where
  "detach pid s =
     (case bm_get (st_attached s) pid of
        None \<Rightarrow> (Err (NotAttached pid), s)
      | Some a \<Rightarrow>
          let s1 = s\<lparr> st_attached := bm_remove pid (st_attached s) \<rparr>;
              sid = att_start_id a;
              has_remaining = list_ex (\<lambda>b. att_start_id b = sid) (bm_values (st_attached s1));
              answer = (if has_remaining then None else Some sid)
          in if st_attached s1 \<noteq> []
             then (case update_ready_after_detach s1 of
                     None \<Rightarrow> (Err DetachUnreachable, s1)
                   | Some s2 \<Rightarrow> (Ok answer, s2))
             else (Ok answer, s1))"

definition cleanup_pid ::
  "(Pid \<Rightarrow> bool) \<Rightarrow> time \<Rightarrow> Pid \<Rightarrow> ActivationState
     \<Rightarrow> (StartIdentifier option \<times> bool) \<times> ActivationState" where
  "cleanup_pid alive now pid s =
     (case bm_get (st_attached s) pid of
        None \<Rightarrow> ((None, False), s)
      | Some a \<Rightarrow>
          let keep = (case att_expiration a of
                        Some expiration \<Rightarrow> now < expiration \<or> alive pid
                      | None \<Rightarrow> alive pid)
          in if keep then ((None, False), s)
             else (case detach pid s of
                     (Inl _, s') \<Rightarrow> ((None, False), s')
                   | (Inr empty_start_id, s') \<Rightarrow> ((empty_start_id, True), s')))"

definition executive_started :: "ActivationState \<Rightarrow> bool" where
  "executive_started s \<longleftrightarrow> st_executive_pid s \<noteq> EXECUTIVE_NOT_STARTED"

definition executive_running :: "(Pid \<Rightarrow> bool) \<Rightarrow> ActivationState \<Rightarrow> bool" where
  "executive_running alive s \<longleftrightarrow> executive_started s \<and> alive (st_executive_pid s)"

definition ready_start_id :: "ActivationState \<Rightarrow> StartIdentifier option" where
  "ready_start_id s = (case st_ready s of IsReady sid \<Rightarrow> Some sid | _ \<Rightarrow> None)"

definition starting_pid_and_store_path :: "ActivationState \<Rightarrow> (Pid \<times> path) option" where
  "starting_pid_and_store_path s =
     (case st_ready s of Starting pid sid \<Rightarrow> Some (pid, sid_store_path sid) | _ \<Rightarrow> None)"

definition process_compose_is_current :: "path option \<Rightarrow> ActivationState \<Rightarrow> bool" where
  "process_compose_is_current expected_store_path s =
     (case st_process_compose s of
        None \<Rightarrow> False
      | Some current \<Rightarrow>
          (case expected_store_path of
             Some expected \<Rightarrow> sid_store_path current = expected
           | None \<Rightarrow>
               (case ready_start_id s of
                  None \<Rightarrow> False
                | Some ready \<Rightarrow> sid_store_path current = sid_store_path ready)))"

definition set_current_process_compose_start_id ::
  "StartIdentifier \<Rightarrow> ActivationState \<Rightarrow> ActivationState" where
  "set_current_process_compose_start_id sid s = s\<lparr> st_process_compose := Some sid \<rparr>"

datatype ReplaceError =
    OldPidNotAttached Pid
  | NotAttachedToExpectedStart Pid

text \<open>
  The old attachment is gone from the in-memory state even when its start turns out to be
  another one; the caller then writes nothing.
\<close>

definition replace_attachment ::
  "StartIdentifier \<Rightarrow> Pid \<Rightarrow> Pid \<Rightarrow> time option \<Rightarrow> ActivationState
     \<Rightarrow> (ReplaceError + unit) \<times> ActivationState" where
  "replace_attachment sid old_pid new_pid expiration s =
     (case bm_get (st_attached s) old_pid of
        None \<Rightarrow> (Err (OldPidNotAttached old_pid), s)
      | Some old \<Rightarrow>
          let s1 = s\<lparr> st_attached := bm_remove old_pid (st_attached s) \<rparr>
          in if att_start_id old \<noteq> sid then (Err (NotAttachedToExpectedStart old_pid), s1)
             else (Ok (), s1\<lparr> st_attached := bm_insert new_pid
                               \<lparr> att_start_id = sid, att_expiration = expiration \<rparr>
                               (st_attached s1) \<rparr>))"

section \<open>The state file\<close>

text \<open>
  \<open>serde_json\<close> is a parameter: what it reads out of the text at the three types the code
  deserialises, and the text it writes. The version is \<open>None\<close> where the field is not an
  unsigned number.
\<close>

record serde =
  de_version :: "string \<Rightarrow> nat option option"
  de_state :: "string \<Rightarrow> ActivationState option"
  de_pids :: "string \<Rightarrow> (Pid list \<times> Pid) option"
  ser_state :: "ActivationState \<Rightarrow> string"

datatype StateFileError =
    FailedToParse
  | FailedToExtractPids
  | Unsupported UnsupportedVersion
  | NoExecutivePid

definition extract_running_pids_from_json ::
  "(Pid \<Rightarrow> bool) \<Rightarrow> serde \<Rightarrow> string \<Rightarrow> StateFileError + RunningProcesses option" where
  "extract_running_pids_from_json alive sd content =
     (case de_pids sd content of
        None \<Rightarrow> Err FailedToExtractPids
      | Some (attached, executive) \<Rightarrow> Ok (from_pids alive attached executive))"

definition parse_versioned_activation_state ::
  "(Pid \<Rightarrow> bool) \<Rightarrow> serde \<Rightarrow> string \<Rightarrow> StateFileError + ActivationState option" where
  "parse_versioned_activation_state alive sd content =
     (case de_version sd content of
        None \<Rightarrow> Err FailedToParse
      | Some version \<Rightarrow>
          if version = Some 3
          then (case de_state sd content of
                  None \<Rightarrow> Err FailedToParse
                | Some s \<Rightarrow> Ok (Some s))
          else and_then (extract_running_pids_from_json alive sd content) (\<lambda>running.
                 case running of
                   Some r \<Rightarrow> Err (Unsupported (uv_from_running_processes r))
                 | None \<Rightarrow> Ok None))"

text \<open>The file is absent or has a text; the lock is held by the caller's step.\<close>

definition read_activations_json ::
  "(Pid \<Rightarrow> bool) \<Rightarrow> serde \<Rightarrow> string option \<Rightarrow> StateFileError + ActivationState option" where
  "read_activations_json alive sd file =
     (case file of
        None \<Rightarrow> Ok None
      | Some contents \<Rightarrow> parse_versioned_activation_state alive sd contents)"

definition write_activations_json ::
  "serde \<Rightarrow> ActivationState \<Rightarrow> string option \<Rightarrow> (StateFileError + unit) \<times> string option" where
  "write_activations_json sd s file =
     (if st_executive_pid s = EXECUTIVE_NOT_STARTED then (Err NoExecutivePid, file)
      else (Ok (), Some (ser_state sd s)))"

section \<open>Facts about the operations\<close>

definition attached_starts :: "ActivationState \<Rightarrow> StartIdentifier set" where
  "attached_starts s = att_start_id ` snd ` set (st_attached s)"

lemma attached_starts_iff:
  "bm_inv (st_attached s) \<Longrightarrow>
   sid \<in> attached_starts s \<longleftrightarrow> (\<exists>pid a. bm_get (st_attached s) pid = Some a \<and> att_start_id a = sid)"
  unfolding attached_starts_def
  by (force simp: image_iff bm.entries_iff [symmetric])

lemma attached_startsI:
  "bm_get (st_attached s) pid = Some a \<Longrightarrow> att_start_id a \<in> attached_starts s"
  unfolding attached_starts_def by (force dest: map_of_SomeD)

lemma group_fold_inv:
  "bm_inv acc \<Longrightarrow>
   bm_inv (foldl (\<lambda>acc (pid, a). bm_insert (k a) (f acc pid a) acc) acc xs)"
  by (induction xs arbitrary: acc) (auto intro: bm.inv_insert)

lemma group_fold_contains:
  "bm_inv acc \<Longrightarrow>
   bm_get (foldl (\<lambda>acc (pid, a). bm_insert (k a) (f acc pid a) acc) acc xs) sid = None \<longleftrightarrow>
     bm_get acc sid = None \<and> (\<forall>p \<in> set xs. sid \<noteq> k (snd p))"
proof (induction xs arbitrary: acc)
  case (Cons x xs)
  then show ?case
    by (cases x) (simp add: bm.inv_insert bm.get_insert)
qed simp

lemma attachments_by_start_id_contains:
  "bm_contains (attachments_by_start_id s) sid \<longleftrightarrow> sid \<in> attached_starts s"
  unfolding bm_contains_def attachments_by_start_id_def attached_starts_def Let_def
  using group_fold_contains [where k = att_start_id and acc = "[]" and xs = "st_attached s"
      and sid = sid and f = "\<lambda>acc pid a. (case bm_get acc (att_start_id a) of None \<Rightarrow> [] | Some l \<Rightarrow> l)
                                           @ [(pid, att_expiration a)]"]
  by auto

lemma update_ready_after_detach_eq:
  "st_attached s \<noteq> [] \<Longrightarrow>
   update_ready_after_detach s =
     Some (if \<exists>sid. st_ready s = IsReady sid \<and> sid \<notin> attached_starts s
           then s\<lparr> st_ready := NotReady \<rparr> else s)"
  by (auto simp: update_ready_after_detach_def attachments_by_start_id_contains
      split: Ready.splits)

lemma has_remaining_iff:
  "list_ex (\<lambda>b. att_start_id b = sid) (bm_values (st_attached s)) \<longleftrightarrow> sid \<in> attached_starts s"
  by (auto simp: list_ex_iff bm_values_def attached_starts_def)

text \<open>The well-formedness of the state: the map is sorted, and a ready start is attached.\<close>

definition act_inv :: "ActivationState \<Rightarrow> bool" where
  "act_inv s \<longleftrightarrow>
     bm_inv (st_attached s) \<and>
     (\<forall>sid. st_ready s = IsReady sid \<longrightarrow> st_attached s = [] \<or> sid \<in> attached_starts s)"

lemma detach_not_attached:
  "bm_get (st_attached s) pid = None \<Longrightarrow> detach pid s = (Err (NotAttached pid), s)"
  by (simp add: detach_def)

lemma detach_attached:
  assumes "bm_get (st_attached s) pid = Some a"
  shows "detach pid s =
    (let s1 = s\<lparr> st_attached := bm_remove pid (st_attached s) \<rparr>;
         s2 = (if st_attached s1 \<noteq> [] \<and>
                  (\<exists>sid. st_ready s = IsReady sid \<and> sid \<notin> attached_starts s1)
               then s1\<lparr> st_ready := NotReady \<rparr> else s1)
     in (Ok (if att_start_id a \<in> attached_starts s1 then None else Some (att_start_id a)), s2))"
  unfolding detach_def
  using assms by (auto simp: Let_def has_remaining_iff update_ready_after_detach_eq)

lemma detach_never_unreachable: "fst (detach pid s) \<noteq> Err DetachUnreachable"
  by (cases "bm_get (st_attached s) pid")
    (simp_all add: detach_not_attached detach_attached Let_def)

lemma attached_starts_remove:
  "bm_inv (st_attached s) \<Longrightarrow>
   sid \<in> attached_starts (s\<lparr> st_attached := bm_remove pid (st_attached s) \<rparr>) \<longleftrightarrow>
     (\<exists>pid' a. pid' \<noteq> pid \<and> bm_get (st_attached s) pid' = Some a \<and> att_start_id a = sid)"
  by (subst attached_starts_iff) (auto simp: bm.inv_remove bm.get_remove split: if_splits)

lemma attached_starts_insert:
  "bm_inv m \<Longrightarrow>
   sid \<in> attached_starts (s\<lparr> st_attached := bm_insert pid a m \<rparr>) \<longleftrightarrow>
     att_start_id a = sid \<or>
     (\<exists>pid' a'. pid' \<noteq> pid \<and> bm_get m pid' = Some a' \<and> att_start_id a' = sid)"
  by (subst attached_starts_iff) (auto simp: bm.inv_insert bm.get_insert split: if_splits)

lemma attached_starts_ready [simp]:
  "attached_starts (s\<lparr> st_ready := r \<rparr>) = attached_starts s"
  "attached_starts (s\<lparr> st_executive_pid := p \<rparr>) = attached_starts s"
  "attached_starts (s\<lparr> st_process_compose := c \<rparr>) = attached_starts s"
  by (simp_all add: attached_starts_def)

lemma bm_insert_not_Nil [simp]: "bm_insert k v m \<noteq> []"
  by (cases "(k, v, m)" rule: bm_insert.cases) auto

lemma act_inv_detach: "act_inv s \<Longrightarrow> act_inv (snd (detach pid s))"
proof (cases "bm_get (st_attached s) pid")
  case (Some a)
  then show "act_inv s \<Longrightarrow> ?thesis"
    by (auto simp: detach_attached Let_def act_inv_def bm.inv_remove)
qed (simp add: detach_not_attached)

lemma act_inv_start_or_attach: "act_inv s \<Longrightarrow> act_inv (snd (start_or_attach alive now pid store s))"
  by (auto simp: start_or_attach_def start_def attach_def act_inv_def Let_def bm.inv_insert
      attached_starts_insert split: Ready.splits)

lemma act_inv_cleanup_pid: "act_inv s \<Longrightarrow> act_inv (snd (cleanup_pid alive now pid s))"
  using act_inv_detach [of s pid]
  by (auto simp: cleanup_pid_def Let_def split: option.splits prod.splits sum.splits)

lemma act_inv_set_ready:
  "act_inv s \<Longrightarrow> sid \<in> attached_starts s \<Longrightarrow> act_inv (set_ready sid s)"
  by (simp add: act_inv_def set_ready_def)

lemma act_inv_new_state: "act_inv (new_state m d e)"
  by (simp add: act_inv_def new_state_def)

lemma act_inv_set_executive_pid: "act_inv s \<Longrightarrow> act_inv (set_executive_pid pid s)"
  by (simp add: act_inv_def set_executive_pid_def)

lemma act_inv_set_process_compose:
  "act_inv s \<Longrightarrow> act_inv (set_current_process_compose_start_id sid s)"
  by (simp add: act_inv_def set_current_process_compose_start_id_def)

text \<open>
  A replacement keeps the ready start attached as long as the new process does not hold an
  attachment to another start, which the replacement would overwrite.
\<close>

lemma act_inv_replace_attachment:
  assumes "act_inv s" and "fst (replace_attachment sid old new exp s) = Ok ()"
    and "new = old \<or> bm_get (st_attached s) new = None"
  shows "act_inv (snd (replace_attachment sid old new exp s))"
proof -
  have inv: "bm_inv (st_attached s)"
    using assms(1) by (simp add: act_inv_def)
  obtain a where a: "bm_get (st_attached s) old = Some a" "att_start_id a = sid"
    using assms(2) by (auto simp: replace_attachment_def Let_def split: option.splits if_splits)
  have "s' \<in> attached_starts (snd (replace_attachment sid old new exp s))"
    if mem: "s' \<in> attached_starts s" for s'
  proof -
    obtain p b where b: "bm_get (st_attached s) p = Some b" "att_start_id b = s'"
      using mem attached_starts_iff [OF inv] by auto
    have eq: "snd (replace_attachment sid old new exp s) =
        s\<lparr> st_attached := bm_insert new \<lparr> att_start_id = sid, att_expiration = exp \<rparr>
              (bm_remove old (st_attached s)) \<rparr>"
      using a by (simp add: replace_attachment_def Let_def)
    show ?thesis
    proof (cases "p = old")
      case True
      then show ?thesis
        using a b by (simp add: eq attached_starts_insert bm.inv_remove inv)
    next
      case False
      then have "p \<noteq> new"
        using b(1) assms(3) by auto
      with False b show ?thesis
        unfolding eq attached_starts_insert [OF bm.inv_remove [OF inv]] bm.get_remove [OF inv]
        by (intro disjI2 exI [of _ p] exI [of _ b]) simp
    qed
  qed
  with a inv assms(1) show ?thesis
    by (auto simp: act_inv_def replace_attachment_def bm.inv_insert bm.inv_remove)
qed

lemma cleanup_pid_result:
  assumes "cleanup_pid alive now pid s = ((empty_start, detached), s')"
  shows "if detached then detach pid s = (Ok empty_start, s') else empty_start = None \<and> s' = s"
proof (cases "bm_get (st_attached s) pid")
  case (Some a)
  obtain r where "fst (detach pid s) = Inr r"
    using Some by (auto simp: detach_attached Let_def)
  then show ?thesis
    using Some assms by (cases "detach pid s") (auto simp: cleanup_pid_def Let_def split: if_splits)
qed (use assms in \<open>simp add: cleanup_pid_def\<close>)

lemma cleanup_pid_iff:
  assumes "cleanup_pid alive now pid s = ((empty_start, detached), s')"
  shows "detached \<longleftrightarrow> (\<exists>a. bm_get (st_attached s) pid = Some a \<and> \<not> alive pid \<and>
                        (\<forall>t. att_expiration a = Some t \<longrightarrow> t \<le> now))"
proof (cases "bm_get (st_attached s) pid")
  case (Some a)
  obtain r where "fst (detach pid s) = Inr r"
    using Some by (auto simp: detach_attached Let_def)
  then show ?thesis
    using Some assms
    by (cases "detach pid s") (auto simp: cleanup_pid_def Let_def not_less split: if_splits option.splits)
qed (use assms in \<open>simp add: cleanup_pid_def\<close>)

lemma show_int_no_dot: "CHR ''.'' \<notin> set (show_int i)"
proof -
  have "is_ascii_digit c \<Longrightarrow> c \<noteq> CHR ''.''" for c
    by (auto simp: is_ascii_digit_def)
  then show ?thesis
    using show_nat_digits by (auto simp: show_int_def)
qed

lemma show_int_inject: "show_int i = show_int j \<longleftrightarrow> i = j"
proof -
  have minus: "CHR ''-'' # x \<noteq> show_nat n" "show_nat n \<noteq> CHR ''-'' # x" for n x
  proof -
    have "CHR ''-'' \<notin> set (show_nat n)"
      using show_nat_digits [of "CHR ''-''" n] by (auto simp: is_ascii_digit_def)
    then show "CHR ''-'' # x \<noteq> show_nat n" "show_nat n \<noteq> CHR ''-'' # x"
      by (metis list.set_intros(1))+
  qed
  show ?thesis
    by (auto simp: show_int_def show_nat_inject minus)
qed

lemma start_state_dir_inject:
  assumes "start_state_dir a dir = Ok d" and "start_state_dir b dir = Ok d"
  shows "file_name (sid_store_path a) = file_name (sid_store_path b)"
    and "sid_timestamp a = sid_timestamp b"
proof -
  obtain x y where xy: "file_name (sid_store_path a) = Some x" "file_name (sid_store_path b) = Some y"
    "x @ ''.'' @ show_int (sid_timestamp a) = y @ ''.'' @ show_int (sid_timestamp b)"
    using assms by (auto simp: start_state_dir_def split: option.splits)
  have "rsplit_once (CHR ''.'') (x @ CHR ''.'' # show_int (sid_timestamp a)) =
      rsplit_once (CHR ''.'') (y @ CHR ''.'' # show_int (sid_timestamp b))"
    using xy(3) by simp
  then have "x = y \<and> sid_timestamp a = sid_timestamp b"
    by (simp add: rsplit_once_append show_int_no_dot show_int_inject)
  with xy show "file_name (sid_store_path a) = file_name (sid_store_path b)"
    and "sid_timestamp a = sid_timestamp b"
    by simp_all
qed

lemma start_state_dir_same_parent:
  assumes "start_state_dir a dir = Ok d" and "start_state_dir b dir = Ok d"
    and "parent (sid_store_path a) = parent (sid_store_path b)"
  shows "a = b"
proof -
  have "file_name (sid_store_path a) \<noteq> None" "file_name (sid_store_path b) \<noteq> None"
    using assms(1,2) by (auto simp: start_state_dir_def split: option.splits)
  then have "sid_store_path a = sid_store_path b"
    using start_state_dir_inject(1) [OF assms(1,2)] assms(3) append_butlast_last_id
    by (metis file_name_def option.inject parent_def)
  then show ?thesis
    using start_state_dir_inject(2) [OF assms(1,2)] by (simp add: StartIdentifier.expand)
qed

section \<open>Properties\<close>

text \<open>
  C5. \<open>start_or_attach\<close> attaches exactly to the ready start of the same store path, waits
  exactly for a live starter, and otherwise starts afresh with the starter recorded; in the
  first and last case the caller's own process ends up attached, without expiration, to the
  start it is told about, and no other process's attachment is touched.
\<close>

theorem start_or_attach_correct:
  assumes "bm_inv (st_attached s)" and "start_or_attach alive now pid store s = (r, s')"
  shows "case r of
      AlreadyStarting p sid \<Rightarrow> st_ready s = Starting p sid \<and> alive p \<and> s' = s
    | Attach sid \<Rightarrow>
        st_ready s = IsReady sid \<and> sid_store_path sid = store \<and> st_ready s' = IsReady sid \<and>
        bm_get (st_attached s') = (bm_get (st_attached s))(pid \<mapsto> \<lparr> att_start_id = sid, att_expiration = None \<rparr>)
    | Start sid \<Rightarrow>
        sid = StartIdentifier store now \<and> st_ready s' = Starting pid sid \<and>
        (\<forall>sid'. st_ready s = IsReady sid' \<longrightarrow> sid_store_path sid' \<noteq> store) \<and>
        (\<forall>p sid'. st_ready s = Starting p sid' \<longrightarrow> \<not> alive p) \<and>
        bm_get (st_attached s') = (bm_get (st_attached s))(pid \<mapsto> \<lparr> att_start_id = sid, att_expiration = None \<rparr>)"
  using assms
  by (auto simp: start_or_attach_def start_def attach_def Let_def bm.get_insert fun_eq_iff
      split: Ready.splits if_splits)

definition demo_sid :: StartIdentifier where
  "demo_sid = StartIdentifier [''nix'', ''store'', ''abc-env''] 7"

definition demo_state :: ActivationState where
  "demo_state = set_executive_pid 99 (set_ready demo_sid
     (snd (start_or_attach (\<lambda>p. True) 7 10 [''nix'', ''store'', ''abc-env'']
        (new_state Dev None [''env'']))))"

theorem start_or_attach_correct_witness:
  "st_ready (snd (start_or_attach (\<lambda>p. True) 8 11 [''nix'', ''store'', ''abc-env''] demo_state))
     = IsReady demo_sid"
  using start_or_attach_correct [of demo_state "\<lambda>p. True" 8 11 "[''nix'', ''store'', ''abc-env'']"
      "Attach demo_sid" "snd (start_or_attach (\<lambda>p. True) 8 11 [''nix'', ''store'', ''abc-env''] demo_state)"]
  by (simp add: demo_state_def demo_sid_def start_or_attach_def start_def attach_def new_state_def
      set_ready_def set_executive_pid_def bm_inv_def)

text \<open>
  C4. \<open>detach\<close> fails exactly on a process that is not attached and then changes nothing. On
  success it removes exactly that process and hands out a start for removal exactly when no
  remaining process is attached to it; such a start is no longer the ready one while other
  processes remain. The \<open>unreachable!\<close> inside it is never reached.
\<close>

theorem detach_correct:
  assumes "act_inv s" and "detach pid s = (r, s')"
  shows "case bm_get (st_attached s) pid of
      None \<Rightarrow> r = Err (NotAttached pid) \<and> s' = s
    | Some a \<Rightarrow>
        bm_get (st_attached s') = (bm_get (st_attached s))(pid := None) \<and> act_inv s' \<and>
        (r = Ok None \<and> att_start_id a \<in> attached_starts s' \<or>
         r = Ok (Some (att_start_id a)) \<and> att_start_id a \<notin> attached_starts s' \<and>
           (st_attached s' = [] \<or> st_ready s' \<noteq> IsReady (att_start_id a)))"
proof (cases "bm_get (st_attached s) pid")
  case None
  then show ?thesis
    using assms(2) by (simp add: detach_not_attached)
next
  case (Some a)
  have "act_inv s'"
    using act_inv_detach [OF assms(1), of pid] assms(2) by simp
  moreover have "bm_inv (st_attached s)"
    using assms(1) by (simp add: act_inv_def)
  then have "bm_get (bm_remove pid (st_attached s)) = (bm_get (st_attached s))(pid := None)"
    by (simp add: bm.get_remove fun_eq_iff)
  ultimately show ?thesis
    using Some assms(2) by (auto simp: detach_attached Let_def split: if_splits)
qed

theorem detach_correct_witness:
  "fst (detach 10 demo_state) = Ok (Some demo_sid)"
  using detach_correct [of demo_state 10 "fst (detach 10 demo_state)" "snd (detach 10 demo_state)"]
  by (simp add: act_inv_def attached_starts_def demo_state_def demo_sid_def start_or_attach_def
      start_def new_state_def set_ready_def set_executive_pid_def bm_inv_def detach_def Let_def
      bm_values_def)

text \<open>
  \<open>cleanup_pid\<close> never detaches a process that is running or whose expiration lies in the
  future: it reports a detachment exactly when the process is attached, dead and past its
  expiration, and in every other case leaves the state as it was.
\<close>

theorem cleanup_pid_correct:
  assumes "cleanup_pid alive now pid s = ((empty_start, detached), s')"
  shows "(detached \<longleftrightarrow> (\<exists>a. bm_get (st_attached s) pid = Some a \<and> \<not> alive pid \<and>
                        (\<forall>t. att_expiration a = Some t \<longrightarrow> t \<le> now))) \<and>
         (if detached then detach pid s = (Ok empty_start, s')
          else empty_start = None \<and> s' = s)"
  using assms cleanup_pid_iff cleanup_pid_result by simp

theorem cleanup_pid_correct_witness:
  "snd (fst (cleanup_pid (\<lambda>p. False) 100 10 demo_state)) \<longleftrightarrow>
     (\<exists>a. bm_get (st_attached demo_state) 10 = Some a \<and> \<not> False \<and>
          (\<forall>t. att_expiration a = Some t \<longrightarrow> t \<le> 100))"
  using cleanup_pid_correct [of "\<lambda>p. False" 100 10 demo_state
      "fst (fst (cleanup_pid (\<lambda>p. False) 100 10 demo_state))"
      "snd (fst (cleanup_pid (\<lambda>p. False) 100 10 demo_state))"
      "snd (cleanup_pid (\<lambda>p. False) 100 10 demo_state)"]
  by simp

end
