(* ===== verification/Executive.thy ===== *)
theory Executive
  imports Activations
begin

text \<open>
  The processes that share one activation state directory
  (\<open>flox-activations/src/cli/activate.rs\<close>, \<open>start.rs\<close>, \<open>cli/attach.rs\<close>, \<open>cli/detach.rs\<close> and
  \<open>cli/executive/\<close>): an activation that starts or attaches, the shell's attach and detach
  commands, and the executive's event loop with its cleanup. Each operation that runs under
  the lock of \<open>state.json\<close> is one function on the world, which holds the state file and the
  start state directories beneath it.

  Other processes, the clock, sockets and process-compose are parameters. File operations on
  existing paths succeed; removing a missing directory fails, as \<open>remove_dir_all\<close> does.
\<close>

section \<open>The world of one environment\<close>

record World =
  w_state :: "ActivationState option"
  w_dirs :: "path set"

definition empty_world :: World where
  "empty_world = \<lparr> w_state = None, w_dirs = {} \<rparr>"

datatype ActivationError =
    ModeMismatchError ModeMismatch
  | NoRunningProcesses
  | InvalidStore
  | NoExecutive
  | HookFailed
  | HookIncomplete
  | StateMissing
  | NotAttachedError Pid
  | ReplaceFailed ReplaceError
  | DirMissing
  | ExclusiveArgs
  | ExecutiveDied
  | ChannelDisconnected
  | CleanupError
  | ProcessComposeFailed

definition write_state :: "ActivationState \<Rightarrow> World \<Rightarrow> (ActivationError + unit) \<times> World" where
  "write_state s w =
     (if st_executive_pid s = EXECUTIVE_NOT_STARTED then (Err NoExecutive, w)
      else (Ok (), w\<lparr> w_state := Some s \<rparr>))"

section \<open>Starting and attaching\<close>

record ActivateCtx =
  ctx_mode :: ActivateMode
  ctx_store_path :: path
  ctx_project :: bool
  ctx_dot_flox :: "path option"
  ctx_env :: path

definition fresh_state :: "ActivateCtx \<Rightarrow> ActivationState" where
  "fresh_state ctx = new_state (ctx_mode ctx) (ctx_dot_flox ctx) (ctx_env ctx)"

text \<open>
  \<open>start\<close> up to the first release of the lock: create the start state directory, spawn an
  executive (\<open>spawned\<close> is the process identifier the system gives it) or become one, write.
\<close>

definition start_begin ::
  "Pid \<Rightarrow> Pid \<Rightarrow> ActivateCtx \<Rightarrow> path \<Rightarrow> StartIdentifier \<Rightarrow> ActivationState \<Rightarrow> World
     \<Rightarrow> (ActivationError + StartOrAttachResult) \<times> World" where
  "start_begin spawned pid ctx dir sid s w =
     (case start_state_dir sid dir of
        Inl _ \<Rightarrow> (Err InvalidStore, w)
      | Inr d \<Rightarrow>
          let w1 = w\<lparr> w_dirs := insert d (w_dirs w) \<rparr>;
              s1 = (if ctx_project ctx
                    then (if \<not> executive_started s then set_executive_pid spawned s else s)
                    else set_executive_pid pid s)
          in (case write_state s1 w1 of
                (Inl e, w2) \<Rightarrow> (Err e, w2)
              | (Inr _, w2) \<Rightarrow> (Ok (Start sid), w2)))"

text \<open>
  \<open>start\<close> after the hooks ran: \<open>hook_ok\<close> is the exit status of the activation script and
  \<open>end_json\<close> whether the script wrote its final environment; the file can exist only in a
  directory that does.
\<close>

definition start_finish ::
  "bool \<Rightarrow> bool \<Rightarrow> path \<Rightarrow> StartIdentifier \<Rightarrow> World \<Rightarrow> (ActivationError + StartOrAttachResult) \<times> World" where
  "start_finish hook_ok end_json dir sid w =
     (if \<not> hook_ok then (Err HookFailed, w)
      else (case start_state_dir sid dir of
              Inl _ \<Rightarrow> (Err InvalidStore, w)
            | Inr d \<Rightarrow>
                if \<not> (end_json \<and> d \<in> w_dirs w) then (Err HookIncomplete, w)
                else (case w_state w of
                        None \<Rightarrow> (Err StateMissing, w)
                      | Some s \<Rightarrow>
                          (case write_state (set_ready sid s) w of
                             (Inl e, w') \<Rightarrow> (Err e, w')
                           | (Inr _, w') \<Rightarrow> (Ok (Start sid), w')))))"

text \<open>The state to work on: the file's, or a new one if there is none or its executive is gone.\<close>

definition loaded_state :: "(Pid \<Rightarrow> bool) \<Rightarrow> ActivateCtx \<Rightarrow> World \<Rightarrow> ActivationState" where
  "loaded_state alive ctx w =
     (let s = (case w_state w of Some s \<Rightarrow> s | None \<Rightarrow> fresh_state ctx)
      in if \<not> executive_running alive s then fresh_state ctx else s)"

definition try_start_or_attach ::
  "(Pid \<Rightarrow> bool) \<Rightarrow> time \<Rightarrow> Pid \<Rightarrow> Pid \<Rightarrow> ActivateCtx \<Rightarrow> path \<Rightarrow> World
     \<Rightarrow> (ActivationError + StartOrAttachResult) \<times> World" where
  "try_start_or_attach alive now spawned pid ctx dir w =
     (let s = loaded_state alive ctx w
      in if st_mode s \<noteq> ctx_mode ctx
         then (case running_processes alive s of
                 None \<Rightarrow> (Err NoRunningProcesses, w)
               | Some running \<Rightarrow>
                   (Err (ModeMismatchError
                           (mm_from_running_processes (st_mode s) (ctx_mode ctx) running)), w))
         else (case start_or_attach alive now pid (ctx_store_path ctx) s of
                 (Start sid, s') \<Rightarrow> start_begin spawned pid ctx dir sid s' w
               | (Attach sid, s') \<Rightarrow>
                   (case write_state s' w of
                      (Inl e, w') \<Rightarrow> (Err e, w')
                    | (Inr _, w') \<Rightarrow> (Ok (Attach sid), w'))
               | (AlreadyStarting p sid, s') \<Rightarrow> (Ok (AlreadyStarting p sid), w)))"

text \<open>
  The retry loop, over the outcomes of its attempts and the time of each: how it ends and
  when it prints that it waits, and for which process. \<open>None\<close> while it is still waiting.
\<close>

fun start_or_attach_loop ::
  "time option \<Rightarrow> (time \<times> (ActivationError + StartOrAttachResult)) list
     \<Rightarrow> (ActivationError + StartIdentifier) option \<times> (time \<times> Pid) list" where
  "start_or_attach_loop last_warning [] = (None, [])"
| "start_or_attach_loop last_warning ((now, r) # rest) =
     (case r of
        Inl e \<Rightarrow> (Some (Err e), [])
      | Inr (Start sid) \<Rightarrow> (Some (Ok sid), [])
      | Inr (Attach sid) \<Rightarrow> (Some (Ok sid), [])
      | Inr (AlreadyStarting blocking_pid sid) \<Rightarrow>
          let should_warn = (case last_warning of None \<Rightarrow> True | Some t \<Rightarrow> now - t \<ge> 5000)
          in if should_warn
             then (let (res, warnings) = start_or_attach_loop (Some now) rest
                   in (res, (now, blocking_pid) # warnings))
             else start_or_attach_loop last_warning rest)"

datatype WaitStatus = StillAlive | Exited | AlreadyReaped | WaitFailed

text \<open>
  Waiting for the executive to come up, over the sets of signals received (\<open>SIGUSR1\<close>,
  \<open>SIGCHLD\<close>) and the status of the child at each. An empty set is the \<open>unreachable!\<close>.
\<close>

datatype ExecutiveWait = Started | Died WaitStatus | StillWaiting | UnexpectedSignal

fun wait_for_executive :: "(bool \<times> bool \<times> WaitStatus) list \<Rightarrow> ExecutiveWait" where
  "wait_for_executive [] = StillWaiting"
| "wait_for_executive ((sigusr1, sigchld, status) # rest) =
     (if sigusr1 then Started
      else if sigchld then (if status = StillAlive then wait_for_executive rest else Died status)
      else UnexpectedSignal)"

section \<open>The shell's commands\<close>

definition attach_handle ::
  "time \<Rightarrow> Pid \<Rightarrow> StartIdentifier \<Rightarrow> time option \<Rightarrow> Pid option \<Rightarrow> World
     \<Rightarrow> (ActivationError + unit) \<times> World" where
  "attach_handle now pid sid timeout_ms remove_pid w =
     (case w_state w of
        None \<Rightarrow> (Err StateMissing, w)
      | Some s \<Rightarrow>
          (case (timeout_ms, remove_pid) of
             (Some t, None) \<Rightarrow>
               (case replace_attachment sid pid pid (Some (now + t)) s of
                  (Inl e, _) \<Rightarrow> (Err (ReplaceFailed e), w)
                | (Inr _, s') \<Rightarrow> write_state s' w)
           | (None, Some old) \<Rightarrow>
               (case replace_attachment sid old pid None s of
                  (Inl e, _) \<Rightarrow> (Err (ReplaceFailed e), w)
                | (Inr _, s') \<Rightarrow> write_state s' w)
           | _ \<Rightarrow> (Err ExclusiveArgs, w)))"

definition remove_start_state_dir ::
  "path \<Rightarrow> StartIdentifier \<Rightarrow> World \<Rightarrow> (ActivationError + unit) \<times> World" where
  "remove_start_state_dir dir sid w =
     (case start_state_dir sid dir of
        Inl _ \<Rightarrow> (Err InvalidStore, w)
      | Inr d \<Rightarrow>
          if d \<in> w_dirs w then (Ok (), w\<lparr> w_dirs := w_dirs w - {d} \<rparr>) else (Err DirMissing, w))"

definition detach_handle :: "path \<Rightarrow> Pid \<Rightarrow> World \<Rightarrow> (ActivationError + unit) \<times> World" where
  "detach_handle dir pid w =
     (case w_state w of
        None \<Rightarrow> (Ok (), w)
      | Some s \<Rightarrow>
          (case detach pid s of
             (Inl _, _) \<Rightarrow> (Err (NotAttachedError pid), w)
           | (Inr None, s') \<Rightarrow> write_state s' w
           | (Inr (Some sid), s') \<Rightarrow>
               (case remove_start_state_dir dir sid w of
                  (Inl e, w') \<Rightarrow> (Err e, w')
                | (Inr _, w') \<Rightarrow> write_state s' w')))"

section \<open>The executive\<close>

datatype ExecutiveEvent =
    ProcessExited Pid
  | TerminationSignal
  | SigChld
  | StartServices
  | StateFileChanged

datatype signal = SIGINT | SIGTERM | SIGQUIT | SIGCHLD | SIGUSR1 | OtherSignal

fun event_of_signal :: "signal \<Rightarrow> ExecutiveEvent option" where
  "event_of_signal SIGINT = Some TerminationSignal"
| "event_of_signal SIGTERM = Some TerminationSignal"
| "event_of_signal SIGQUIT = Some TerminationSignal"
| "event_of_signal SIGCHLD = Some SigChld"
| "event_of_signal SIGUSR1 = Some StartServices"
| "event_of_signal OtherSignal = None"

record LoopGuard =
  lg_pid :: "Pid option"
  lg_count :: nat
  lg_limit :: nat

definition LoopGuard_new :: "nat \<Rightarrow> LoopGuard" where
  "LoopGuard_new limit = \<lparr> lg_pid = None, lg_count = 0, lg_limit = limit \<rparr>"

definition allow_remonitor :: "Pid \<Rightarrow> LoopGuard \<Rightarrow> bool \<times> LoopGuard" where
  "allow_remonitor pid g =
     (let g' = (if lg_pid g = Some pid then g\<lparr> lg_count := (lg_count g + 1) mod 2 ^ 32 \<rparr>
                else g\<lparr> lg_pid := Some pid, lg_count := 1 \<rparr>)
      in (lg_count g' \<le> lg_limit g', g'))"

text \<open>The executive's own state: the monitored processes and the guard of its loop.\<close>

record Executive =
  ex_known :: "Pid set"
  ex_guard :: LoopGuard

definition start_monitoring :: "Pid \<Rightarrow> Executive \<Rightarrow> Executive" where
  "start_monitoring pid ex =
     (if pid \<in> ex_known ex then ex else ex\<lparr> ex_known := insert pid (ex_known ex) \<rparr>)"

definition stop_monitoring :: "Pid \<Rightarrow> Executive \<Rightarrow> Executive" where
  "stop_monitoring pid ex = ex\<lparr> ex_known := ex_known ex - {pid} \<rparr>"

definition ensure_monitoring_pids :: "(Pid \<times> time option) list \<Rightarrow> Executive \<Rightarrow> Executive" where
  "ensure_monitoring_pids pids ex = foldl (\<lambda>ex (pid, _). start_monitoring pid ex) ex pids"

text \<open>
  \<open>watcher::cleanup_pid\<close>: \<open>Some\<close> the state when nothing is attached any more, in which case
  nothing has been written and the caller still holds the lock.
\<close>

definition watcher_cleanup_pid ::
  "(Pid \<Rightarrow> bool) \<Rightarrow> time \<Rightarrow> path \<Rightarrow> Pid \<Rightarrow> World
     \<Rightarrow> (ActivationError + ActivationState option) \<times> World" where
  "watcher_cleanup_pid alive now dir pid w =
     (case w_state w of
        None \<Rightarrow> (Err StateMissing, w)
      | Some s \<Rightarrow>
          (let ((empty_start, modified), s') = cleanup_pid alive now pid s
           in if attached_pids_is_empty s' then (Ok (Some s'), w)
              else (let (r, w1) = (case empty_start of
                                     Some sid \<Rightarrow> remove_start_state_dir dir sid w
                                   | None \<Rightarrow> (Ok (), w))
                    in case r of
                         Inl e \<Rightarrow> (Err e, w1)
                       | Inr _ \<Rightarrow>
                           if modified
                           then (case write_state s' w1 of
                                   (Inl e, w2) \<Rightarrow> (Err e, w2)
                                 | (Inr _, w2) \<Rightarrow> (Ok None, w2))
                           else (Ok None, w1))))"

text \<open>Cleanup shuts process-compose down, ignoring its errors, and removes the directory.\<close>

definition cleanup_all :: "ActivationState \<Rightarrow> World \<Rightarrow> bool \<times> World" where
  "cleanup_all s w = (if \<not> attached_pids_is_empty s then (False, w) else (True, empty_world))"

definition handle_process_exited ::
  "(Pid \<Rightarrow> bool) \<Rightarrow> time \<Rightarrow> path \<Rightarrow> Pid \<Rightarrow> Executive \<Rightarrow> World
     \<Rightarrow> (ActivationError + bool) \<times> Executive \<times> World" where
  "handle_process_exited alive now dir pid ex0 w =
     (let ex = stop_monitoring pid ex0
      in case watcher_cleanup_pid alive now dir pid w of
           (Inr None, w1) \<Rightarrow>
             (case w_state w1 of
                None \<Rightarrow> (Err StateMissing, ex, w1)
              | Some s \<Rightarrow>
                  (case find (\<lambda>(p, _). p = pid) (all_attached_pids_and_expiration s) of
                     None \<Rightarrow> (Ok False, ex, w1)
                   | Some (p, _) \<Rightarrow>
                       (let (allowed, g) = allow_remonitor p (ex_guard ex);
                            ex1 = ex\<lparr> ex_guard := g \<rparr>
                        in (Ok False, if allowed then start_monitoring p ex1 else ex1, w1))))
         | (Inr (Some s), w1) \<Rightarrow> (let (done, w2) = cleanup_all s w1 in (Ok done, ex, w2))
         | (Inl e, w1) \<Rightarrow>
             (case w_state w1 of
                None \<Rightarrow> (Err StateMissing, ex, w1)
              | Some s \<Rightarrow> (Err e, ex, snd (cleanup_all s w1))))"

text \<open>
  \<open>SIGUSR1\<close>: start process-compose for the ready start unless its socket exists already;
  \<open>started\<close> is whether process-compose came up.
\<close>

definition handle_start_services_signal ::
  "bool \<Rightarrow> bool \<Rightarrow> ActivationState \<Rightarrow> ActivationError + ActivationState option" where
  "handle_start_services_signal socket_exists started s =
     (case ready_start_id s of
        None \<Rightarrow> Ok None
      | Some sid \<Rightarrow>
          if socket_exists then Ok None
          else if \<not> started then Err ProcessComposeFailed
          else Ok (Some (set_current_process_compose_start_id sid s)))"

datatype LoopControl = Continue | ExitLoop | Bail ActivationError

text \<open>One turn of \<open>run_event_loop\<close>; \<open>None\<close> is the disconnected channel.\<close>

definition exec_event ::
  "(Pid \<Rightarrow> bool) \<Rightarrow> time \<Rightarrow> bool \<Rightarrow> bool \<Rightarrow> path \<Rightarrow> ExecutiveEvent option
     \<Rightarrow> Executive \<Rightarrow> World \<Rightarrow> LoopControl \<times> Executive \<times> World" where
  "exec_event alive now socket_exists started dir event ex w =
     (case event of
        None \<Rightarrow> (Bail ChannelDisconnected, ex, w)
      | Some (ProcessExited pid) \<Rightarrow>
          (case handle_process_exited alive now dir pid ex w of
             (Inl e, ex', w') \<Rightarrow> (Bail e, ex', w')
           | (Inr should_exit, ex', w') \<Rightarrow> (if should_exit then ExitLoop else Continue, ex', w'))
      | Some StartServices \<Rightarrow>
          (case w_state w of
             None \<Rightarrow> (Bail StateMissing, ex, w)
           | Some s \<Rightarrow>
               (case handle_start_services_signal socket_exists started s of
                  Inr (Some s') \<Rightarrow>
                    (case write_state s' w of
                       (Inl e, w') \<Rightarrow> (Bail e, ex, w')
                     | (Inr _, w') \<Rightarrow> (Continue, ex, w'))
                | Inr None \<Rightarrow> (Continue, ex, w)
                | Inl _ \<Rightarrow> (Continue, ex, w)))
      | Some StateFileChanged \<Rightarrow>
          (case w_state w of
             None \<Rightarrow> (Bail StateMissing, ex, w)
           | Some s \<Rightarrow>
               (let ex' = ensure_monitoring_pids (all_attached_pids_and_expiration s) ex
                in if attached_pids_is_empty s
                   then (let (done, w') = cleanup_all s w
                         in (if done then ExitLoop else Continue, ex', w'))
                   else (Continue, ex', w)))
      | Some SigChld \<Rightarrow> (Continue, ex, w)
      | Some TerminationSignal \<Rightarrow> (ExitLoop, ex, w))"

section \<open>The invariant of the world\<close>

text \<open>
  The starts a state refers to: the attached ones and the ready one. The invariant says that
  the directory of each of them exists, so that whoever attaches finds it, except for the
  starts of a set \<open>G\<close>: those that a detach of the last process left behind as ready.
\<close>

definition used_starts :: "ActivationState \<Rightarrow> StartIdentifier set" where
  "used_starts s = attached_starts s \<union> {sid. st_ready s = IsReady sid}"

definition has_dir ::
  "StartIdentifier set \<Rightarrow> path \<Rightarrow> path \<Rightarrow> World \<Rightarrow> StartIdentifier \<Rightarrow> bool" where
  "has_dir G store dir w sid \<longleftrightarrow>
     parent (sid_store_path sid) = Some store \<and>
     (sid \<in> G \<or> (\<exists>d \<in> w_dirs w. start_state_dir sid dir = Ok d))"

definition state_inv :: "StartIdentifier set \<Rightarrow> path \<Rightarrow> path \<Rightarrow> World \<Rightarrow> ActivationState \<Rightarrow> bool" where
  "state_inv G store dir w s \<longleftrightarrow>
     bm_inv (st_attached s) \<and> (\<forall>sid \<in> used_starts s. has_dir G store dir w sid)"

definition world_inv :: "StartIdentifier set \<Rightarrow> path \<Rightarrow> path \<Rightarrow> World \<Rightarrow> bool" where
  "world_inv G store dir w \<longleftrightarrow>
     (\<forall>s. w_state w = Some s \<longrightarrow>
        state_inv G store dir w s \<and> st_executive_pid s \<noteq> EXECUTIVE_NOT_STARTED)"

lemma snd_case_result [simp]:
  "snd (case p of (r, w) \<Rightarrow> (case r of Inl e \<Rightarrow> (F e, w) | Inr u \<Rightarrow> (G u, w))) = snd p"
  by (simp split: prod.splits sum.splits)

lemma has_dir_state [simp]: "has_dir G store dir (w\<lparr> w_state := x \<rparr>) sid = has_dir G store dir w sid"
  by (simp add: has_dir_def)

lemma state_inv_state [simp]: "state_inv G store dir (w\<lparr> w_state := x \<rparr>) s = state_inv G store dir w s"
  by (simp add: state_inv_def)

lemma state_inv_mono: "state_inv G store dir w s \<Longrightarrow> w_dirs w \<subseteq> w_dirs w' \<Longrightarrow> state_inv G store dir w' s"
  unfolding state_inv_def has_dir_def by blast

lemma world_inv_weaken: "world_inv G store dir w \<Longrightarrow> G \<subseteq> H \<Longrightarrow> world_inv H store dir w"
  unfolding world_inv_def state_inv_def has_dir_def by blast

lemma world_inv_dirs: "world_inv G store dir w \<Longrightarrow> world_inv G store dir (w\<lparr> w_dirs := insert d (w_dirs w) \<rparr>)"
  unfolding world_inv_def by (auto intro: state_inv_mono)

lemma world_inv_write_state:
  "world_inv G store dir w \<Longrightarrow> state_inv G store dir w s \<Longrightarrow> world_inv G store dir (snd (write_state s w))"
  by (simp add: world_inv_def write_state_def)

lemma world_inv_empty: "world_inv G store dir empty_world"
  by (simp add: world_inv_def empty_world_def)

lemma state_inv_fresh: "state_inv G store dir w (fresh_state ctx)"
  by (simp add: state_inv_def used_starts_def fresh_state_def new_state_def attached_starts_def)

lemma state_inv_sub:
  "state_inv G store dir w s \<Longrightarrow> bm_inv (st_attached s') \<Longrightarrow> used_starts s' \<subseteq> used_starts s
     \<Longrightarrow> state_inv G store dir w s'"
  unfolding state_inv_def by blast

lemma used_starts_set_executive_pid [simp]:
  "used_starts (set_executive_pid p s) = used_starts s"
  by (simp add: used_starts_def set_executive_pid_def)

lemma state_inv_set_executive_pid [simp]:
  "state_inv G store dir w (set_executive_pid p s) = state_inv G store dir w s"
  by (simp add: state_inv_def used_starts_def set_executive_pid_def)

lemma used_starts_attach:
  assumes "bm_inv (st_attached s)" and "att_start_id a \<in> used_starts s"
  shows "used_starts (attach pid a s) \<subseteq> used_starts s"
  using assms
  by (auto simp: used_starts_def attach_def attached_starts_insert dest: attached_startsI)

lemma used_starts_start:
  assumes "bm_inv (st_attached s)" and "start now pid store s = (sid, s')"
  shows "used_starts s' \<subseteq> insert sid (used_starts s)"
  using assms
  by (auto simp: used_starts_def start_def Let_def attached_starts_insert dest: attached_startsI)

lemma bm_inv_start: "bm_inv (st_attached s) \<Longrightarrow> bm_inv (st_attached (snd (start now pid store s)))"
  by (simp add: start_def Let_def bm.inv_insert)

lemma used_starts_detach:
  assumes "bm_inv (st_attached s)" and "detach pid s = (Inr r, s')"
  shows "used_starts s' \<subseteq> used_starts s" and "bm_inv (st_attached s')"
    and "st_executive_pid s' = st_executive_pid s"
    and "r = Some sid \<Longrightarrow> sid \<in> used_starts s"
    and "r = Some sid \<Longrightarrow> sid \<in> used_starts s' \<Longrightarrow> st_attached s' = [] \<and> st_ready s = IsReady sid"
proof -
  obtain a where a: "bm_get (st_attached s) pid = Some a"
    using assms(2) by (cases "bm_get (st_attached s) pid") (auto simp: detach_not_attached)
  show "bm_inv (st_attached s')" "st_executive_pid s' = st_executive_pid s"
    using assms a by (auto simp: detach_attached Let_def bm.inv_remove)
  have sub: "attached_starts (s\<lparr> st_attached := bm_remove pid (st_attached s) \<rparr>) \<subseteq> attached_starts s"
    using assms(1) by (auto simp: attached_starts_remove dest: attached_startsI)
  then show "used_starts s' \<subseteq> used_starts s"
    using assms a by (auto simp: detach_attached Let_def used_starts_def split: if_splits)
  have "att_start_id a \<in> attached_starts s"
    using a attached_startsI by blast
  then show "r = Some sid \<Longrightarrow> sid \<in> used_starts s"
    using assms a by (auto simp: detach_attached Let_def used_starts_def split: if_splits)
  show "r = Some sid \<Longrightarrow> sid \<in> used_starts s' \<Longrightarrow> st_attached s' = [] \<and> st_ready s = IsReady sid"
    using assms a by (auto simp: detach_attached Let_def used_starts_def split: if_splits)
qed

lemma used_starts_replace:
  assumes "bm_inv (st_attached s)" and "replace_attachment sid old new exp s = (Inr u, s')"
  shows "used_starts s' \<subseteq> used_starts s" and "bm_inv (st_attached s')"
proof -
  obtain a where a: "bm_get (st_attached s) old = Some a" "att_start_id a = sid"
    "s' = s\<lparr> st_attached := bm_insert new \<lparr> att_start_id = sid, att_expiration = exp \<rparr>
            (bm_remove old (st_attached s)) \<rparr>"
    using assms(2) by (auto simp: replace_attachment_def Let_def split: option.splits if_splits)
  show "bm_inv (st_attached s')"
    using assms(1) by (simp add: a(3) bm.inv_insert bm.inv_remove)
  have "sid \<in> attached_starts s"
    using a(1,2) attached_startsI by blast
  then have "attached_starts s' \<subseteq> attached_starts s"
    using assms(1)
    by (auto simp: a(3) attached_starts_insert bm.inv_remove bm.get_remove
        split: if_splits dest: attached_startsI)
  then show "used_starts s' \<subseteq> used_starts s"
    using a(3) by (auto simp: used_starts_def)
qed

text \<open>
  Removing the directory of a start before a state is written that may still use it: the
  start is then left behind. Removing a directory that is missing already changes nothing.
\<close>

lemma remove_start_state_dir_inv:
  assumes inv: "state_inv G store dir w s"
    and sub: "used_starts s' \<subseteq> used_starts s" "bm_inv (st_attached s')"
    and r: "remove_start_state_dir dir sid w = (r, w')" and used: "sid \<in> used_starts s"
  shows "w_state w' = w_state w"
    and "r = Ok () \<Longrightarrow> state_inv (G \<union> {sid} \<inter> used_starts s') store dir w' s'"
    and "r \<noteq> Ok () \<Longrightarrow> w' = w"
proof -
  show "w_state w' = w_state w" "r \<noteq> Ok () \<Longrightarrow> w' = w"
    using r by (auto simp: remove_start_state_dir_def split: sum.splits if_splits)
  assume "r = Ok ()"
  then obtain d where d: "d \<in> w_dirs w" "start_state_dir sid dir = Ok d"
    "w' = w\<lparr> w_dirs := w_dirs w - {d} \<rparr>"
    using r by (auto simp: remove_start_state_dir_def split: sum.splits if_splits)
  have parent: "parent (sid_store_path sid) = Some store"
    using inv used by (auto simp: state_inv_def has_dir_def)
  have "has_dir (G \<union> {sid} \<inter> used_starts s') store dir w' sid'" if "sid' \<in> used_starts s'" for sid'
  proof (cases "sid' = sid")
    case False
    have "has_dir G store dir w sid'"
      using inv sub(1) that by (auto simp: state_inv_def)
    moreover have "start_state_dir sid' dir \<noteq> Ok d" if "parent (sid_store_path sid') = Some store"
      using start_state_dir_same_parent [OF _ d(2)] that parent False by metis
    ultimately show ?thesis
      using d(3) by (auto simp: has_dir_def)
  qed (use that parent in \<open>simp add: has_dir_def\<close>)
  then show "state_inv (G \<union> {sid} \<inter> used_starts s') store dir w' s'"
    using sub(2) by (simp add: state_inv_def)
qed

lemma write_state_ok:
  "st_executive_pid s \<noteq> EXECUTIVE_NOT_STARTED \<Longrightarrow> write_state s w = (Ok (), w\<lparr> w_state := Some s \<rparr>)"
  by (simp add: write_state_def)

lemma world_inv_written:
  "state_inv G store dir w s \<Longrightarrow> st_executive_pid s \<noteq> EXECUTIVE_NOT_STARTED
     \<Longrightarrow> world_inv G store dir (w\<lparr> w_state := Some s \<rparr>)"
  by (simp add: world_inv_def)

lemma start_begin_inv:
  assumes inv: "world_inv G store dir w" and s: "start now pid store_path s0 = (sid, s)"
    and s0: "state_inv G store dir w s0" and parent: "parent store_path = Some store"
  shows "world_inv G store dir (snd (start_begin spawned pid ctx dir sid s w))"
proof (cases "start_state_dir sid dir")
  case (Inr d)
  let ?w = "w\<lparr> w_dirs := insert d (w_dirs w) \<rparr>"
  have "sid_store_path sid = store_path"
    using s by (auto simp: start_def Let_def)
  then have "has_dir G store dir ?w sid"
    using parent Inr by (simp add: has_dir_def)
  moreover have "state_inv G store dir ?w s0"
    using s0 by (rule state_inv_mono) auto
  moreover have "bm_inv (st_attached s0)"
    using s0 by (simp add: state_inv_def)
  ultimately have "state_inv G store dir ?w s"
    using used_starts_start [OF _ s] bm_inv_start [of s0 now pid store_path] s
    by (auto simp: state_inv_def)
  then have "state_inv G store dir ?w (set_executive_pid p s)" for p
    by simp
  then have "world_inv G store dir (snd (write_state (set_executive_pid p s) ?w))"
    "world_inv G store dir (snd (write_state s ?w))" for p
    using \<open>state_inv G store dir ?w s\<close> world_inv_dirs [OF inv] world_inv_write_state by blast+
  then show ?thesis
    using Inr by (simp add: start_begin_def Let_def)
qed (simp add: start_begin_def inv)

lemma loaded_state_inv:
  "world_inv G store dir w \<Longrightarrow> state_inv G store dir w (loaded_state alive ctx w)"
  by (auto simp: loaded_state_def Let_def world_inv_def state_inv_fresh split: option.splits)

lemma start_or_attach_cases:
  "(\<exists>sid s'. start_or_attach alive now pid store s = (Start sid, s') \<and>
             start now pid store s = (sid, s')) \<or>
   (\<exists>sid. st_ready s = IsReady sid \<and> start_or_attach alive now pid store s =
             (Attach sid, attach pid \<lparr> att_start_id = sid, att_expiration = None \<rparr> s)) \<or>
   (\<exists>p sid. start_or_attach alive now pid store s = (AlreadyStarting p sid, s))"
  by (auto simp: start_or_attach_def Let_def split: Ready.splits prod.splits)

lemma try_start_or_attach_inv:
  assumes inv: "world_inv G store dir w" and parent: "parent (ctx_store_path ctx) = Some store"
  shows "world_inv G store dir (snd (try_start_or_attach alive now spawned pid ctx dir w))"
proof -
  define s where "s = loaded_state alive ctx w"
  have s: "state_inv G store dir w s"
    unfolding s_def by (rule loaded_state_inv [OF inv])
  consider (starts) sid s' where "start_or_attach alive now pid (ctx_store_path ctx) s = (Start sid, s')"
      "start now pid (ctx_store_path ctx) s = (sid, s')"
    | (attaches) sid where "st_ready s = IsReady sid"
      "start_or_attach alive now pid (ctx_store_path ctx) s =
         (Attach sid, attach pid \<lparr> att_start_id = sid, att_expiration = None \<rparr> s)"
    | (waits) p sid where
      "start_or_attach alive now pid (ctx_store_path ctx) s = (AlreadyStarting p sid, s)"
    using start_or_attach_cases [of alive now pid "ctx_store_path ctx" s] by blast
  then show ?thesis
  proof cases
    case (starts sid s')
    then show ?thesis
      using start_begin_inv [OF inv starts(2) s parent, of spawned ctx] inv
      by (simp add: try_start_or_attach_def Let_def s_def [symmetric] split: option.splits)
  next
    case (attaches sid)
    let ?s' = "attach pid \<lparr> att_start_id = sid, att_expiration = None \<rparr> s"
    have "bm_inv (st_attached s)" and "sid \<in> used_starts s"
      using s attaches by (simp_all add: state_inv_def used_starts_def)
    then have "state_inv G store dir w ?s'"
      using s used_starts_attach [of s "\<lparr> att_start_id = sid, att_expiration = None \<rparr>" pid]
      by (intro state_inv_sub [OF s]) (simp_all add: attach_def bm.inv_insert)
    then have "world_inv G store dir (snd (write_state ?s' w))"
      by (rule world_inv_write_state [OF inv])
    then show ?thesis
      using inv attaches
      by (auto simp: try_start_or_attach_def Let_def s_def [symmetric]
          split: option.splits prod.splits sum.splits)
  next
    case (waits p sid)
    then show ?thesis
      using inv by (simp add: try_start_or_attach_def Let_def s_def [symmetric] split: option.splits)
  qed
qed

lemma start_finish_inv:
  assumes inv: "world_inv G store dir w" and parent: "parent (sid_store_path sid) = Some store"
  shows "world_inv G store dir (snd (start_finish hook_ok end_json dir sid w))"
proof (cases "w_state w")
  case (Some s)
  show ?thesis
  proof (cases "start_state_dir sid dir")
    case (Inr d)
    have "state_inv G store dir w (set_ready sid s)" if "d \<in> w_dirs w"
      using inv Some parent Inr that
      by (auto simp: world_inv_def state_inv_def set_ready_def used_starts_def has_dir_def)
    then have "d \<in> w_dirs w \<Longrightarrow> world_inv G store dir (snd (write_state (set_ready sid s) w))"
      using world_inv_write_state [OF inv] by blast
    then show ?thesis
      using inv Some Inr by (auto simp: start_finish_def split: prod.splits sum.splits)
  qed (simp add: start_finish_def inv)
qed (auto simp: start_finish_def inv split: sum.splits)

lemma attach_handle_inv:
  assumes inv: "world_inv G store dir w"
  shows "world_inv G store dir (snd (attach_handle now pid sid timeout_ms remove_pid w))"
proof (cases "w_state w")
  case (Some s)
  have s: "state_inv G store dir w s"
    using inv Some by (simp add: world_inv_def)
  have "world_inv G store dir (snd (write_state s' w))"
    if "replace_attachment sid old new exp s = (Inr u, s')" for old new exp u s'
    using used_starts_replace [OF _ that] s
    by (intro world_inv_write_state [OF inv] state_inv_sub [OF s]) (simp_all add: state_inv_def)
  then show ?thesis
    using inv Some
    by (auto simp: attach_handle_def split: option.splits prod.splits sum.splits)
qed (simp add: attach_handle_def inv)

text \<open>
  The last attached process detaches from the ready start: the one way to leave a start
  behind.
\<close>

definition last_detach :: "Pid \<Rightarrow> World \<Rightarrow> StartIdentifier \<Rightarrow> bool" where
  "last_detach pid w sid \<longleftrightarrow>
     (\<exists>s a. w_state w = Some s \<and> st_attached s = [(pid, a)] \<and> att_start_id a = sid \<and>
            st_ready s = IsReady sid)"

lemma bm_remove_to_empty: "bm_get m k = Some v \<Longrightarrow> bm_remove k m = [] \<Longrightarrow> m = [(k, v)]"
  by (cases m) (auto split: if_splits)

lemma detach_to_empty:
  assumes "detach pid s = (Inr (Some sid), s')" and "st_attached s' = []"
  shows "\<exists>a. st_attached s = [(pid, a)] \<and> att_start_id a = sid"
proof -
  obtain a where a: "bm_get (st_attached s) pid = Some a"
    using assms(1) by (cases "bm_get (st_attached s) pid") (auto simp: detach_not_attached)
  with assms have "att_start_id a = sid" "bm_remove pid (st_attached s) = []"
    by (auto simp: detach_attached Let_def split: if_splits)
  with a show ?thesis
    using bm_remove_to_empty [OF a] by simp
qed

lemma detach_handle_inv:
  assumes inv: "world_inv G store dir w"
  shows "world_inv (G \<union> {sid. last_detach pid w sid}) store dir (snd (detach_handle dir pid w))"
proof (cases "w_state w")
  case st: (Some s)
  have keep: "world_inv (G \<union> {sid. last_detach pid w sid}) store dir w"
    using inv by (rule world_inv_weaken) simp
  have s: "state_inv G store dir w s" "st_executive_pid s \<noteq> EXECUTIVE_NOT_STARTED"
    using inv st by (simp_all add: world_inv_def)
  have bm: "bm_inv (st_attached s)"
    using s(1) by (simp add: state_inv_def)
  consider e s' where "detach pid s = (Inl e, s')" | s' where "detach pid s = (Inr None, s')"
    | sid s' where "detach pid s = (Inr (Some sid), s')"
    by (metis option.exhaust sum.exhaust surj_pair)
  then show ?thesis
  proof cases
    case (2 s')
    note d = used_starts_detach [OF bm 2]
    show ?thesis
      using 2 st world_inv_write_state [OF inv state_inv_sub [OF s(1) d(2,1)]]
      by (auto simp: detach_handle_def intro: world_inv_weaken)
  next
    case (3 sid s')
    note d = used_starts_detach [OF bm 3]
    obtain r w' where r: "remove_start_state_dir dir sid w = (r, w')"
      by fastforce
    note ri = remove_start_state_dir_inv [OF s(1) d(1,2) r d(4) [OF refl]]
    have "sid \<in> used_starts s' \<Longrightarrow> last_detach pid w sid"
      using detach_to_empty [OF 3] d(5) [OF refl] st by (auto simp: last_detach_def)
    then have "world_inv (G \<union> {sid. last_detach pid w sid}) store dir (w'\<lparr> w_state := Some s' \<rparr>)"
      if "r = Ok ()"
      using world_inv_written [OF ri(2) [OF that]] d(3) s(2) by (auto intro: world_inv_weaken)
    then show ?thesis
      using 3 r st ri(3) keep d(3) s(2)
      by (cases r) (simp_all add: detach_handle_def write_state_ok)
  qed (simp add: detach_handle_def st keep)
qed (auto simp: detach_handle_def intro: world_inv_weaken [OF inv])

lemma cleanup_all_inv: "world_inv G store dir w \<Longrightarrow> world_inv G store dir (snd (cleanup_all s w))"
  by (simp add: cleanup_all_def world_inv_empty)

text \<open>
  The executive's cleanup of one process keeps the invariant; when it fails, because the
  directory to remove is missing, the world is as before.
\<close>

lemma watcher_cleanup_pid_inv:
  assumes inv: "world_inv G store dir w" and st: "w_state w = Some s"
    and c: "cleanup_pid alive now pid s = ((es, m), s1)"
    and r: "watcher_cleanup_pid alive now dir pid w = (r, w')"
  shows "world_inv G store dir w'"
    and "st_attached s1 = [] \<Longrightarrow> r = Ok (Some s1) \<and> w' = w"
    and "st_attached s1 \<noteq> [] \<Longrightarrow> r = Ok None \<and> w_state w' = Some s1 \<or> (\<exists>e. r = Err e) \<and> w' = w"
proof -
  have s: "state_inv G store dir w s" "st_executive_pid s \<noteq> EXECUTIVE_NOT_STARTED"
    using inv st by (simp_all add: world_inv_def)
  have bm: "bm_inv (st_attached s)"
    using s(1) by (simp add: state_inv_def)
  have cl: "if m then detach pid s = (Ok es, s1) else es = None \<and> s1 = s"
    using c by (rule cleanup_pid_result)
  show empty: "st_attached s1 = [] \<Longrightarrow> r = Ok (Some s1) \<and> w' = w"
    using r st c by (simp add: watcher_cleanup_pid_def attached_pids_is_empty_def)
  have "world_inv G store dir w' \<and>
      (r = Ok None \<and> w_state w' = Some s1 \<or> (\<exists>e. r = Err e) \<and> w' = w)" if ne: "st_attached s1 \<noteq> []"
  proof (cases m)
    case False
    then show ?thesis
      using r inv st c cl ne by (simp add: watcher_cleanup_pid_def attached_pids_is_empty_def)
  next
    case True
    then have det: "detach pid s = (Inr es, s1)"
      using cl by simp
    note d = used_starts_detach [OF bm det]
    have pid1: "st_executive_pid s1 \<noteq> EXECUTIVE_NOT_STARTED"
      using d(3) s(2) by simp
    show ?thesis
    proof (cases es)
      case None
      then show ?thesis
        using r st c True ne pid1 world_inv_written [OF state_inv_sub [OF s(1) d(2,1)] pid1]
        by (auto simp: watcher_cleanup_pid_def attached_pids_is_empty_def write_state_ok)
    next
      case (Some sid)
      obtain r1 w1 where r1: "remove_start_state_dir dir sid w = (r1, w1)"
        by fastforce
      note ri = remove_start_state_dir_inv [OF s(1) d(1,2) r1 d(4) [OF Some]]
      have "{sid} \<inter> used_starts s1 = {}"
        using d(5) [OF Some] ne by auto
      then have "r1 = Ok () \<Longrightarrow> world_inv G store dir (w1\<lparr> w_state := Some s1 \<rparr>)"
        using world_inv_written [OF ri(2) pid1] by simp
      then show ?thesis
        using r st c True ne pid1 r1 ri(3) inv Some
        by (cases r1) (auto simp: watcher_cleanup_pid_def attached_pids_is_empty_def write_state_ok)
    qed
  qed
  then show "world_inv G store dir w'"
    "st_attached s1 \<noteq> [] \<Longrightarrow> r = Ok None \<and> w_state w' = Some s1 \<or> (\<exists>e. r = Err e) \<and> w' = w"
    using empty inv by blast+
qed

lemma handle_process_exited_inv:
  assumes "world_inv G store dir w"
  shows "world_inv G store dir (snd (snd (handle_process_exited alive now dir pid ex w)))"
proof (cases "w_state w")
  case (Some s)
  obtain r w' where r: "watcher_cleanup_pid alive now dir pid w = (r, w')"
    by fastforce
  have "world_inv G store dir w'"
    using watcher_cleanup_pid_inv(1) [OF assms Some _ r] by (metis surj_pair)
  then show ?thesis
    using r
    by (auto simp: handle_process_exited_def Let_def cleanup_all_def world_inv_empty
        split: option.splits prod.splits sum.splits)
qed (simp add: handle_process_exited_def watcher_cleanup_pid_def assms)

lemma exec_event_inv:
  assumes inv: "world_inv G store dir w"
  shows "world_inv G store dir (snd (snd (exec_event alive now sock started dir event ex w)))"
proof -
  have services: "world_inv G store dir (snd (write_state s' w))"
    if "w_state w = Some s" "handle_start_services_signal sock started s = Inr (Some s')" for s s'
  proof -
    have "used_starts s' = used_starts s" "st_attached s' = st_attached s"
      using that(2)
      by (auto simp: handle_start_services_signal_def set_current_process_compose_start_id_def
          used_starts_def split: option.splits if_splits)
    moreover have "state_inv G store dir w s"
      using inv that(1) by (simp add: world_inv_def)
    ultimately have "state_inv G store dir w s'"
      by (simp add: state_inv_def)
    then show ?thesis
      by (rule world_inv_write_state [OF inv])
  qed
  show ?thesis
  proof (cases event)
    case (Some e)
    then show ?thesis
    proof (cases e)
      case (ProcessExited pid)
      then show ?thesis
        using Some handle_process_exited_inv [OF inv, of alive now pid ex]
        by (auto simp: exec_event_def split: prod.splits sum.splits)
    next
      case StartServices
      then show ?thesis
        using Some services inv
        by (auto simp: exec_event_def split: option.splits sum.splits prod.splits) (metis snd_conv)+
    next
      case StateFileChanged
      then show ?thesis
        using Some inv
        by (auto simp: exec_event_def Let_def cleanup_all_def world_inv_empty split: option.splits)
    qed (simp_all add: exec_event_def inv)
  qed (simp add: exec_event_def inv)
qed

section \<open>Histories\<close>

text \<open>
  What the processes sharing one activation state directory can do to it, in any order. Every
  start lives in the store directory \<open>store\<close>.
\<close>

inductive world_step :: "path \<Rightarrow> path \<Rightarrow> World \<Rightarrow> World \<Rightarrow> bool" for store dir where
  activate: "parent (ctx_store_path ctx) = Some store \<Longrightarrow>
     world_step store dir w (snd (try_start_or_attach alive now spawned pid ctx dir w))"
| finish: "parent (sid_store_path sid) = Some store \<Longrightarrow>
     world_step store dir w (snd (start_finish hook_ok end_json dir sid w))"
| attach_cmd: "world_step store dir w (snd (attach_handle now pid sid timeout_ms remove_pid w))"
| detach_cmd: "world_step store dir w (snd (detach_handle dir pid w))"
| executive: "world_step store dir w
     (snd (snd (exec_event alive now sock started dir event ex w)))"

text \<open>
  The starts a history has left behind: at some point the last process attached detached from
  the start, which was the ready one.
\<close>

definition left_behind :: "path \<Rightarrow> path \<Rightarrow> World \<Rightarrow> StartIdentifier set" where
  "left_behind store dir w =
     {sid. \<exists>w0 pid. (world_step store dir)\<^sup>*\<^sup>* empty_world w0 \<and> last_detach pid w0 sid \<and>
                    (world_step store dir)\<^sup>*\<^sup>* (snd (detach_handle dir pid w0)) w}"

lemma left_behind_step:
  "world_step store dir w w' \<Longrightarrow> left_behind store dir w \<subseteq> left_behind store dir w'"
  by (auto simp: left_behind_def intro: rtranclp.rtrancl_into_rtrancl)

lemma left_behind_detach:
  "(world_step store dir)\<^sup>*\<^sup>* empty_world w \<Longrightarrow>
     {sid. last_detach pid w sid} \<subseteq> left_behind store dir (snd (detach_handle dir pid w))"
  by (auto simp: left_behind_def)

lemma world_step_inv:
  assumes r: "(world_step store dir)\<^sup>*\<^sup>* empty_world w" and step: "world_step store dir w w'"
    and inv: "world_inv (left_behind store dir w) store dir w"
  shows "world_inv (left_behind store dir w') store dir w'"
proof (cases "\<exists>pid. w' = snd (detach_handle dir pid w)")
  case True
  then obtain pid where w': "w' = snd (detach_handle dir pid w)"
    by blast
  show ?thesis
    using world_inv_weaken [OF detach_handle_inv [OF inv]] left_behind_step [OF step]
      left_behind_detach [OF r, of pid] by (simp add: w')
next
  case False
  have "world_inv (left_behind store dir w) store dir w'"
    using step inv False
    by cases (auto intro: try_start_or_attach_inv start_finish_inv attach_handle_inv exec_event_inv)
  then show ?thesis
    using left_behind_step [OF step] by (rule world_inv_weaken)
qed

interpretation world: transition_system "\<lambda>w. w = empty_world" "world_step store dir"
  "\<lambda>w. (world_step store dir)\<^sup>*\<^sup>* empty_world w \<and> world_inv (left_behind store dir w) store dir w"
  for store dir
proof unfold_locales
  show "(world_step store dir)\<^sup>*\<^sup>* empty_world w' \<and> world_inv (left_behind store dir w') store dir w'"
    if "(world_step store dir)\<^sup>*\<^sup>* empty_world w \<and> world_inv (left_behind store dir w) store dir w"
      and "world_step store dir w w'" for w w'
    using that world_step_inv [of store dir w w'] by (auto intro: rtranclp.rtrancl_into_rtrancl)
qed (simp add: world_inv_empty)


section \<open>Log collection\<close>

text \<open>\<open>log_gc.rs\<close>: the files a pattern matches are given; the last \<open>keep_last\<close> by name stay.\<close>

definition gc_logs_per_process :: "string list \<Rightarrow> nat \<Rightarrow> string list" where
  "gc_logs_per_process files keep_last =
     (if length files \<le> keep_last then []
      else take (length files - keep_last) (sort files))"

definition duration_from_days :: "nat \<Rightarrow> nat" where
  "duration_from_days days = days * (24 * 60 * 60)"

text \<open>A modification time in the future is an error, which the caller reads as not older.\<close>

definition file_older_than :: "nat option \<Rightarrow> nat \<Rightarrow> nat \<Rightarrow> bool option" where
  "file_older_than modified now threshold =
     (case modified of
        None \<Rightarrow> None
      | Some m \<Rightarrow> if m \<le> now then Some (threshold < now - m) else None)"

definition executive_logs_to_gc ::
  "(string \<times> nat option) list \<Rightarrow> string list \<Rightarrow> nat \<Rightarrow> nat \<Rightarrow> string list" where
  "executive_logs_to_gc executive_files watchdog_files now keep_days =
     map fst (filter (\<lambda>(_, m). case file_older_than m now (duration_from_days keep_days) of
                                None \<Rightarrow> False | Some older \<Rightarrow> older) executive_files)
     @ watchdog_files"

section \<open>What the executive leaves alone\<close>

lemma cleanup_pid_keeps:
  assumes bm: "bm_inv (st_attached s)" and a: "bm_get (st_attached s) p = Some a"
    and keep: "alive p \<or> (\<exists>t. att_expiration a = Some t \<and> now < t)"
    and c: "cleanup_pid alive now pid s = ((es, m), s')"
  shows "bm_get (st_attached s') p = Some a"
proof (cases m)
  case True
  then obtain b where b: "bm_get (st_attached s) pid = Some b" "\<not> alive pid"
    "\<forall>t. att_expiration b = Some t \<longrightarrow> t \<le> now"
    using cleanup_pid_iff [OF c] by auto
  then have "p \<noteq> pid"
    using a keep by fastforce
  moreover have "detach pid s = (Ok es, s')"
    using cleanup_pid_result [OF c] True by simp
  ultimately show ?thesis
    using a b(1) bm by (auto simp: detach_attached Let_def bm.get_remove)
qed (use cleanup_pid_result [OF c] a in simp)

lemma remove_start_state_dir_state: "w_state (snd (remove_start_state_dir dir sid w)) = w_state w"
  by (simp add: remove_start_state_dir_def split: sum.splits)

lemma watcher_cleanup_pid_keeps:
  assumes inv: "world_inv G store dir w" and st: "w_state w = Some s"
    and a: "bm_get (st_attached s) p = Some a"
    and keep: "alive p \<or> (\<exists>t. att_expiration a = Some t \<and> now < t)"
    and r: "watcher_cleanup_pid alive now dir pid w = (r, w')"
  shows "r = Ok None \<or> (\<exists>e. r = Err e)"
    and "\<exists>s'. w_state w' = Some s' \<and> bm_get (st_attached s') p = Some a"
proof -
  obtain es m s1 where c: "cleanup_pid alive now pid s = ((es, m), s1)"
    by (metis prod.collapse)
  have "bm_inv (st_attached s)"
    using inv st by (simp add: world_inv_def state_inv_def)
  then have s1: "bm_get (st_attached s1) p = Some a"
    using cleanup_pid_keeps [OF _ a keep c] by simp
  then have "st_attached s1 \<noteq> []"
    by auto
  then have "r = Ok None \<and> w_state w' = Some s1 \<or> (\<exists>e. r = Err e) \<and> w' = w"
    by (rule watcher_cleanup_pid_inv(3) [OF inv st c r])
  then show "r = Ok None \<or> (\<exists>e. r = Err e)"
    "\<exists>s'. w_state w' = Some s' \<and> bm_get (st_attached s') p = Some a"
    using s1 a st by auto
qed

lemma handle_process_exited_keeps:
  assumes "world_inv G store dir w" and "w_state w = Some s" and "bm_get (st_attached s) p = Some a"
    and "alive p \<or> (\<exists>t. att_expiration a = Some t \<and> now < t)"
  shows "\<exists>s'. w_state (snd (snd (handle_process_exited alive now dir pid ex w))) = Some s' \<and>
              bm_get (st_attached s') p = Some a"
proof -
  obtain r w1 where r: "watcher_cleanup_pid alive now dir pid w = (r, w1)"
    by fastforce
  note k = watcher_cleanup_pid_keeps [where alive = alive and now = now, OF assms r]
  obtain s1 where s1: "w_state w1 = Some s1" "bm_get (st_attached s1) p = Some a"
    using k(2) by blast
  then have "st_attached s1 \<noteq> []"
    by auto
  with k(1) s1 r show ?thesis
    by (auto simp: handle_process_exited_def Let_def cleanup_all_def attached_pids_is_empty_def
        split: option.splits prod.splits)
qed

lemma allow_remonitor_iterate:
  assumes "k < 2 ^ 32" and "lg_pid g \<noteq> Some pid"
  shows "((\<lambda>g. snd (allow_remonitor pid g)) ^^ Suc k) g =
    g\<lparr> lg_pid := Some pid, lg_count := Suc k mod 2 ^ 32 \<rparr>"
  using assms(1)
proof (induction k)
  case 0
  then show ?case
    using assms(2) by (simp add: allow_remonitor_def Let_def)
next
  case (Suc k)
  then show ?case
    by (simp add: allow_remonitor_def Let_def)
qed

section \<open>Properties\<close>


definition demo_ctx :: ActivateCtx where
  "demo_ctx = \<lparr> ctx_mode = Dev, ctx_store_path = [''nix'', ''store'', ''abc-env''], ctx_project = True,
     ctx_dot_flox = None, ctx_env = [''env''] \<rparr>"

definition demo_dir :: path where
  "demo_dir = [''run'']"

definition demo_started :: World where
  "demo_started = snd (try_start_or_attach (\<lambda>p. True) 7 99 10 demo_ctx demo_dir empty_world)"

definition demo_ready :: World where
  "demo_ready = snd (start_finish True True demo_dir demo_sid demo_started)"

lemmas demo_defs = demo_ctx_def demo_dir_def demo_sid_def demo_started_def demo_ready_def
  try_start_or_attach_def loaded_state_def executive_running_def executive_started_def
  EXECUTIVE_NOT_STARTED_def fresh_state_def new_state_def start_or_attach_def start_def attach_def
  start_begin_def start_finish_def start_state_dir_def file_name_def write_state_def
  set_executive_pid_def set_ready_def empty_world_def

lemma demo_ready_eq:
  "demo_ready =
     \<lparr> w_state = Some \<lparr> st_info = \<lparr> info_dot_flox_path = None, info_flox_env = [''env''] \<rparr>,
         st_mode = Dev, st_ready = IsReady demo_sid, st_executive_pid = 99, st_process_compose = None,
         st_attached = [(10, \<lparr> att_start_id = demo_sid, att_expiration = None \<rparr>)] \<rparr>,
       w_dirs = {[''run'', ''abc-env.7'']} \<rparr>"
  by code_simp

lemma demo_start_dir: "start_state_dir demo_sid demo_dir = Ok [''run'', ''abc-env.7'']"
  by code_simp

lemma demo_ready_reachable: "(world_step [''nix'', ''store''] demo_dir)\<^sup>*\<^sup>* empty_world demo_ready"
proof -
  have "world_step [''nix'', ''store''] demo_dir empty_world demo_started"
    unfolding demo_started_def by (rule world_step.activate) (simp add: demo_ctx_def parent_def)
  moreover have "world_step [''nix'', ''store''] demo_dir demo_started demo_ready"
    unfolding demo_ready_def by (rule world_step.finish) (simp add: demo_sid_def parent_def)
  ultimately show ?thesis
    by (simp add: rtranclp.rtrancl_into_rtrancl r_into_rtranclp)
qed









text \<open>
  C2. The executive never drops a live process: whatever event it handles in a reachable
  world, an attached process that runs or whose expiration has not passed is still attached
  afterwards, to the same start.
\<close>

theorem exec_event_keeps_live:
  assumes "(world_step store dir)\<^sup>*\<^sup>* empty_world w" and "w_state w = Some s"
    and "bm_get (st_attached s) p = Some a"
    and "alive p \<or> (\<exists>t. att_expiration a = Some t \<and> now < t)"
    and "exec_event alive now sock started dir event ex w = (c, ex', w')"
  shows "\<exists>s'. w_state w' = Some s' \<and> bm_get (st_attached s') p = Some a"
proof -
  have inv: "world_inv (left_behind store dir w) store dir w"
    using world.inv_reachable [OF refl assms(1)] ..
  have ne: "st_attached s \<noteq> []"
    using assms(3) by auto
  show ?thesis
  proof (cases "\<exists>pid. event = Some (ProcessExited pid)")
    case True
    then obtain pid where e: "event = Some (ProcessExited pid)"
      by auto
    show ?thesis
      using handle_process_exited_keeps [where alive = alive and now = now and pid = pid and ex = ex,
          OF inv assms(2-4)]
        e assms(5)
      by (auto simp: exec_event_def split: option.splits prod.splits sum.splits)
  next
    case False
    then show ?thesis
      using assms(2,3,5) ne
      by (auto simp: exec_event_def Let_def cleanup_all_def attached_pids_is_empty_def
          write_state_def handle_start_services_signal_def set_current_process_compose_start_id_def
          split: option.splits ExecutiveEvent.splits if_splits)
  qed
qed

definition demo_ex :: Executive where
  "demo_ex = \<lparr> ex_known = {10}, ex_guard = LoopGuard_new 5 \<rparr>"

theorem exec_event_keeps_live_witness:
  "\<exists>s'. w_state (snd (snd (exec_event (\<lambda>p. True) 8 False False demo_dir (Some (ProcessExited 10))
            demo_ex demo_ready))) = Some s' \<and>
        bm_get (st_attached s') 10 = Some \<lparr> att_start_id = demo_sid, att_expiration = None \<rparr>"
  by (rule exec_event_keeps_live [OF demo_ready_reachable, where alive = "\<lambda>p. True" and now = 8
        and s = "the (w_state demo_ready)" and sock = False and started = False and ex = demo_ex
        and event = "Some (ProcessExited 10)"])
    (simp_all add: demo_ready_eq prod_eq_iff)

text \<open>
  \<open>try_start_or_attach\<close> never reaches the \<open>expect\<close> on the running processes of a state
  whose mode does not match: with no live executive the state was replaced by one of the
  requested mode before.
\<close>

theorem try_start_or_attach_no_panic:
  "fst (try_start_or_attach alive now spawned pid ctx dir w) \<noteq> Err NoRunningProcesses"
proof -
  let ?s = "loaded_state alive ctx w"
  have "running_processes alive ?s \<noteq> None" if "st_mode ?s \<noteq> ctx_mode ctx"
  proof -
    have "executive_running alive ?s"
      using that by (auto simp: loaded_state_def Let_def fresh_state_def new_state_def split: if_splits)
    then show ?thesis
      by (simp add: running_processes_def from_pids_def executive_running_def executive_started_def Let_def)
  qed
  then show ?thesis
    by (cases "st_mode ?s = ctx_mode ctx")
      (auto simp: try_start_or_attach_def Let_def start_begin_def write_state_def
        split: option.splits prod.splits StartOrAttachResult.splits sum.splits)
qed

text \<open>
  C3. The window that \<open>flox-activations detach\<close> leaves open: when the last process detaches
  from the ready start, the command removes the start state directory but writes a state
  that still names the start as ready, so the next activation of the same store path
  attaches to a start whose directory is gone.
\<close>

theorem detach_last_leaves_ready_start:
  assumes "w_state w = Some s" and "st_attached s = [(pid, a)]" and "att_start_id a = sid"
    and "st_ready s = IsReady sid" and "sid_store_path sid = ctx_store_path ctx"
    and "st_mode s = ctx_mode ctx" and "executive_running alive s"
    and "start_state_dir sid dir = Ok d" and "d \<in> w_dirs w"
    and "detach_handle dir pid w = (r, w1)"
    and "try_start_or_attach alive now spawned new_pid ctx dir w1 = (r', w2)"
  shows "r = Ok () \<and> r' = Ok (Attach sid) \<and> d \<notin> w_dirs w2"
proof -
  let ?s1 = "s\<lparr> st_attached := [] \<rparr>"
  have started: "st_executive_pid s \<noteq> EXECUTIVE_NOT_STARTED"
    using assms(7) by (simp add: executive_running_def executive_started_def)
  have "detach pid s = (Ok (Some sid), ?s1)"
    using assms(2,3) by (simp add: detach_attached Let_def attached_starts_def)
  then have w1: "r = Ok ()" "w1 = w\<lparr> w_dirs := w_dirs w - {d}, w_state := Some ?s1 \<rparr>"
    using assms(1,8,9,10) started
    by (auto simp: detach_handle_def remove_start_state_dir_def write_state_def)
  have "loaded_state alive ctx w1 = ?s1"
    using assms(7) by (simp add: w1 loaded_state_def executive_running_def executive_started_def)
  then show ?thesis
    using assms(4,5,6,11) started w1
    by (auto simp: try_start_or_attach_def start_or_attach_def attach_def write_state_def)
qed

theorem detach_last_leaves_ready_start_witness:
  "fst (try_start_or_attach (\<lambda>p. True) 8 99 11 demo_ctx demo_dir
          (snd (detach_handle demo_dir 10 demo_ready))) = Ok (Attach demo_sid)"
  using detach_last_leaves_ready_start
    [of demo_ready "the (w_state demo_ready)" 10 "\<lparr> att_start_id = demo_sid, att_expiration = None \<rparr>"
      demo_sid demo_ctx "\<lambda>p. True" demo_dir "[''run'', ''abc-env.7'']"
      "fst (detach_handle demo_dir 10 demo_ready)" "snd (detach_handle demo_dir 10 demo_ready)" 8 99 11
      "fst (try_start_or_attach (\<lambda>p. True) 8 99 11 demo_ctx demo_dir
          (snd (detach_handle demo_dir 10 demo_ready)))"
      "snd (try_start_or_attach (\<lambda>p. True) 8 99 11 demo_ctx demo_dir
          (snd (detach_handle demo_dir 10 demo_ready)))"]
  by (simp add: demo_start_dir demo_ready_eq) (simp add: demo_sid_def demo_ctx_def
      executive_running_def executive_started_def EXECUTIVE_NOT_STARTED_def)

text \<open>
  C6. The loop guard: of the consecutive re-monitorings of one process exactly the first
  \<open>limit\<close> are allowed, so an executive cannot be kept busy by a process that keeps
  exiting and staying attached.
\<close>

theorem loop_guard_limit:
  assumes "limit < 2 ^ 32 - 1" and "k < 2 ^ 32 - 1"
  shows "fst (allow_remonitor pid (((\<lambda>g. snd (allow_remonitor pid g)) ^^ k) (LoopGuard_new limit)))
     \<longleftrightarrow> k < limit"
proof (cases k)
  case 0
  then show ?thesis
    by (auto simp: allow_remonitor_def LoopGuard_new_def Let_def)
next
  case (Suc j)
  have "((\<lambda>g. snd (allow_remonitor pid g)) ^^ Suc j) (LoopGuard_new limit) =
      (LoopGuard_new limit)\<lparr> lg_pid := Some pid, lg_count := Suc j mod 2 ^ 32 \<rparr>"
    using Suc assms(2) by (intro allow_remonitor_iterate) (auto simp: LoopGuard_new_def)
  then show ?thesis
    using Suc assms by (auto simp: allow_remonitor_def LoopGuard_new_def Let_def)
qed

theorem loop_guard_limit_witness:
  "\<not> fst (allow_remonitor 7 (((\<lambda>g. snd (allow_remonitor 7 g)) ^^ 5) (LoopGuard_new 5)))"
  using loop_guard_limit [of 5 5 7] by simp

end
