(* ===== verification/Generations.thy ===== *)
theory Generations
  imports Text Ordered_Map "HOL-Library.Option_ord"
begin

text \<open>
  Generations of an environment (\<open>flox-rust-sdk/src/models/environment/generations.rs\<close> and
  the rollback command): the append-only history in \<open>metadata.json\<close>, the table of
  generations derived from it, adding and switching generations, the migration of the first
  metadata format and the repository operations that store a generation's files beside the
  metadata.

  Timestamps are parameters; the unknown fields a metadata file carries along
  (\<open>WithOtherFields\<close>) are not interpreted by any operation and are left out.
\<close>

section \<open>Data\<close>

type_synonym GenerationId = nat

definition GenerationId_from_str :: "string \<Rightarrow> string + GenerationId" where
  "GenerationId_from_str s =
     ok_or ''generations must be referenced by number'' (parse_uint usize_max s)"

datatype HistoryKind =
    Import
  | Initialize
  | MigrateV1 string
  | Install "string list"
  | Edit
  | Uninstall "string list"
  | Upgrade "string list"
  | IncludeUpgrade "string list"
  | SwitchGeneration
  | OtherKind string
  | Unknown string

record HistorySpec =
  hs_kind :: HistoryKind
  hs_author :: string
  hs_hostname :: string
  hs_command :: "string list option"
  hs_timestamp :: int
  hs_current :: GenerationId
  hs_previous :: "GenerationId option"

record AllGenerationsMetadata =
  agm_history :: "HistorySpec list"
  agm_total :: nat

record SingleGenerationMetadata =
  sg_parent :: "GenerationId option"
  sg_created :: int
  sg_last_live :: "int option"
  sg_description :: string

record AddGenerationOptions =
  ago_author :: string
  ago_hostname :: string
  ago_argv :: "string list"
  ago_timestamp :: int
  ago_kind :: HistoryKind

record SwitchGenerationOptions =
  sgo_author :: string
  sgo_hostname :: string
  sgo_argv :: "string list"
  sgo_timestamp :: int
  sgo_next :: GenerationId

text \<open>\<open>GenerationsPanic\<close> stands for the \<open>expect\<close> and \<open>unreachable!\<close> calls of the code.\<close>

datatype GenerationsError =
    GenerationNotFound nat
  | NoGenerations
  | SwitchToLiveGeneration
  | MigrateV1ToV2 string
  | DeserializeMetadata
  | InvalidSchema nat
  | InvalidVersion
  | ShowMetadata
  | ShowManifest
  | ShowLockfile
  | ActivatedGenerationImmutable nat
  | GenerationsPanic

definition metadata_default :: AllGenerationsMetadata where
  "metadata_default = \<lparr> agm_history = [], agm_total = 0 \<rparr>"

section \<open>Summaries\<close>

definition quote :: "string \<Rightarrow> string" where
  "quote s = [CHR 0x27] @ s @ [CHR 0x27]"

definition format_targets :: "string \<Rightarrow> string \<Rightarrow> string list \<Rightarrow> string" where
  "format_targets verb object targets =
     verb @ '' '' @ object @ (if length targets < 2 then '''' else ''s'') @ '' ''
     @ join '', '' (map quote targets)"

definition format_targets_all_if_empty :: "string \<Rightarrow> string \<Rightarrow> string list \<Rightarrow> string" where
  "format_targets_all_if_empty verb object targets =
     (if targets = [] then verb @ '' all '' @ object @ ''s'' else format_targets verb object targets)"

text \<open>\<open>None\<close> is the \<open>unreachable!\<close> of a switch without a previous generation.\<close>

definition summary :: "HistorySpec \<Rightarrow> string option" where
  "summary h =
     (case hs_kind h of
        Import \<Rightarrow> Some ''imported environment''
      | Initialize \<Rightarrow> Some ''initialized new environment''
      | MigrateV1 description \<Rightarrow> Some (description @ '' [metadata migrated]'')
      | Install targets \<Rightarrow> Some (format_targets ''installed'' ''package'' targets)
      | Edit \<Rightarrow> Some ''manually edited the manifest''
      | Uninstall targets \<Rightarrow> Some (format_targets ''uninstalled'' ''package'' targets)
      | Upgrade targets \<Rightarrow> Some (format_targets_all_if_empty ''upgraded'' ''package'' targets)
      | IncludeUpgrade targets \<Rightarrow>
          Some (format_targets_all_if_empty ''upgraded'' ''included environment'' targets)
      | SwitchGeneration \<Rightarrow>
          (case hs_previous h of
             Some prev \<Rightarrow>
               Some (''changed current generation '' @ show_nat prev @ '' -> '' @ show_nat (hs_current h))
           | None \<Rightarrow> None)
      | OtherKind s \<Rightarrow> Some s
      | Unknown k \<Rightarrow> Some (''performed unknown '' @ k @ '' operation''))"

section \<open>The metadata\<close>

definition parse_argv :: "string list \<Rightarrow> string list option" where
  "parse_argv argv = (if argv = [] then None else Some (argv[0 := ''flox'']))"

definition current_gen :: "AllGenerationsMetadata \<Rightarrow> GenerationId option" where
  "current_gen m = (if agm_history m = [] then None else Some (hs_current (last (agm_history m))))"

definition add_generation ::
  "AddGenerationOptions \<Rightarrow> AllGenerationsMetadata
     \<Rightarrow> (GenerationId \<times> HistorySpec) \<times> AllGenerationsMetadata" where
  "add_generation opts m =
     (let next_generation = wrapping_add (agm_total m) 1;
          spec = \<lparr> hs_kind = ago_kind opts, hs_author = ago_author opts,
                   hs_hostname = ago_hostname opts, hs_command = parse_argv (ago_argv opts),
                   hs_timestamp = ago_timestamp opts, hs_current = next_generation,
                   hs_previous = current_gen m \<rparr>
      in ((next_generation, spec),
          m\<lparr> agm_history := agm_history m @ [spec],
             agm_total := saturating_add (agm_total m) 1 \<rparr>))"

definition switch_generation ::
  "SwitchGenerationOptions \<Rightarrow> AllGenerationsMetadata
     \<Rightarrow> (GenerationsError + GenerationId \<times> HistorySpec) \<times> AllGenerationsMetadata" where
  "switch_generation opts m =
     (case current_gen m of
        None \<Rightarrow> (Err GenerationsPanic, m)
      | Some previous \<Rightarrow>
          if sgo_next opts = previous then (Err SwitchToLiveGeneration, m)
          else if sgo_next opts > agm_total m then (Err (GenerationNotFound (sgo_next opts)), m)
          else (let spec = \<lparr> hs_kind = SwitchGeneration, hs_author = sgo_author opts,
                             hs_hostname = sgo_hostname opts,
                             hs_command = parse_argv (sgo_argv opts),
                             hs_timestamp = sgo_timestamp opts, hs_current = sgo_next opts,
                             hs_previous = Some previous \<rparr>
                in (Ok (sgo_next opts, spec),
                    m\<lparr> agm_history := agm_history m @ [spec] \<rparr>)))"

type_synonym generation_table = "(GenerationId, SingleGenerationMetadata) bmap"

definition set_last_live ::
  "GenerationId \<Rightarrow> int option \<Rightarrow> generation_table \<Rightarrow> generation_table option" where
  "set_last_live g t table =
     map_option (\<lambda>e. bm_insert g (e\<lparr> sg_last_live := t \<rparr>) table) (bm_get table g)"

text \<open>One turn of the loop in \<open>generations()\<close>; \<open>None\<close> is a failed \<open>expect\<close>.\<close>

definition generations_step ::
  "HistorySpec \<Rightarrow> generation_table \<Rightarrow> generation_table option" where
  "generations_step spec table =
     (if hs_kind spec = SwitchGeneration
      then Option.bind (hs_previous spec) (\<lambda>prev.
             Option.bind (set_last_live prev (Some (hs_timestamp spec)) table) (\<lambda>table1.
               set_last_live (hs_current spec) None table1))
      else (let table1 = (case Option.bind (hs_previous spec)
                                 (\<lambda>prev. set_last_live prev (Some (hs_timestamp spec)) table) of
                            None \<Rightarrow> table | Some t \<Rightarrow> t)
            in Option.bind (summary spec) (\<lambda>description.
                 Some (bm_insert (hs_current spec)
                   \<lparr> sg_parent = hs_previous spec, sg_created = hs_timestamp spec,
                     sg_last_live = None, sg_description = description \<rparr> table1))))"

fun generations_loop :: "HistorySpec list \<Rightarrow> generation_table \<Rightarrow> generation_table option" where
  "generations_loop [] table = Some table"
| "generations_loop (spec # specs) table =
     Option.bind (generations_step spec table) (generations_loop specs)"

definition generations :: "AllGenerationsMetadata \<Rightarrow> generation_table option" where
  "generations m = generations_loop (agm_history m) []"

section \<open>Rolling back\<close>

text \<open>
  \<open>sorted_by_key(last_live).next_back()\<close>: the sort is stable and \<open>None\<close> sorts first, so the
  answer is the last entry among those with the greatest \<open>last_live\<close>.
\<close>

definition determine_previous_generation ::
  "AllGenerationsMetadata \<Rightarrow> (GenerationId \<times> SingleGenerationMetadata) option option" where
  "determine_previous_generation m =
     map_option (\<lambda>table.
       if length table < 2 then None else Some (last (sort_key (\<lambda>e. sg_last_live (snd e)) table)))
     (generations m)"

section \<open>The first metadata format\<close>

record SingleGenerationMetadataV1 =
  v1_created :: int
  v1_last_active :: "int option"
  v1_description :: string

record AllGenerationsMetadataV1 =
  v1_current_gen :: "GenerationId option"
  v1_generations :: "(GenerationId, SingleGenerationMetadataV1) bmap"

definition migrate_add_options :: "SingleGenerationMetadataV1 \<Rightarrow> AddGenerationOptions" where
  "migrate_add_options g =
     \<lparr> ago_author = ''unknown'', ago_hostname = ''unknown'', ago_argv = [],
       ago_timestamp = v1_created g, ago_kind = MigrateV1 (v1_description g) \<rparr>"

fun migrate_v1_loop ::
  "nat \<Rightarrow> (GenerationId \<times> SingleGenerationMetadataV1) list \<Rightarrow> AllGenerationsMetadata
     \<Rightarrow> GenerationsError + AllGenerationsMetadata" where
  "migrate_v1_loop index [] dest = Ok dest"
| "migrate_v1_loop index ((generation_id, g) # rest) dest =
     (if index + 1 \<noteq> generation_id
      then Err (MigrateV1ToV2 (''metadata invalid gap in tracked generations detected, missing generation ''
                               @ show_nat (index + 1)))
      else migrate_v1_loop (index + 1) rest (snd (add_generation (migrate_add_options g) dest)))"

definition migrate_v1 :: "AllGenerationsMetadataV1 \<Rightarrow> GenerationsError + AllGenerationsMetadata" where
  "migrate_v1 v =
     and_then (migrate_v1_loop 0 (v1_generations v) metadata_default) (\<lambda>dest.
       case v1_current_gen v of
         None \<Rightarrow> Err (MigrateV1ToV2 ''metadata has no current generation'')
       | Some original \<Rightarrow>
           if Some original \<noteq> current_gen dest
           then and_then (ok_or (MigrateV1ToV2 ''current generation missing'')
                            (bm_get (v1_generations v) original)) (\<lambda>g.
                and_then (ok_or (MigrateV1ToV2 ''current generation missing timestamp'')
                            (v1_last_active g)) (\<lambda>timestamp.
                  case switch_generation
                         \<lparr> sgo_author = ''unknown'', sgo_hostname = ''unknown'', sgo_argv = [],
                           sgo_timestamp = timestamp, sgo_next = original \<rparr> dest of
                    (Inl _, dest') \<Rightarrow> Err GenerationsPanic
                  | (Inr _, dest') \<Rightarrow> Ok dest'))
           else Ok dest)"

text \<open>
  The untagged choice of \<open>serde\<close>: the first of the three shapes the text has. A version that
  is not a number is \<open>None\<close>.
\<close>

record metadata_serde =
  de_v1 :: "string \<Rightarrow> AllGenerationsMetadataV1 option"
  de_v2 :: "string \<Rightarrow> AllGenerationsMetadata option"
  de_vx :: "string \<Rightarrow> nat option option"

definition parse_metadata :: "metadata_serde \<Rightarrow> string \<Rightarrow> GenerationsError + AllGenerationsMetadata" where
  "parse_metadata sd content =
     (case de_v1 sd content of
        Some v \<Rightarrow> migrate_v1 v
      | None \<Rightarrow>
          (case de_v2 sd content of
             Some m \<Rightarrow> Ok m
           | None \<Rightarrow>
               (case de_vx sd content of
                  None \<Rightarrow> Err DeserializeMetadata
                | Some (Some v) \<Rightarrow> if v = 1 \<or> v = 2 then Err (InvalidSchema v) else Err InvalidVersion
                | Some None \<Rightarrow> Err InvalidVersion)))"

section \<open>The repository\<close>

text \<open>
  A branch of the floxmeta repository: the parsed metadata file, the files of each
  generation (of a type \<open>'env\<close> the operations do not look into) and the commit messages.
\<close>

record 'env GenRepo =
  gr_metadata :: AllGenerationsMetadata
  gr_files :: "(GenerationId, 'env) bmap"
  gr_log :: "string list"

definition table_of :: "AllGenerationsMetadata \<Rightarrow> GenerationsError + generation_table" where
  "table_of m = ok_or GenerationsPanic (generations m)"

definition manifest_contents :: "GenerationId \<Rightarrow> 'env GenRepo \<Rightarrow> GenerationsError + 'env" where
  "manifest_contents generation repo =
     and_then (table_of (gr_metadata repo)) (\<lambda>table.
       if \<not> bm_contains table generation then Err (GenerationNotFound generation)
       else ok_or ShowManifest (bm_get (gr_files repo) generation))"

definition current_gen_manifest_contents :: "'env GenRepo \<Rightarrow> GenerationsError + 'env" where
  "current_gen_manifest_contents repo =
     and_then (ok_or NoGenerations (current_gen (gr_metadata repo))) (\<lambda>g. manifest_contents g repo)"

definition repo_add_generation ::
  "AddGenerationOptions \<Rightarrow> 'env \<Rightarrow> 'env GenRepo \<Rightarrow> (GenerationsError + unit) \<times> 'env GenRepo" where
  "repo_add_generation opts env repo =
     (let ((generation, history_item), metadata) = add_generation opts (gr_metadata repo)
      in case summary history_item of
           None \<Rightarrow> (Err GenerationsPanic, repo)
         | Some s \<Rightarrow>
             (Ok (), repo\<lparr> gr_metadata := metadata,
                           gr_files := bm_insert generation env (gr_files repo),
                           gr_log := gr_log repo @
                             [''Create generation '' @ show_nat generation @ [CHR 0x0A, CHR 0x0A] @ s] \<rparr>))"

definition set_current_generation ::
  "SwitchGenerationOptions \<Rightarrow> 'env GenRepo \<Rightarrow> (GenerationsError + unit) \<times> 'env GenRepo" where
  "set_current_generation opts repo =
     (case switch_generation opts (gr_metadata repo) of
        (Inl e, _) \<Rightarrow> (Err e, repo)
      | (Inr (_, history_item), metadata) \<Rightarrow>
          (case summary history_item of
             None \<Rightarrow> (Err GenerationsPanic, repo)
           | Some s \<Rightarrow>
               (Ok (), repo\<lparr> gr_metadata := metadata, gr_log := gr_log repo @ [s] \<rparr>)))"

section \<open>The invariant of the metadata\<close>

text \<open>
  The derived table exists, its keys are the numbers from 1 to the total, and the live
  generation is the only one without a \<open>last_live\<close> time. The last event names the previously
  live generation, which was in the table before it.
\<close>

definition table_inv :: "generation_table \<Rightarrow> nat \<Rightarrow> GenerationId option \<Rightarrow> bool" where
  "table_inv t n c \<longleftrightarrow>
     bm_inv t \<and> (\<forall>g. bm_get t g \<noteq> None \<longleftrightarrow> 1 \<le> g \<and> g \<le> n) \<and>
     (\<forall>g e. bm_get t g = Some e \<longrightarrow> (sg_last_live e = None \<longleftrightarrow> c = Some g))"

definition prev_inv :: "AllGenerationsMetadata \<Rightarrow> bool" where
  "prev_inv m \<longleftrightarrow>
     (2 \<le> agm_total m \<longrightarrow>
        (\<exists>p t0. hs_previous (last (agm_history m)) = Some p \<and>
               p \<noteq> hs_current (last (agm_history m)) \<and>
               generations_loop (butlast (agm_history m)) [] = Some t0 \<and>
               bm_inv t0 \<and> bm_get t0 p \<noteq> None))"

definition agm_inv :: "AllGenerationsMetadata \<Rightarrow> bool" where
  "agm_inv m \<longleftrightarrow>
     agm_total m \<le> usize_max \<and>
     (case current_gen m of None \<Rightarrow> agm_total m = 0 | Some c \<Rightarrow> 1 \<le> c \<and> c \<le> agm_total m) \<and>
     (\<exists>t. generations m = Some t \<and> table_inv t (agm_total m) (current_gen m)) \<and>
     prev_inv m"

lemma generations_loop_snoc:
  "generations_loop (xs @ [x]) t = Option.bind (generations_loop xs t) (generations_step x)"
  by (induction xs arbitrary: t) (auto split: bind_split)

lemma generations_snoc:
  "generations (m\<lparr> agm_history := agm_history m @ [x], agm_total := n \<rparr>) =
     Option.bind (generations m) (generations_step x)"
  "generations (m\<lparr> agm_history := agm_history m @ [x] \<rparr>) =
     Option.bind (generations m) (generations_step x)"
  by (simp_all add: generations_def generations_loop_snoc)

lemma set_last_live_Some:
  "set_last_live g t table = Some table' \<longleftrightarrow>
     (\<exists>e. bm_get table g = Some e \<and> table' = bm_insert g (e\<lparr> sg_last_live := t \<rparr>) table)"
  by (auto simp: set_last_live_def)

lemma metadata_default_inv: "agm_inv metadata_default"
  by (simp add: agm_inv_def metadata_default_def current_gen_def generations_def table_inv_def
      prev_inv_def)

lemma summary_not_switch: "hs_kind h \<noteq> SwitchGeneration \<Longrightarrow> \<exists>s. summary h = Some s"
  by (auto simp: summary_def split: HistoryKind.splits)

text \<open>What one event does to the table, when it names a generation of the table.\<close>

lemma generations_step_add:
  assumes "hs_kind spec \<noteq> SwitchGeneration" and "bm_inv t"
    and "\<And>p. hs_previous spec = Some p \<Longrightarrow> bm_get t p \<noteq> None \<and> p \<noteq> hs_current spec"
  obtains t' d where "generations_step spec t = Some t'" "bm_inv t'" "summary spec = Some d"
    "\<And>g. bm_get t' g =
       (if g = hs_current spec
        then Some \<lparr> sg_parent = hs_previous spec, sg_created = hs_timestamp spec,
                    sg_last_live = None, sg_description = d \<rparr>
        else if hs_previous spec = Some g
        then map_option (\<lambda>e. e\<lparr> sg_last_live := Some (hs_timestamp spec) \<rparr>) (bm_get t g)
        else bm_get t g)"
proof -
  obtain d where d: "summary spec = Some d"
    using summary_not_switch assms(1) by blast
  show thesis
  proof (cases "hs_previous spec")
    case None
    with d assms(1) have step: "generations_step spec t = Some (bm_insert (hs_current spec)
        \<lparr> sg_parent = None, sg_created = hs_timestamp spec, sg_last_live = None,
          sg_description = d \<rparr> t)"
      by (simp add: generations_step_def)
    show thesis
      by (rule that [OF step _ d]) (simp_all add: None assms(2) bm.inv_insert bm.get_insert)
  next
    case (Some p)
    then obtain e where e: "bm_get t p = Some e" "p \<noteq> hs_current spec"
      using assms(3) by auto
    with Some d assms(1) have step: "generations_step spec t = Some (bm_insert (hs_current spec)
        \<lparr> sg_parent = Some p, sg_created = hs_timestamp spec, sg_last_live = None,
          sg_description = d \<rparr> (bm_insert p (e\<lparr> sg_last_live := Some (hs_timestamp spec) \<rparr>) t))"
      by (simp add: generations_step_def set_last_live_def)
    show thesis
      by (rule that [OF step _ d]) (auto simp: Some e assms(2) bm.inv_insert bm.get_insert)
  qed
qed

lemma generations_step_switch:
  assumes "hs_kind spec = SwitchGeneration" and "bm_inv t" and "hs_previous spec = Some p"
    and "bm_get t p \<noteq> None" and "bm_get t (hs_current spec) \<noteq> None" and "p \<noteq> hs_current spec"
  obtains t' where "generations_step spec t = Some t'" "bm_inv t'"
    "\<And>g. bm_get t' g =
       (if g = hs_current spec then map_option (\<lambda>e. e\<lparr> sg_last_live := None \<rparr>) (bm_get t g)
        else if g = p
        then map_option (\<lambda>e. e\<lparr> sg_last_live := Some (hs_timestamp spec) \<rparr>) (bm_get t g)
        else bm_get t g)"
proof -
  obtain e f where ef: "bm_get t p = Some e" "bm_get t (hs_current spec) = Some f"
    using assms(4,5) by auto
  have step: "generations_step spec t = Some (bm_insert (hs_current spec) (f\<lparr> sg_last_live := None \<rparr>)
      (bm_insert p (e\<lparr> sg_last_live := Some (hs_timestamp spec) \<rparr>) t))"
    using assms ef by (simp add: generations_step_def set_last_live_def bm.get_insert)
  show thesis
    by (rule that [OF step]) (use ef assms(2,6) in \<open>auto simp: bm.inv_insert bm.get_insert\<close>)
qed

lemma add_generation_inv:
  assumes inv: "agm_inv m" and room: "agm_total m < usize_max"
    and kind: "ago_kind opts \<noteq> SwitchGeneration" and m': "m' = snd (add_generation opts m)"
  shows "agm_inv m'"
proof -
  obtain t where t: "generations m = Some t" "table_inv t (agm_total m) (current_gen m)"
    using inv by (auto simp: agm_inv_def)
  define n where "n = agm_total m + 1"
  define spec where "spec = \<lparr> hs_kind = ago_kind opts, hs_author = ago_author opts,
                   hs_hostname = ago_hostname opts, hs_command = parse_argv (ago_argv opts),
                   hs_timestamp = ago_timestamp opts, hs_current = n,
                   hs_previous = current_gen m \<rparr>"
  have m'_eq: "m' = m\<lparr> agm_history := agm_history m @ [spec], agm_total := n \<rparr>"
    using room by (simp add: m' add_generation_def spec_def n_def Let_def wrapping_add_no_overflow
        saturating_add_no_overflow)
  have cur: "1 \<le> p \<and> p \<le> agm_total m" if "current_gen m = Some p" for p
    using inv that by (simp add: agm_inv_def)
  have prev: "bm_get t p \<noteq> None \<and> p \<noteq> n" if "current_gen m = Some p" for p
    using cur [OF that] t(2) by (auto simp: table_inv_def n_def)
  have sp: "hs_kind spec = ago_kind opts" "hs_current spec = n" "hs_previous spec = current_gen m"
    "hs_timestamp spec = ago_timestamp opts"
    by (simp_all add: spec_def)
  have bm: "bm_inv t"
    using t(2) by (simp add: table_inv_def)
  obtain t' d where t': "generations_step spec t = Some t'" "bm_inv t'" "summary spec = Some d" and get:
    "\<And>g. bm_get t' g =
       (if g = n then Some \<lparr> sg_parent = current_gen m, sg_created = ago_timestamp opts,
                             sg_last_live = None, sg_description = d \<rparr>
        else if current_gen m = Some g
        then map_option (\<lambda>e. e\<lparr> sg_last_live := Some (ago_timestamp opts) \<rparr>) (bm_get t g)
        else bm_get t g)"
    using generations_step_add [of spec t, unfolded sp, OF kind bm prev] by blast
  have gen: "generations m' = Some t'"
    using t t' by (simp add: m'_eq generations_snoc)
  have keys: "bm_get t g \<noteq> None \<longleftrightarrow> 1 \<le> g \<and> g \<le> agm_total m" for g
    using t(2) by (simp add: table_inv_def)
  have "table_inv t' n (Some n)"
    unfolding table_inv_def
  proof (intro conjI allI impI)
    show "bm_inv t'" by fact
    show "bm_get t' g \<noteq> None \<longleftrightarrow> 1 \<le> g \<and> g \<le> n" for g
      using keys [of g] unfolding get by (auto simp: n_def)
    show "sg_last_live e = None \<longleftrightarrow> Some n = Some g" if "bm_get t' g = Some e" for g e
      using that t(2) unfolding get by (auto simp: table_inv_def split: if_splits)
  qed
  moreover have "prev_inv m'"
    unfolding prev_inv_def
  proof
    assume "2 \<le> agm_total m'"
    then obtain p where p: "current_gen m = Some p"
      using inv by (cases "current_gen m") (auto simp: agm_inv_def m'_eq n_def)
    then show "\<exists>p t0. hs_previous (last (agm_history m')) = Some p \<and>
               p \<noteq> hs_current (last (agm_history m')) \<and>
               generations_loop (butlast (agm_history m')) [] = Some t0 \<and>
               bm_inv t0 \<and> bm_get t0 p \<noteq> None"
      using prev [OF p] t by (auto simp: m'_eq spec_def generations_def table_inv_def)
  qed
  moreover have "current_gen m' = Some n" "agm_total m' = n"
    by (simp_all add: m'_eq current_gen_def spec_def)
  ultimately show ?thesis
    using gen room by (auto simp: agm_inv_def n_def)
qed

lemma switch_generation_inv:
  assumes inv: "agm_inv m" and sw: "switch_generation opts m = (Inr r, m')"
    and pos: "sgo_next opts \<noteq> 0"
  shows "agm_inv m'"
proof -
  obtain t where t: "generations m = Some t" "table_inv t (agm_total m) (current_gen m)"
    using inv by (auto simp: agm_inv_def)
  define n where "n = sgo_next opts"
  obtain c where c: "current_gen m = Some c" "n \<noteq> c" "n \<le> agm_total m"
    using sw by (auto simp: switch_generation_def n_def Let_def split: option.splits if_splits)
  define spec where "spec = \<lparr> hs_kind = SwitchGeneration, hs_author = sgo_author opts,
                   hs_hostname = sgo_hostname opts, hs_command = parse_argv (sgo_argv opts),
                   hs_timestamp = sgo_timestamp opts, hs_current = n, hs_previous = Some c \<rparr>"
  have m'_eq: "m' = m\<lparr> agm_history := agm_history m @ [spec] \<rparr>"
    using sw c by (auto simp: switch_generation_def spec_def n_def Let_def split: if_splits)
  have sp: "hs_kind spec = SwitchGeneration" "hs_current spec = n" "hs_previous spec = Some c"
    "hs_timestamp spec = sgo_timestamp opts"
    by (simp_all add: spec_def)
  have bm: "bm_inv t" and keys: "\<And>g. bm_get t g \<noteq> None \<longleftrightarrow> 1 \<le> g \<and> g \<le> agm_total m"
    using t(2) by (simp_all add: table_inv_def)
  have cn: "bm_get t c \<noteq> None" "bm_get t n \<noteq> None"
    using inv c pos keys by (auto simp: agm_inv_def n_def)
  obtain t' where t': "generations_step spec t = Some t'" "bm_inv t'" and get:
    "\<And>g. bm_get t' g =
       (if g = n then map_option (\<lambda>e. e\<lparr> sg_last_live := None \<rparr>) (bm_get t g)
        else if g = c
        then map_option (\<lambda>e. e\<lparr> sg_last_live := Some (sgo_timestamp opts) \<rparr>) (bm_get t g)
        else bm_get t g)"
    using generations_step_switch [of spec t, unfolded sp, OF refl bm refl cn] c(2) by blast
  have gen: "generations m' = Some t'"
    using t t' by (simp add: m'_eq generations_snoc)
  have "table_inv t' (agm_total m) (Some n)"
    unfolding table_inv_def
  proof (intro conjI allI impI)
    show "bm_inv t'" by fact
    show "bm_get t' g \<noteq> None \<longleftrightarrow> 1 \<le> g \<and> g \<le> agm_total m" for g
      using keys [of g] unfolding get by auto
    show "sg_last_live e = None \<longleftrightarrow> Some n = Some g" if "bm_get t' g = Some e" for g e
      using that t(2) c(1) unfolding get by (auto simp: table_inv_def split: if_splits)
  qed
  moreover have "prev_inv m'"
    using t bm cn(1) c(2) sp by (auto simp: prev_inv_def m'_eq generations_def)
  moreover have "current_gen m' = Some n" "agm_total m' = agm_total m"
    by (simp_all add: m'_eq current_gen_def spec_def)
  ultimately show ?thesis
    using gen inv pos c by (auto simp: agm_inv_def n_def)
qed

section \<open>Rolling back to the previously live generation\<close>

lemma sort_key_last:
  assumes "x \<in> set xs" and "\<And>y. y \<in> set xs \<Longrightarrow> y \<noteq> x \<Longrightarrow> f y < f x"
  shows "last (sort_key f xs) = x"
proof (rule ccontr)
  define ys where "ys = sort_key f xs"
  assume "last (sort_key f xs) \<noteq> x"
  then have ne: "last ys \<noteq> x"
    by (simp add: ys_def)
  have set: "set ys = set xs"
    by (simp add: ys_def)
  then have "ys \<noteq> []"
    using assms(1) by auto
  then have split: "butlast ys @ [last ys] = ys"
    by simp
  have "f (last ys) < f x"
    using assms(2) ne set \<open>ys \<noteq> []\<close> last_in_set by blast
  moreover have "sorted (map f (butlast ys @ [last ys]))"
    unfolding split by (simp add: ys_def)
  then have "\<forall>y \<in> set (butlast ys). f y \<le> f (last ys)"
    by (simp add: sorted_append del: append_butlast_last_id)
  moreover have "x \<in> set (butlast ys @ [last ys])"
    unfolding split using assms(1) set by simp
  then have "x \<in> set (butlast ys)"
    using ne by (simp del: append_butlast_last_id)
  ultimately show False
    by fastforce
qed

text \<open>Every \<open>last_live\<close> time in the table is the time of an event.\<close>

lemma set_last_live_get:
  "bm_inv t \<Longrightarrow> set_last_live p x t = Some t' \<Longrightarrow>
   bm_inv t' \<and> (\<forall>g e. bm_get t' g = Some e \<longrightarrow> g \<noteq> p \<longrightarrow> bm_get t g = Some e) \<and>
   (\<forall>e. bm_get t' p = Some e \<longrightarrow> sg_last_live e = x)"
  by (auto simp: set_last_live_Some bm.inv_insert bm.get_insert)

lemma generations_step_last_live:
  assumes "bm_inv t" and "generations_step spec t = Some t'"
  shows "bm_inv t'"
    and "bm_get t' g = Some e \<Longrightarrow>
         sg_last_live e = None \<or>
         hs_previous spec = Some g \<and> sg_last_live e = Some (hs_timestamp spec) \<or>
         hs_previous spec \<noteq> Some g \<and> bm_get t g = Some e"
proof -
  have "bm_inv t' \<and> (bm_get t' g = Some e \<longrightarrow> sg_last_live e = None \<or>
         hs_previous spec = Some g \<and> sg_last_live e = Some (hs_timestamp spec) \<or>
         hs_previous spec \<noteq> Some g \<and> bm_get t g = Some e)"
  proof (cases "hs_kind spec = SwitchGeneration")
    case True
    then obtain p t1 where p: "hs_previous spec = Some p"
      and t1: "set_last_live p (Some (hs_timestamp spec)) t = Some t1"
      and t': "set_last_live (hs_current spec) None t1 = Some t'"
      using assms(2) by (auto simp: generations_step_def split: bind_splits)
    note 1 = set_last_live_get [OF assms(1) t1]
    note 2 = set_last_live_get [OF conjunct1 [OF 1] t']
    have "bm_get t' g = Some e \<Longrightarrow> g = hs_current spec \<Longrightarrow> sg_last_live e = None"
      using 2 by blast
    moreover have "bm_get t' g = Some e \<Longrightarrow> g \<noteq> hs_current spec \<Longrightarrow> bm_get t1 g = Some e"
      using 2 by blast
    moreover have "bm_get t1 g = Some e \<Longrightarrow> g = p \<Longrightarrow> sg_last_live e = Some (hs_timestamp spec)"
      using 1 by blast
    moreover have "bm_get t1 g = Some e \<Longrightarrow> g \<noteq> p \<Longrightarrow> bm_get t g = Some e"
      using 1 by blast
    ultimately show ?thesis
      using conjunct1 [OF 2] unfolding p option.inject by argo
  next
    case False
    then obtain t1 d where t1: "t' = bm_insert (hs_current spec)
        \<lparr> sg_parent = hs_previous spec, sg_created = hs_timestamp spec, sg_last_live = None,
          sg_description = d \<rparr> t1"
      "t1 = (case Option.bind (hs_previous spec) (\<lambda>prev. set_last_live prev (Some (hs_timestamp spec)) t)
             of None \<Rightarrow> t | Some t \<Rightarrow> t)"
      using assms(2) by (auto simp: generations_step_def Let_def split: bind_splits)
    have "bm_inv t1 \<and> (bm_get t1 g = Some e \<longrightarrow> hs_previous spec \<noteq> Some g \<and> bm_get t g = Some e \<or>
        hs_previous spec = Some g \<and> sg_last_live e = Some (hs_timestamp spec))"
    proof (cases "Option.bind (hs_previous spec) (\<lambda>prev. set_last_live prev (Some (hs_timestamp spec)) t)")
      case None
      then show ?thesis
        using t1(2) assms(1) by (auto simp: set_last_live_def split: bind_splits)
    next
      case (Some t2)
      then obtain p where "hs_previous spec = Some p" "set_last_live p (Some (hs_timestamp spec)) t = Some t2"
        by (auto split: bind_splits)
      with Some t1(2) show ?thesis
        using set_last_live_get [OF assms(1)] by (metis option.simps(5))
    qed
    then show ?thesis
      by (auto simp: t1(1) bm.inv_insert bm.get_insert)
  qed
  then show "bm_inv t'" and "bm_get t' g = Some e \<Longrightarrow>
         sg_last_live e = None \<or>
         hs_previous spec = Some g \<and> sg_last_live e = Some (hs_timestamp spec) \<or>
         hs_previous spec \<noteq> Some g \<and> bm_get t g = Some e"
    by simp_all
qed

lemma generations_step_keys:
  assumes "bm_inv t" and "generations_step spec t = Some t'" and "bm_get t g \<noteq> None"
  shows "bm_get t' g \<noteq> None"
  using assms
  by (auto simp: generations_step_def Let_def set_last_live_Some bm.inv_insert bm.get_insert
      split: if_splits bind_splits option.splits)

lemma last_live_is_event_time:
  "generations_loop h [] = Some t \<Longrightarrow>
   bm_inv t \<and> (\<forall>g e l. bm_get t g = Some e \<longrightarrow> sg_last_live e = Some l \<longrightarrow> l \<in> hs_timestamp ` set h)"
proof (induction h arbitrary: t rule: rev_induct)
  case (snoc spec h)
  then obtain t0 where t0: "generations_loop h [] = Some t0" "generations_step spec t0 = Some t"
    by (auto simp: generations_loop_snoc split: bind_splits)
  have bm: "bm_inv t0" and old: "\<And>g e l. bm_get t0 g = Some e \<Longrightarrow> sg_last_live e = Some l \<Longrightarrow>
      l \<in> hs_timestamp ` set h"
    using snoc.IH [OF t0(1)] by auto
  show ?case
    using generations_step_last_live [OF bm t0(2)] old by fastforce
qed simp

lemma table_length:
  assumes "table_inv t n c"
  shows "length t = n"
proof -
  have "set (map fst t) = dom (bm_get t)"
    by (simp add: dom_map_of_conv_image_fst)
  also have "\<dots> = {1..n}"
    using assms by (auto simp: table_inv_def)
  finally have "set (map fst t) = {1..n}" .
  moreover have "distinct (map fst t)"
    using assms bm.entries_distinct by (auto simp: table_inv_def)
  ultimately show ?thesis
    using distinct_card by fastforce
qed

lemma determine_previous_generation_eq:
  assumes inv: "agm_inv m" and times: "sorted_wrt (<) (map hs_timestamp (agm_history m))"
    and two: "2 \<le> agm_total m"
  obtains p e where "determine_previous_generation m = Some (Some (p, e))"
    "hs_previous (last (agm_history m)) = Some p" "1 \<le> p" "p \<le> agm_total m"
    "current_gen m \<noteq> Some p"
proof -
  obtain t where t: "generations m = Some t" "table_inv t (agm_total m) (current_gen m)"
    using inv by (auto simp: agm_inv_def)
  define spec where "spec = last (agm_history m)"
  obtain p t0 where p: "hs_previous spec = Some p" "p \<noteq> hs_current spec"
    "generations_loop (butlast (agm_history m)) [] = Some t0" "bm_inv t0" "bm_get t0 p \<noteq> None"
    using inv two by (auto simp: agm_inv_def prev_inv_def spec_def)
  have ne: "agm_history m \<noteq> []"
    using inv two by (auto simp: agm_inv_def current_gen_def)
  then have hist: "agm_history m = butlast (agm_history m) @ [spec]"
    by (simp add: spec_def)
  have step: "generations_step spec t0 = Some t"
    using t(1) p(3) unfolding generations_def by (subst (asm) hist) (simp add: generations_loop_snoc)
  have cur: "current_gen m = Some (hs_current spec)"
    using ne by (simp add: current_gen_def spec_def)
  obtain e where e: "bm_get t p = Some e"
    using generations_step_keys [OF p(4) step p(5)] by auto
  have "sg_last_live e \<noteq> None"
    using t(2) e cur p(2) by (auto simp: table_inv_def)
  then have live: "sg_last_live e = Some (hs_timestamp spec)"
    using generations_step_last_live(2) [OF p(4) step e] p(1) by auto
  have earlier: "l < hs_timestamp spec" if "l \<in> hs_timestamp ` set (butlast (agm_history m))" for l
    using times that by (subst (asm) hist) (auto simp: sorted_wrt_append)
  have entries: "(g, f) \<in> set t \<longleftrightarrow> bm_get t g = Some f" for g f
    using t(2) by (intro bm.entries_iff) (simp add: table_inv_def)
  have "sg_last_live (snd y) < sg_last_live (snd (p, e))" if y: "y \<in> set t" "y \<noteq> (p, e)" for y
  proof -
    obtain g e' where g: "y = (g, e')"
      by (cases y)
    then have g': "bm_get t g = Some e'"
      using y(1) entries by simp
    then have "g \<noteq> p"
      using y(2) g e by auto
    then have "sg_last_live e' = None \<or> bm_get t0 g = Some e'"
      using generations_step_last_live(2) [OF p(4) step g'] p(1) by auto
    then show ?thesis
      using last_live_is_event_time [OF p(3)] earlier g live
      by (cases "sg_last_live e'") auto
  qed
  moreover have "(p, e) \<in> set t"
    using e entries by simp
  ultimately have "last (sort_key (\<lambda>e. sg_last_live (snd e)) t) = (p, e)"
    by (intro sort_key_last) auto
  then have "determine_previous_generation m = Some (Some (p, e))"
    using t two table_length [OF t(2)] by (simp add: determine_previous_generation_def)
  moreover have "1 \<le> p \<and> p \<le> agm_total m"
    using e t(2) by (auto simp: table_inv_def)
  ultimately show thesis
    using that p(1,2) cur by (simp add: spec_def)
qed

section \<open>Migrating the first format\<close>

text \<open>What of an entry no later event changes: when it was created and its description.\<close>

definition entry_view :: "SingleGenerationMetadata \<Rightarrow> int \<times> string" where
  "entry_view e = (sg_created e, sg_description e)"

definition entry_of :: "AllGenerationsMetadata \<Rightarrow> GenerationId \<Rightarrow> (int \<times> string) option" where
  "entry_of m g = Option.bind (generations m) (\<lambda>t. map_option entry_view (bm_get t g))"

lemma set_last_live_view:
  "bm_inv t \<Longrightarrow> set_last_live p x t = Some t' \<Longrightarrow>
   map_option entry_view (bm_get t' g) = map_option entry_view (bm_get t g)"
  by (auto simp: set_last_live_Some bm.get_insert entry_view_def)

lemma generations_step_view:
  assumes "bm_inv t" and "generations_step spec t = Some t'"
  shows "map_option entry_view (bm_get t' g) =
    (if hs_kind spec \<noteq> SwitchGeneration \<and> g = hs_current spec
     then Some (hs_timestamp spec, the (summary spec))
     else map_option entry_view (bm_get t g))"
proof (cases "hs_kind spec = SwitchGeneration")
  case True
  then obtain p t1 where t1: "set_last_live p (Some (hs_timestamp spec)) t = Some t1"
    and t': "set_last_live (hs_current spec) None t1 = Some t'"
    using assms(2) by (auto simp: generations_step_def split: bind_splits)
  have "bm_inv t1"
    using set_last_live_get [OF assms(1) t1] by blast
  then show ?thesis
    using True set_last_live_view [OF assms(1) t1, of g] set_last_live_view [OF _ t', of g] by simp
next
  case False
  then obtain t1 d where t': "t' = bm_insert (hs_current spec)
      \<lparr> sg_parent = hs_previous spec, sg_created = hs_timestamp spec, sg_last_live = None,
        sg_description = d \<rparr> t1" and d: "summary spec = Some d"
    and t1: "t1 = (case Option.bind (hs_previous spec) (\<lambda>prev. set_last_live prev (Some (hs_timestamp spec)) t)
           of None \<Rightarrow> t | Some t \<Rightarrow> t)"
    using assms(2) by (auto simp: generations_step_def Let_def split: bind_splits)
  have "bm_inv t1 \<and> map_option entry_view (bm_get t1 g) = map_option entry_view (bm_get t g)"
  proof (cases "Option.bind (hs_previous spec) (\<lambda>prev. set_last_live prev (Some (hs_timestamp spec)) t)")
    case (Some t2)
    then obtain p where p: "set_last_live p (Some (hs_timestamp spec)) t = Some t2"
      by (auto split: bind_splits)
    show ?thesis
      using Some t1 set_last_live_get [OF assms(1) p] set_last_live_view [OF assms(1) p, of g] by simp
  qed (simp add: t1 assms(1))
  then show ?thesis
    using False d by (simp add: t' bm.get_insert entry_view_def)
qed

lemma entry_of_snoc:
  assumes "agm_inv m" and "generations (m\<lparr> agm_history := agm_history m @ [spec], agm_total := n \<rparr>) \<noteq> None"
  shows "entry_of (m\<lparr> agm_history := agm_history m @ [spec], agm_total := n \<rparr>) g =
    (if hs_kind spec \<noteq> SwitchGeneration \<and> g = hs_current spec
     then Some (hs_timestamp spec, the (summary spec)) else entry_of m g)"
proof -
  obtain t t' where "generations m = Some t" "bm_inv t" "generations_step spec t = Some t'"
    using assms by (auto simp: agm_inv_def table_inv_def generations_snoc)
  then show ?thesis
    by (simp add: entry_of_def generations_snoc generations_step_view)
qed

lemma migrate_add:
  assumes inv: "agm_inv dest" and room: "agm_total dest < usize_max"
    and dest': "dest' = snd (add_generation (migrate_add_options x) dest)"
  shows "agm_inv dest'" and "agm_total dest' = agm_total dest + 1"
    and "current_gen dest' = Some (agm_total dest + 1)"
    and "entry_of dest' g = (if g = agm_total dest + 1
           then Some (v1_created x, v1_description x @ '' [metadata migrated]'') else entry_of dest g)"
proof -
  show inv': "agm_inv dest'"
    using add_generation_inv [OF inv room _ dest'] by (simp add: migrate_add_options_def)
  define spec where "spec = \<lparr> hs_kind = MigrateV1 (v1_description x), hs_author = ''unknown'',
                   hs_hostname = ''unknown'', hs_command = None, hs_timestamp = v1_created x,
                   hs_current = agm_total dest + 1, hs_previous = current_gen dest \<rparr>"
  have eq: "dest' = dest\<lparr> agm_history := agm_history dest @ [spec], agm_total := agm_total dest + 1 \<rparr>"
    using room by (simp add: dest' add_generation_def migrate_add_options_def spec_def Let_def
        parse_argv_def wrapping_add_no_overflow saturating_add_no_overflow)
  then show "agm_total dest' = agm_total dest + 1" "current_gen dest' = Some (agm_total dest + 1)"
    by (simp_all add: current_gen_def spec_def)
  have "generations dest' \<noteq> None"
    using inv' by (auto simp: agm_inv_def)
  then show "entry_of dest' g = (if g = agm_total dest + 1
           then Some (v1_created x, v1_description x @ '' [metadata migrated]'') else entry_of dest g)"
    using entry_of_snoc [OF inv, where spec = spec and n = "agm_total dest + 1" and g = g]
    by (simp add: eq) (simp add: spec_def summary_def)
qed

lemma migrate_v1_loop_ok:
  assumes "migrate_v1_loop index gens dest = Ok dest'" and "agm_inv dest"
    and "agm_total dest = index" and "index + length gens \<le> usize_max"
  shows "agm_inv dest' \<and> agm_total dest' = index + length gens \<and>
    map fst gens = [index + 1 ..< index + 1 + length gens] \<and>
    (gens \<noteq> [] \<longrightarrow> current_gen dest' = Some (index + length gens)) \<and> (gens = [] \<longrightarrow> dest' = dest) \<and>
    (\<forall>g. entry_of dest' g = (case map_of gens g of
        Some x \<Rightarrow> Some (v1_created x, v1_description x @ '' [metadata migrated]'')
      | None \<Rightarrow> entry_of dest g))"
  using assms
proof (induction index gens dest rule: migrate_v1_loop.induct)
  case (2 index generation_id x rest dest)
  let ?d = "snd (add_generation (migrate_add_options x) dest)"
  have id: "generation_id = index + 1" and loop: "migrate_v1_loop (index + 1) rest ?d = Ok dest'"
    using 2(2) by (auto split: if_splits)
  have room: "agm_total dest < usize_max"
    using 2(4,5) by simp
  note add = migrate_add [OF 2(3) room refl]
  have IH: "agm_inv dest' \<and> agm_total dest' = index + 1 + length rest \<and>
    map fst rest = [index + 1 + 1 ..< index + 1 + 1 + length rest] \<and>
    (rest \<noteq> [] \<longrightarrow> current_gen dest' = Some (index + 1 + length rest)) \<and> (rest = [] \<longrightarrow> dest' = ?d) \<and>
    (\<forall>g. entry_of dest' g = (case map_of rest g of
        Some x \<Rightarrow> Some (v1_created x, v1_description x @ '' [metadata migrated]'')
      | None \<Rightarrow> entry_of ?d g))"
    using 2(1) [OF _ loop add(1)] id 2(4,5) add(2) by simp
  have notin: "index + 1 \<notin> set (map fst rest)"
    using IH by auto
  have "map_of rest (index + 1) = None"
    using notin by (simp add: map_of_eq_None_iff)
  then have "entry_of dest' g = (case map_of ((generation_id, x) # rest) g of
        Some x \<Rightarrow> Some (v1_created x, v1_description x @ '' [metadata migrated]'')
      | None \<Rightarrow> entry_of dest g)" for g
    using IH add(4) [of x g] 2(4) id by (auto split: option.splits)
  moreover have "map fst ((generation_id, x) # rest) = [index + 1 ..< index + 1 + length ((generation_id, x) # rest)]"
    using IH id by (simp add: upt_conv_Cons del: upt_Suc)
  moreover have "current_gen dest' = Some (index + length ((generation_id, x) # rest))"
    using IH add(3) [of x] 2(4) by (cases "rest = []") auto
  ultimately show ?case
    using IH by simp
qed simp

lemma entry_of_switch:
  assumes "agm_inv m" and sw: "switch_generation opts m = (Inr r, m')" and "sgo_next opts \<noteq> 0"
  shows "entry_of m' g = entry_of m g" and "agm_total m' = agm_total m"
    and "current_gen m' = Some (sgo_next opts)"
proof -
  obtain spec where m': "m' = m\<lparr> agm_history := agm_history m @ [spec], agm_total := agm_total m \<rparr>"
    and spec: "hs_kind spec = SwitchGeneration" "hs_current spec = sgo_next opts"
    using sw by (auto simp: switch_generation_def Let_def split: option.splits if_splits)
  have gen: "generations m' \<noteq> None"
    using switch_generation_inv [OF assms] by (auto simp: agm_inv_def)
  have "entry_of m' g = (if hs_kind spec \<noteq> SwitchGeneration \<and> g = hs_current spec
     then Some (hs_timestamp spec, the (summary spec)) else entry_of m g)"
    unfolding m' by (rule entry_of_snoc [OF assms(1) gen [unfolded m']])
  then show "entry_of m' g = entry_of m g"
    using spec by simp
  show "agm_total m' = agm_total m" "current_gen m' = Some (sgo_next opts)"
    by (simp_all add: m' current_gen_def spec(2))
qed

lemma migrate_v1_result:
  assumes bound: "length (v1_generations v) \<le> usize_max"
  shows "migrate_v1 v \<noteq> Err GenerationsPanic" and
    "migrate_v1 v = Ok m \<Longrightarrow> agm_inv m \<and> agm_total m = length (v1_generations v) \<and>
       current_gen m = v1_current_gen v \<and>
       (\<forall>g. entry_of m g = map_option
          (\<lambda>x. (v1_created x, v1_description x @ '' [metadata migrated]'')) (bm_get (v1_generations v) g))"
proof -
  let ?gens = "v1_generations v"
  have "migrate_v1 v \<noteq> Err GenerationsPanic \<and>
    (migrate_v1 v = Ok m \<longrightarrow> agm_inv m \<and> agm_total m = length ?gens \<and> current_gen m = v1_current_gen v \<and>
       (\<forall>g. entry_of m g = map_option
          (\<lambda>x. (v1_created x, v1_description x @ '' [metadata migrated]'')) (bm_get ?gens g)))"
  proof (cases "migrate_v1_loop 0 ?gens metadata_default")
    case (Inl e)
    have "migrate_v1_loop i gs d \<noteq> Err GenerationsPanic" for i gs d
      by (induction i gs d rule: migrate_v1_loop.induct) auto
    with Inl show ?thesis
      by (auto simp: migrate_v1_def)
  next
    case (Inr dest)
    have none: "entry_of metadata_default g = None" for g
      by (simp add: entry_of_def generations_def metadata_default_def)
    have total: "agm_total metadata_default = 0"
      by (simp add: metadata_default_def)
    have loop: "agm_inv dest" "agm_total dest = length ?gens" "map fst ?gens = [1 ..< 1 + length ?gens]"
      "?gens \<noteq> [] \<Longrightarrow> current_gen dest = Some (length ?gens)" "?gens = [] \<Longrightarrow> dest = metadata_default"
      "\<And>g. entry_of dest g = map_option
          (\<lambda>x. (v1_created x, v1_description x @ '' [metadata migrated]'')) (bm_get ?gens g)"
      using migrate_v1_loop_ok [OF Inr metadata_default_inv] bound total
      by (auto simp: none map_option_case simp del: upt_Suc split: option.splits)
    show ?thesis
    proof (cases "v1_current_gen v")
      case None
      then show ?thesis
        using Inr by (simp add: migrate_v1_def)
    next
      case (Some original)
      show ?thesis
      proof (cases "Some original = current_gen dest")
        case True
        then have "migrate_v1 v = Ok dest"
          using Inr by (simp add: migrate_v1_def Some True [symmetric])
        then show ?thesis
          using Some True loop(1,2,6) by auto
      next
        case False
        show ?thesis
        proof (cases "Option.bind (bm_get ?gens original) v1_last_active")
          case None
          then show ?thesis
            using Inr Some False
            by (cases "bm_get ?gens original") (auto simp: migrate_v1_def)
        next
          case (Some t)
          then obtain x where x: "bm_get ?gens original = Some x" "v1_last_active x = Some t"
            by (auto split: bind_splits)
          have "original \<in> set (map fst ?gens)"
            using x(1) by (auto dest: map_of_SomeD intro: rev_image_eqI)
          then have pos: "original \<noteq> 0" "original \<le> length ?gens" "?gens \<noteq> []"
            using loop(3) by auto
          let ?opts = "\<lparr> sgo_author = ''unknown'', sgo_hostname = ''unknown'', sgo_argv = [],
                           sgo_timestamp = t, sgo_next = original \<rparr>"
          obtain r m' where sw: "switch_generation ?opts dest = (Inr r, m')"
            using pos loop(2) loop(4) False by (auto simp: switch_generation_def Let_def)
          have "migrate_v1 v = Ok m'"
            using Inr \<open>v1_current_gen v = Some original\<close> False x sw by (simp add: migrate_v1_def)
          moreover have "sgo_next ?opts \<noteq> 0"
            using pos by simp
          ultimately show ?thesis
            using switch_generation_inv [OF loop(1) sw] entry_of_switch [OF loop(1) sw] loop(2,6)
              \<open>v1_current_gen v = Some original\<close>
            by auto
        qed
      qed
    qed
  qed
  then show "migrate_v1 v \<noteq> Err GenerationsPanic" and
    "migrate_v1 v = Ok m \<Longrightarrow> agm_inv m \<and> agm_total m = length (v1_generations v) \<and>
       current_gen m = v1_current_gen v \<and>
       (\<forall>g. entry_of m g = map_option
          (\<lambda>x. (v1_created x, v1_description x @ '' [metadata migrated]'')) (bm_get (v1_generations v) g))"
    by blast+
qed

section \<open>Histories\<close>

text \<open>
  The ways the program changes the metadata of an environment. \<open>switch_generation\<close> checks its
  target against the total only, so an event can record a switch to generation 0; the history
  of the environment is then \<open>zeroed\<close>, and stays so.
\<close>

inductive metadata_step :: "AllGenerationsMetadata \<Rightarrow> AllGenerationsMetadata \<Rightarrow> bool" where
  add: "agm_total m < usize_max \<Longrightarrow> ago_kind opts \<noteq> SwitchGeneration \<Longrightarrow>
          metadata_step m (snd (add_generation opts m))"
| switch: "switch_generation opts m = (Inr r, m') \<Longrightarrow> metadata_step m m'"

definition zeroed :: "AllGenerationsMetadata \<Rightarrow> bool" where
  "zeroed m \<longleftrightarrow> 0 \<in> hs_current ` set (agm_history m)"

text \<open>No event that adds a generation adds generation 0.\<close>

definition added_pos :: "HistorySpec list \<Rightarrow> bool" where
  "added_pos h \<longleftrightarrow> (\<forall>spec \<in> set h. hs_kind spec \<noteq> SwitchGeneration \<longrightarrow> hs_current spec \<noteq> 0)"

definition metadata_inv :: "AllGenerationsMetadata \<Rightarrow> bool" where
  "metadata_inv m \<longleftrightarrow> added_pos (agm_history m) \<and> (zeroed m \<or> agm_inv m)"

lemma set_last_live_none: "bm_get t p = None \<Longrightarrow> set_last_live p x t = None"
  by (simp add: set_last_live_def)

lemma derived_not_zeroed:
  "generations_loop h [] = Some t \<Longrightarrow> added_pos h \<Longrightarrow>
   bm_get t 0 = None \<and> 0 \<notin> hs_current ` set h"
proof (induction h arbitrary: t rule: rev_induct)
  case (snoc spec h)
  then obtain t0 where t0: "generations_loop h [] = Some t0" "generations_step spec t0 = Some t"
    by (auto simp: generations_loop_snoc split: bind_splits)
  have pos: "added_pos h" "hs_kind spec \<noteq> SwitchGeneration \<Longrightarrow> hs_current spec \<noteq> 0"
    using snoc.prems(2) by (simp_all add: added_pos_def)
  have IH: "bm_get t0 0 = None" "0 \<notin> hs_current ` set h"
    using snoc.IH [OF t0(1) pos(1)] by simp_all
  have bm: "bm_inv t0"
    using last_live_is_event_time [OF t0(1)] by simp
  have view: "map_option entry_view (bm_get t 0) = None"
    using generations_step_view [OF bm t0(2), of 0] pos(2) IH(1) by (auto split: if_splits)
  have "hs_current spec \<noteq> 0"
  proof (cases "hs_kind spec = SwitchGeneration")
    case True
    then obtain p t1 where t1: "set_last_live p (Some (hs_timestamp spec)) t0 = Some t1"
      "set_last_live (hs_current spec) None t1 = Some t"
      using t0(2) by (auto simp: generations_step_def split: bind_splits)
    have "bm_get t1 0 = None"
      using set_last_live_view [OF bm t1(1), of 0] IH(1) by simp
    with t1(2) show ?thesis
      by (cases "hs_current spec = 0") (simp_all add: set_last_live_none)
  qed (rule pos(2))
  with view IH(2) show ?case
    by auto
qed simp

lemma zeroed_generations: "added_pos (agm_history m) \<Longrightarrow> zeroed m \<Longrightarrow> generations m = None"
  using derived_not_zeroed [of "agm_history m"] by (cases "generations m") (auto simp: zeroed_def generations_def)

lemma generations_step_current:
  assumes "bm_inv t" and "generations_step spec t = Some t'"
  shows "bm_get t' (hs_current spec) \<noteq> None"
  using assms
  by (auto simp: generations_step_def Let_def set_last_live_Some bm.inv_insert bm.get_insert
      split: if_splits bind_splits option.splits)

lemma derived_events:
  "generations_loop h [] = Some t \<Longrightarrow> spec \<in> set h \<Longrightarrow> bm_get t (hs_current spec) \<noteq> None"
proof (induction h arbitrary: t rule: rev_induct)
  case (snoc spec' h)
  then obtain t0 where t0: "generations_loop h [] = Some t0" "generations_step spec' t0 = Some t"
    by (auto simp: generations_loop_snoc split: bind_splits)
  have bm: "bm_inv t0"
    using last_live_is_event_time [OF t0(1)] by simp
  show ?case
  proof (cases "spec = spec'")
    case True
    then show ?thesis
      using generations_step_current [OF bm t0(2)] by simp
  next
    case False
    then have "bm_get t0 (hs_current spec) \<noteq> None"
      using snoc.IH [OF t0(1)] snoc.prems(2) by simp
    then show ?thesis
      by (rule generations_step_keys [OF bm t0(2)])
  qed
qed simp

lemma agm_inv_not_zeroed:
  assumes "agm_inv m"
  shows "\<not> zeroed m"
proof
  assume "zeroed m"
  then obtain spec where spec: "spec \<in> set (agm_history m)" "hs_current spec = 0"
    by (auto simp: zeroed_def)
  obtain t where t: "generations m = Some t" "table_inv t (agm_total m) (current_gen m)"
    using assms by (auto simp: agm_inv_def)
  then have "bm_get t 0 \<noteq> None"
    using derived_events [of "agm_history m" t spec] spec by (simp add: generations_def)
  then show False
    using t(2) by (auto simp: table_inv_def)
qed

lemma metadata_inv_cases:
  assumes "metadata_inv m"
  shows "zeroed m \<Longrightarrow> generations m = None" and "\<not> zeroed m \<Longrightarrow> agm_inv m"
    and "agm_inv m \<Longrightarrow> \<not> zeroed m"
  using assms zeroed_generations [of m] by (auto simp: metadata_inv_def agm_inv_def)

lemma metadata_inv_intro:
  assumes "agm_inv m" and "added_pos (agm_history m)"
  shows "metadata_inv m"
  using assms by (simp add: metadata_inv_def)

lemma switch_generation_snoc:
  assumes "switch_generation opts m = (Inr r, m')"
  obtains spec where "m' = m\<lparr> agm_history := agm_history m @ [spec] \<rparr>"
    "hs_kind spec = SwitchGeneration" "hs_current spec = sgo_next opts"
  using assms by (auto simp: switch_generation_def Let_def split: option.splits if_splits)

lemma add_generation_snoc:
  assumes "agm_total m < usize_max"
  obtains spec where "agm_history (snd (add_generation opts m)) = agm_history m @ [spec]"
    "agm_total (snd (add_generation opts m)) = agm_total m + 1"
    "hs_kind spec = ago_kind opts" "hs_current spec = agm_total m + 1"
  using assms by (auto simp: add_generation_def Let_def wrapping_add_no_overflow saturating_add_no_overflow)

lemma metadata_inv_step:
  assumes inv: "metadata_inv m" and step: "metadata_step m m'"
  shows "metadata_inv m'" and "zeroed m \<Longrightarrow> zeroed m'"
proof -
  have "metadata_inv m' \<and> (zeroed m \<longrightarrow> zeroed m')"
    using step
  proof cases
    case (add opts)
    obtain spec where "agm_history m' = agm_history m @ [spec]" "hs_current spec = agm_total m + 1"
      using add_generation_snoc [OF add(2), of opts] add(1) by metis
    with add inv show ?thesis
      using add_generation_inv [OF _ add(2,3) add(1), of]
      by (auto simp: metadata_inv_def zeroed_def added_pos_def)
  next
    case (switch opts r)
    obtain spec where "m' = m\<lparr> agm_history := agm_history m @ [spec] \<rparr>"
      "hs_kind spec = SwitchGeneration" "hs_current spec = sgo_next opts"
      using switch_generation_snoc [OF switch] by metis
    with inv show ?thesis
      using switch_generation_inv [OF _ switch]
      by (cases "sgo_next opts = 0") (auto simp: metadata_inv_def zeroed_def added_pos_def)
  qed
  then show "metadata_inv m'" and "zeroed m \<Longrightarrow> zeroed m'"
    by blast+
qed

interpretation metadata: transition_system "\<lambda>m. m = metadata_default" metadata_step metadata_inv
proof unfold_locales
  show "metadata_inv m'" if "metadata_inv m" "metadata_step m m'" for m m'
    using metadata_inv_step(1) [OF that] .
  have "added_pos (agm_history metadata_default)"
    by (simp add: added_pos_def metadata_default_def)
  then show "metadata_inv m" if "m = metadata_default" for m
    using that metadata_inv_intro [OF metadata_default_inv] by simp
qed

lemma metadata_reachable_inv:
  "metadata_step\<^sup>*\<^sup>* metadata_default m \<Longrightarrow> \<not> zeroed m \<Longrightarrow> agm_inv m"
  using metadata.inv_reachable [OF refl] metadata_inv_cases(2) by blast

section \<open>The repository keeps its generations\<close>

definition repo_inv :: "'env GenRepo \<Rightarrow> bool" where
  "repo_inv repo \<longleftrightarrow>
     agm_inv (gr_metadata repo) \<and> bm_inv (gr_files repo) \<and>
     (\<forall>g. bm_get (gr_files repo) g \<noteq> None \<longleftrightarrow> 1 \<le> g \<and> g \<le> agm_total (gr_metadata repo))"

lemma manifest_contents_inv:
  assumes "repo_inv repo"
  shows "manifest_contents g repo =
    ok_or (GenerationNotFound g) (bm_get (gr_files repo) g)"
proof -
  obtain t where t: "generations (gr_metadata repo) = Some t" "table_inv t (agm_total (gr_metadata repo)) (current_gen (gr_metadata repo))"
    using assms by (auto simp: repo_inv_def agm_inv_def)
  have "bm_get t g \<noteq> None \<longleftrightarrow> bm_get (gr_files repo) g \<noteq> None"
    using t(2) assms by (simp add: table_inv_def repo_inv_def)
  then show ?thesis
    using t(1) by (cases "bm_get (gr_files repo) g")
      (auto simp: manifest_contents_def table_of_def bm_contains_def)
qed

lemma repo_add_generation_eq:
  assumes "ago_kind opts \<noteq> SwitchGeneration" and "agm_total (gr_metadata repo) < usize_max"
    and "repo_add_generation opts env repo = (r, repo')"
  shows "r = Ok () \<and> gr_metadata repo' = snd (add_generation opts (gr_metadata repo)) \<and>
    gr_files repo' = bm_insert (agm_total (gr_metadata repo) + 1) env (gr_files repo)"
proof -
  obtain g h m' where gh: "add_generation opts (gr_metadata repo) = ((g, h), m')"
    by (metis prod.exhaust)
  then have h: "hs_kind h = ago_kind opts" "g = agm_total (gr_metadata repo) + 1"
    using assms(2) by (auto simp: add_generation_def Let_def wrapping_add_no_overflow)
  obtain s where "summary h = Some s"
    using summary_not_switch assms(1) h(1) by metis
  with gh h assms(3) show ?thesis
    by (auto simp: repo_add_generation_def)
qed

section \<open>Properties\<close>

text \<open>
  C7. Metadata built by adding generations and by switching, to whatever generation the code
  accepts, derives its table of generations exactly if no event of its history is a switch to
  generation 0. The table holds exactly the generations from 1 to the total, and exactly the
  live generation has no \<open>last_live\<close> time.
\<close>

theorem generations_consistent:
  assumes "metadata_step\<^sup>*\<^sup>* metadata_default m"
  shows "if 0 \<in> hs_current ` set (agm_history m) then generations m = None
    else \<exists>t. generations m = Some t \<and> bm_keys t = [1 ..< agm_total m + 1] \<and>
      (\<forall>g e. bm_get t g = Some e \<longrightarrow> (sg_last_live e = None \<longleftrightarrow> current_gen m = Some g))"
proof (cases "zeroed m")
  case True
  then show ?thesis
    using metadata_inv_cases(1) [OF metadata.inv_reachable [OF refl assms] True]
    by (simp add: zeroed_def)
next
  case False
  obtain t where t: "generations m = Some t" "table_inv t (agm_total m) (current_gen m)"
    using metadata_reachable_inv [OF assms False] by (auto simp: agm_inv_def)
  have dom: "dom (bm_get t) = {1..agm_total m}"
    using t(2) by (auto simp: table_inv_def)
  have "set (bm_keys t) = dom (bm_get t)"
    by (simp add: bm_keys_def dom_map_of_conv_image_fst)
  also have "\<dots> = set [1 ..< agm_total m + 1]"
    using dom by (simp add: atLeastLessThanSuc_atLeastAtMost del: upt_Suc)
  finally have "bm_keys t = [1 ..< agm_total m + 1]"
    using t(2) by (intro strict_sorted_equal)
      (simp_all add: table_inv_def bm_inv_def bm_keys_def del: upt_Suc)
  with t False show ?thesis
    by (auto simp: table_inv_def zeroed_def)
qed

definition demo_add :: "int \<Rightarrow> AddGenerationOptions" where
  "demo_add t = \<lparr> ago_author = ''me'', ago_hostname = ''host'', ago_argv = [''/bin/flox'', ''edit''],
                  ago_timestamp = t, ago_kind = Edit \<rparr>"

definition demo_switch :: "int \<Rightarrow> GenerationId \<Rightarrow> SwitchGenerationOptions" where
  "demo_switch t g = \<lparr> sgo_author = ''me'', sgo_hostname = ''host'', sgo_argv = [],
                  sgo_timestamp = t, sgo_next = g \<rparr>"

definition demo_two :: AllGenerationsMetadata where
  "demo_two = snd (add_generation (demo_add 2) (snd (add_generation (demo_add 1) metadata_default)))"

lemma demo_two_steps: "metadata_step\<^sup>*\<^sup>* metadata_default demo_two"
proof -
  have "metadata_step metadata_default (snd (add_generation (demo_add 1) metadata_default))"
    by (rule metadata_step.add) (simp_all add: demo_add_def metadata_default_def usize_max_def)
  moreover have "metadata_step (snd (add_generation (demo_add 1) metadata_default)) demo_two"
    unfolding demo_two_def
    by (rule metadata_step.add)
      (simp_all add: demo_add_def metadata_default_def add_generation_def saturating_add_def usize_max_def Let_def)
  ultimately show ?thesis
    by simp
qed

lemma demo_two_eq:
  "demo_two = \<lparr> agm_history =
     [\<lparr> hs_kind = Edit, hs_author = ''me'', hs_hostname = ''host'', hs_command = Some [''flox'', ''edit''],
        hs_timestamp = 1, hs_current = 1, hs_previous = None \<rparr>,
      \<lparr> hs_kind = Edit, hs_author = ''me'', hs_hostname = ''host'', hs_command = Some [''flox'', ''edit''],
        hs_timestamp = 2, hs_current = 2, hs_previous = Some 1 \<rparr>], agm_total = 2 \<rparr>"
  by (simp add: demo_two_def add_generation_def demo_add_def metadata_default_def current_gen_def
      parse_argv_def wrapping_add_def saturating_add_def usize_max_def Let_def)

lemma demo_two_live: "current_gen demo_two = Some 2"
  by (simp add: demo_two_eq current_gen_def)

lemma demo_two_times: "sorted_wrt (<) (map hs_timestamp (agm_history demo_two))"
  by (simp add: demo_two_eq)

lemma demo_two_not_zeroed: "\<not> zeroed demo_two"
  by (simp add: demo_two_eq zeroed_def)

definition demo_zeroed :: AllGenerationsMetadata where
  "demo_zeroed = snd (switch_generation (demo_switch 3 0) demo_two)"

lemma demo_zeroed_eq:
  "demo_zeroed = demo_two\<lparr> agm_history := agm_history demo_two @
     [\<lparr> hs_kind = SwitchGeneration, hs_author = ''me'', hs_hostname = ''host'', hs_command = None,
        hs_timestamp = 3, hs_current = 0, hs_previous = Some 2 \<rparr>] \<rparr>"
  "fst (switch_generation (demo_switch 3 0) demo_two) \<noteq> Inl e"
  by (simp_all add: demo_zeroed_def switch_generation_def demo_switch_def demo_two_live Let_def
      demo_two_eq parse_argv_def current_gen_def)

lemma demo_zeroed_steps: "metadata_step\<^sup>*\<^sup>* metadata_default demo_zeroed"
proof -
  obtain r where "switch_generation (demo_switch 3 0) demo_two = (Inr r, demo_zeroed)"
    using demo_zeroed_eq(2) unfolding demo_zeroed_def by (metis old.sum.exhaust prod.collapse)
  then show ?thesis
    using demo_two_steps by (blast intro: metadata_step.switch rtranclp.rtrancl_into_rtrancl)
qed

theorem generations_consistent_witness:
  "(\<exists>t. generations demo_two = Some t \<and> bm_keys t = [1 ..< agm_total demo_two + 1]) \<and>
   generations demo_zeroed = None"
  using generations_consistent [OF demo_two_steps] generations_consistent [OF demo_zeroed_steps]
    demo_two_not_zeroed
  by (auto simp: demo_zeroed_eq(1) zeroed_def)

text \<open>
  C9. The bound check of \<open>switch_generation\<close> lets generation 0 through: with any other
  generation live the switch succeeds, and it records an event from which the table of
  generations can no longer be derived, so every later operation that reads it panics.
\<close>

theorem switch_to_generation_zero_breaks_metadata:
  assumes "metadata_step\<^sup>*\<^sup>* metadata_default m" and "current_gen m = Some c"
    and "sgo_next opts = 0" and "switch_generation opts m = (r, m')"
  shows "(c = 0 \<or> (\<exists>x. r = Ok x)) \<and> generations m' = None"
proof -
  have inv: "metadata_inv m"
    using metadata.inv_reachable [OF refl assms(1)] .
  show ?thesis
  proof (cases "c = 0")
    case True
    then have "zeroed m"
      using assms(2) by (auto simp: current_gen_def zeroed_def split: if_splits)
    moreover have "m' = m"
      using assms(2-4) True by (simp add: switch_generation_def Let_def)
    ultimately show ?thesis
      using True metadata_inv_cases(1) [OF inv] by simp
  next
    case False
    then obtain x where x: "switch_generation opts m = (Inr x, m')"
      using assms(2-4) by (auto simp: switch_generation_def Let_def)
    obtain spec where "m' = m\<lparr> agm_history := agm_history m @ [spec] \<rparr>" "hs_current spec = 0"
      using switch_generation_snoc [OF x] assms(3) by metis
    then have "zeroed m'"
      by (simp add: zeroed_def)
    then have "generations m' = None"
      using metadata_inv_cases(1) [OF metadata_inv_step(1) [OF inv metadata_step.switch [OF x]]] by simp
    with x assms(4) show ?thesis
      by simp
  qed
qed

theorem switch_to_generation_zero_breaks_metadata_witness:
  "generations (snd (switch_generation (demo_switch 3 0) demo_two)) = None"
  using switch_to_generation_zero_breaks_metadata
    [OF demo_two_steps, of 2 "demo_switch 3 0" "fst (switch_generation (demo_switch 3 0) demo_two)"
      "snd (switch_generation (demo_switch 3 0) demo_two)"]
  by (simp add: demo_two_live demo_switch_def)

text \<open>
  C8. Migrating the first metadata format never panics, and when it succeeds the new
  metadata derives a table with the same generations, creation times and descriptions, and
  the same live generation.
\<close>

theorem migrate_v1_correct:
  assumes "length (v1_generations v) \<le> usize_max"
  shows "case migrate_v1 v of
      Inl e \<Rightarrow> e \<noteq> GenerationsPanic
    | Inr m \<Rightarrow> current_gen m = v1_current_gen v \<and> agm_total m = length (v1_generations v) \<and>
        (\<exists>t. generations m = Some t \<and>
             (\<forall>g. map_option entry_view (bm_get t g) = map_option
                (\<lambda>x. (v1_created x, v1_description x @ '' [metadata migrated]'')) (bm_get (v1_generations v) g)))"
proof (cases "migrate_v1 v")
  case (Inl e)
  then show ?thesis
    using migrate_v1_result(1) [OF assms] by simp
next
  case (Inr m)
  have m: "agm_inv m" "agm_total m = length (v1_generations v)" "current_gen m = v1_current_gen v"
    "\<forall>g. entry_of m g = map_option
      (\<lambda>x. (v1_created x, v1_description x @ '' [metadata migrated]'')) (bm_get (v1_generations v) g)"
    using migrate_v1_result(2) [OF assms Inr] by blast+
  obtain t where t: "generations m = Some t"
    using m(1) by (auto simp: agm_inv_def)
  with m Inr show ?thesis
    by (simp add: entry_of_def)
qed

definition demo_v1 :: AllGenerationsMetadataV1 where
  "demo_v1 = \<lparr> v1_current_gen = Some 1, v1_generations =
     [(1, \<lparr> v1_created = 5, v1_last_active = Some 9, v1_description = ''a'' \<rparr>),
      (2, \<lparr> v1_created = 6, v1_last_active = None, v1_description = ''b'' \<rparr>)] \<rparr>"

theorem migrate_v1_correct_witness:
  "case migrate_v1 demo_v1 of Inl e \<Rightarrow> e \<noteq> GenerationsPanic | Inr m \<Rightarrow> current_gen m = Some 1"
  using migrate_v1_correct [of demo_v1]
  by (simp add: demo_v1_def usize_max_def split: sum.splits)

text \<open>
  Rolling back goes to the previously live generation: when every event is later than
  the one before it, the target is the generation that the last event left, and with a
  single generation there is no target.
\<close>

theorem rollback_target:
  assumes "metadata_step\<^sup>*\<^sup>* metadata_default m" and "\<not> zeroed m"
    and "sorted_wrt (<) (map hs_timestamp (agm_history m))"
  shows "map_option (map_option fst) (determine_previous_generation m) =
    Some (if agm_total m < 2 then None else hs_previous (last (agm_history m)))"
proof (cases "agm_total m < 2")
  case True
  obtain t where "generations m = Some t" "table_inv t (agm_total m) (current_gen m)"
    using metadata_reachable_inv [OF assms(1,2)] by (auto simp: agm_inv_def)
  then show ?thesis
    using True table_length by (simp add: determine_previous_generation_def)
next
  case False
  then obtain p e where "determine_previous_generation m = Some (Some (p, e))"
    "hs_previous (last (agm_history m)) = Some p"
    using determine_previous_generation_eq [OF metadata_reachable_inv [OF assms(1,2)] assms(3)]
    by (metis linorder_not_less)
  with False show ?thesis
    by simp
qed

theorem rollback_target_witness:
  "map_option (map_option fst) (determine_previous_generation demo_two) = Some (Some 1)"
  using rollback_target [OF demo_two_steps demo_two_not_zeroed demo_two_times] by (simp add: demo_two_eq)

text \<open>
  Adding a generation to a consistent repository makes its environment the current one
  and leaves the files of every earlier generation as they were.
\<close>

theorem repo_add_generation_keeps_generations:
  assumes "repo_inv repo" and "agm_total (gr_metadata repo) < usize_max"
    and "ago_kind opts \<noteq> SwitchGeneration" and "repo_add_generation opts env repo = (r, repo')"
  shows "r = Ok () \<and> repo_inv repo' \<and> current_gen_manifest_contents repo' = Ok env \<and>
    (\<forall>g f. manifest_contents g repo = Ok f \<longrightarrow> manifest_contents g repo' = Ok f)"
proof -
  let ?n = "agm_total (gr_metadata repo) + 1"
  note eq = repo_add_generation_eq [OF assms(3,2,4)]
  have inv: "agm_inv (gr_metadata repo)" "bm_inv (gr_files repo)"
    and files: "\<And>g. bm_get (gr_files repo) g \<noteq> None \<longleftrightarrow> 1 \<le> g \<and> g \<le> agm_total (gr_metadata repo)"
    using assms(1) by (simp_all add: repo_inv_def)
  have total: "agm_total (gr_metadata repo') = ?n" "current_gen (gr_metadata repo') = Some ?n"
    using eq assms(2) by (simp_all add: add_generation_def Let_def current_gen_def
        wrapping_add_no_overflow saturating_add_no_overflow)
  have get: "bm_get (gr_files repo') g = (if g = ?n then Some env else bm_get (gr_files repo) g)" for g
    using eq inv(2) by (simp add: bm.get_insert)
  have "agm_inv (gr_metadata repo')"
    using add_generation_inv [OF inv(1) assms(2,3)] eq by simp
  moreover have "bm_inv (gr_files repo')"
    using eq inv(2) by (simp add: bm.inv_insert)
  moreover have "bm_get (gr_files repo') g \<noteq> None \<longleftrightarrow> 1 \<le> g \<and> g \<le> ?n" for g
    using files [of g] unfolding get by auto
  ultimately have inv': "repo_inv repo'"
    by (simp add: repo_inv_def total(1))
  have "manifest_contents g repo' = Ok f" if "manifest_contents g repo = Ok f" for g f
  proof -
    have "bm_get (gr_files repo) g = Some f"
      using that manifest_contents_inv [OF assms(1)] by (simp add: ok_or_Inr_iff)
    moreover from this have "g \<noteq> ?n"
      using files [of g] by auto
    ultimately show ?thesis
      using manifest_contents_inv [OF inv'] get by simp
  qed
  moreover have "current_gen_manifest_contents repo' = Ok env"
    using manifest_contents_inv [OF inv'] get total by (simp add: current_gen_manifest_contents_def)
  ultimately show ?thesis
    using eq inv' by blast
qed

theorem repo_add_generation_keeps_generations_witness:
  "current_gen_manifest_contents (snd (repo_add_generation (demo_add 1) ''env''
     \<lparr> gr_metadata = metadata_default, gr_files = [], gr_log = [] \<rparr>)) = Ok ''env''"
  using repo_add_generation_keeps_generations
    [of "\<lparr> gr_metadata = metadata_default, gr_files = [], gr_log = [] \<rparr>" "demo_add 1" "''env''"
      "fst (repo_add_generation (demo_add 1) ''env'' \<lparr> gr_metadata = metadata_default, gr_files = [], gr_log = [] \<rparr>)"
      "snd (repo_add_generation (demo_add 1) ''env'' \<lparr> gr_metadata = metadata_default, gr_files = [], gr_log = [] \<rparr>)"]
  by (simp add: repo_inv_def metadata_default_inv)
    (simp add: demo_add_def metadata_default_def usize_max_def)

end
