(* ===== verification/Manifest_Types.thy ===== *)
theory Manifest_Types
  imports Text Ordered_Map Activations
begin

text \<open>
  The typed manifest of the latest schema (\<open>flox-manifest/src/parsed/\<close>): one record per
  table of \<open>manifest.toml\<close>, with the maps as ordered maps. Semantic versions and systemd
  units come from other crates and are carried as their text; sets are kept as sorted lists.
\<close>

section \<open>Schema versions\<close>

datatype VersionKind = Version nat | SchemaVersion string

datatype KnownSchemaVersion = V1 | V1_10_0 | V1_11_0 | V1_12_0 | V1_13_0

datatype SchemaError = InvalidSchemaVersion string | MissingSchemaVersion

definition schema_versions :: "KnownSchemaVersion list" where
  "schema_versions = [V1, V1_10_0, V1_11_0, V1_12_0, V1_13_0]"

fun schema_of_kind :: "VersionKind \<Rightarrow> SchemaError + KnownSchemaVersion" where
  "schema_of_kind (Version v) = (if v = 1 then Ok V1 else Err (InvalidSchemaVersion (show_nat v)))"
| "schema_of_kind (SchemaVersion v) =
     (if v = ''1.10.0'' then Ok V1_10_0
      else if v = ''1.11.0'' then Ok V1_11_0
      else if v = ''1.12.0'' then Ok V1_12_0
      else if v = ''1.13.0'' then Ok V1_13_0
      else Err (InvalidSchemaVersion v))"

fun show_schema :: "KnownSchemaVersion \<Rightarrow> string" where
  "show_schema V1 = ''1''"
| "show_schema V1_10_0 = ''1.10.0''"
| "show_schema V1_11_0 = ''1.11.0''"
| "show_schema V1_12_0 = ''1.12.0''"
| "show_schema V1_13_0 = ''1.13.0''"

fun key_name :: "KnownSchemaVersion \<Rightarrow> string" where
  "key_name V1 = ''version''"
| "key_name _ = ''schema-version''"

section \<open>Package descriptors\<close>

type_synonym system = string

datatype SelectedOutputs = AllOutputs | Specific "string list"

record PackageDescriptorCatalog =
  pdc_pkg_path :: string
  pdc_pkg_group :: "string option"
  pdc_priority :: "nat option"
  pdc_version :: "string option"
  pdc_systems :: "system list option"
  pdc_outputs :: "SelectedOutputs option"

record PackageDescriptorFlake =
  pdf_flake :: string
  pdf_priority :: "nat option"
  pdf_systems :: "system list option"
  pdf_outputs :: "SelectedOutputs option"

record PackageDescriptorStorePath =
  pds_store_path :: string
  pds_systems :: "system list option"
  pds_priority :: "nat option"

datatype ManifestPackageDescriptor =
    Catalog PackageDescriptorCatalog
  | FlakeRef PackageDescriptorFlake
  | StorePathPkg PackageDescriptorStorePath

definition DEFAULT_GROUP_NAME :: string where
  "DEFAULT_GROUP_NAME = ''toplevel''"

definition DEFAULT_PRIORITY :: nat where
  "DEFAULT_PRIORITY = 5"

definition catalog_invalidates_existing_resolution ::
  "PackageDescriptorCatalog \<Rightarrow> PackageDescriptorCatalog \<Rightarrow> bool" where
  "catalog_invalidates_existing_resolution this other \<longleftrightarrow>
     pdc_pkg_path this \<noteq> pdc_pkg_path other \<or> pdc_pkg_group this \<noteq> pdc_pkg_group other \<or>
     pdc_version this \<noteq> pdc_version other"

fun invalidates_existing_resolution ::
  "ManifestPackageDescriptor \<Rightarrow> ManifestPackageDescriptor \<Rightarrow> bool" where
  "invalidates_existing_resolution (Catalog this) (Catalog other) =
     catalog_invalidates_existing_resolution this other"
| "invalidates_existing_resolution (FlakeRef this) (FlakeRef other) = (this \<noteq> other)"
| "invalidates_existing_resolution _ _ = True"

definition is_custom_package :: "string \<Rightarrow> bool" where
  "is_custom_package pkg_path =
     (let parts = split_on (CHR ''/'') pkg_path;
          is_base_catalog_pkg = (length parts = 1 \<or> (parts \<noteq> [] \<and> CHR ''.'' \<in> set (hd parts)))
      in \<not> is_base_catalog_pkg)"

section \<open>The tables of a manifest\<close>

record Hook =
  hook_on_activate :: "string option"

record ProfileDeactivate =
  pd_common :: "string option"
  pd_bash :: "string option"
  pd_zsh :: "string option"
  pd_fish :: "string option"
  pd_tcsh :: "string option"

record Profile =
  prof_common :: "string option"
  prof_bash :: "string option"
  prof_zsh :: "string option"
  prof_fish :: "string option"
  prof_tcsh :: "string option"
  prof_deactivate :: "ProfileDeactivate option"

record Allows =
  allow_unfree :: "bool option"
  allow_broken :: "bool option"
  allow_licenses :: "string list option"

record SemverOptions =
  semver_allow_pre_releases :: "bool option"

record ActivateOptions =
  activate_mode :: "ActivateMode option"

record Options =
  opt_systems :: "system list option"
  opt_allow :: Allows
  opt_semver :: SemverOptions
  opt_cuda_detection :: "bool option"
  opt_activate :: ActivateOptions

record ServiceDescriptor =
  svc_command :: string
  svc_vars :: "(string, string) bmap option"
  svc_is_daemon :: "bool option"
  svc_shutdown :: "string option"
  svc_systemd :: "string option"
  svc_systems :: "system list option"

record Services =
  svcs_auto_start :: "bool option"
  svcs_map :: "(string, ServiceDescriptor) bmap"

datatype BuildSandbox = SandboxOff | SandboxWarn | SandboxEnforce | SandboxPure

datatype BuildVersion = PureVersion string | FileVersion string | CommandVersion string

record BuildDescriptor =
  bd_command :: string
  bd_runtime_packages :: "string list option"
  bd_sandbox :: "BuildSandbox option"
  bd_sandbox_allow :: "string list option"
  bd_version :: "BuildVersion option"
  bd_description :: "string option"
  bd_license :: "string list option"

record ContainerizeConfig =
  cc_user :: "string option"
  cc_exposed_ports :: "string list option"
  cc_cmd :: "string list option"
  cc_volumes :: "string list option"
  cc_working_dir :: "string option"
  cc_labels :: "(string, string) bmap option"
  cc_stop_signal :: "string option"

record Containerize =
  cont_config :: "ContainerizeConfig option"

datatype MinimumCliVersion = MinVersion string | MinVersionWithReason string string

datatype IncludeDescriptor =
    IncludeLocal (inc_dir: string) (inc_name: "string option")
  | IncludeRemote (inc_remote: "string \<times> string") (inc_name: "string option") (inc_generation: "nat option")

text \<open>How an include is named in messages and on the command line.\<close>

fun show_include :: "IncludeDescriptor \<Rightarrow> string" where
  "show_include (IncludeLocal dir name) = (case name of Some n \<Rightarrow> n | None \<Rightarrow> dir)"
| "show_include (IncludeRemote (owner, env) name _) =
     (case name of Some n \<Rightarrow> n | None \<Rightarrow> owner @ ''/'' @ env)"

record Manifest =
  mf_schema_version :: string
  mf_minimum_cli_version :: "MinimumCliVersion option"
  mf_install :: "(string, ManifestPackageDescriptor) bmap"
  mf_vars :: "(string, string) bmap"
  mf_hook :: "Hook option"
  mf_profile :: "Profile option"
  mf_options :: Options
  mf_services :: Services
  mf_build :: "(string, BuildDescriptor) bmap"
  mf_containerize :: "Containerize option"
  mf_include :: "IncludeDescriptor list"

definition default_options :: Options where
  "default_options =
     \<lparr> opt_systems = None,
       opt_allow = \<lparr> allow_unfree = None, allow_broken = None, allow_licenses = None \<rparr>,
       opt_semver = \<lparr> semver_allow_pre_releases = None \<rparr>, opt_cuda_detection = None,
       opt_activate = \<lparr> activate_mode = None \<rparr> \<rparr>"

definition default_manifest :: Manifest where
  "default_manifest =
     \<lparr> mf_schema_version = ''1.13.0'', mf_minimum_cli_version = None, mf_install = [], mf_vars = [],
       mf_hook = None, mf_profile = None, mf_options = default_options,
       mf_services = \<lparr> svcs_auto_start = None, svcs_map = [] \<rparr>, mf_build = [],
       mf_containerize = None, mf_include = [] \<rparr>"

text \<open>The maps of a manifest are \<open>BTreeMap\<close>s.\<close>

definition manifest_wf :: "Manifest \<Rightarrow> bool" where
  "manifest_wf m \<longleftrightarrow>
     bm_inv (mf_install m) \<and> bm_inv (mf_vars m) \<and> bm_inv (svcs_map (mf_services m)) \<and>
     bm_inv (mf_build m) \<and>
     (case Option.bind (Option.bind (mf_containerize m) cont_config) cc_labels of
        None \<Rightarrow> True | Some labels \<Rightarrow> bm_inv labels)"

section \<open>Services\<close>

text \<open>The names of the services that daemonise without a shutdown command; empty if valid.\<close>

definition validate_services :: "(string, ServiceDescriptor) bmap \<Rightarrow> string list + unit" where
  "validate_services m =
     (let bad = map fst (filter (\<lambda>(name, d). svc_is_daemon d = Some True \<and> svc_shutdown d = None) m)
      in if bad = [] then Ok () else Err bad)"

definition copy_for_system ::
  "system \<Rightarrow> (string, ServiceDescriptor) bmap \<Rightarrow> (string, ServiceDescriptor) bmap" where
  "copy_for_system system m =
     bm_extend [] (filter (\<lambda>(name, d). case svc_systems d of
                                         None \<Rightarrow> True | Some systems \<Rightarrow> system \<in> set systems) m)"

lemma schema_of_show: "s \<noteq> V1 \<Longrightarrow> schema_of_kind (SchemaVersion (show_schema s)) = Ok s"
  by (cases s) simp_all

end
