(* ===== verification/Compose.thy ===== *)
theory Compose
  imports Manifest_Types
begin

text \<open>
  Composing environments (\<open>flox-manifest/src/compose/\<close>): merging a list of manifests, later
  ones with higher priority, with a warning for everything a manifest overrides. The client
  lemmas of the iteration are proved once, in the locales below, for any pairwise merge that
  overrides a map or appends a script; the shallow merger instantiates them for each table.
\<close>

section \<open>Key paths and warnings\<close>

type_synonym KeyPath = "string list"

definition key_push :: "KeyPath \<Rightarrow> string \<Rightarrow> KeyPath" where
  "key_push p k = p @ [k]"

definition key_extend :: "KeyPath \<Rightarrow> string list \<Rightarrow> KeyPath" where
  "key_extend p ks = p @ ks"

definition show_key_path :: "KeyPath \<Rightarrow> string" where
  "show_key_path p = join ''.'' p"

datatype Warning = Overriding KeyPath

record WarningWithContext =
  wc_warning :: Warning
  wc_higher_priority_name :: string

datatype MergeError = InternalError string

definition COMPOSER_MANIFEST_ID :: string where
  "COMPOSER_MANIFEST_ID = ''Current manifest''"

section \<open>Merging values\<close>

fun append_optional_strings :: "string option \<Rightarrow> string option \<Rightarrow> string option" where
  "append_optional_strings (Some s1) (Some s2) = Some (s1 @ newline @ s2)"
| "append_optional_strings (Some s1) None = Some s1"
| "append_optional_strings None (Some s2) = Some s2"
| "append_optional_strings None None = None"

fun optional_set_union :: "'a::linorder list option \<Rightarrow> 'a list option \<Rightarrow> 'a list option" where
  "optional_set_union (Some set1) (Some set2) = Some (foldl (\<lambda>s k. insort_insert k s) set1 set2)"
| "optional_set_union (Some set1) None = Some set1"
| "optional_set_union None (Some set2) = Some set2"
| "optional_set_union None None = None"

definition map_union ::
  "KeyPath \<Rightarrow> (string, 'v) bmap \<Rightarrow> (string, 'v) bmap \<Rightarrow> (string, 'v) bmap \<times> Warning list" where
  "map_union base_key low high =
     (bm_extend low high,
      map (\<lambda>k. Overriding (key_push base_key k)) (filter (bm_contains high) (bm_keys low)))"

fun optional_map_union ::
  "KeyPath \<Rightarrow> (string, 'v) bmap option \<Rightarrow> (string, 'v) bmap option
     \<Rightarrow> (string, 'v) bmap option \<times> Warning list" where
  "optional_map_union base_key None None = (None, [])"
| "optional_map_union base_key (Some m1) None = (Some m1, [])"
| "optional_map_union base_key None (Some m2) = (Some m2, [])"
| "optional_map_union base_key (Some m1) (Some m2) =
     (let (merged, warnings) = map_union base_key m1 m2 in (Some merged, warnings))"

fun shallow_merge_options :: "KeyPath \<Rightarrow> 'a option \<Rightarrow> 'a option \<Rightarrow> 'a option \<times> Warning option" where
  "shallow_merge_options key None None = (None, None)"
| "shallow_merge_options key (Some lp) None = (Some lp, None)"
| "shallow_merge_options key None (Some hp) = (Some hp, None)"
| "shallow_merge_options key (Some lp) (Some hp) = (Some hp, Some (Overriding key))"

fun warning_list :: "Warning option \<Rightarrow> Warning list" where
  "warning_list None = []"
| "warning_list (Some w) = [w]"

fun deep_merge_optional_containerize_config ::
  "ContainerizeConfig option \<Rightarrow> ContainerizeConfig option \<Rightarrow> ContainerizeConfig option \<times> Warning list" where
  "deep_merge_optional_containerize_config None None = (None, [])"
| "deep_merge_optional_containerize_config (Some cfg) None = (Some cfg, [])"
| "deep_merge_optional_containerize_config None (Some cfg) = (Some cfg, [])"
| "deep_merge_optional_containerize_config (Some lp) (Some hp) =
     (let root_key = [''containerize'', ''config''];
          (user, user_warning) =
            shallow_merge_options (key_push root_key ''user'') (cc_user lp) (cc_user hp);
          (cmd, cmd_warning) =
            shallow_merge_options (key_push root_key ''cmd'') (cc_cmd lp) (cc_cmd hp);
          (working_dir, working_dir_warning) =
            shallow_merge_options (key_push root_key ''working-dir'') (cc_working_dir lp) (cc_working_dir hp);
          (labels, labels_warnings) =
            optional_map_union (key_push root_key ''labels'') (cc_labels lp) (cc_labels hp);
          (stop_signal, stop_signal_warning) =
            shallow_merge_options (key_push root_key ''stop-signal'') (cc_stop_signal lp) (cc_stop_signal hp)
      in (Some \<lparr> cc_user = user,
                 cc_exposed_ports = optional_set_union (cc_exposed_ports lp) (cc_exposed_ports hp),
                 cc_cmd = cmd,
                 cc_volumes = optional_set_union (cc_volumes lp) (cc_volumes hp),
                 cc_working_dir = working_dir,
                 cc_labels = labels,
                 cc_stop_signal = stop_signal \<rparr>,
          warning_list user_warning @ warning_list cmd_warning @ warning_list working_dir_warning
          @ labels_warnings @ warning_list stop_signal_warning))"

section \<open>The shallow merger\<close>

definition merge_version :: "string \<Rightarrow> string \<Rightarrow> MergeError + string" where
  "merge_version low high = Ok high"

definition merge_minimum_cli_version ::
  "MinimumCliVersion option \<Rightarrow> MinimumCliVersion option
     \<Rightarrow> MergeError + MinimumCliVersion option \<times> Warning list" where
  "merge_minimum_cli_version low high =
     (let (merged, w) = shallow_merge_options [''minimum-cli-version''] low high
      in Ok (merged, warning_list w))"

definition merge_install ::
  "(string, ManifestPackageDescriptor) bmap \<Rightarrow> (string, ManifestPackageDescriptor) bmap
     \<Rightarrow> MergeError + (string, ManifestPackageDescriptor) bmap \<times> Warning list" where
  "merge_install low high = Ok (map_union [''install''] low high)"

definition merge_vars ::
  "(string, string) bmap \<Rightarrow> (string, string) bmap \<Rightarrow> MergeError + (string, string) bmap \<times> Warning list" where
  "merge_vars low high = Ok (map_union [''vars''] low high)"

fun merge_hook :: "Hook option \<Rightarrow> Hook option \<Rightarrow> MergeError + Hook option" where
  "merge_hook None None = Ok None"
| "merge_hook (Some low) None = Ok (Some low)"
| "merge_hook None (Some high) = Ok (Some high)"
| "merge_hook (Some low) (Some high) =
     Ok (Some \<lparr> hook_on_activate =
                  append_optional_strings (hook_on_activate low) (hook_on_activate high) \<rparr>)"

text \<open>Deactivation scripts run in the reverse order of activation.\<close>

fun merge_profile_deactivate ::
  "ProfileDeactivate option \<Rightarrow> ProfileDeactivate option \<Rightarrow> ProfileDeactivate option" where
  "merge_profile_deactivate None None = None"
| "merge_profile_deactivate (Some low) None = Some low"
| "merge_profile_deactivate None (Some high) = Some high"
| "merge_profile_deactivate (Some low) (Some high) =
     Some \<lparr> pd_common = append_optional_strings (pd_common high) (pd_common low),
            pd_bash = append_optional_strings (pd_bash high) (pd_bash low),
            pd_zsh = append_optional_strings (pd_zsh high) (pd_zsh low),
            pd_fish = append_optional_strings (pd_fish high) (pd_fish low),
            pd_tcsh = append_optional_strings (pd_tcsh high) (pd_tcsh low) \<rparr>"

fun merge_profile :: "Profile option \<Rightarrow> Profile option \<Rightarrow> MergeError + Profile option" where
  "merge_profile None None = Ok None"
| "merge_profile (Some low) None = Ok (Some low)"
| "merge_profile None (Some high) = Ok (Some high)"
| "merge_profile (Some low) (Some high) =
     Ok (Some \<lparr> prof_common = append_optional_strings (prof_common low) (prof_common high),
                prof_bash = append_optional_strings (prof_bash low) (prof_bash high),
                prof_zsh = append_optional_strings (prof_zsh low) (prof_zsh high),
                prof_fish = append_optional_strings (prof_fish low) (prof_fish high),
                prof_tcsh = append_optional_strings (prof_tcsh low) (prof_tcsh high),
                prof_deactivate =
                  merge_profile_deactivate (prof_deactivate low) (prof_deactivate high) \<rparr>)"

definition merge_options :: "Options \<Rightarrow> Options \<Rightarrow> MergeError + Options \<times> Warning list" where
  "merge_options low high =
     (let root_key = [''options''];
          allow_key = key_push root_key ''allow'';
          (unfree, unfree_w) = shallow_merge_options (key_push allow_key ''unfree'')
             (allow_unfree (opt_allow low)) (allow_unfree (opt_allow high));
          (broken, broken_w) = shallow_merge_options (key_push allow_key ''broken'')
             (allow_broken (opt_allow low)) (allow_broken (opt_allow high));
          (licenses, licenses_w) = shallow_merge_options (key_push allow_key ''licenses'')
             (allow_licenses (opt_allow low)) (allow_licenses (opt_allow high));
          (pre_releases, pre_releases_w) =
             shallow_merge_options (key_extend root_key [''semver'', ''allow-pre-releases''])
             (semver_allow_pre_releases (opt_semver low)) (semver_allow_pre_releases (opt_semver high));
          (cuda, cuda_w) = shallow_merge_options (key_push root_key ''cuda-detection'')
             (opt_cuda_detection low) (opt_cuda_detection high);
          (systems, systems_w) = shallow_merge_options (key_push root_key ''systems'')
             (opt_systems low) (opt_systems high);
          (mode, mode_w) = shallow_merge_options (key_extend root_key [''activate'', ''mode''])
             (activate_mode (opt_activate low)) (activate_mode (opt_activate high))
      in Ok (\<lparr> opt_systems = systems,
               opt_allow = \<lparr> allow_unfree = unfree, allow_broken = broken, allow_licenses = licenses \<rparr>,
               opt_semver = \<lparr> semver_allow_pre_releases = pre_releases \<rparr>,
               opt_cuda_detection = cuda,
               opt_activate = \<lparr> activate_mode = mode \<rparr> \<rparr>,
             concat (map warning_list
               [mode_w, unfree_w, broken_w, licenses_w, pre_releases_w, cuda_w, systems_w])))"

definition merge_services :: "Services \<Rightarrow> Services \<Rightarrow> MergeError + Services \<times> Warning list" where
  "merge_services low high =
     (let (merged_map, warnings) = map_union [''services''] (svcs_map low) (svcs_map high);
          auto_start = (case svcs_auto_start high of Some b \<Rightarrow> Some b | None \<Rightarrow> svcs_auto_start low)
      in Ok (\<lparr> svcs_auto_start = auto_start, svcs_map = merged_map \<rparr>, warnings))"

definition merge_build ::
  "(string, BuildDescriptor) bmap \<Rightarrow> (string, BuildDescriptor) bmap
     \<Rightarrow> MergeError + (string, BuildDescriptor) bmap \<times> Warning list" where
  "merge_build low high = Ok (map_union [''build''] low high)"

fun merge_containerize ::
  "Containerize option \<Rightarrow> Containerize option \<Rightarrow> MergeError + Containerize option \<times> Warning list" where
  "merge_containerize None None = Ok (None, [])"
| "merge_containerize (Some lp) None = Ok (Some lp, [])"
| "merge_containerize None (Some hp) = Ok (Some hp, [])"
| "merge_containerize (Some lp) (Some hp) =
     (let (merged, warnings) = deep_merge_optional_containerize_config (cont_config lp) (cont_config hp)
      in Ok (Some \<lparr> cont_config = merged \<rparr>, warnings))"

definition shallow_merge :: "Manifest \<Rightarrow> Manifest \<Rightarrow> MergeError + Manifest \<times> Warning list" where
  "shallow_merge low high =
     and_then (merge_version (mf_schema_version low) (mf_schema_version high)) (\<lambda>schema_version.
     and_then (merge_minimum_cli_version (mf_minimum_cli_version low) (mf_minimum_cli_version high))
       (\<lambda>(minimum_cli_version, minimum_cli_version_warnings).
     and_then (merge_install (mf_install low) (mf_install high)) (\<lambda>(install, install_warnings).
     and_then (merge_vars (mf_vars low) (mf_vars high)) (\<lambda>(vars, vars_warnings).
     and_then (merge_hook (mf_hook low) (mf_hook high)) (\<lambda>hook.
     and_then (merge_profile (mf_profile low) (mf_profile high)) (\<lambda>profile.
     and_then (merge_options (mf_options low) (mf_options high)) (\<lambda>(options, options_warnings).
     and_then (merge_services (mf_services low) (mf_services high)) (\<lambda>(services, services_warnings).
     and_then (merge_build (mf_build low) (mf_build high)) (\<lambda>(build, build_warnings).
     and_then (merge_containerize (mf_containerize low) (mf_containerize high))
       (\<lambda>(containerize, containerize_warnings).
     Ok (\<lparr> mf_schema_version = schema_version, mf_minimum_cli_version = minimum_cli_version,
           mf_install = install, mf_vars = vars, mf_hook = hook, mf_profile = profile,
           mf_options = options, mf_services = services, mf_build = build,
           mf_containerize = containerize, mf_include = [] \<rparr>,
         minimum_cli_version_warnings @ install_warnings @ vars_warnings @ options_warnings
         @ services_warnings @ build_warnings @ containerize_warnings)))))))))))"

section \<open>Composite manifests\<close>

record CompositeManifest =
  cm_composer :: Manifest
  cm_deps :: "(string \<times> Manifest) list"

fun merge_loop ::
  "('m \<Rightarrow> 'm \<Rightarrow> MergeError + 'm \<times> Warning list) \<Rightarrow> (string \<times> 'm) list \<Rightarrow> 'm \<Rightarrow> WarningWithContext list
     \<Rightarrow> MergeError + 'm \<times> WarningWithContext list" where
  "merge_loop merger [] merged warnings = Ok (merged, warnings)"
| "merge_loop merger ((manifest_id, m) # rest) merged warnings =
     and_then (merger merged m) (\<lambda>(merged', merge_warnings).
       merge_loop merger rest merged'
         (warnings @ map (\<lambda>w. \<lparr> wc_warning = w, wc_higher_priority_name = manifest_id \<rparr>) merge_warnings))"

text \<open>The empty case is the panic of an \<open>expect\<close>; the composer is always there.\<close>

definition merge_all :: "CompositeManifest \<Rightarrow> MergeError + Manifest \<times> WarningWithContext list" where
  "merge_all c =
     (case cm_deps c @ [(COMPOSER_MANIFEST_ID, cm_composer c)] of
        [] \<Rightarrow> Err (InternalError ''including composer, there should be at least one manifest'')
      | (_, first) # rest \<Rightarrow> merge_loop shallow_merge rest first [])"

text \<open>The install ids overridden by one manifest, and the ones that are new.\<close>

definition package_overrides_for_manifest_id :: "WarningWithContext list \<Rightarrow> string \<Rightarrow> string list" where
  "package_overrides_for_manifest_id warnings manifest_id =
     sort (List.map_filter (\<lambda>w. case wc_warning w of
              Overriding (section # k # _) \<Rightarrow> if section = ''install'' then Some k else None
            | Overriding _ \<Rightarrow> None)
       (filter (\<lambda>w. wc_higher_priority_name w = manifest_id) warnings))"

definition new_package_overrides :: "string list \<Rightarrow> string list \<Rightarrow> string list" where
  "new_package_overrides old_ids new_ids =
     sort (filter (\<lambda>i. i \<notin> set old_ids) (remdups new_ids))"

section \<open>What an iterated merge does to one value\<close>

text \<open>The value of the last manifest that defines one.\<close>

definition last_defined :: "('m \<Rightarrow> 'v option) \<Rightarrow> 'm list \<Rightarrow> 'v option" where
  "last_defined view ms =
     foldl (\<lambda>acc m. case view m of None \<Rightarrow> acc | Some v \<Rightarrow> Some v) None ms"

lemma last_defined_Nil [simp]: "last_defined view [] = None"
  by (simp add: last_defined_def)

lemma last_defined_snoc [simp]:
  "last_defined view (ms @ [m]) = (case view m of None \<Rightarrow> last_defined view ms | Some v \<Rightarrow> Some v)"
  by (simp add: last_defined_def split: option.splits)

lemma last_defined_append:
  "last_defined view (xs @ ys) =
     (case last_defined view ys of None \<Rightarrow> last_defined view xs | Some v \<Rightarrow> Some v)"
  by (induction ys rule: rev_induct) (auto simp: append_assoc [symmetric] simp del: append_assoc split: option.splits)

lemma last_defined_Cons [simp]:
  "last_defined view (m # ms) = (case last_defined view ms of None \<Rightarrow> view m | Some v \<Rightarrow> Some v)"
  using last_defined_append [of view "[m]" ms] by (simp add: last_defined_def split: option.splits)

lemma last_defined_None_iff: "last_defined view ms = None \<longleftrightarrow> (\<forall>m \<in> set ms. view m = None)"
  by (induction ms rule: rev_induct) (auto split: option.splits)

lemma last_defined_Some:
  "last_defined view ms = Some v \<longleftrightarrow>
     (\<exists>pre m post. ms = pre @ m # post \<and> view m = Some v \<and> (\<forall>x \<in> set post. view x = None))"
proof (induction ms rule: rev_induct)
  case (snoc m ms)
  show ?case
  proof (cases "view m")
    case None
    have "(\<exists>pre x post. ms @ [m] = pre @ x # post \<and> view x = Some v \<and> (\<forall>y \<in> set post. view y = None)) \<longleftrightarrow>
        (\<exists>pre x post. ms = pre @ x # post \<and> view x = Some v \<and> (\<forall>y \<in> set post. view y = None))"
      (is "?L \<longleftrightarrow> ?R")
    proof
      assume ?L
      then obtain pre x post where e: "ms @ [m] = pre @ x # post" "view x = Some v"
        "\<forall>y \<in> set post. view y = None"
        by blast
      then show ?R
        using None by (cases post rule: rev_cases) auto
    next
      assume ?R
      then obtain pre x post where "ms = pre @ x # post" "view x = Some v" "\<forall>y \<in> set post. view y = None"
        by blast
      then have "ms @ [m] = pre @ x # (post @ [m])" "\<forall>y \<in> set (post @ [m]). view y = None"
        using None by auto
      then show ?L
        using \<open>view x = Some v\<close> by blast
    qed
    with None snoc.IH show ?thesis
      by simp
  next
    case (Some w)
    have "(\<exists>pre x post. ms @ [m] = pre @ x # post \<and> view x = Some v \<and> (\<forall>y \<in> set post. view y = None)) \<longleftrightarrow> w = v"
    proof
      assume "\<exists>pre x post. ms @ [m] = pre @ x # post \<and> view x = Some v \<and> (\<forall>y \<in> set post. view y = None)"
      then obtain pre x post where "ms @ [m] = pre @ x # post" "view x = Some v" "\<forall>y \<in> set post. view y = None"
        by blast
      then show "w = v"
        using Some by (cases post rule: rev_cases) auto
    next
      assume "w = v"
      then show "\<exists>pre x post. ms @ [m] = pre @ x # post \<and> view x = Some v \<and> (\<forall>y \<in> set post. view y = None)"
        using Some by (intro exI [of _ ms] exI [of _ m] exI [of _ "[]"]) simp
    qed
    with Some show ?thesis
      by simp
  qed
qed simp

text \<open>A pairwise merge that lets the higher priority override one value of a manifest.\<close>

locale overriding_merge =
  fixes merge :: "'m \<Rightarrow> 'm \<Rightarrow> MergeError + 'm \<times> Warning list"
    and ok :: "'m \<Rightarrow> bool"
    and view :: "'m \<Rightarrow> 'v option"
  assumes merge_ok: "ok low \<Longrightarrow> ok high \<Longrightarrow> \<exists>m ws. merge low high = Ok (m, ws) \<and> ok m"
    and view_merge: "ok low \<Longrightarrow> ok high \<Longrightarrow> merge low high = Ok (m, ws) \<Longrightarrow>
          view m = (case view high of None \<Rightarrow> view low | Some v \<Rightarrow> Some v)"
begin

lemma merge_loop_ok:
  "ok m0 \<Longrightarrow> \<forall>nm \<in> set ms. ok (snd nm) \<Longrightarrow>
   \<exists>m ws. merge_loop merge ms m0 acc = Ok (m, acc @ ws) \<and> ok m"
proof (induction ms arbitrary: m0 acc)
  case (Cons nm ms)
  obtain n x where nm: "nm = (n, x)"
    by (cases nm)
  then obtain m1 ws1 where m1: "merge m0 x = Ok (m1, ws1)" "ok m1"
    using merge_ok Cons.prems by fastforce
  have "\<forall>nm \<in> set ms. ok (snd nm)"
    using Cons.prems by simp
  from Cons.IH [OF m1(2) this, of "acc @ map (\<lambda>w. \<lparr> wc_warning = w, wc_higher_priority_name = n \<rparr>) ws1"]
  show ?case
    by (auto simp: nm m1(1))
qed simp

lemma merge_loop_view:
  "ok m0 \<Longrightarrow> \<forall>nm \<in> set ms. ok (snd nm) \<Longrightarrow> merge_loop merge ms m0 acc = Ok (m, ws) \<Longrightarrow>
   view m = last_defined view (m0 # map snd ms)"
proof (induction ms arbitrary: m0 acc)
  case (Cons nm ms)
  obtain n x where nm: "nm = (n, x)"
    by (cases nm)
  then obtain m1 ws1 where m1: "merge m0 x = Ok (m1, ws1)" "ok m1"
    using merge_ok Cons.prems by fastforce
  have "view m = last_defined view (m1 # map snd ms)"
    using Cons.IH [OF m1(2)] Cons.prems nm m1 by fastforce
  then show ?case
    using view_merge [OF _ _ m1(1)] Cons.prems nm by (simp split: option.splits)
qed simp

end

text \<open>
  One that also warns, under the value's key path, exactly when both manifests define the
  value. A warning of the iteration then names a manifest that overrides an earlier one.
\<close>

locale warning_merge = overriding_merge merge ok view
  for merge :: "'m \<Rightarrow> 'm \<Rightarrow> MergeError + 'm \<times> Warning list" and ok and view :: "'m \<Rightarrow> 'v option" +
  fixes key :: KeyPath
  assumes warns: "ok low \<Longrightarrow> ok high \<Longrightarrow> merge low high = Ok (m, ws) \<Longrightarrow>
          Overriding key \<in> set ws \<longleftrightarrow> view low \<noteq> None \<and> view high \<noteq> None"
begin

lemma merge_loop_warns:
  "ok m0 \<Longrightarrow> \<forall>nm \<in> set ms. ok (snd nm) \<Longrightarrow> merge_loop merge ms m0 acc = Ok (m, acc @ ws) \<Longrightarrow>
   \<lparr> wc_warning = Overriding key, wc_higher_priority_name = n \<rparr> \<in> set ws \<longleftrightarrow>
     (\<exists>pre x post. ms = pre @ (n, x) # post \<and> view x \<noteq> None \<and>
        (view m0 \<noteq> None \<or> (\<exists>y \<in> set pre. view (snd y) \<noteq> None)))"
proof (induction ms arbitrary: m0 acc ws)
  case (Cons nm ms)
  obtain i x where nm: "nm = (i, x)"
    by (cases nm)
  then obtain m1 ws1 where m1: "merge m0 x = Ok (m1, ws1)" "ok m1"
    using merge_ok Cons.prems by fastforce
  let ?w1 = "map (\<lambda>w. \<lparr> wc_warning = w, wc_higher_priority_name = i \<rparr>) ws1"
  obtain m2 ws2 where loop: "merge_loop merge ms m1 (acc @ ?w1) = Ok (m2, (acc @ ?w1) @ ws2)"
    using merge_loop_ok [OF m1(2)] Cons.prems(2) by fastforce
  then have ws: "ws = ?w1 @ ws2" and m2: "m2 = m"
    using Cons.prems(3) m1(1) nm by auto
  have rest: "\<lparr> wc_warning = Overriding key, wc_higher_priority_name = n \<rparr> \<in> set ws2 \<longleftrightarrow>
     (\<exists>pre x post. ms = pre @ (n, x) # post \<and> view x \<noteq> None \<and>
        (view m1 \<noteq> None \<or> (\<exists>y \<in> set pre. view (snd y) \<noteq> None)))"
    using Cons.IH [OF m1(2) _ loop [unfolded m2]] Cons.prems(2) by simp
  have view1: "view m1 \<noteq> None \<longleftrightarrow> view m0 \<noteq> None \<or> view x \<noteq> None"
    using view_merge [OF _ _ m1(1)] Cons.prems nm by (auto split: option.splits)
  have first: "\<lparr> wc_warning = Overriding key, wc_higher_priority_name = n \<rparr> \<in> set ?w1 \<longleftrightarrow>
      n = i \<and> view m0 \<noteq> None \<and> view x \<noteq> None"
    using warns [OF _ _ m1(1)] Cons.prems nm by auto
  have "(\<exists>pre y post. nm # ms = pre @ (n, y) # post \<and> view y \<noteq> None \<and>
        (view m0 \<noteq> None \<or> (\<exists>z \<in> set pre. view (snd z) \<noteq> None))) \<longleftrightarrow>
      (n = i \<and> view m0 \<noteq> None \<and> view x \<noteq> None) \<or>
      (\<exists>pre y post. ms = pre @ (n, y) # post \<and> view y \<noteq> None \<and>
        (view m1 \<noteq> None \<or> (\<exists>z \<in> set pre. view (snd z) \<noteq> None)))" (is "?L \<longleftrightarrow> ?R")
  proof
    assume ?L
    then obtain pre y post where e: "nm # ms = pre @ (n, y) # post" "view y \<noteq> None"
      "view m0 \<noteq> None \<or> (\<exists>z \<in> set pre. view (snd z) \<noteq> None)"
      by blast
    show ?R
    proof (cases pre)
      case Nil
      then show ?thesis
        using e nm by auto
    next
      case (Cons p pre')
      then have "ms = pre' @ (n, y) # post" "view m1 \<noteq> None \<or> (\<exists>z \<in> set pre'. view (snd z) \<noteq> None)"
        using e nm view1 by auto
      with e(2) show ?thesis
        by blast
    qed
  next
    assume ?R
    then show ?L
    proof
      assume "n = i \<and> view m0 \<noteq> None \<and> view x \<noteq> None"
      then show ?L
        using nm by (intro exI [of _ "[]"]) auto
    next
      assume "\<exists>pre y post. ms = pre @ (n, y) # post \<and> view y \<noteq> None \<and>
        (view m1 \<noteq> None \<or> (\<exists>z \<in> set pre. view (snd z) \<noteq> None))"
      then obtain pre y post where "ms = pre @ (n, y) # post" "view y \<noteq> None"
        "view m1 \<noteq> None \<or> (\<exists>z \<in> set pre. view (snd z) \<noteq> None)"
        by blast
      then have "nm # ms = (nm # pre) @ (n, y) # post \<and> view y \<noteq> None \<and>
          (view m0 \<noteq> None \<or> (\<exists>z \<in> set (nm # pre). view (snd z) \<noteq> None))"
        using view1 nm by auto
      then show ?L
        by blast
    qed
  qed
  then show ?case
    using rest first by (simp only: ws set_append Un_iff)
qed simp

end

text \<open>A pairwise merge that appends one script of a manifest to another.\<close>

definition present :: "string option list \<Rightarrow> string list" where
  "present xs = map the (filter (\<lambda>x. x \<noteq> None) xs)"

definition join_present :: "string option list \<Rightarrow> string option" where
  "join_present xs = (if present xs = [] then None else Some (join newline (present xs)))"

lemma join_append: "xs \<noteq> [] \<Longrightarrow> ys \<noteq> [] \<Longrightarrow> join sep (xs @ ys) = join sep xs @ sep @ join sep ys"
proof (induction xs)
  case (Cons x xs)
  then show ?case
    by (cases "xs = []") (simp_all add: join_Cons_Cons)
qed simp

lemma present_append [simp]: "present (xs @ ys) = present xs @ present ys"
  by (simp add: present_def)

lemma append_join_present:
  "append_optional_strings (join_present xs) (join_present ys) = join_present (xs @ ys)"
  by (simp add: join_present_def join_append)

lemma join_present_single: "join_present [x] = x"
  by (cases x) (simp_all add: join_present_def present_def)

locale appending_merge =
  fixes merge :: "'m \<Rightarrow> 'm \<Rightarrow> MergeError + 'm \<times> Warning list"
    and script :: "'m \<Rightarrow> string option"
    and order :: "string option list \<Rightarrow> string option list"
  assumes order_single: "order [x] = [x]"
    and script_merge: "merge low high = Ok (m, ws) \<Longrightarrow> script low = join_present (order xs) \<Longrightarrow>
          script m = join_present (order (xs @ [script high]))"
begin

lemma merge_loop_script:
  "script m0 = join_present (order xs) \<Longrightarrow> merge_loop merge ms m0 acc = Ok (m, ws) \<Longrightarrow>
   script m = join_present (order (xs @ map (\<lambda>nm. script (snd nm)) ms))"
proof (induction ms arbitrary: m0 acc xs)
  case (Cons nm ms)
  obtain n x where nm: "nm = (n, x)"
    by (cases nm)
  then obtain m1 ws1 acc' where m1: "merge m0 x = Ok (m1, ws1)" "merge_loop merge ms m1 acc' = Ok (m, ws)"
    using Cons.prems(2) by (auto simp: result_simps)
  show ?case
    using Cons.IH [OF script_merge [OF m1(1) Cons.prems(1)] m1(2)] nm by simp
qed simp

lemma merge_loop_script_first:
  "merge_loop merge ms m0 acc = Ok (m, ws) \<Longrightarrow>
   script m = join_present (order (map script (m0 # map snd ms)))"
  using merge_loop_script [of m0 "[script m0]" ms] by (simp add: order_single join_present_single comp_def)

end

section \<open>The shallow merger is such a merge\<close>

abbreviation override :: "'a option \<Rightarrow> 'a option \<Rightarrow> 'a option" where
  "override low high \<equiv> (case high of None \<Rightarrow> low | Some v \<Rightarrow> Some v)"

definition warn_if :: "bool \<Rightarrow> KeyPath \<Rightarrow> Warning list" where
  "warn_if b key = (if b then [Overriding key] else [])"

lemma in_warn_if [simp]: "Overriding p \<in> set (warn_if b key) \<longleftrightarrow> b \<and> p = key"
  by (auto simp: warn_if_def)

lemma shallow_merge_options_eq:
  "fst (shallow_merge_options key low high) = override low high"
  "warning_list (snd (shallow_merge_options key low high)) = warn_if (low \<noteq> None \<and> high \<noteq> None) key"
  by (cases low; cases high; simp add: warn_if_def)+

lemma merge_minimum_cli_version_eq:
  "merge_minimum_cli_version low high =
     Ok (override low high, warn_if (low \<noteq> None \<and> high \<noteq> None) [''minimum-cli-version''])"
  by (simp add: merge_minimum_cli_version_def shallow_merge_options_eq case_prod_beta)

lemma merge_options_eq:
  "merge_options low high = Ok
     (\<lparr> opt_systems = override (opt_systems low) (opt_systems high),
        opt_allow = \<lparr> allow_unfree = override (allow_unfree (opt_allow low)) (allow_unfree (opt_allow high)),
                      allow_broken = override (allow_broken (opt_allow low)) (allow_broken (opt_allow high)),
                      allow_licenses = override (allow_licenses (opt_allow low)) (allow_licenses (opt_allow high)) \<rparr>,
        opt_semver = \<lparr> semver_allow_pre_releases =
                         override (semver_allow_pre_releases (opt_semver low)) (semver_allow_pre_releases (opt_semver high)) \<rparr>,
        opt_cuda_detection = override (opt_cuda_detection low) (opt_cuda_detection high),
        opt_activate = \<lparr> activate_mode = override (activate_mode (opt_activate low)) (activate_mode (opt_activate high)) \<rparr> \<rparr>,
      warn_if (activate_mode (opt_activate low) \<noteq> None \<and> activate_mode (opt_activate high) \<noteq> None)
        [''options'', ''activate'', ''mode'']
      @ warn_if (allow_unfree (opt_allow low) \<noteq> None \<and> allow_unfree (opt_allow high) \<noteq> None)
        [''options'', ''allow'', ''unfree'']
      @ warn_if (allow_broken (opt_allow low) \<noteq> None \<and> allow_broken (opt_allow high) \<noteq> None)
        [''options'', ''allow'', ''broken'']
      @ warn_if (allow_licenses (opt_allow low) \<noteq> None \<and> allow_licenses (opt_allow high) \<noteq> None)
        [''options'', ''allow'', ''licenses'']
      @ warn_if (semver_allow_pre_releases (opt_semver low) \<noteq> None \<and> semver_allow_pre_releases (opt_semver high) \<noteq> None)
        [''options'', ''semver'', ''allow-pre-releases'']
      @ warn_if (opt_cuda_detection low \<noteq> None \<and> opt_cuda_detection high \<noteq> None)
        [''options'', ''cuda-detection'']
      @ warn_if (opt_systems low \<noteq> None \<and> opt_systems high \<noteq> None)
        [''options'', ''systems''])"
  by (simp add: merge_options_def Let_def case_prod_beta shallow_merge_options_eq key_push_def key_extend_def)

lemma map_union_eq:
  "fst (map_union base low high) = bm_extend low high"
  "Overriding p \<in> set (snd (map_union base low high)) \<longleftrightarrow>
     (\<exists>k. p = base @ [k] \<and> bm_get low k \<noteq> None \<and> bm_get high k \<noteq> None)"
proof -
  show "fst (map_union base low high) = bm_extend low high"
    by (simp add: map_union_def)
  have "k \<in> set (bm_keys low) \<longleftrightarrow> bm_get low k \<noteq> None" for k
    by (simp add: bm_keys_def map_of_eq_None_iff)
  then show "Overriding p \<in> set (snd (map_union base low high)) \<longleftrightarrow>
     (\<exists>k. p = base @ [k] \<and> bm_get low k \<noteq> None \<and> bm_get high k \<noteq> None)"
    by (auto simp: map_union_def key_push_def bm_contains_def)
qed

lemma bm_get_extend_map:
  "bm_inv low \<Longrightarrow> bm_inv high \<Longrightarrow> bm_get (bm_extend low high) k = override (bm_get low k) (bm_get high k)"
proof -
  assume "bm_inv low" "bm_inv high"
  then have "map_of (rev high) = map_of high"
    using bm.entries_distinct [of high] by (subst map_of_inject_set) (simp_all add: rev_map [symmetric])
  with \<open>bm_inv low\<close> show ?thesis
    by (simp add: bm_extend_get)
qed

definition on_activate :: "Manifest \<Rightarrow> string option" where
  "on_activate m = Option.bind (mf_hook m) hook_on_activate"

definition profile_field :: "(Profile \<Rightarrow> string option) \<Rightarrow> Manifest \<Rightarrow> string option" where
  "profile_field f m = Option.bind (mf_profile m) f"

definition deactivate_field :: "(ProfileDeactivate \<Rightarrow> string option) \<Rightarrow> Manifest \<Rightarrow> string option" where
  "deactivate_field f m = Option.bind (Option.bind (mf_profile m) prof_deactivate) f"

lemma merge_hook_eq:
  "\<exists>h. merge_hook a b = Ok h \<and> Option.bind h hook_on_activate =
     append_optional_strings (Option.bind a hook_on_activate) (Option.bind b hook_on_activate)"
proof -
  have "append_optional_strings x None = x" "append_optional_strings None x = x" for x
    by (cases x; simp)+
  then show ?thesis
    by (cases a; cases b) auto
qed

abbreviation labels_ok :: "Containerize option \<Rightarrow> bool" where
  "labels_ok c \<equiv> (case Option.bind (Option.bind c cont_config) cc_labels of None \<Rightarrow> True | Some l \<Rightarrow> bm_inv l)"

lemma deep_merge_labels:
  assumes "deep_merge_optional_containerize_config (Some l) (Some h) = (Some c, ws)"
  shows "cc_labels c = fst (optional_map_union [''containerize'', ''config'', ''labels''] (cc_labels l) (cc_labels h))"
    and "Overriding p \<in> set ws \<Longrightarrow> hd p = ''containerize''"
proof -
  let ?u = "optional_map_union [''containerize'', ''config'', ''labels''] (cc_labels l) (cc_labels h)"
  show "cc_labels c = fst ?u"
    using assms by (auto simp: Let_def case_prod_beta shallow_merge_options_eq key_push_def)
  have "Overriding p \<in> set (snd ?u) \<Longrightarrow> hd p = ''containerize''"
    by (cases "cc_labels l"; cases "cc_labels h") (auto simp: case_prod_beta map_union_eq)
  then show "Overriding p \<in> set ws \<Longrightarrow> hd p = ''containerize''"
    using assms by (auto simp: Let_def case_prod_beta shallow_merge_options_eq key_push_def)
qed

lemma merge_containerize_eq:
  "\<exists>c ws. merge_containerize a b = Ok (c, ws) \<and> (\<forall>p. Overriding p \<in> set ws \<longrightarrow> hd p = ''containerize'') \<and>
     (labels_ok a \<longrightarrow> labels_ok b \<longrightarrow> labels_ok c)"
proof (cases "\<exists>lp hp l h. a = Some lp \<and> b = Some hp \<and> cont_config lp = Some l \<and> cont_config hp = Some h")
  case True
  then obtain lp hp l h where ab: "a = Some lp" "b = Some hp" "cont_config lp = Some l" "cont_config hp = Some h"
    by blast
  obtain c ws where m: "deep_merge_optional_containerize_config (Some l) (Some h) = (Some c, ws)"
    by (simp add: Let_def case_prod_beta)
  have "labels_ok a \<longrightarrow> labels_ok b \<longrightarrow> (case cc_labels c of None \<Rightarrow> True | Some l \<Rightarrow> bm_inv l)"
    using ab deep_merge_labels(1) [OF m]
    by (cases "cc_labels l"; cases "cc_labels h") (auto simp: case_prod_beta map_union_eq)
  moreover have "merge_containerize a b = Ok (Some \<lparr> cont_config = Some c \<rparr>, ws)"
    using ab m by simp
  ultimately show ?thesis
    using deep_merge_labels(2) [OF m] by auto
next
  case False
  show ?thesis
  proof (cases a)
    case None
    then show ?thesis
      by (cases b) auto
  next
    case (Some lp)
    show ?thesis
    proof (cases b)
      case None
      with \<open>a = Some lp\<close> show ?thesis
        by auto
    next
      case (Some hp)
      have "deep_merge_optional_containerize_config (cont_config lp) (cont_config hp) =
          (case cont_config hp of None \<Rightarrow> cont_config lp | Some c \<Rightarrow> Some c, [])"
        using False \<open>a = Some lp\<close> Some by (cases "cont_config lp"; cases "cont_config hp") auto
      then have "merge_containerize a b = Ok (Some \<lparr> cont_config =
          (case cont_config hp of None \<Rightarrow> cont_config lp | Some c \<Rightarrow> Some c) \<rparr>, [])"
        using \<open>a = Some lp\<close> Some by simp
      then show ?thesis
        using \<open>a = Some lp\<close> Some by (cases "cont_config hp") auto
    qed
  qed
qed

text \<open>Everything a pairwise merge does, in one statement per kind of table.\<close>

lemma shallow_merge_maps:
  assumes "shallow_merge low high = Ok (m, ws)"
  shows "mf_schema_version m = mf_schema_version high"
    and "mf_minimum_cli_version m = override (mf_minimum_cli_version low) (mf_minimum_cli_version high)"
    and "mf_install m = bm_extend (mf_install low) (mf_install high)"
    and "mf_vars m = bm_extend (mf_vars low) (mf_vars high)"
    and "svcs_map (mf_services m) = bm_extend (svcs_map (mf_services low)) (svcs_map (mf_services high))"
    and "svcs_auto_start (mf_services m) =
           override (svcs_auto_start (mf_services low)) (svcs_auto_start (mf_services high))"
    and "mf_build m = bm_extend (mf_build low) (mf_build high)"
    and "\<exists>ow. merge_options (mf_options low) (mf_options high) = Ok (mf_options m, ow)"
    and "merge_hook (mf_hook low) (mf_hook high) = Ok (mf_hook m)"
    and "merge_profile (mf_profile low) (mf_profile high) = Ok (mf_profile m)"
    and "mf_include m = []"
  using assms
  by (auto simp: shallow_merge_def result_simps merge_version_def merge_minimum_cli_version_eq
      merge_install_def merge_vars_def merge_services_def merge_build_def map_union_def)

lemma shallow_merge_total:
  obtains m ws where "shallow_merge low high = Ok (m, ws)"
    "manifest_wf low \<Longrightarrow> manifest_wf high \<Longrightarrow> manifest_wf m"
proof -
  obtain h where h: "merge_hook (mf_hook low) (mf_hook high) = Ok h"
    using merge_hook_eq by blast
  obtain p where p: "merge_profile (mf_profile low) (mf_profile high) = Ok p"
    by (cases "mf_profile low"; cases "mf_profile high") auto
  obtain c cw where c: "merge_containerize (mf_containerize low) (mf_containerize high) = Ok (c, cw)"
    "labels_ok (mf_containerize low) \<Longrightarrow> labels_ok (mf_containerize high) \<Longrightarrow> labels_ok c"
    using merge_containerize_eq by blast
  obtain m ws where m: "shallow_merge low high = Ok (m, ws)" "mf_containerize m = c"
    using h p c(1)
    by (auto simp: shallow_merge_def merge_version_def merge_minimum_cli_version_eq merge_install_def
        merge_vars_def merge_services_def merge_build_def map_union_def merge_options_eq)
  have "manifest_wf low \<Longrightarrow> manifest_wf high \<Longrightarrow> manifest_wf m"
    using c(2) m(2) by (simp add: manifest_wf_def shallow_merge_maps [OF m(1)])
  with m(1) that show thesis
    by blast
qed

text \<open>Which key paths a pairwise merge warns about, outside the containerize table.\<close>

lemma shallow_merge_warnings:
  assumes "shallow_merge low high = Ok (m, ws)" and "hd p \<noteq> ''containerize''"
  shows "Overriding p \<in> set ws \<longleftrightarrow>
    p = [''minimum-cli-version''] \<and> mf_minimum_cli_version low \<noteq> None \<and> mf_minimum_cli_version high \<noteq> None \<or>
    (\<exists>k. p = [''install'', k] \<and> bm_get (mf_install low) k \<noteq> None \<and> bm_get (mf_install high) k \<noteq> None) \<or>
    (\<exists>k. p = [''vars'', k] \<and> bm_get (mf_vars low) k \<noteq> None \<and> bm_get (mf_vars high) k \<noteq> None) \<or>
    (\<exists>k. p = [''services'', k] \<and> bm_get (svcs_map (mf_services low)) k \<noteq> None \<and>
          bm_get (svcs_map (mf_services high)) k \<noteq> None) \<or>
    (\<exists>k. p = [''build'', k] \<and> bm_get (mf_build low) k \<noteq> None \<and> bm_get (mf_build high) k \<noteq> None) \<or>
    (\<exists>o' ow. merge_options (mf_options low) (mf_options high) = Ok (o', ow) \<and> Overriding p \<in> set ow)"
proof -
  obtain c cw where c: "merge_containerize (mf_containerize low) (mf_containerize high) = Ok (c, cw)"
    "\<And>p. Overriding p \<in> set cw \<Longrightarrow> hd p = ''containerize''"
    using merge_containerize_eq by blast
  obtain o' ow where o: "merge_options (mf_options low) (mf_options high) = Ok (o', ow)"
    by (simp add: merge_options_eq)
  have "ws = warn_if (mf_minimum_cli_version low \<noteq> None \<and> mf_minimum_cli_version high \<noteq> None) [''minimum-cli-version'']
      @ snd (map_union [''install''] (mf_install low) (mf_install high))
      @ snd (map_union [''vars''] (mf_vars low) (mf_vars high)) @ ow
      @ snd (map_union [''services''] (svcs_map (mf_services low)) (svcs_map (mf_services high)))
      @ snd (map_union [''build''] (mf_build low) (mf_build high)) @ cw"
    using assms(1) o c(1)
    by (auto simp: shallow_merge_def result_simps merge_version_def merge_minimum_cli_version_eq
        merge_install_def merge_vars_def merge_services_def merge_build_def case_prod_beta)
  then have "Overriding p \<in> set ws \<longleftrightarrow>
      Overriding p \<in> set (warn_if (mf_minimum_cli_version low \<noteq> None \<and> mf_minimum_cli_version high \<noteq> None) [''minimum-cli-version'']) \<or>
      Overriding p \<in> set (snd (map_union [''install''] (mf_install low) (mf_install high))) \<or>
      Overriding p \<in> set (snd (map_union [''vars''] (mf_vars low) (mf_vars high))) \<or>
      Overriding p \<in> set (snd (map_union [''services''] (svcs_map (mf_services low)) (svcs_map (mf_services high)))) \<or>
      Overriding p \<in> set (snd (map_union [''build''] (mf_build low) (mf_build high))) \<or>
      Overriding p \<in> set ow"
    using c(2) [of p] assms(2) by auto
  then show ?thesis
    by (simp only: in_warn_if map_union_eq o append_Cons append_Nil) (use o in blast)
qed


lemma shallow_merge_ok:
  "manifest_wf low \<Longrightarrow> manifest_wf high \<Longrightarrow> \<exists>m. (\<exists>ws. shallow_merge low high = Ok (m, ws)) \<and> manifest_wf m"
  by (rule shallow_merge_total [of low high]) blast

lemma shallow_merge_returns: "\<exists>m ws. shallow_merge low high = Ok (m, ws)"
  by (rule shallow_merge_total [of low high]) blast

lemma manifest_wfD:
  assumes "manifest_wf m"
  shows "bm_inv (mf_install m)" and "bm_inv (mf_vars m)" and "bm_inv (svcs_map (mf_services m))"
    and "bm_inv (mf_build m)"
  using assms by (simp_all add: manifest_wf_def)

lemma merge_options_warnings:
  "merge_options low high = Ok (o', ow) \<Longrightarrow> Overriding p \<in> set ow \<Longrightarrow> hd p = ''options''"
  by (auto simp: merge_options_eq)

text \<open>The warnings of a pairwise merge, per table.\<close>

lemma shallow_merge_opts:
  assumes "shallow_merge low high = Ok (m, ws)"
  shows "mf_options m = fst (projr (merge_options (mf_options low) (mf_options high)))"
  using shallow_merge_maps(8) [OF assms] by auto

lemma warn_options:
  assumes "shallow_merge low high = Ok (m, ws)" and "hd p = ''options''"
  shows "Overriding p \<in> set ws \<longleftrightarrow> Overriding p \<in> set (snd (projr (merge_options (mf_options low) (mf_options high))))"
  using shallow_merge_warnings [OF assms(1), of p] shallow_merge_maps(8) [OF assms(1)] assms(2) by auto

lemma warn_table:
  assumes "shallow_merge low high = Ok (m, ws)"
  shows "Overriding [''install'', k] \<in> set ws \<longleftrightarrow>
      bm_get (mf_install low) k \<noteq> None \<and> bm_get (mf_install high) k \<noteq> None"
    and "Overriding [''vars'', k] \<in> set ws \<longleftrightarrow>
      bm_get (mf_vars low) k \<noteq> None \<and> bm_get (mf_vars high) k \<noteq> None"
    and "Overriding [''services'', k] \<in> set ws \<longleftrightarrow>
      bm_get (svcs_map (mf_services low)) k \<noteq> None \<and> bm_get (svcs_map (mf_services high)) k \<noteq> None"
    and "Overriding [''build'', k] \<in> set ws \<longleftrightarrow>
      bm_get (mf_build low) k \<noteq> None \<and> bm_get (mf_build high) k \<noteq> None"
    and "Overriding [''minimum-cli-version''] \<in> set ws \<longleftrightarrow>
      mf_minimum_cli_version low \<noteq> None \<and> mf_minimum_cli_version high \<noteq> None"
  by (simp_all add: shallow_merge_warnings [OF assms] del: not_None_eq)
    (use merge_options_warnings in fastforce)+

text \<open>The maps: one interpretation per key.\<close>

interpretation install: warning_merge shallow_merge manifest_wf "\<lambda>m. bm_get (mf_install m) k" "[''install'', k]" for k
  by unfold_locales (simp_all add: shallow_merge_ok shallow_merge_maps bm_get_extend_map manifest_wfD warn_table)

interpretation vars: warning_merge shallow_merge manifest_wf "\<lambda>m. bm_get (mf_vars m) k" "[''vars'', k]" for k
  by unfold_locales (simp_all add: shallow_merge_ok shallow_merge_maps bm_get_extend_map manifest_wfD warn_table)

interpretation services: warning_merge shallow_merge manifest_wf "\<lambda>m. bm_get (svcs_map (mf_services m)) k" "[''services'', k]" for k
  by unfold_locales (simp_all add: shallow_merge_ok shallow_merge_maps bm_get_extend_map manifest_wfD warn_table)

interpretation build: warning_merge shallow_merge manifest_wf "\<lambda>m. bm_get (mf_build m) k" "[''build'', k]" for k
  by unfold_locales (simp_all add: shallow_merge_ok shallow_merge_maps bm_get_extend_map manifest_wfD warn_table)

text \<open>The options and the minimum CLI version.\<close>

interpretation min_cli: warning_merge shallow_merge manifest_wf "\<lambda>m. mf_minimum_cli_version m" "[''minimum-cli-version'']"
  by unfold_locales (simp_all add: shallow_merge_ok shallow_merge_maps bm_get_extend_map manifest_wfD warn_table)

interpretation unfree: warning_merge shallow_merge manifest_wf "\<lambda>m. allow_unfree (opt_allow (mf_options m))" "[''options'', ''allow'', ''unfree'']"
  by unfold_locales (simp_all add: shallow_merge_ok warn_options shallow_merge_opts merge_options_eq)

interpretation broken: warning_merge shallow_merge manifest_wf "\<lambda>m. allow_broken (opt_allow (mf_options m))" "[''options'', ''allow'', ''broken'']"
  by unfold_locales (simp_all add: shallow_merge_ok warn_options shallow_merge_opts merge_options_eq)

interpretation licenses: warning_merge shallow_merge manifest_wf "\<lambda>m. allow_licenses (opt_allow (mf_options m))" "[''options'', ''allow'', ''licenses'']"
  by unfold_locales (simp_all add: shallow_merge_ok warn_options shallow_merge_opts merge_options_eq)

interpretation pre_releases: warning_merge shallow_merge manifest_wf "\<lambda>m. semver_allow_pre_releases (opt_semver (mf_options m))" "[''options'', ''semver'', ''allow-pre-releases'']"
  by unfold_locales (simp_all add: shallow_merge_ok warn_options shallow_merge_opts merge_options_eq)

interpretation cuda: warning_merge shallow_merge manifest_wf "\<lambda>m. opt_cuda_detection (mf_options m)" "[''options'', ''cuda-detection'']"
  by unfold_locales (simp_all add: shallow_merge_ok warn_options shallow_merge_opts merge_options_eq)

interpretation opt_systems: warning_merge shallow_merge manifest_wf "\<lambda>m. opt_systems (mf_options m)" "[''options'', ''systems'']"
  by unfold_locales (simp_all add: shallow_merge_ok warn_options shallow_merge_opts merge_options_eq)

interpretation activate_mode: warning_merge shallow_merge manifest_wf "\<lambda>m. activate_mode (opt_activate (mf_options m))" "[''options'', ''activate'', ''mode'']"
  by unfold_locales (simp_all add: shallow_merge_ok warn_options shallow_merge_opts merge_options_eq)

text \<open>Values the higher priority replaces without a warning.\<close>

interpretation auto_start: overriding_merge shallow_merge "\<lambda>_. True" "\<lambda>m. svcs_auto_start (mf_services m)"
  by unfold_locales (auto simp: shallow_merge_returns shallow_merge_maps)

interpretation schema: overriding_merge shallow_merge "\<lambda>_. True" "\<lambda>m. Some (mf_schema_version m)"
  by unfold_locales (auto simp: shallow_merge_returns shallow_merge_maps)

text \<open>The scripts: activation in the order of the manifests, deactivation in the reverse order.\<close>

lemma append_last: "append_optional_strings (join_present xs) y = join_present (xs @ [y])"
  using append_join_present [of xs "[y]"] by (simp add: join_present_single)

lemma append_first: "append_optional_strings y (join_present xs) = join_present (y # xs)"
  using append_join_present [of "[y]" xs] by (simp add: join_present_single)

lemma append_None [simp]: "append_optional_strings x None = x" "append_optional_strings None x = x"
  by (cases x; simp)+

lemma merge_profile_eq:
  assumes "merge_profile a b = Ok p"
    and "f \<in> {prof_common, prof_bash, prof_zsh, prof_fish, prof_tcsh}"
  shows "Option.bind p f = append_optional_strings (Option.bind a f) (Option.bind b f)"
  using assms by (cases a; cases b) auto

lemma merge_deactivate_eq:
  assumes "merge_profile a b = Ok p"
    and "f \<in> {pd_common, pd_bash, pd_zsh, pd_fish, pd_tcsh}"
  shows "Option.bind (Option.bind p prof_deactivate) f =
    append_optional_strings (Option.bind (Option.bind b prof_deactivate) f) (Option.bind (Option.bind a prof_deactivate) f)"
proof -
  have merge: "Option.bind (merge_profile_deactivate x y) f =
      append_optional_strings (Option.bind y f) (Option.bind x f)" for x y
    using assms(2) by (cases x; cases y) auto
  show ?thesis
    using assms(1) by (cases a; cases b) (auto simp: merge)
qed

interpretation on_activate: appending_merge shallow_merge on_activate "\<lambda>xs. xs"
proof
  fix low high m ws xs
  assume "shallow_merge low high = Ok (m, ws)" and *: "on_activate low = join_present xs"
  then have "on_activate m = append_optional_strings (on_activate low) (on_activate high)"
    using merge_hook_eq [of "mf_hook low" "mf_hook high"] shallow_merge_maps(9)
    by (fastforce simp: on_activate_def)
  with * show "on_activate m = join_present (xs @ [on_activate high])"
    by (simp add: append_last)
qed simp

lemma profile_appending:
  assumes "f \<in> {prof_common, prof_bash, prof_zsh, prof_fish, prof_tcsh}"
  shows "appending_merge shallow_merge (profile_field f) (\<lambda>xs. xs)"
proof
  fix low high m ws xs
  assume "shallow_merge low high = Ok (m, ws)" and *: "profile_field f low = join_present xs"
  then have "profile_field f m = append_optional_strings (profile_field f low) (profile_field f high)"
    unfolding profile_field_def using merge_profile_eq [OF shallow_merge_maps(10) assms] by blast
  with * show "profile_field f m = join_present (xs @ [profile_field f high])"
    by (simp add: append_last)
qed simp

lemma deactivate_appending:
  assumes "f \<in> {pd_common, pd_bash, pd_zsh, pd_fish, pd_tcsh}"
  shows "appending_merge shallow_merge (deactivate_field f) rev"
proof
  fix low high m ws xs
  assume "shallow_merge low high = Ok (m, ws)" and *: "deactivate_field f low = join_present (rev xs)"
  then have "deactivate_field f m = append_optional_strings (deactivate_field f high) (deactivate_field f low)"
    unfolding deactivate_field_def using merge_deactivate_eq [OF shallow_merge_maps(10) assms] by blast
  with * show "deactivate_field f m = join_present (rev (xs @ [deactivate_field f high]))"
    by (simp add: append_first)
qed simp

interpretation profile_common: appending_merge shallow_merge "profile_field prof_common" "\<lambda>xs. xs"
  by (rule profile_appending) simp

interpretation profile_bash: appending_merge shallow_merge "profile_field prof_bash" "\<lambda>xs. xs"
  by (rule profile_appending) simp

interpretation profile_zsh: appending_merge shallow_merge "profile_field prof_zsh" "\<lambda>xs. xs"
  by (rule profile_appending) simp

interpretation profile_fish: appending_merge shallow_merge "profile_field prof_fish" "\<lambda>xs. xs"
  by (rule profile_appending) simp

interpretation profile_tcsh: appending_merge shallow_merge "profile_field prof_tcsh" "\<lambda>xs. xs"
  by (rule profile_appending) simp

interpretation deactivate_common: appending_merge shallow_merge "deactivate_field pd_common" rev
  by (rule deactivate_appending) simp

interpretation deactivate_bash: appending_merge shallow_merge "deactivate_field pd_bash" rev
  by (rule deactivate_appending) simp

interpretation deactivate_zsh: appending_merge shallow_merge "deactivate_field pd_zsh" rev
  by (rule deactivate_appending) simp

interpretation deactivate_fish: appending_merge shallow_merge "deactivate_field pd_fish" rev
  by (rule deactivate_appending) simp

interpretation deactivate_tcsh: appending_merge shallow_merge "deactivate_field pd_tcsh" rev
  by (rule deactivate_appending) simp

section \<open>Merging a composite manifest\<close>

text \<open>All the manifests of a composition, the composer last.\<close>

definition manifests :: "CompositeManifest \<Rightarrow> Manifest list" where
  "manifests c = map snd (cm_deps c) @ [cm_composer c]"

lemma merge_all_cases:
  obtains n0 m0 ms where "cm_deps c @ [(COMPOSER_MANIFEST_ID, cm_composer c)] = (n0, m0) # ms"
    "merge_all c = merge_loop shallow_merge ms m0 []" "manifests c = m0 # map snd ms"
proof (cases "cm_deps c")
  case Nil
  then show ?thesis
    by (intro that) (simp_all add: merge_all_def manifests_def)
next
  case (Cons d ds)
  then show ?thesis
    by (intro that [of "fst d" "snd d" "ds @ [(COMPOSER_MANIFEST_ID, cm_composer c)]"])
      (simp_all add: merge_all_def manifests_def case_prod_beta)
qed

text \<open>
  C10. Composing manifests always succeeds, and every entry of the install, vars, services and
  build tables and every option of the result is the one of the last manifest that defines it,
  the composing manifest having the last word.
\<close>
lemma merge_all_last_wins:
  assumes "\<forall>x \<in> set (manifests c). manifest_wf x"
  shows "\<exists>m ws. merge_all c = Ok (m, ws) \<and> manifest_wf m \<and>
     (\<forall>k. bm_get (mf_install m) k = last_defined (\<lambda>x. bm_get (mf_install x) k) (manifests c)) \<and>
     (\<forall>k. bm_get (mf_vars m) k = last_defined (\<lambda>x. bm_get (mf_vars x) k) (manifests c)) \<and>
     (\<forall>k. bm_get (svcs_map (mf_services m)) k = last_defined (\<lambda>x. bm_get (svcs_map (mf_services x)) k) (manifests c)) \<and>
     (\<forall>k. bm_get (mf_build m) k = last_defined (\<lambda>x. bm_get (mf_build x) k) (manifests c)) \<and>
     mf_minimum_cli_version m = last_defined (\<lambda>x. mf_minimum_cli_version x) (manifests c) \<and>
     allow_unfree (opt_allow (mf_options m)) = last_defined (\<lambda>x. allow_unfree (opt_allow (mf_options x))) (manifests c) \<and>
     allow_broken (opt_allow (mf_options m)) = last_defined (\<lambda>x. allow_broken (opt_allow (mf_options x))) (manifests c) \<and>
     allow_licenses (opt_allow (mf_options m)) = last_defined (\<lambda>x. allow_licenses (opt_allow (mf_options x))) (manifests c) \<and>
     semver_allow_pre_releases (opt_semver (mf_options m)) = last_defined (\<lambda>x. semver_allow_pre_releases (opt_semver (mf_options x))) (manifests c) \<and>
     opt_cuda_detection (mf_options m) = last_defined (\<lambda>x. opt_cuda_detection (mf_options x)) (manifests c) \<and>
     opt_systems (mf_options m) = last_defined (\<lambda>x. opt_systems (mf_options x)) (manifests c) \<and>
     activate_mode (opt_activate (mf_options m)) = last_defined (\<lambda>x. activate_mode (opt_activate (mf_options x))) (manifests c) \<and>
     svcs_auto_start (mf_services m) = last_defined (\<lambda>x. svcs_auto_start (mf_services x)) (manifests c)"
proof -
  obtain n0 m0 ms where c: "merge_all c = merge_loop shallow_merge ms m0 []" "manifests c = m0 # map snd ms"
    by (rule merge_all_cases)
  with assms have wf: "manifest_wf m0" "\<forall>nm \<in> set ms. manifest_wf (snd nm)"
    by auto
  then obtain m ws where m: "merge_loop shallow_merge ms m0 [] = Ok (m, ws)" "manifest_wf m"
    using install.merge_loop_ok by fastforce
  note views = install.merge_loop_view [OF wf m(1), folded c(2)]
    vars.merge_loop_view [OF wf m(1), folded c(2)]
    services.merge_loop_view [OF wf m(1), folded c(2)]
    build.merge_loop_view [OF wf m(1), folded c(2)]
    min_cli.merge_loop_view [OF wf m(1), folded c(2)]
    unfree.merge_loop_view [OF wf m(1), folded c(2)]
    broken.merge_loop_view [OF wf m(1), folded c(2)]
    licenses.merge_loop_view [OF wf m(1), folded c(2)]
    pre_releases.merge_loop_view [OF wf m(1), folded c(2)]
    cuda.merge_loop_view [OF wf m(1), folded c(2)]
    opt_systems.merge_loop_view [OF wf m(1), folded c(2)]
    activate_mode.merge_loop_view [OF wf m(1), folded c(2)]
  note last = views auto_start.merge_loop_view [OF _ _ m(1), folded c(2), simplified]
  have "merge_all c = Ok (m, ws)"
    using c m by simp
  then show ?thesis
    by (intro exI [of _ m] exI [of _ ws] conjI allI m(2) last; assumption?)
qed

text \<open>A manifest of the given name defines a value that an earlier one defines too.\<close>

definition overrides :: "('m \<Rightarrow> 'v option) \<Rightarrow> string \<Rightarrow> (string \<times> 'm) list \<Rightarrow> bool" where
  "overrides view n ms \<longleftrightarrow>
     (\<exists>pre x post. ms = pre @ (n, x) # post \<and> view x \<noteq> None \<and> (\<exists>y \<in> set pre. view (snd y) \<noteq> None))"

lemma overrides_Cons:
  "overrides view n ((n0, m0) # ms) \<longleftrightarrow>
     (\<exists>pre x post. ms = pre @ (n, x) # post \<and> view x \<noteq> None \<and>
        (view m0 \<noteq> None \<or> (\<exists>y \<in> set pre. view (snd y) \<noteq> None)))" (is "?L \<longleftrightarrow> ?R")
proof
  assume ?L
  then obtain pre x post where e: "(n0, m0) # ms = pre @ (n, x) # post" "view x \<noteq> None"
    "\<exists>y \<in> set pre. view (snd y) \<noteq> None"
    unfolding overrides_def by blast
  then obtain pre' where "pre = (n0, m0) # pre'"
    by (cases pre) auto
  with e have "ms = pre' @ (n, x) # post \<and> view x \<noteq> None \<and>
      (view m0 \<noteq> None \<or> (\<exists>y \<in> set pre'. view (snd y) \<noteq> None))"
    by (simp del: not_None_eq)
  then show ?R
    by blast
next
  assume ?R
  then obtain pre x post where "ms = pre @ (n, x) # post" "view x \<noteq> None"
    "view m0 \<noteq> None \<or> (\<exists>y \<in> set pre. view (snd y) \<noteq> None)"
    by blast
  then have "(n0, m0) # ms = ((n0, m0) # pre) @ (n, x) # post \<and> view x \<noteq> None \<and>
      (\<exists>y \<in> set ((n0, m0) # pre). view (snd y) \<noteq> None)"
    by auto
  then show ?L
    unfolding overrides_def by blast
qed

lemma merge_loop_all_warnings:
  assumes merge: "\<And>low high m ws w. merge low high = Ok (m, ws) \<Longrightarrow> w \<in> set ws \<Longrightarrow> P w"
  shows "merge_loop merge ms m0 acc = Ok (m, ws) \<Longrightarrow> \<forall>w \<in> set acc. P (wc_warning w) \<Longrightarrow>
     \<forall>w \<in> set ws. P (wc_warning w)"
proof (induction ms arbitrary: m0 acc)
  case (Cons nm ms)
  obtain n x where nm: "nm = (n, x)"
    by (cases nm)
  then obtain m1 ws1 where m1: "merge m0 x = Ok (m1, ws1)"
    "merge_loop merge ms m1 (acc @ map (\<lambda>w. \<lparr> wc_warning = w, wc_higher_priority_name = n \<rparr>) ws1) = Ok (m, ws)"
    using Cons.prems(1) by (auto simp: result_simps)
  have "\<forall>w \<in> set (acc @ map (\<lambda>w. \<lparr> wc_warning = w, wc_higher_priority_name = n \<rparr>) ws1). P (wc_warning w)"
    using Cons.prems(2) merge [OF m1(1)] by auto
  then show ?case
    by (rule Cons.IH [OF m1(2)])
qed simp

lemma install_warning_shape:
  assumes "shallow_merge low high = Ok (m, ws)" and "Overriding (''install'' # k # rest) \<in> set ws"
  shows "rest = []"
  using shallow_merge_warnings [OF assms(1), of "''install'' # k # rest"] assms(2) merge_options_warnings
  by fastforce

lemma package_overrides_iff:
  "k \<in> set (package_overrides_for_manifest_id ws n) \<longleftrightarrow>
     (\<exists>rest. \<lparr> wc_warning = Overriding (''install'' # k # rest), wc_higher_priority_name = n \<rparr> \<in> set ws)"
proof -
  let ?id = "\<lambda>w :: WarningWithContext. case wc_warning w of
           Overriding (section # k # x) \<Rightarrow> if section = ''install'' then Some k else None
         | Overriding _ \<Rightarrow> None"
  have eq: "?id w = Some k \<and> wc_higher_priority_name w = n \<longleftrightarrow>
      (\<exists>rest. w = \<lparr> wc_warning = Overriding (''install'' # k # rest), wc_higher_priority_name = n \<rparr>)" for w
    by (cases w) (auto split: Warning.splits list.splits)
  have "k \<in> set (package_overrides_for_manifest_id ws n) \<longleftrightarrow>
      (\<exists>w \<in> set ws. ?id w = Some k \<and> wc_higher_priority_name w = n)"
    unfolding package_overrides_for_manifest_id_def set_sort in_map_filter set_filter by blast
  then show ?thesis
    unfolding eq by blast
qed

text \<open>
  C11. The overrides a composition reports are the real ones: an entry of the vars, services or
  build table is reported for an including manifest exactly when that manifest and an earlier
  one both define it, and the install ids listed for a manifest are exactly the packages it
  takes over from an earlier one.
\<close>
lemma merge_all_reports_overrides:
  assumes "\<forall>x \<in> set (manifests c). manifest_wf x" and "merge_all c = Ok (m, ws)"
    and "named = cm_deps c @ [(COMPOSER_MANIFEST_ID, cm_composer c)]"
  shows "(k \<in> set (package_overrides_for_manifest_id ws n) \<longleftrightarrow> overrides (\<lambda>x. bm_get (mf_install x) k) n named) \<and>
     (\<lparr> wc_warning = Overriding [''vars'', k], wc_higher_priority_name = n \<rparr> \<in> set ws \<longleftrightarrow>
       overrides (\<lambda>x. bm_get (mf_vars x) k) n named) \<and>
     (\<lparr> wc_warning = Overriding [''services'', k], wc_higher_priority_name = n \<rparr> \<in> set ws \<longleftrightarrow>
       overrides (\<lambda>x. bm_get (svcs_map (mf_services x)) k) n named) \<and>
     (\<lparr> wc_warning = Overriding [''build'', k], wc_higher_priority_name = n \<rparr> \<in> set ws \<longleftrightarrow>
       overrides (\<lambda>x. bm_get (mf_build x) k) n named)"
proof -
  obtain n0 m0 ms where c: "named = (n0, m0) # ms" "merge_all c = merge_loop shallow_merge ms m0 []"
    "manifests c = m0 # map snd ms"
    unfolding assms(3) by (rule merge_all_cases)
  with assms(1) have wf: "manifest_wf m0" "\<forall>nm \<in> set ms. manifest_wf (snd nm)"
    by auto
  have loop: "merge_loop shallow_merge ms m0 [] = Ok (m, [] @ ws)"
    using assms(2) c by simp
  have "\<forall>w \<in> set ws. (\<lambda>w. \<forall>k rest. w = Overriding (''install'' # k # rest) \<longrightarrow> rest = []) (wc_warning w)"
    by (rule merge_loop_all_warnings [OF _ loop [simplified]]) (use install_warning_shape in auto)
  then have "k \<in> set (package_overrides_for_manifest_id ws n) \<longleftrightarrow>
      \<lparr> wc_warning = Overriding [''install'', k], wc_higher_priority_name = n \<rparr> \<in> set ws"
    unfolding package_overrides_iff by fastforce
  then show ?thesis
    using install.merge_loop_warns [OF wf loop] vars.merge_loop_warns [OF wf loop]
      services.merge_loop_warns [OF wf loop] build.merge_loop_warns [OF wf loop]
    by (simp only: c(1) overrides_Cons simp_thms)
qed

text \<open>
  The hook and the profile scripts of a composition are those of the manifests that have
  one, in priority order and separated by newlines; the deactivation scripts come in the
  reverse order.
\<close>
lemma merge_all_scripts:
  "\<exists>m ws. merge_all c = Ok (m, ws) \<and>
     on_activate m = join_present (map on_activate (manifests c)) \<and>
     profile_field prof_common m = join_present (map (profile_field prof_common) (manifests c)) \<and>
     profile_field prof_bash m = join_present (map (profile_field prof_bash) (manifests c)) \<and>
     profile_field prof_zsh m = join_present (map (profile_field prof_zsh) (manifests c)) \<and>
     profile_field prof_fish m = join_present (map (profile_field prof_fish) (manifests c)) \<and>
     profile_field prof_tcsh m = join_present (map (profile_field prof_tcsh) (manifests c)) \<and>
     deactivate_field pd_common m = join_present (rev (map (deactivate_field pd_common) (manifests c))) \<and>
     deactivate_field pd_bash m = join_present (rev (map (deactivate_field pd_bash) (manifests c))) \<and>
     deactivate_field pd_zsh m = join_present (rev (map (deactivate_field pd_zsh) (manifests c))) \<and>
     deactivate_field pd_fish m = join_present (rev (map (deactivate_field pd_fish) (manifests c))) \<and>
     deactivate_field pd_tcsh m = join_present (rev (map (deactivate_field pd_tcsh) (manifests c)))"
proof -
  obtain n0 m0 ms where c: "merge_all c = merge_loop shallow_merge ms m0 []" "manifests c = m0 # map snd ms"
    by (rule merge_all_cases)
  obtain m ws where m: "merge_loop shallow_merge ms m0 [] = Ok (m, ws)"
    using auto_start.merge_loop_ok by fastforce
  have "merge_all c = Ok (m, ws)"
    using c m by simp
  then show ?thesis
    by (intro exI [of _ m] exI [of _ ws] conjI on_activate.merge_loop_script_first [OF m, folded c(2)]
      profile_common.merge_loop_script_first [OF m, folded c(2)]
      profile_bash.merge_loop_script_first [OF m, folded c(2)]
      profile_zsh.merge_loop_script_first [OF m, folded c(2)]
      profile_fish.merge_loop_script_first [OF m, folded c(2)]
      profile_tcsh.merge_loop_script_first [OF m, folded c(2)]
      deactivate_common.merge_loop_script_first [OF m, folded c(2)]
      deactivate_bash.merge_loop_script_first [OF m, folded c(2)]
      deactivate_zsh.merge_loop_script_first [OF m, folded c(2)]
      deactivate_fish.merge_loop_script_first [OF m, folded c(2)]
      deactivate_tcsh.merge_loop_script_first [OF m, folded c(2)])
qed

section \<open>A composition of two manifests\<close>

definition demo_package :: "string \<Rightarrow> ManifestPackageDescriptor" where
  "demo_package v = Catalog \<lparr> pdc_pkg_path = ''curl'', pdc_pkg_group = None, pdc_priority = None,
     pdc_version = Some v, pdc_systems = None, pdc_outputs = None \<rparr>"

definition demo_composition :: CompositeManifest where
  "demo_composition =
     \<lparr> cm_composer = default_manifest \<lparr> mf_install := [(''curl'', demo_package ''8'')] \<rparr>,
       cm_deps = [(''base'', default_manifest
         \<lparr> mf_install := [(''bat'', demo_package ''1''), (''curl'', demo_package ''7'')],
           mf_vars := [(''A'', ''1'')] \<rparr>)] \<rparr>"

lemma demo_composition_wf: "\<forall>x \<in> set (manifests demo_composition). manifest_wf x"
  by (simp add: demo_composition_def manifests_def manifest_wf_def default_manifest_def bm_inv_def)

lemma merge_all_returns: "\<exists>m ws. merge_all c = Ok (m, ws)"
proof -
  obtain n0 m0 ms where "merge_all c = merge_loop shallow_merge ms m0 []"
    by (rule merge_all_cases)
  then show ?thesis
    using auto_start.merge_loop_ok by fastforce
qed

lemma merge_all_last_wins_witness:
  "\<exists>m ws. merge_all demo_composition = Ok (m, ws) \<and>
     bm_get (mf_install m) ''curl'' = Some (demo_package ''8'') \<and>
     bm_get (mf_install m) ''bat'' = Some (demo_package ''1'') \<and> bm_get (mf_vars m) ''A'' = Some ''1''"
proof -
  have "manifests demo_composition =
      [default_manifest \<lparr> mf_install := [(''bat'', demo_package ''1''), (''curl'', demo_package ''7'')],
         mf_vars := [(''A'', ''1'')] \<rparr>,
       default_manifest \<lparr> mf_install := [(''curl'', demo_package ''8'')] \<rparr>]"
    by (simp add: manifests_def demo_composition_def)
  moreover obtain m ws where "merge_all demo_composition = Ok (m, ws)"
    and "\<forall>k. bm_get (mf_install m) k = last_defined (\<lambda>x. bm_get (mf_install x) k) (manifests demo_composition)"
    and "\<forall>k. bm_get (mf_vars m) k = last_defined (\<lambda>x. bm_get (mf_vars x) k) (manifests demo_composition)"
    using merge_all_last_wins [OF demo_composition_wf] by blast
  ultimately show ?thesis
    by (simp add: default_manifest_def)
qed

lemma merge_all_reports_overrides_witness:
  "\<exists>m ws. merge_all demo_composition = Ok (m, ws) \<and>
     ''curl'' \<in> set (package_overrides_for_manifest_id ws ''Current manifest'') \<and>
     ''bat'' \<notin> set (package_overrides_for_manifest_id ws ''Current manifest'')"
proof -
  obtain m ws where m: "merge_all demo_composition = Ok (m, ws)"
    using merge_all_returns by blast
  note iff = merge_all_reports_overrides [OF demo_composition_wf m refl, where n = "''Current manifest''", THEN conjunct1]
  have "''curl'' \<in> set (package_overrides_for_manifest_id ws ''Current manifest'')"
    unfolding iff by (simp add: demo_composition_def default_manifest_def overrides_Cons COMPOSER_MANIFEST_ID_def)
      (intro exI [of _ "[]"]; simp)
  moreover have "''bat'' \<notin> set (package_overrides_for_manifest_id ws ''Current manifest'')"
    unfolding iff by (simp add: demo_composition_def default_manifest_def overrides_Cons Cons_eq_append_conv)
  ultimately show ?thesis
    using m by blast
qed

end
