(* ===== verification/Git.thy ===== *)
theory Git
  imports Text Ordered_Map
begin

text \<open>
  The git provider (\<open>flox-rust-sdk/src/providers/git.rs\<close>): how the program runs \<open>git\<close> and
  reads its exit codes and its output. The \<open>git\<close> program itself is not part of the sources, so
  it is the parameter \<open>exec\<close> of every operation; \<open>git_documented\<close> states the documented
  behaviour of the subcommands the program uses, and the lemmas of the last section say what
  the provider's operations are for such a \<open>git\<close>.
\<close>

section \<open>Running git\<close>

text \<open>
  Starting the command fails with an operating system error, or gives the exit code (none if a
  signal ended it), the standard output and the standard error.
\<close>

type_synonym exit = "int option \<times> string \<times> string"
type_synonym 'g git_exec = "string list \<Rightarrow> ('g, string, exit) action"

text \<open>\<open>GitPanic\<close> stands for a panic on output the program does not expect.\<close>

datatype GitCommandError =
    GitCommand string
  | BadExit int string string
  | InvalidOutput string
  | GitPanic string

definition run_command :: "'g git_exec \<Rightarrow> string list \<Rightarrow> ('g, GitCommandError, string) action" where
  "run_command exec args =
     act_match (exec args) (\<lambda>r. case r of
         Inl io \<Rightarrow> act_err (GitCommand io)
       | Inr (code, stdout, stderr) \<Rightarrow>
           if code \<noteq> Some 0
           then act_err (BadExit (case code of Some c \<Rightarrow> c | None \<Rightarrow> -1) (trim stdout) (trim stderr))
           else act_ok stdout)"

fun is_access_denied :: "GitCommandError \<Rightarrow> bool" where
  "is_access_denied (BadExit _ _ stderr) \<longleftrightarrow>
     str_contains ''DENIED'' stderr \<or> str_contains ''Authentication failed'' stderr \<or>
     str_contains ''Permission denied'' stderr"
| "is_access_denied _ \<longleftrightarrow> False"

datatype GitRemoteCommandError =
    RemoteCommand GitCommandError
  | AccessDenied
  | Diverged
  | RefNotFound string

definition REF_NOT_FOUND_ERR_PREFIX :: string where
  "REF_NOT_FOUND_ERR_PREFIX = ''fatal: couldn'' @ [CHR 0x27] @ ''t find remote ref ''"

definition REMOTE_BRANCH_NOT_FOUND_ERR_PREFIX :: string where
  "REMOTE_BRANCH_NOT_FOUND_ERR_PREFIX = ''warning: Could not find remote branch ''"

definition REMOTE_BRANCH_NOT_FOUND_IN_UPSTREAM_ERR_PREFIX :: string where
  "REMOTE_BRANCH_NOT_FOUND_IN_UPSTREAM_ERR_PREFIX = ''fatal: Remote branch ''"

definition without_suffix :: "string \<Rightarrow> string \<Rightarrow> string" where
  "without_suffix suffix s = (case strip_suffix suffix s of Some r \<Rightarrow> r | None \<Rightarrow> s)"

definition remote_error :: "GitCommandError \<Rightarrow> GitRemoteCommandError" where
  "remote_error err =
     (if is_access_denied err then AccessDenied
      else (case err of
          BadExit _ stdout stderr \<Rightarrow>
            if str_contains ''[rejected] (fetch first)'' stdout then Diverged
            else (case strip_prefix REF_NOT_FOUND_ERR_PREFIX stderr of
                Some ref_name \<Rightarrow> RefNotFound ref_name
              | None \<Rightarrow> (case strip_prefix REMOTE_BRANCH_NOT_FOUND_ERR_PREFIX stderr of
                  Some branch_name \<Rightarrow> RefNotFound (without_suffix '' to clone'' branch_name)
                | None \<Rightarrow> (case strip_prefix REMOTE_BRANCH_NOT_FOUND_IN_UPSTREAM_ERR_PREFIX stderr of
                    Some branch_name \<Rightarrow>
                      RefNotFound (without_suffix '' not found in upstream origin'' branch_name)
                  | None \<Rightarrow> RemoteCommand err)))
        | _ \<Rightarrow> RemoteCommand err))"

section \<open>Revisions and branches\<close>

definition empty_bad_exit :: "GitCommandError \<Rightarrow> bool" where
  "empty_bad_exit e \<longleftrightarrow> (case e of BadExit _ stdout stderr \<Rightarrow> stdout = [] \<and> stderr = [] | _ \<Rightarrow> False)"

text \<open>A command that answers yes by succeeding and no by failing without output.\<close>

definition git_test :: "('g, GitCommandError, string) action \<Rightarrow> ('g, GitCommandError, bool) action" where
  "git_test cmd =
     act_match cmd (\<lambda>result. case result of
         Inr _ \<Rightarrow> act_ok True
       | Inl e \<Rightarrow> if empty_bad_exit e then act_ok False else act_err e)"

definition contains_commit :: "'g git_exec \<Rightarrow> string \<Rightarrow> ('g, GitCommandError, bool) action" where
  "contains_commit exec revision =
     git_test (run_command exec [''rev-parse'', ''--quiet'', ''--verify'', revision @ ''^{commit}''])"

definition branch_contains_commit ::
  "'g git_exec \<Rightarrow> string \<Rightarrow> string \<Rightarrow> ('g, GitCommandError, bool) action" where
  "branch_contains_commit exec commit branch =
     act_bind (contains_commit exec commit) (\<lambda>present.
       if \<not> present then act_ok False
       else git_test (run_command exec [''merge-base'', ''--is-ancestor'', commit, branch]))"

definition create_branch :: "'g git_exec \<Rightarrow> string \<Rightarrow> string \<Rightarrow> ('g, GitCommandError, unit) action" where
  "create_branch exec name revision =
     act_bind (run_command exec [''branch'', name, revision]) (\<lambda>_. act_ok ())"

definition reset_branch :: "'g git_exec \<Rightarrow> string \<Rightarrow> string \<Rightarrow> ('g, GitCommandError, unit) action" where
  "reset_branch exec name revision =
     act_bind (run_command exec [''branch'', ''--force'', name, revision]) (\<lambda>_. act_ok ())"

datatype BranchHashError = BranchHashCommand GitCommandError | DoesNotExist

definition branch_hash :: "'g git_exec \<Rightarrow> string \<Rightarrow> ('g, BranchHashError, string) action" where
  "branch_hash exec name =
     act_match (run_command exec [''show-ref'', ''--hash'', ''refs/heads/'' @ name]) (\<lambda>result. case result of
         Inr hash \<Rightarrow> act_ok (trim hash)
       | Inl (BadExit code stdout stderr) \<Rightarrow>
           if code = 1 \<and> stdout = [] \<and> stderr = [] then act_err DoesNotExist
           else act_err (BranchHashCommand (BadExit code stdout stderr))
       | Inl e \<Rightarrow> act_err (BranchHashCommand e))"

definition has_branch :: "'g git_exec \<Rightarrow> string \<Rightarrow> ('g, BranchHashError, bool) action" where
  "has_branch exec name =
     act_match (branch_hash exec name) (\<lambda>r. case r of
         Inr _ \<Rightarrow> act_ok True
       | Inl DoesNotExist \<Rightarrow> act_ok False
       | Inl err \<Rightarrow> act_err err)"

definition delete_branch :: "'g git_exec \<Rightarrow> string \<Rightarrow> bool \<Rightarrow> ('g, GitCommandError, unit) action" where
  "delete_branch exec branch force =
     act_bind (run_command exec
       ([''branch'', ''--delete''] @ (if force then [''--force''] else []) @ [branch])) (\<lambda>_. act_ok ())"

record BranchInfo =
  bi_name :: string
  bi_remote :: "string option"
  bi_rev :: string
  bi_description :: string

text \<open>One line of \<open>git branch --all --verbose\<close>; \<open>None\<close> where an \<open>unwrap\<close> panics.\<close>

definition parse_branch_line :: "string \<Rightarrow> BranchInfo option" where
  "parse_branch_line line =
     (case split_once (CHR '' '') (trim (dropWhile (\<lambda>c. c = CHR ''*'') line)) of
        None \<Rightarrow> None
      | Some (full_name, rest) \<Rightarrow>
          (case split_once (CHR '' '') (trim rest) of
             None \<Rightarrow> None
           | Some (hash, rest) \<Rightarrow>
               (let (remote, name) =
                  (case Option.bind (strip_prefix ''remotes/'' full_name) (split_once (CHR ''/'')) of
                     Some (remote, name) \<Rightarrow> (Some remote, name)
                   | None \<Rightarrow> (None, full_name))
                in Some \<lparr> bi_name = name, bi_remote = remote, bi_rev = hash,
                          bi_description = trim_start rest \<rparr>)))"

definition list_branches :: "'g git_exec \<Rightarrow> ('g, GitCommandError, BranchInfo list) action" where
  "list_branches exec =
     act_bind (run_command exec [''branch'', ''--all'', ''--verbose'']) (\<lambda>out.
       act_lift (collect_results (\<lambda>line. ok_or (GitPanic line) (parse_branch_line line)) (str_lines out)))"

section \<open>Fetching and pushing\<close>

definition fetch_ref :: "'g git_exec \<Rightarrow> string \<Rightarrow> string \<Rightarrow> ('g, GitRemoteCommandError, unit) action" where
  "fetch_ref exec repository ref =
     act_map_err remote_error (act_bind (run_command exec [''fetch'', repository, ref]) (\<lambda>_. act_ok ()))"

definition fetch_branch :: "'g git_exec \<Rightarrow> string \<Rightarrow> string \<Rightarrow> ('g, GitRemoteCommandError, unit) action" where
  "fetch_branch exec repository branch =
     fetch_ref exec repository (''refs/heads/'' @ branch @ '':refs/heads/'' @ branch)"

datatype PushFlag = FastForward | ForcedUpdate | Delete | Create | Rejected | UptoDate

definition push_flag_from_str :: "string \<Rightarrow> PushFlag option" where
  "push_flag_from_str s =
     (if s = '' '' then Some FastForward
      else if s = ''+'' then Some ForcedUpdate
      else if s = ''-'' then Some Delete
      else if s = ''*'' then Some Create
      else if s = ''!'' then Some Rejected
      else if s = ''='' then Some UptoDate
      else None)"

definition push_flag_from_stdout :: "string \<Rightarrow> PushFlag option" where
  "push_flag_from_stdout stdout =
     (case str_lines stdout of
        _ # status_line # _ \<Rightarrow>
          (case split_once (CHR 0x09) status_line of
             None \<Rightarrow> None
           | Some (status, _) \<Rightarrow> push_flag_from_str status)
      | _ \<Rightarrow> None)"

definition push_ref ::
  "'g git_exec \<Rightarrow> string \<Rightarrow> string \<Rightarrow> bool \<Rightarrow> ('g, GitRemoteCommandError, PushFlag) action" where
  "push_ref exec repository push_spec force =
     act_match (run_command exec
         ([''push'', ''--porcelain'', repository, push_spec] @ (if force then [''--force''] else [])))
       (\<lambda>result. case result of
           Inr out \<Rightarrow>
             (case push_flag_from_stdout out of
                Some flag \<Rightarrow> act_ok flag
              | None \<Rightarrow> act_err (RemoteCommand (GitPanic out)))
         | Inl err \<Rightarrow>
             (case err of
                BadExit _ stdout stderr \<Rightarrow>
                  if str_contains ''DENIED'' stderr \<or> str_contains ''Authentication failed'' stderr
                  then act_err AccessDenied
                  else if push_flag_from_stdout stdout = Some Rejected then act_err Diverged
                  else act_err (remote_error err)
              | _ \<Rightarrow> act_err (remote_error err)))"

section \<open>The documented behaviour of git\<close>

text \<open>
  A repository as \<open>git\<close> presents it: its branches, the commits it holds, and the branches
  of the FloxHub repository that the remote \<open>dynamicorigin\<close> stands for. A function \<open>hist\<close>
  gives the commits reachable from a commit, the commit included.
\<close>

record Repo =
  heads :: "(string, string) bmap"
  commits :: "string set"
  hub :: "(string, string) bmap"

definition resolve :: "Repo \<Rightarrow> string \<Rightarrow> string option" where
  "resolve r name = (if name \<in> commits r then Some name else bm_get (heads r) name)"

definition is_hex :: "char \<Rightarrow> bool" where
  "is_hex c \<longleftrightarrow> is_ascii_digit c \<or> (97 \<le> (of_char c :: nat) \<and> (of_char c :: nat) \<le> 102)"

definition hash_ok :: "string \<Rightarrow> bool" where
  "hash_ok h \<longleftrightarrow> length h = 40 \<and> list_all is_hex h"

definition is_name_char :: "char \<Rightarrow> bool" where
  "is_name_char c \<longleftrightarrow>
     is_ascii_digit c \<or> (97 \<le> (of_char c :: nat) \<and> (of_char c :: nat) \<le> 122) \<or>
     (65 \<le> (of_char c :: nat) \<and> (of_char c :: nat) \<le> 90) \<or> c \<in> {CHR ''-'', CHR ''_'', CHR ''.''}"

text \<open>
  Names git reads as branch names and nothing else: no option, no revision syntax, no
  abbreviated hash.
\<close>

definition name_ok :: "string \<Rightarrow> bool" where
  "name_ok n \<longleftrightarrow>
     n \<noteq> [] \<and> list_all is_name_char n \<and> hd n \<noteq> CHR ''-'' \<and> hd n \<noteq> CHR ''.'' \<and> n \<noteq> ''HEAD'' \<and>
     \<not> str_contains ''..'' n \<and> \<not> list_all is_hex n"

definition rev_ok :: "string \<Rightarrow> bool" where
  "rev_ok r \<longleftrightarrow> hash_ok r \<or> name_ok r"

definition repo_ok :: "(string \<Rightarrow> string set) \<Rightarrow> Repo \<Rightarrow> bool" where
  "repo_ok hist r \<longleftrightarrow>
     bm_inv (heads r) \<and> bm_inv (hub r) \<and>
     (\<forall>(n, h) \<in> set (heads r). name_ok n \<and> hash_ok h \<and> h \<in> commits r) \<and>
     (\<forall>(n, h) \<in> set (hub r). hash_ok h) \<and>
     (\<forall>(n, h) \<in> set (hub r). \<forall>c \<in> hist h. hash_ok c) \<and>
     (\<forall>c \<in> commits r. hist c \<subseteq> commits r \<and> hash_ok c)"

definition hist_ok :: "(string \<Rightarrow> string set) \<Rightarrow> bool" where
  "hist_ok hist \<longleftrightarrow> (\<forall>c. c \<in> hist c) \<and> (\<forall>a b. a \<in> hist b \<longrightarrow> hist a \<subseteq> hist b) \<and>
     (\<forall>a b. a \<in> hist b \<longrightarrow> b \<in> hist a \<longrightarrow> a = b)"

text \<open>A line of \<open>git branch --all --verbose\<close> for a local branch.\<close>

definition branch_line :: "string \<Rightarrow> string \<times> string \<Rightarrow> bool" where
  "branch_line l nh \<longleftrightarrow>
     (\<exists>mark pad short subject. l = mark @ fst nh @ pad @ short @ '' '' @ subject \<and>
        mark \<in> {''  '', ''* ''} \<and> pad \<noteq> [] \<and> set pad = {CHR '' ''} \<and>
        short \<noteq> [] \<and> list_all is_hex short \<and>
        subject \<noteq> [] \<and> \<not> is_whitespace (hd subject) \<and> \<not> is_whitespace (last subject) \<and>
        CHR 0x0A \<notin> set subject)"

text \<open>What pushing a commit onto a branch does: the status flag git prints for it.\<close>

definition push_status :: "(string \<Rightarrow> string set) \<Rightarrow> string \<Rightarrow> string option \<Rightarrow> bool \<Rightarrow> PushFlag" where
  "push_status hist src dst force =
     (case dst of
        None \<Rightarrow> Create
      | Some d \<Rightarrow> if d = src then UptoDate
                  else if d \<in> hist src then FastForward
                  else if force then ForcedUpdate else Rejected)"

fun flag_char :: "PushFlag \<Rightarrow> char" where
  "flag_char FastForward = CHR '' ''"
| "flag_char ForcedUpdate = CHR ''+''"
| "flag_char Delete = CHR ''-''"
| "flag_char Create = CHR ''*''"
| "flag_char Rejected = CHR ''!''"
| "flag_char UptoDate = CHR ''=''"

definition push_output :: "PushFlag \<Rightarrow> string \<Rightarrow> bool" where
  "push_output flag out \<longleftrightarrow>
     (\<exists>url c rest. out = ''To '' @ url @ newline @ [flag_char flag, CHR 0x09, c] @ rest \<and>
        CHR 0x0A \<notin> set url \<and> \<not> is_whitespace c)"

definition succeeds ::
  "'g git_exec \<Rightarrow> string list \<Rightarrow> ('g \<Rightarrow> Repo) \<Rightarrow> 'g \<Rightarrow> Repo \<Rightarrow> bool" where
  "succeeds exec args view g r \<longleftrightarrow> (\<exists>out err g'. exec args g = (Ok (Some 0, out, err), g') \<and> view g' = r)"

definition fails :: "'g git_exec \<Rightarrow> string list \<Rightarrow> ('g \<Rightarrow> Repo) \<Rightarrow> 'g \<Rightarrow> bool" where
  "fails exec args view g \<longleftrightarrow>
     (\<exists>code out err g'. exec args g = (Ok (Some code, out, err), g') \<and> view g' = view g \<and>
        code \<noteq> 0 \<and> trim err \<noteq> [])"

definition answers :: "'g git_exec \<Rightarrow> string list \<Rightarrow> 'g \<Rightarrow> bool \<Rightarrow> bool" where
  "answers exec args g b \<longleftrightarrow>
     (if b then (\<exists>out err. exec args g = (Ok (Some 0, out, err), g))
      else exec args g = (Ok (Some 1, [], []), g))"

text \<open>The subcommands that only read.\<close>

definition documents_reads :: "'g git_exec \<Rightarrow> ('g \<Rightarrow> Repo) \<Rightarrow> (string \<Rightarrow> string set) \<Rightarrow> bool" where
  "documents_reads exec view hist \<longleftrightarrow>
     (\<forall>g n. repo_ok hist (view g) \<longrightarrow> name_ok n \<longrightarrow>
        exec [''show-ref'', ''--hash'', ''refs/heads/'' @ n] g =
          (Ok (case bm_get (heads (view g)) n of
                 Some h \<Rightarrow> (Some 0, h @ newline, []) | None \<Rightarrow> (Some 1, [], [])), g)) \<and>
     (\<forall>g n. repo_ok hist (view g) \<longrightarrow> rev_ok n \<longrightarrow>
        answers exec ([''rev-parse'', ''--quiet'', ''--verify'', n @ ''^{commit}'']) g
          (resolve (view g) n \<noteq> None)) \<and>
     (\<forall>g a b ca cb. repo_ok hist (view g) \<longrightarrow> resolve (view g) a = Some ca \<longrightarrow> resolve (view g) b = Some cb \<longrightarrow>
        answers exec ([''merge-base'', ''--is-ancestor'', a, b]) g (ca \<in> hist cb)) \<and>
     (\<forall>g a b. repo_ok hist (view g) \<longrightarrow> rev_ok a \<longrightarrow> rev_ok b \<longrightarrow> resolve (view g) b = None \<longrightarrow>
        fails exec ([''merge-base'', ''--is-ancestor'', a, b]) view g) \<and>
     (\<forall>g. repo_ok hist (view g) \<longrightarrow>
        (\<exists>ls. exec [''branch'', ''--all'', ''--verbose''] g =
            (Ok (Some 0, concat (map (\<lambda>l. l @ newline) ls), []), g) \<and>
          list_all2 branch_line ls (heads (view g))))"

text \<open>The subcommands that change branches.\<close>

definition documents_branches :: "'g git_exec \<Rightarrow> ('g \<Rightarrow> Repo) \<Rightarrow> (string \<Rightarrow> string set) \<Rightarrow> bool" where
  "documents_branches exec view hist \<longleftrightarrow>
     (\<forall>g n c h. repo_ok hist (view g) \<longrightarrow> name_ok n \<longrightarrow> bm_get (heads (view g)) n = None \<longrightarrow> resolve (view g) c = Some h \<longrightarrow>
        succeeds exec ([''branch'', n, c]) view g (view g \<lparr> heads := bm_insert n h (heads (view g)) \<rparr>)) \<and>
     (\<forall>g n c h. repo_ok hist (view g) \<longrightarrow> name_ok n \<longrightarrow> resolve (view g) c = Some h \<longrightarrow>
        succeeds exec ([''branch'', ''--force'', n, c]) view g
          (view g \<lparr> heads := bm_insert n h (heads (view g)) \<rparr>)) \<and>
     (\<forall>g n c. repo_ok hist (view g) \<longrightarrow> name_ok n \<longrightarrow> rev_ok c \<longrightarrow> resolve (view g) c = None \<longrightarrow>
        fails exec ([''branch'', n, c]) view g \<and> fails exec ([''branch'', ''--force'', n, c]) view g) \<and>
     (\<forall>g n. repo_ok hist (view g) \<longrightarrow> bm_get (heads (view g)) n \<noteq> None \<longrightarrow>
        succeeds exec ([''branch'', ''--delete'', ''--force'', n]) view g
          (view g \<lparr> heads := bm_remove n (heads (view g)) \<rparr>))"

text \<open>The subcommands that talk to FloxHub, when it can be reached and grants access.\<close>

definition documents_remote :: "'g git_exec \<Rightarrow> ('g \<Rightarrow> Repo) \<Rightarrow> (string \<Rightarrow> string set) \<Rightarrow> bool" where
  "documents_remote exec view hist \<longleftrightarrow>
     (\<forall>g n h. repo_ok hist (view g) \<longrightarrow> name_ok n \<longrightarrow> bm_get (hub (view g)) n = Some h \<longrightarrow>
        succeeds exec ([''fetch'', ''dynamicorigin'', ''+'' @ n @ '':'' @ n]) view g
          (view g \<lparr> heads := bm_insert n h (heads (view g)), commits := commits (view g) \<union> hist h \<rparr>)) \<and>
     (\<forall>g n. repo_ok hist (view g) \<longrightarrow> name_ok n \<longrightarrow> bm_get (hub (view g)) n = None \<longrightarrow>
        exec [''fetch'', ''dynamicorigin'', ''+'' @ n @ '':'' @ n] g =
          (Ok (Some 128, [], REF_NOT_FOUND_ERR_PREFIX @ n @ newline), g)) \<and>
     (\<forall>g n h. repo_ok hist (view g) \<longrightarrow> name_ok n \<longrightarrow> bm_get (heads (view g)) n = None \<longrightarrow>
        bm_get (hub (view g)) n = Some h \<longrightarrow>
        succeeds exec ([''fetch'', ''dynamicorigin'', ''refs/heads/'' @ n @ '':refs/heads/'' @ n]) view g
          (view g \<lparr> heads := bm_insert n h (heads (view g)), commits := commits (view g) \<union> hist h \<rparr>)) \<and>
     (\<forall>g n. repo_ok hist (view g) \<longrightarrow> name_ok n \<longrightarrow> bm_get (hub (view g)) n = None \<longrightarrow>
        exec [''fetch'', ''dynamicorigin'', ''refs/heads/'' @ n @ '':refs/heads/'' @ n] g =
          (Ok (Some 128, [], REF_NOT_FOUND_ERR_PREFIX @ ''refs/heads/'' @ n @ newline), g)) \<and>
     (\<forall>g a b h flags. repo_ok hist (view g) \<longrightarrow> name_ok b \<longrightarrow> bm_get (heads (view g)) a = Some h \<longrightarrow> flags \<in> {[], [''--force'']} \<longrightarrow>
        (let flag = push_status hist h (bm_get (hub (view g)) b) (flags \<noteq> []) in
         \<exists>out err g'. exec ([''push'', ''--porcelain'', ''dynamicorigin'', a @ '':'' @ b] @ flags) g =
             (Ok (Some (if flag = Rejected then 1 else 0), out, err), g') \<and> push_output flag out \<and>
           \<not> str_contains ''DENIED'' (trim err) \<and> \<not> str_contains ''Authentication failed'' (trim err) \<and>
           view g' = (if flag = Rejected then view g else view g \<lparr> hub := bm_insert b h (hub (view g)) \<rparr>))) \<and>
     (\<forall>g a b h flags. repo_ok hist (view g) \<longrightarrow> name_ok b \<longrightarrow> bm_get (heads (view g)) a = Some h \<longrightarrow> flags \<in> {[], [''--force'']} \<longrightarrow>
        (let flag = push_status hist h (bm_get (heads (view g)) b) (flags \<noteq> []) in
         \<exists>out err g'. exec ([''push'', ''--porcelain'', ''.'',
               ''refs/heads/'' @ a @ '':refs/heads/'' @ b] @ flags) g =
             (Ok (Some (if flag = Rejected then 1 else 0), out, err), g') \<and> push_output flag out \<and>
           \<not> str_contains ''DENIED'' (trim err) \<and> \<not> str_contains ''Authentication failed'' (trim err) \<and>
           view g' = (if flag = Rejected then view g else view g \<lparr> heads := bm_insert b h (heads (view g)) \<rparr>)))"

definition git_documented :: "'g git_exec \<Rightarrow> ('g \<Rightarrow> Repo) \<Rightarrow> (string \<Rightarrow> string set) \<Rightarrow> bool" where
  "git_documented exec view hist \<longleftrightarrow>
     hist_ok hist \<and> documents_reads exec view hist \<and> documents_branches exec view hist \<and>
     documents_remote exec view hist"

section \<open>The operations of the provider on a documented git\<close>

lemma run_command_eq:
  assumes "exec args g = (Ok (code, out, err), g')"
  shows "run_command exec args g =
     (if code = Some 0 then Ok out
      else Err (BadExit (case code of Some c \<Rightarrow> c | None \<Rightarrow> -1) (trim out) (trim err)), g')"
  using assms by (simp add: run_command_def act_err_def act_ok_def)

lemma run_succeeds:
  assumes "succeeds exec args view g r"
  obtains out g' where "run_command exec args g = (Ok out, g')" "view g' = r"
  using assms run_command_eq [of exec args g] unfolding succeeds_def by fastforce

lemma run_fails:
  assumes "fails exec args view g"
  obtains c out err g' where "run_command exec args g = (Err (BadExit c out err), g')" "err \<noteq> []" "view g' = view g"
  using assms run_command_eq [of exec args g] unfolding fails_def by fastforce

lemma git_test_answers: "answers exec args g b \<Longrightarrow> git_test (run_command exec args) g = (Ok b, g)"
  unfolding answers_def git_test_def
  by (cases b) (auto simp: act_match_def run_command_eq act_ok_def empty_bad_exit_def)

lemma git_test_fails:
  assumes "fails exec args view g"
  obtains e g' where "git_test (run_command exec args) g = (Err e, g')" "view g' = view g"
proof -
  obtain c out err g' where "run_command exec args g = (Err (BadExit c out err), g')" "err \<noteq> []" "view g' = view g"
    by (rule run_fails [of exec args view g, OF assms])
  then show thesis
    by (intro that [of "BadExit c out err" g']) (auto simp: git_test_def act_match_def act_err_def empty_bad_exit_def)
qed

text \<open>The documented facts one by one.\<close>

lemma documented_hist: "git_documented exec view hist \<Longrightarrow> hist_ok hist"
  unfolding git_documented_def by (elim conjE)

lemma documented_reads:
  assumes "git_documented exec view hist" and "repo_ok hist (view g)"
  shows "name_ok n \<Longrightarrow> exec [''show-ref'', ''--hash'', ''refs/heads/'' @ n] g =
      (Ok (case bm_get (heads (view g)) n of
             Some h \<Rightarrow> (Some 0, h @ newline, []) | None \<Rightarrow> (Some 1, [], [])), g)"
    and "rev_ok n \<Longrightarrow> answers exec ([''rev-parse'', ''--quiet'', ''--verify'', n @ ''^{commit}'']) g (resolve (view g) n \<noteq> None)"
    and "resolve (view g) a = Some ca \<Longrightarrow> resolve (view g) b = Some cb \<Longrightarrow>
      answers exec ([''merge-base'', ''--is-ancestor'', a, b]) g (ca \<in> hist cb)"
    and "rev_ok a \<Longrightarrow> rev_ok b \<Longrightarrow> resolve (view g) b = None \<Longrightarrow> fails exec ([''merge-base'', ''--is-ancestor'', a, b]) view g"
    and "\<exists>ls. exec [''branch'', ''--all'', ''--verbose''] g =
        (Ok (Some 0, concat (map (\<lambda>l. l @ newline) ls), []), g) \<and> list_all2 branch_line ls (heads (view g))"
proof -
  note facts = assms(1) [unfolded git_documented_def documents_reads_def, THEN conjunct2, THEN conjunct1]
  show "name_ok n \<Longrightarrow> exec [''show-ref'', ''--hash'', ''refs/heads/'' @ n] g =
      (Ok (case bm_get (heads (view g)) n of
             Some h \<Rightarrow> (Some 0, h @ newline, []) | None \<Rightarrow> (Some 1, [], [])), g)"
    by (rule facts [THEN conjunct1, rule_format, OF assms(2)])
  show "rev_ok n \<Longrightarrow> answers exec ([''rev-parse'', ''--quiet'', ''--verify'', n @ ''^{commit}'']) g (resolve (view g) n \<noteq> None)"
    by (rule facts [THEN conjunct2, THEN conjunct1, rule_format, OF assms(2)])
  show "resolve (view g) a = Some ca \<Longrightarrow> resolve (view g) b = Some cb \<Longrightarrow>
      answers exec ([''merge-base'', ''--is-ancestor'', a, b]) g (ca \<in> hist cb)"
    by (rule facts [THEN conjunct2, THEN conjunct2, THEN conjunct1, rule_format, OF assms(2)])
  show "rev_ok a \<Longrightarrow> rev_ok b \<Longrightarrow> resolve (view g) b = None \<Longrightarrow> fails exec ([''merge-base'', ''--is-ancestor'', a, b]) view g"
    by (rule facts [THEN conjunct2, THEN conjunct2, THEN conjunct2, THEN conjunct1, rule_format, OF assms(2)])
  show "\<exists>ls. exec [''branch'', ''--all'', ''--verbose''] g =
        (Ok (Some 0, concat (map (\<lambda>l. l @ newline) ls), []), g) \<and> list_all2 branch_line ls (heads (view g))"
    by (rule facts [THEN conjunct2, THEN conjunct2, THEN conjunct2, THEN conjunct2, rule_format, OF assms(2)])
qed

lemma documented_branches:
  assumes "git_documented exec view hist" and "repo_ok hist (view g)"
  shows "name_ok n \<Longrightarrow> bm_get (heads (view g)) n = None \<Longrightarrow> resolve (view g) c = Some h \<Longrightarrow>
      succeeds exec ([''branch'', n, c]) view g (view g \<lparr> heads := bm_insert n h (heads (view g)) \<rparr>)"
    and "name_ok n \<Longrightarrow> resolve (view g) c = Some h \<Longrightarrow>
      succeeds exec ([''branch'', ''--force'', n, c]) view g
        (view g \<lparr> heads := bm_insert n h (heads (view g)) \<rparr>)"
    and "name_ok n \<Longrightarrow> rev_ok c \<Longrightarrow> resolve (view g) c = None \<Longrightarrow>
      fails exec ([''branch'', n, c]) view g \<and> fails exec ([''branch'', ''--force'', n, c]) view g"
    and "bm_get (heads (view g)) n \<noteq> None \<Longrightarrow>
      succeeds exec ([''branch'', ''--delete'', ''--force'', n]) view g
        (view g \<lparr> heads := bm_remove n (heads (view g)) \<rparr>)"
proof -
  note facts = assms(1) [unfolded git_documented_def documents_branches_def, THEN conjunct2, THEN conjunct2, THEN conjunct1]
  show "name_ok n \<Longrightarrow> bm_get (heads (view g)) n = None \<Longrightarrow> resolve (view g) c = Some h \<Longrightarrow>
      succeeds exec ([''branch'', n, c]) view g (view g \<lparr> heads := bm_insert n h (heads (view g)) \<rparr>)"
    by (rule facts [THEN conjunct1, rule_format, OF assms(2)])
  show "name_ok n \<Longrightarrow> resolve (view g) c = Some h \<Longrightarrow>
      succeeds exec ([''branch'', ''--force'', n, c]) view g
        (view g \<lparr> heads := bm_insert n h (heads (view g)) \<rparr>)"
    by (rule facts [THEN conjunct2, THEN conjunct1, rule_format, OF assms(2)])
  show "name_ok n \<Longrightarrow> rev_ok c \<Longrightarrow> resolve (view g) c = None \<Longrightarrow>
      fails exec ([''branch'', n, c]) view g \<and> fails exec ([''branch'', ''--force'', n, c]) view g"
    by (rule facts [THEN conjunct2, THEN conjunct2, THEN conjunct1, rule_format, OF assms(2)])
  show "bm_get (heads (view g)) n \<noteq> None \<Longrightarrow>
      succeeds exec ([''branch'', ''--delete'', ''--force'', n]) view g
        (view g \<lparr> heads := bm_remove n (heads (view g)) \<rparr>)"
    by (rule facts [THEN conjunct2, THEN conjunct2, THEN conjunct2, rule_format, OF assms(2)])
qed

lemma name_char:
  assumes "is_name_char c"
  shows "\<not> is_whitespace c" "c \<noteq> CHR ''*''" "c \<noteq> CHR ''/''" "c \<noteq> CHR '':''" "c \<noteq> CHR '' ''" "c \<noteq> CHR 0x0A"
  using assms by (auto simp: is_name_char_def is_ascii_digit_def is_whitespace_def)

lemma hex_name_char: "is_hex c \<Longrightarrow> is_name_char c"
  by (auto simp: is_hex_def is_name_char_def)

lemma hash_ok_chars: "hash_ok h \<Longrightarrow> h \<noteq> [] \<and> list_all is_name_char h"
  by (auto simp: hash_ok_def list_all_iff hex_name_char)

lemma name_ok_chars: "name_ok n \<Longrightarrow> n \<noteq> [] \<and> list_all is_name_char n"
  by (simp add: name_ok_def)

lemma name_not_hash: "name_ok n \<Longrightarrow> \<not> hash_ok n"
  by (simp add: name_ok_def hash_ok_def)

lemma trim_name_newline:
  assumes "n \<noteq> []" "list_all is_name_char n"
  shows "trim (n @ newline) = n"
  by (rule trim_newline) (use assms name_char(1) in \<open>auto simp: list_all_iff\<close>)

lemma contains_commit_eq:
  assumes "git_documented exec view hist" "repo_ok hist (view g)" "rev_ok r"
  shows "contains_commit exec r g = (Ok (resolve (view g) r \<noteq> None), g)"
  unfolding contains_commit_def by (rule git_test_answers [OF documented_reads(2) [OF assms]])

lemma branch_contains_commit_eq:
  assumes "git_documented exec view hist" "repo_ok hist (view g)" "rev_ok a" "resolve (view g) b = Some cb"
  shows "branch_contains_commit exec a b g =
    (Ok (case resolve (view g) a of None \<Rightarrow> False | Some ca \<Rightarrow> ca \<in> hist cb), g)"
proof (cases "resolve (view g) a")
  case (Some ca)
  then have "answers exec ([''merge-base'', ''--is-ancestor'', a, b]) g (ca \<in> hist cb)"
    by (rule documented_reads(3) [OF assms(1,2) _ assms(4)])
  then have "git_test (run_command exec [''merge-base'', ''--is-ancestor'', a, b]) g = (Ok (ca \<in> hist cb), g)"
    by (rule git_test_answers)
  with Some show ?thesis
    by (simp add: branch_contains_commit_def act_bind_def contains_commit_eq [OF assms(1-3)])
qed (simp add: branch_contains_commit_def act_bind_def contains_commit_eq [OF assms(1-3)] act_ok_def)

lemma branch_contains_commit_no_branch:
  assumes "git_documented exec view hist" "repo_ok hist (view g)" "rev_ok a" "rev_ok b" "resolve (view g) b = None"
  obtains r g' where "branch_contains_commit exec a b g = (r, g')" "view g' = view g" "r \<noteq> Ok True"
proof (cases "resolve (view g) a")
  case None
  then show thesis
    by (intro that [of "Ok False" g])
      (simp_all add: branch_contains_commit_def act_bind_def contains_commit_eq [OF assms(1-3)] act_ok_def)
next
  case (Some ca)
  have "fails exec ([''merge-base'', ''--is-ancestor'', a, b]) view g"
    by (rule documented_reads(4) [OF assms])
  then obtain e g' where "git_test (run_command exec [''merge-base'', ''--is-ancestor'', a, b]) g = (Err e, g')"
    "view g' = view g"
    by (rule git_test_fails)
  with Some show thesis
    by (intro that [of "Err e" g'])
      (simp_all add: branch_contains_commit_def act_bind_def contains_commit_eq [OF assms(1-3)])
qed

lemma repo_ok_head:
  assumes "repo_ok hist r" "bm_get (heads r) n = Some h"
  shows "hash_ok h" "h \<in> commits r" "name_ok n" "n \<notin> commits r" "resolve r n = Some h" "resolve r h = Some h"
proof -
  show "hash_ok h" "h \<in> commits r" "name_ok n"
    using assms map_of_SomeD [OF assms(2)] by (auto simp: repo_ok_def)
  then show "n \<notin> commits r"
    using assms(1) name_not_hash by (auto simp: repo_ok_def)
  with assms(2) \<open>h \<in> commits r\<close> show "resolve r n = Some h" "resolve r h = Some h"
    by (simp_all add: resolve_def)
qed

lemma resolve_name: "repo_ok hist r \<Longrightarrow> name_ok n \<Longrightarrow> resolve r n = bm_get (heads r) n"
  using name_not_hash by (auto simp: resolve_def repo_ok_def)

lemma resolve_hash:
  assumes "repo_ok hist r" "hash_ok h"
  shows "resolve r h = (if h \<in> commits r then Some h else None)"
  using repo_ok_head(3) [OF assms(1)] name_not_hash assms(2)
  by (cases "bm_get (heads r) h") (auto simp: resolve_def)

lemma branch_hash_eq:
  assumes "git_documented exec view hist" "repo_ok hist (view g)" "name_ok n"
  shows "branch_hash exec n g =
    (case bm_get (heads (view g)) n of Some h \<Rightarrow> Ok h | None \<Rightarrow> Err DoesNotExist, g)"
proof -
  have exec: "exec [''show-ref'', ''--hash'', ''refs/heads/'' @ n] g =
      (Ok (case bm_get (heads (view g)) n of
             Some h \<Rightarrow> (Some 0, h @ newline, []) | None \<Rightarrow> (Some 1, [], [])), g)"
    by (rule documented_reads(1) [OF assms])
  show ?thesis
  proof (cases "bm_get (heads (view g)) n")
    case (Some h)
    then have "trim (h @ newline) = h"
      using repo_ok_head(1) [OF assms(2)] hash_ok_chars trim_name_newline by blast
    with Some exec show ?thesis
      by (simp add: branch_hash_def act_match_def run_command_eq act_ok_def)
  qed (use exec in \<open>simp add: branch_hash_def act_match_def run_command_eq act_err_def\<close>)
qed

lemma has_branch_eq:
  assumes "git_documented exec view hist" "repo_ok hist (view g)" "name_ok n"
  shows "has_branch exec n g = (Ok (bm_get (heads (view g)) n \<noteq> None), g)"
  by (cases "bm_get (heads (view g)) n")
    (simp_all add: has_branch_def act_match_def branch_hash_eq [OF assms] act_ok_def)

lemma unit_command_succeeds:
  assumes "succeeds exec args view g r"
  obtains g' where "act_bind (run_command exec args) (\<lambda>_. act_ok ()) g = (Ok (), g')" "view g' = r"
  by (rule run_succeeds [OF assms]) (use that in \<open>auto simp: act_bind_def act_ok_def\<close>)

lemma unit_command_fails:
  assumes "fails exec args view g"
  obtains e g' where "act_bind (run_command exec args) (\<lambda>_. act_ok ()) g = (Err e, g')" "view g' = view g"
  by (rule run_fails [OF assms]) (use that in \<open>auto simp: act_bind_def act_err_def\<close>)

lemma create_branch_ok:
  assumes "git_documented exec view hist" "repo_ok hist (view g)" "name_ok n"
    "bm_get (heads (view g)) n = None" "resolve (view g) c = Some h"
  obtains g' where "create_branch exec n c g = (Ok (), g')"
    "view g' = view g \<lparr> heads := bm_insert n h (heads (view g)) \<rparr>"
  using unit_command_succeeds [OF documented_branches(1) [OF assms]] that unfolding create_branch_def by blast

lemma reset_branch_ok:
  assumes "git_documented exec view hist" "repo_ok hist (view g)" "name_ok n" "resolve (view g) c = Some h"
  obtains g' where "reset_branch exec n c g = (Ok (), g')"
    "view g' = view g \<lparr> heads := bm_insert n h (heads (view g)) \<rparr>"
  using unit_command_succeeds [OF documented_branches(2) [OF assms]] that unfolding reset_branch_def by blast

lemma create_reset_branch_fail:
  assumes "git_documented exec view hist" "repo_ok hist (view g)" "name_ok n" "rev_ok c" "resolve (view g) c = None"
  shows "\<exists>e g'. create_branch exec n c g = (Err e, g') \<and> view g' = view g"
    and "\<exists>e g'. reset_branch exec n c g = (Err e, g') \<and> view g' = view g"
proof -
  note fail = documented_branches(3) [OF assms]
  show "\<exists>e g'. create_branch exec n c g = (Err e, g') \<and> view g' = view g"
    unfolding create_branch_def by (rule unit_command_fails [OF fail [THEN conjunct1]]) blast
  show "\<exists>e g'. reset_branch exec n c g = (Err e, g') \<and> view g' = view g"
    unfolding reset_branch_def by (rule unit_command_fails [OF fail [THEN conjunct2]]) blast
qed

lemma delete_branch_ok:
  assumes "git_documented exec view hist" "repo_ok hist (view g)" "bm_get (heads (view g)) n \<noteq> None"
  obtains g' where "delete_branch exec n True g = (Ok (), g')"
    "view g' = view g \<lparr> heads := bm_remove n (heads (view g)) \<rparr>"
  using unit_command_succeeds [OF documented_branches(4) [OF assms]] that
  by (simp add: delete_branch_def) blast

text \<open>Listing the branches.\<close>

lemma split_once_spaces:
  "list_all is_name_char a \<Longrightarrow> split_once (CHR '' '') (a @ CHR '' '' # r) = Some (a, r)"
  by (rule split_once_append) (use name_char(5) in \<open>auto simp: list_all_iff\<close>)

lemma parse_branch_line_eq:
  assumes "branch_line l (n, h)" "name_ok n"
  shows "\<exists>bi. parse_branch_line l = Some bi \<and> bi_name bi = n"
proof -
  obtain mark pad short subject where l: "l = mark @ n @ pad @ short @ '' '' @ subject"
    "mark \<in> {''  '', ''* ''}" "pad \<noteq> []" "set pad = {CHR '' ''}" "short \<noteq> []" "list_all is_hex short"
    "subject \<noteq> []" "\<not> is_whitespace (hd subject)" "\<not> is_whitespace (last subject)"
    using assms(1) unfolding branch_line_def by auto
  have short: "list_all is_name_char short"
    using l(6) hex_name_char by (auto simp: list_all_iff)
  have n: "n \<noteq> []" "list_all is_name_char n" "\<not> is_whitespace (hd n)"
    using name_ok_chars [OF assms(2)] name_char(1) by (cases n; simp)+
  obtain pad' where pad: "pad = CHR '' '' # pad'" "set pad' \<subseteq> {CHR '' ''}"
    using l(3,4) by (cases pad) auto
  let ?rest = "pad' @ short @ '' '' @ subject"
  let ?body = "n @ CHR '' '' # ?rest"
  have body: "trim ?body = ?body"
    by (rule trim_no_space) (use n l(7,9) in \<open>auto simp: hd_append\<close>)
  have "trim_start (CHR '' '' # ?body) = trim_start ?body" "trim_start (''  '' @ ?body) = trim_start ?body"
    by (simp_all add: trim_start_def is_whitespace_def)
  then have "trim (dropWhile (\<lambda>c. c = CHR ''*'') l) = ?body"
    using l(2) body by (auto simp: l(1) pad(1) trim_def)
  moreover have "split_once (CHR '' '') ?body = Some (n, ?rest)"
    by (rule split_once_spaces [OF n(2)])
  moreover have "trim ?rest = short @ CHR '' '' # subject"
  proof -
    have hd_short: "\<not> is_whitespace (hd short)"
      using l(5) short name_char(1) by (cases short) auto
    have "trim_start ?rest = trim_start (short @ '' '' @ subject)"
      by (rule trim_start_spaces) (use pad(2) in \<open>auto simp: is_whitespace_def\<close>)
    then have "trim ?rest = trim (short @ '' '' @ subject)"
      by (simp add: trim_def)
    also have "\<dots> = short @ '' '' @ subject"
      by (rule trim_no_space) (use hd_short l in auto)
    finally show ?thesis
      by simp
  qed
  moreover have "split_once (CHR '' '') (short @ CHR '' '' # subject) = Some (short, subject)"
    by (rule split_once_spaces [OF short])
  moreover have "strip_prefix ''remotes/'' n = None"
  proof -
    have "CHR ''/'' \<notin> set n"
      using n(2) name_char(3) by (auto simp: list_all_iff)
    then show ?thesis
      by (cases "strip_prefix ''remotes/'' n") (auto simp: strip_prefix_Some_iff)
  qed
  ultimately show ?thesis
    by (simp add: parse_branch_line_def)
qed

lemma list_branches_eq:
  assumes "git_documented exec view hist" "repo_ok hist (view g)"
  obtains infos where "list_branches exec g = (Ok infos, g)" "map bi_name infos = bm_keys (heads (view g))"
proof -
  obtain ls where ls: "exec [''branch'', ''--all'', ''--verbose''] g =
      (Ok (Some 0, concat (map (\<lambda>l. l @ newline) ls), []), g)" "list_all2 branch_line ls (heads (view g))"
    using documented_reads(5) [OF assms] by blast
  have "\<forall>l \<in> set ls. CHR 0x0A \<notin> set l \<and> (l = [] \<or> last l \<noteq> CHR 0x0D)"
  proof
    fix l
    assume "l \<in> set ls"
    then obtain nh where "nh \<in> set (heads (view g))" "branch_line l nh"
      using ls(2) by (metis list_all2_conv_all_nth in_set_conv_nth)
    then obtain n h where nh: "(n, h) \<in> set (heads (view g))" "branch_line l (n, h)"
      by (metis prod.collapse)
    then have "list_all is_name_char n"
      using assms(2) name_ok_chars by (auto simp: repo_ok_def)
    then have "CHR 0x0A \<notin> set n"
      using name_char(6) by (auto simp: list_all_iff)
    obtain mark pad short subject where l: "l = mark @ n @ pad @ short @ '' '' @ subject"
      "mark \<in> {''  '', ''* ''}" "set pad = {CHR '' ''}" "list_all is_hex short"
      "subject \<noteq> []" "\<not> is_whitespace (last subject)" "CHR 0x0A \<notin> set subject"
      using nh(2) unfolding branch_line_def by auto
    have "CHR 0x0A \<notin> set short"
      using l(4) name_char(6) [OF hex_name_char] by (auto simp: list_all_iff)
    moreover have "CHR 0x0A \<notin> set mark"
      using l(2) unfolding insert_iff empty_iff by (elim disjE FalseE) simp_all
    moreover have "CHR 0x0A \<notin> set pad"
      by (simp add: l(3))
    ultimately have "CHR 0x0A \<notin> set l"
      using \<open>CHR 0x0A \<notin> set n\<close> l(7) by (simp add: l(1))
    moreover have "last l = last subject"
      using l(5) by (simp add: l(1))
    then have "last l \<noteq> CHR 0x0D"
      using l(6) by (auto simp: is_whitespace_def)
    ultimately show "CHR 0x0A \<notin> set l \<and> (l = [] \<or> last l \<noteq> CHR 0x0D)"
      by blast
  qed
  then have lines: "str_lines (concat (map (\<lambda>l. l @ newline) ls)) = ls"
    by (rule str_lines_concat)
  have "\<exists>infos. collect_results (\<lambda>line. ok_or (GitPanic line) (parse_branch_line line)) ls = Ok infos \<and>
      map bi_name infos = bm_keys (heads (view g))"
  proof -
    have "\<forall>(n, h) \<in> set (heads (view g)). name_ok n"
      using assms(2) by (auto simp: repo_ok_def)
    with ls(2) have "\<exists>infos. collect_results (\<lambda>line. ok_or (GitPanic line) (parse_branch_line line)) ls = Ok infos \<and>
        map bi_name infos = map fst (heads (view g))"
    proof (induction rule: list_all2_induct)
      case (Cons l ls nh nhs)
      obtain bi infos where "parse_branch_line l = Some bi" "bi_name bi = fst nh"
        "collect_results (\<lambda>line. ok_or (GitPanic line) (parse_branch_line line)) ls = Ok infos"
        "map bi_name infos = map fst nhs"
        using parse_branch_line_eq [of l "fst nh" "snd nh"] Cons by auto
      then show ?case
        by simp
    qed simp
    then show ?thesis
      by (simp add: bm_keys_def)
  qed
  then show thesis
    using that by (auto simp: list_branches_def act_bind_def run_command_eq [of exec, OF ls(1)] act_lift_def lines)
qed

text \<open>Fetching.\<close>

lemma documented_fetch:
  assumes "git_documented exec view hist" "repo_ok hist (view g)" "name_ok n"
  shows "bm_get (hub (view g)) n = Some h \<Longrightarrow>
      succeeds exec ([''fetch'', ''dynamicorigin'', ''+'' @ n @ '':'' @ n]) view g
        (view g \<lparr> heads := bm_insert n h (heads (view g)), commits := commits (view g) \<union> hist h \<rparr>)"
    and "bm_get (hub (view g)) n = None \<Longrightarrow>
      exec [''fetch'', ''dynamicorigin'', ''+'' @ n @ '':'' @ n] g =
        (Ok (Some 128, [], REF_NOT_FOUND_ERR_PREFIX @ n @ newline), g)"
    and "bm_get (heads (view g)) n = None \<Longrightarrow> bm_get (hub (view g)) n = Some h \<Longrightarrow>
      succeeds exec ([''fetch'', ''dynamicorigin'', ''refs/heads/'' @ n @ '':refs/heads/'' @ n]) view g
        (view g \<lparr> heads := bm_insert n h (heads (view g)), commits := commits (view g) \<union> hist h \<rparr>)"
    and "bm_get (hub (view g)) n = None \<Longrightarrow>
      exec [''fetch'', ''dynamicorigin'', ''refs/heads/'' @ n @ '':refs/heads/'' @ n] g =
        (Ok (Some 128, [], REF_NOT_FOUND_ERR_PREFIX @ ''refs/heads/'' @ n @ newline), g)"
proof -
  note facts = assms(1) [unfolded git_documented_def documents_remote_def, THEN conjunct2, THEN conjunct2, THEN conjunct2]
  show "bm_get (hub (view g)) n = Some h \<Longrightarrow>
      succeeds exec ([''fetch'', ''dynamicorigin'', ''+'' @ n @ '':'' @ n]) view g
        (view g \<lparr> heads := bm_insert n h (heads (view g)), commits := commits (view g) \<union> hist h \<rparr>)"
    by (rule facts [THEN conjunct1, rule_format, OF assms(2,3)])
  show "bm_get (hub (view g)) n = None \<Longrightarrow>
      exec [''fetch'', ''dynamicorigin'', ''+'' @ n @ '':'' @ n] g =
        (Ok (Some 128, [], REF_NOT_FOUND_ERR_PREFIX @ n @ newline), g)"
    by (rule facts [THEN conjunct2, THEN conjunct1, rule_format, OF assms(2,3)])
  show "bm_get (heads (view g)) n = None \<Longrightarrow> bm_get (hub (view g)) n = Some h \<Longrightarrow>
      succeeds exec ([''fetch'', ''dynamicorigin'', ''refs/heads/'' @ n @ '':refs/heads/'' @ n]) view g
        (view g \<lparr> heads := bm_insert n h (heads (view g)), commits := commits (view g) \<union> hist h \<rparr>)"
    by (rule facts [THEN conjunct2, THEN conjunct2, THEN conjunct1, rule_format, OF assms(2,3)])
  show "bm_get (hub (view g)) n = None \<Longrightarrow>
      exec [''fetch'', ''dynamicorigin'', ''refs/heads/'' @ n @ '':refs/heads/'' @ n] g =
        (Ok (Some 128, [], REF_NOT_FOUND_ERR_PREFIX @ ''refs/heads/'' @ n @ newline), g)"
    by (rule facts [THEN conjunct2, THEN conjunct2, THEN conjunct2, THEN conjunct1, rule_format, OF assms(2,3)])
qed

lemma fetch_ref_found:
  assumes "git_documented exec view hist" "repo_ok hist (view g)" "name_ok n" "bm_get (hub (view g)) n = Some h"
  obtains g' where "fetch_ref exec ''dynamicorigin'' (''+'' @ n @ '':'' @ n) g = (Ok (), g')"
    "view g' = view g \<lparr> heads := bm_insert n h (heads (view g)), commits := commits (view g) \<union> hist h \<rparr>"
proof -
  obtain g' where "act_bind (run_command exec [''fetch'', ''dynamicorigin'', ''+'' @ n @ '':'' @ n]) (\<lambda>_. act_ok ()) g =
      (Ok (), g')"
    "view g' = view g \<lparr> heads := bm_insert n h (heads (view g)), commits := commits (view g) \<union> hist h \<rparr>"
    by (rule unit_command_succeeds [OF documented_fetch(1) [OF assms]])
  then show thesis
    using that by (simp add: fetch_ref_def act_map_err_Inr)
qed

lemma fetch_ref_error:
  assumes "exec [''fetch'', remote, ref] g = (Ok (Some 128, [], REF_NOT_FOUND_ERR_PREFIX @ n @ newline), g)"
    "n \<noteq> []" "\<not> is_whitespace (last n)"
  shows "fetch_ref exec remote ref g =
    (Err (if is_access_denied (BadExit 128 [] (REF_NOT_FOUND_ERR_PREFIX @ n)) then AccessDenied else RefNotFound n), g)"
proof -
  let ?msg = "REF_NOT_FOUND_ERR_PREFIX @ n"
  have msg: "trim (?msg @ newline) = ?msg"
    by (rule trim_newline) (use assms(2,3) in \<open>simp_all add: REF_NOT_FOUND_ERR_PREFIX_def is_whitespace_def\<close>)
  have "run_command exec [''fetch'', remote, ref] g = (Err (BadExit 128 [] ?msg), g)"
    using run_command_eq [of exec, OF assms(1)] msg by simp
  then have "act_bind (run_command exec [''fetch'', remote, ref]) (\<lambda>_. act_ok ()) g = (Err (BadExit 128 [] ?msg), g)"
    by (rule act_bind_Inl)
  then have "fetch_ref exec remote ref g = (Err (remote_error (BadExit 128 [] ?msg)), g)"
    unfolding fetch_ref_def by (rule act_map_err_Inl)
  then show ?thesis
    by (simp add: remote_error_def del: is_access_denied.simps)
qed

lemma name_ok_last: "name_ok n \<Longrightarrow> n \<noteq> [] \<and> \<not> is_whitespace (last n)"
  using name_ok_chars name_char(1) by (simp add: list_all_iff)

lemma fetch_ref_missing:
  assumes "git_documented exec view hist" "repo_ok hist (view g)" "name_ok n" "bm_get (hub (view g)) n = None"
  shows "fetch_ref exec ''dynamicorigin'' (''+'' @ n @ '':'' @ n) g =
    (Err (if is_access_denied (BadExit 128 [] (REF_NOT_FOUND_ERR_PREFIX @ n)) then AccessDenied else RefNotFound n), g)"
  by (rule fetch_ref_error [of exec, OF documented_fetch(2) [OF assms]]) (use name_ok_last [OF assms(3)] in simp_all)

lemma fetch_branch_found:
  assumes "git_documented exec view hist" "repo_ok hist (view g)" "name_ok n"
    "bm_get (heads (view g)) n = None" "bm_get (hub (view g)) n = Some h"
  obtains g' where "fetch_branch exec ''dynamicorigin'' n g = (Ok (), g')"
    "view g' = view g \<lparr> heads := bm_insert n h (heads (view g)), commits := commits (view g) \<union> hist h \<rparr>"
proof -
  obtain g' where "act_bind (run_command exec [''fetch'', ''dynamicorigin'', ''refs/heads/'' @ n @ '':refs/heads/'' @ n])
      (\<lambda>_. act_ok ()) g = (Ok (), g')"
    "view g' = view g \<lparr> heads := bm_insert n h (heads (view g)), commits := commits (view g) \<union> hist h \<rparr>"
    by (rule unit_command_succeeds [OF documented_fetch(3) [OF assms]])
  then show thesis
    using that by (simp add: fetch_branch_def fetch_ref_def act_map_err_Inr)
qed

lemma fetch_branch_missing:
  assumes "git_documented exec view hist" "repo_ok hist (view g)" "name_ok n" "bm_get (hub (view g)) n = None"
  shows "\<exists>e. fetch_branch exec ''dynamicorigin'' n g = (Err e, g)"
  using fetch_ref_error [of exec _ _ _ "''refs/heads/'' @ n"] documented_fetch(4) [OF assms] name_ok_last [OF assms(3)]
  by (simp add: fetch_branch_def)

text \<open>Pushing.\<close>

lemma push_flag_from_str_char: "push_flag_from_str [flag_char flag] = Some flag"
  by (cases flag) (simp_all add: push_flag_from_str_def)

lemma push_output_flag:
  assumes "out = ''To '' @ url @ newline @ [flag_char flag, CHR 0x09, c] @ rest" "CHR 0x0A \<notin> set url"
    "\<not> is_whitespace c"
  shows "push_flag_from_stdout out = Some flag"
proof -
  have c: "c \<noteq> CHR 0x0A" "c \<noteq> CHR 0x0D"
    using assms(3) by (auto simp: is_whitespace_def)
  have flag: "flag_char flag \<noteq> CHR 0x0A" "flag_char flag \<noteq> CHR 0x0D" "flag_char flag \<noteq> CHR 0x09"
    by (cases flag; simp)+
  let ?line = "flag_char flag # CHR 0x09 # c # rest"
  obtain x r where x: "split_on (CHR 0x0A) ?line = (flag_char flag # CHR 0x09 # c # x) # r"
    using c(1) flag(1) by (cases "split_on (CHR 0x0A) rest") simp_all
  have first: "split_on (CHR 0x0A) out = (''To '' @ url) # split_on (CHR 0x0A) ?line"
    using split_on_append [of "CHR 0x0A" "''To '' @ url" ?line] assms(2) by (simp add: assms(1) newline_def)
  have cr: "strip_cr (flag_char flag # CHR 0x09 # c # x) = flag_char flag # CHR 0x09 # strip_cr (c # x)"
    using flag c(2) by (cases x rule: rev_cases)
      (auto simp: strip_cr_def strip_suffix_def strip_prefix_def)
  have "\<exists>l0 ls. str_lines out = l0 # strip_cr (flag_char flag # CHR 0x09 # c # x) # ls"
    unfolding str_lines_def Let_def first x by (cases "last r = []"; cases r) auto
  then show ?thesis
    using flag(3) by (auto simp: push_flag_from_stdout_def cr push_flag_from_str_char)
qed

lemma push_output_trim:
  assumes "push_output flag out"
  shows "push_flag_from_stdout out = Some flag" and "push_flag_from_stdout (trim out) = Some flag"
proof -
  obtain url c rest where out: "out = ''To '' @ url @ newline @ [flag_char flag, CHR 0x09, c] @ rest"
    "CHR 0x0A \<notin> set url" "\<not> is_whitespace c"
    using assms unfolding push_output_def by blast
  then show "push_flag_from_stdout out = Some flag"
    by (rule push_output_flag)
  obtain r where "trim_end ((''To '' @ url @ newline @ [flag_char flag, CHR 0x09]) @ c # rest) =
      (''To '' @ url @ newline @ [flag_char flag, CHR 0x09]) @ c # r"
    using trim_end_prefix [OF out(3)] by blast
  then have "trim out = ''To '' @ url @ newline @ [flag_char flag, CHR 0x09, c] @ r"
    by (simp add: out(1) trim_def trim_start_def is_whitespace_def)
  then show "push_flag_from_stdout (trim out) = Some flag"
    using out(2,3) by (rule push_output_flag)
qed

lemma push_ref_eq:
  assumes "exec ([''push'', ''--porcelain'', remote, spec] @ (if force then [''--force''] else [])) g =
      (Ok (Some (if flag = Rejected then 1 else 0), out, err), g')"
    "push_output flag out" "\<not> str_contains ''DENIED'' (trim err)" "\<not> str_contains ''Authentication failed'' (trim err)"
  shows "push_ref exec remote spec force g = (if flag = Rejected then Err Diverged else Ok flag, g')"
proof -
  have "run_command exec ([''push'', ''--porcelain'', remote, spec] @ (if force then [''--force''] else [])) g =
      (if flag = Rejected then Err (BadExit 1 (trim out) (trim err)) else Ok out, g')"
    using run_command_eq [of exec, OF assms(1)] by simp
  then show ?thesis
    using assms(3,4) push_output_trim [OF assms(2)]
    by (simp add: push_ref_def act_match_def act_ok_def act_err_def)
qed

lemma push_ref_remote:
  assumes "git_documented exec view hist" "repo_ok hist (view g)" "name_ok b" "bm_get (heads (view g)) a = Some h"
    "flag = push_status hist h (bm_get (hub (view g)) b) force"
  obtains g' where "push_ref exec ''dynamicorigin'' (a @ '':'' @ b) force g = (if flag = Rejected then Err Diverged else Ok flag, g')"
    "view g' = (if flag = Rejected then view g else view g \<lparr> hub := bm_insert b h (hub (view g)) \<rparr>)"
proof -
  note facts = assms(1) [unfolded git_documented_def documents_remote_def, THEN conjunct2, THEN conjunct2, THEN conjunct2,
      THEN conjunct2, THEN conjunct2, THEN conjunct2, THEN conjunct2, THEN conjunct1, rule_format, OF assms(2-4)]
  let ?flags = "if force then [''--force''] else []"
  have flags: "?flags \<in> {[], [''--force'']}" "(?flags \<noteq> []) = force"
    by simp_all
  show thesis
    using facts [of ?flags, OF flags(1), unfolded Let_def flags(2), folded assms(5)]
  proof (elim exE conjE)
    fix out err g'
    assume "exec ([''push'', ''--porcelain'', ''dynamicorigin'', a @ '':'' @ b] @ ?flags) g =
        (Ok (Some (if flag = Rejected then 1 else 0), out, err), g')"
      and "push_output flag out" "\<not> str_contains ''DENIED'' (trim err)"
      "\<not> str_contains ''Authentication failed'' (trim err)"
      and view: "view g' = (if flag = Rejected then view g else view g \<lparr> hub := bm_insert b h (hub (view g)) \<rparr>)"
    then have "push_ref exec ''dynamicorigin'' (a @ '':'' @ b) force g = (if flag = Rejected then Err Diverged else Ok flag, g')"
      by (intro push_ref_eq [of exec])
    then show thesis
      using view by (rule that)
  qed
qed

lemma push_ref_local:
  assumes "git_documented exec view hist" "repo_ok hist (view g)" "name_ok b" "bm_get (heads (view g)) a = Some h"
    "flag = push_status hist h (bm_get (heads (view g)) b) force"
  obtains g' where "push_ref exec ''.'' (''refs/heads/'' @ a @ '':refs/heads/'' @ b) force g =
      (if flag = Rejected then Err Diverged else Ok flag, g')"
    "view g' = (if flag = Rejected then view g else view g \<lparr> heads := bm_insert b h (heads (view g)) \<rparr>)"
proof -
  note facts = assms(1) [unfolded git_documented_def documents_remote_def, THEN conjunct2, THEN conjunct2, THEN conjunct2,
      THEN conjunct2, THEN conjunct2, THEN conjunct2, THEN conjunct2, THEN conjunct2, rule_format, OF assms(2-4)]
  let ?flags = "if force then [''--force''] else []"
  have flags: "?flags \<in> {[], [''--force'']}" "(?flags \<noteq> []) = force"
    by simp_all
  show thesis
    using facts [of ?flags, OF flags(1), unfolded Let_def flags(2), folded assms(5)]
  proof (elim exE conjE)
    fix out err g'
    assume "exec ([''push'', ''--porcelain'', ''.'', ''refs/heads/'' @ a @ '':refs/heads/'' @ b] @ ?flags) g =
        (Ok (Some (if flag = Rejected then 1 else 0), out, err), g')"
      and "push_output flag out" "\<not> str_contains ''DENIED'' (trim err)"
      "\<not> str_contains ''Authentication failed'' (trim err)"
      and view: "view g' = (if flag = Rejected then view g else view g \<lparr> heads := bm_insert b h (heads (view g)) \<rparr>)"
    then have "push_ref exec ''.'' (''refs/heads/'' @ a @ '':refs/heads/'' @ b) force g = (if flag = Rejected then Err Diverged else Ok flag, g')"
      by (intro push_ref_eq [of exec])
    then show thesis
      using view by (rule that)
  qed
qed

section \<open>What the operations keep\<close>

lemma repo_ok_insert_head:
  assumes "repo_ok hist r" "name_ok n" "h \<in> commits r"
  shows "repo_ok hist (r \<lparr> heads := bm_insert n h (heads r) \<rparr>)"
proof -
  have "\<forall>(n, h) \<in> set (bm_insert n h (heads r)). name_ok n \<and> hash_ok h \<and> h \<in> commits r"
    using assms set_bm_insert [of n h "heads r"] by (auto simp: repo_ok_def)
  then show ?thesis
    using assms by (simp add: repo_ok_def bm_inv_insert)
qed

lemma repo_ok_remove_head:
  assumes "repo_ok hist r"
  shows "repo_ok hist (r \<lparr> heads := bm_remove n (heads r) \<rparr>)"
proof -
  have "\<forall>(n, h) \<in> set (bm_remove n (heads r)). name_ok n \<and> hash_ok h \<and> h \<in> commits r"
    using assms set_bm_remove [of n "heads r"] by (auto simp: repo_ok_def)
  then show ?thesis
    using assms by (simp add: repo_ok_def bm_inv_remove)
qed

lemma repo_ok_commits:
  assumes "hist_ok hist" "repo_ok hist r" "bm_get (hub r) n = Some h"
  shows "repo_ok hist (r \<lparr> commits := commits r \<union> hist h \<rparr>)"
proof -
  have "\<forall>c \<in> hist h. hash_ok c \<and> hist c \<subseteq> hist h"
    using assms map_of_SomeD [OF assms(3)] by (auto simp: repo_ok_def hist_ok_def)
  then have "\<forall>c \<in> commits r \<union> hist h. hist c \<subseteq> commits r \<union> hist h \<and> hash_ok c"
    using assms(2) by (auto simp: repo_ok_def)
  moreover have "\<forall>(n, h') \<in> set (heads r). name_ok n \<and> hash_ok h' \<and> h' \<in> commits r \<union> hist h"
    using assms(2) by (auto simp: repo_ok_def)
  ultimately show ?thesis
    using assms(2) by (simp add: repo_ok_def)
qed

lemma repo_ok_fetch:
  assumes "hist_ok hist" "repo_ok hist r" "name_ok n" "bm_get (hub r) n = Some h"
  shows "repo_ok hist (r \<lparr> heads := bm_insert n h (heads r), commits := commits r \<union> hist h \<rparr>)"
proof -
  have "r \<lparr> heads := bm_insert n h (heads r), commits := commits r \<union> hist h \<rparr> =
      r \<lparr> commits := commits r \<union> hist h, heads := bm_insert n h (heads r) \<rparr>"
    by simp
  then show ?thesis
    using repo_ok_insert_head [OF repo_ok_commits [OF assms(1,2,4)] assms(3), of h] assms(1)
    by (simp only: hist_ok_def) simp
qed

lemma repo_ok_insert_hub:
  assumes "repo_ok hist r" "h \<in> commits r"
  shows "repo_ok hist (r \<lparr> hub := bm_insert n h (hub r) \<rparr>)"
proof -
  let ?ok = "\<lambda>h. hash_ok h \<and> (\<forall>c \<in> hist h. hash_ok c)"
  have "\<forall>c \<in> commits r. hist c \<subseteq> commits r \<and> hash_ok c"
    using assms(1) by (simp add: repo_ok_def)
  then have h: "?ok h"
    using assms(2) by blast
  have old: "?ok (snd nh)" if "nh \<in> set (hub r)" for nh
    using assms(1) that by (simp add: repo_ok_def split_def)
  have "?ok (snd nh)" if "nh \<in> set (bm_insert n h (hub r))" for nh
  proof -
    have "nh = (n, h) \<or> nh \<in> set (hub r)"
      using that set_bm_insert [of n h "hub r"] by blast
    then show ?thesis
      using h old by (elim disjE) simp_all
  qed
  then show ?thesis
    using assms by (simp add: repo_ok_def bm_inv_insert split_def)
qed

lemma repo_ok_inv: "repo_ok hist r \<Longrightarrow> bm_inv (heads r)" "repo_ok hist r \<Longrightarrow> bm_inv (hub r)"
  by (simp_all add: repo_ok_def)

section \<open>A git that behaves as documented\<close>

definition push_report :: "PushFlag \<Rightarrow> string" where
  "push_report flag = ''To x'' @ newline @ [flag_char flag, CHR 0x09, CHR ''r'']"

definition git_push_to ::
  "(string \<Rightarrow> string set) \<Rightarrow> string \<Rightarrow> string \<Rightarrow> bool \<Rightarrow> Repo \<Rightarrow> (string + exit) \<times> Repo" where
  "git_push_to hist remote spec force r =
     (case split_once (CHR '':'') spec of
        None \<Rightarrow> (Ok (Some 128, [], ''error''), r)
      | Some (x, y) \<Rightarrow>
          (let here = (remote = ''.'');
               a = (if here then drop 11 x else x);
               b = (if here then drop 11 y else y);
               refs = (if here then heads r else hub r)
           in case bm_get (heads r) a of
                None \<Rightarrow> (Ok (Some 128, [], ''error''), r)
              | Some h \<Rightarrow>
                  (let flag = push_status hist h (bm_get refs b) force
                   in if flag = Rejected then (Ok (Some 1, push_report flag, []), r)
                      else (Ok (Some 0, push_report flag, []),
                            if here then r \<lparr> heads := bm_insert b h (heads r) \<rparr>
                            else r \<lparr> hub := bm_insert b h (hub r) \<rparr>))))"

definition small_git :: "(string \<Rightarrow> string set) \<Rightarrow> Repo git_exec" where
  "small_git hist args r =
     (let failure = (Ok (Some 128, [], ''error''), r);
          yes_no = (\<lambda>b. (Ok (Some (if b then 0 else 1), [], []), r));
          ok = (\<lambda>r'. (Ok (Some 0, [], []), r'))
      in case args of
        [a, b, c] \<Rightarrow>
          if a = ''show-ref'' then
            (Ok (case bm_get (heads r) (drop 11 c) of
                   Some h \<Rightarrow> (Some 0, h @ newline, []) | None \<Rightarrow> (Some 1, [], [])), r)
          else if a = ''branch'' then
            (if b = ''--all'' then
               (Ok (Some 0, concat (map (\<lambda>l. l @ newline)
                  (map (\<lambda>(n, h). ''  '' @ n @ '' '' @ h @ '' '' @ ''m'') (heads r))), []), r)
             else (case resolve r c of
                 Some h \<Rightarrow> if bm_get (heads r) b = None then ok (r \<lparr> heads := bm_insert b h (heads r) \<rparr>) else failure
               | None \<Rightarrow> failure))
          else if a = ''fetch'' then
            (let n = (if hd c = CHR ''+'' then take ((length c - 2) div 2) (tl c)
                      else drop 11 (take ((length c - 1) div 2) c))
             in case bm_get (hub r) n of
                  Some h \<Rightarrow> ok (r \<lparr> heads := bm_insert n h (heads r), commits := commits r \<union> hist h \<rparr>)
                | None \<Rightarrow> (Ok (Some 128, [], REF_NOT_FOUND_ERR_PREFIX @ 
                    (if hd c = CHR ''+'' then n else ''refs/heads/'' @ n) @ newline), r))
          else failure
      | [a, b, c, d] \<Rightarrow>
          if a = ''rev-parse'' then yes_no (resolve r (take (length d - 9) d) \<noteq> None)
          else if a = ''merge-base'' then
            (case (resolve r c, resolve r d) of
               (Some x, Some y) \<Rightarrow> yes_no (x \<in> hist y)
             | _ \<Rightarrow> failure)
          else if a = ''branch'' then
            (if b = ''--force'' then
               (case resolve r d of
                  Some h \<Rightarrow> ok (r \<lparr> heads := bm_insert c h (heads r) \<rparr>) | None \<Rightarrow> failure)
             else ok (r \<lparr> heads := bm_remove d (heads r) \<rparr>))
          else git_push_to hist c d False r
      | [a, b, c, d, e] \<Rightarrow> git_push_to hist c d True r
      | _ \<Rightarrow> failure)"

lemma small_git_reads: "documents_reads (small_git hist) id hist"
proof -
  have lines: "list_all2 branch_line (map (\<lambda>(n, h). ''  '' @ n @ '' '' @ h @ '' '' @ ''m'') (heads r)) (heads r)"
    if "repo_ok hist r" for r
  proof -
    have "branch_line (''  '' @ n @ '' '' @ h @ '' '' @ ''m'') (n, h)" if "(n, h) \<in> set (heads r)" for n h
    proof -
      have "h \<noteq> []" "list_all is_hex h"
        using \<open>repo_ok hist r\<close> that by (auto simp: repo_ok_def hash_ok_def)
      then show ?thesis
        unfolding branch_line_def
        by (intro exI [of _ "''  ''"] exI [of _ "'' ''"] exI [of _ h] exI [of _ "''m''"])
          (simp add: is_whitespace_def)
    qed
    then show ?thesis
      by (auto simp: list_all2_map1 list_all2_same)
  qed
  have err: "trim ''error'' \<noteq> []"
    by (simp add: trim_def trim_start_def trim_end_def is_whitespace_def)
  show ?thesis
    unfolding documents_reads_def
  proof (intro conjI allI impI)
    fix g a b
    assume "resolve (id g) b = None"
    then show "fails (small_git hist) [''merge-base'', ''--is-ancestor'', a, b] id g"
      using err by (simp add: fails_def small_git_def Let_def split: option.splits)
  next
    fix g
    assume "repo_ok hist (id g)"
    then show "\<exists>ls. small_git hist [''branch'', ''--all'', ''--verbose''] g =
            (Ok (Some 0, concat (map (\<lambda>l. l @ newline) ls), []), g) \<and> list_all2 branch_line ls (heads (id g))"
      using lines [of g] by (intro exI conjI) (simp_all add: small_git_def)
  qed (simp_all add: small_git_def answers_def)
qed

lemma small_git_branches: "documents_branches (small_git hist) id hist"
proof -
  have name: "n \<noteq> ''--all''" if "name_ok n" for n
    using that by (auto simp: name_ok_def)
  have err: "trim ''error'' \<noteq> []"
    by (simp add: trim_def trim_start_def trim_end_def is_whitespace_def)
  show ?thesis
    unfolding documents_branches_def
    by (intro conjI allI impI) (simp_all add: succeeds_def fails_def small_git_def name err)
qed

lemma small_git_remote: "documents_remote (small_git hist) id hist"
proof -
  have refspec: "take ((length (''+'' @ n @ '':'' @ n) - 2) div 2) (tl (''+'' @ n @ '':'' @ n)) = n" for n :: string
    by simp
  have refspec2: "drop 11 (take ((length (''refs/heads/'' @ n @ '':refs/heads/'' @ n) - 1) div 2)
      (''refs/heads/'' @ n @ '':refs/heads/'' @ n)) = n" for n :: string
    by simp
  have out: "push_output flag (push_report flag)" for flag
    unfolding push_output_def push_report_def
    by (intro exI [of _ "''x''"] exI [of _ "CHR ''r''"] exI [of _ "[]"]) (simp add: is_whitespace_def)
  have split: "split_once (CHR '':'') (p @ a @ CHR '':'' # b) = Some (p @ a, b)"
    if "repo_ok hist r" "bm_get (heads r) a = Some h" "CHR '':'' \<notin> set p" for r a h b and p :: string
  proof -
    have "CHR '':'' \<notin> set a"
      using repo_ok_head(3) [OF that(1,2)] name_ok_chars name_char(4) by (auto simp: list_all_iff)
    then show ?thesis
      using split_once_append [of "CHR '':''" "p @ a" b] that(3) by simp
  qed
  have split0: "split_once (CHR '':'') (a @ CHR '':'' # b) = Some (a, b)"
    if "repo_ok hist r" "bm_get (heads r) a = Some h" for r a h b
    using split [OF that, of "[]"] by simp
  note push = small_git_def git_push_to_def Let_def
  show ?thesis
    unfolding documents_remote_def
  proof (intro conjI allI impI)
    fix g a b h flags
    assume r: "repo_ok hist (id g)" "bm_get (heads (id g)) a = Some h" "flags \<in> {[], [''--force'']}"
    then show "let flag = push_status hist h (bm_get (hub (id g)) b) (flags \<noteq> []) in
         \<exists>out err g'. small_git hist ([''push'', ''--porcelain'', ''dynamicorigin'', a @ '':'' @ b] @ flags) g =
             (Ok (Some (if flag = Rejected then 1 else 0), out, err), g') \<and> push_output flag out \<and>
           \<not> str_contains ''DENIED'' (trim err) \<and> \<not> str_contains ''Authentication failed'' (trim err) \<and>
           id g' = (if flag = Rejected then id g else id g \<lparr> hub := bm_insert b h (hub (id g)) \<rparr>)"
      using split0 [of g a h b] out by (auto simp: push)
    show "let flag = push_status hist h (bm_get (heads (id g)) b) (flags \<noteq> []) in
         \<exists>out err g'. small_git hist ([''push'', ''--porcelain'', ''.'',
               ''refs/heads/'' @ a @ '':refs/heads/'' @ b] @ flags) g =
             (Ok (Some (if flag = Rejected then 1 else 0), out, err), g') \<and> push_output flag out \<and>
           \<not> str_contains ''DENIED'' (trim err) \<and> \<not> str_contains ''Authentication failed'' (trim err) \<and>
           id g' = (if flag = Rejected then id g else id g \<lparr> heads := bm_insert b h (heads (id g)) \<rparr>)"
      using r split [of g a h "''refs/heads/''" "''refs/heads/'' @ b"] out by (auto simp: push)
  qed (simp_all add: succeeds_def small_git_def refspec refspec2)
qed

lemma small_git_documented: "hist_ok hist \<Longrightarrow> git_documented (small_git hist) id hist"
  by (simp add: git_documented_def small_git_reads small_git_branches small_git_remote)

end
