(* ===== verification/Floxmeta.thy ===== *)
theory Floxmeta
  imports Git Activations
begin

text \<open>
  Floxmeta branches (\<open>flox-rust-sdk/src/models/environment/floxmeta_branch.rs\<close> and
  \<open>models/floxmeta.rs\<close>): each \<open>.flox\<close> directory of a managed environment has a branch of its
  own in the local clone of its owner's floxmeta repository, next to the branch that follows
  FloxHub. Opening an environment validates the generation lock and points the branch at the
  locked revision; deleting it prunes its branches. The \<open>git\<close> program is the parameter \<open>exec\<close>
  and the hash of a path the parameter \<open>path_hash\<close>.
\<close>

section \<open>Pointers, locks and errors\<close>

record ManagedPointer =
  mp_owner :: string
  mp_name :: string

record GenerationLock =
  gl_rev :: string
  gl_local_rev :: "string option"

datatype FloxMetaError =
    CheckForBranch BranchHashError
  | FetchBranchError GitRemoteCommandError
  | ListBranch GitCommandError
  | DeleteBranchError GitCommandError

datatype FloxmetaBranchError =
    OpenFloxmeta FloxMetaError
  | FbAccessDenied
  | UpstreamNotFound string
  | CheckGitRevision GitCommandError
  | CheckBranchExists BranchHashError
  | LocalRevDoesNotExist
  | RevDoesNotExist
  | Fetch GitRemoteCommandError
  | GitBranchHash BranchHashError
  | BranchSetup GitCommandError
  | FbDeleteBranch FloxMetaError

record FloxmetaBranch =
  fb_branch :: string
  fb_remote_branch :: string

datatype BranchOrd = Equal | Ahead | Behind | DivergedOrd

definition BRANCH_NAME_PATH_SEPARATOR :: char where
  "BRANCH_NAME_PATH_SEPARATOR = CHR ''.''"

definition remote_branch_name :: "ManagedPointer \<Rightarrow> string" where
  "remote_branch_name pointer = mp_name pointer"

definition branch_name :: "(path \<Rightarrow> string) \<Rightarrow> ManagedPointer \<Rightarrow> path \<Rightarrow> string" where
  "branch_name path_hash pointer dot_flox_path =
     mp_name pointer @ [BRANCH_NAME_PATH_SEPARATOR] @ path_hash dot_flox_path"

definition env_ref :: "ManagedPointer \<Rightarrow> string" where
  "env_ref pointer = mp_owner pointer @ ''/'' @ mp_name pointer"

section \<open>Opening\<close>

text \<open>The refspec that resets the sync branch to the branch on FloxHub.\<close>

definition sync_refspec :: "string \<Rightarrow> string" where
  "sync_refspec branch = ''+'' @ branch @ '':'' @ branch"

text \<open>An existing clone of the owner's floxmeta repository; its branch is fetched if missing.\<close>

definition open_floxmeta :: "'g git_exec \<Rightarrow> ManagedPointer \<Rightarrow> ('g, FloxMetaError, unit) action" where
  "open_floxmeta exec pointer =
     act_bind (act_map_err CheckForBranch (has_branch exec (remote_branch_name pointer))) (\<lambda>present.
       if present then act_ok ()
       else act_map_err FetchBranchError
              (fetch_branch exec ''dynamicorigin'' (remote_branch_name pointer)))"

definition open_error :: "ManagedPointer \<Rightarrow> FloxMetaError \<Rightarrow> FloxmetaBranchError" where
  "open_error pointer e =
     (case e of
        FetchBranchError AccessDenied \<Rightarrow> FbAccessDenied
      | FetchBranchError (RefNotFound _) \<Rightarrow> UpstreamNotFound (env_ref pointer)
      | _ \<Rightarrow> OpenFloxmeta e)"

definition open_or_clone_floxmeta :: "'g git_exec \<Rightarrow> ManagedPointer \<Rightarrow> ('g, FloxmetaBranchError, unit) action" where
  "open_or_clone_floxmeta exec pointer = act_map_err (open_error pointer) (open_floxmeta exec pointer)"

definition ensure_generation_locked ::
  "'g git_exec \<Rightarrow> string \<Rightarrow> string \<Rightarrow> GenerationLock option \<Rightarrow> ('g, FloxmetaBranchError, GenerationLock) action" where
  "ensure_generation_locked exec remote_branch local_branch maybe_lock =
     (case maybe_lock of
        Some lock \<Rightarrow>
          (case gl_local_rev lock of
             Some local_rev \<Rightarrow>
               act_bind (act_map_err CheckGitRevision (contains_commit exec local_rev)) (\<lambda>present.
                 if \<not> present then act_err LocalRevDoesNotExist else act_ok lock)
           | None \<Rightarrow>
               act_bind (act_map_err CheckBranchExists (has_branch exec local_branch)) (\<lambda>has_local.
               act_bind (if has_local
                         then act_map_err CheckGitRevision (branch_contains_commit exec (gl_rev lock) local_branch)
                         else act_ok False) (\<lambda>in_local.
               act_bind (if \<not> in_local
                         then act_map_err Fetch (fetch_ref exec ''dynamicorigin'' (sync_refspec remote_branch))
                         else act_ok ()) (\<lambda>_.
               act_bind (act_map_err CheckGitRevision (branch_contains_commit exec (gl_rev lock) remote_branch))
                 (\<lambda>in_remote.
               if \<not> in_remote \<and> \<not> in_local then act_err RevDoesNotExist else act_ok lock)))))
      | None \<Rightarrow>
          act_bind (act_map_err Fetch (fetch_ref exec ''dynamicorigin'' (sync_refspec remote_branch))) (\<lambda>_.
          act_bind (act_map_err GitBranchHash (branch_hash exec remote_branch)) (\<lambda>rev.
          act_ok \<lparr> gl_rev = rev, gl_local_rev = None \<rparr>)))"

definition current_rev :: "GenerationLock \<Rightarrow> string" where
  "current_rev lock = (case gl_local_rev lock of Some r \<Rightarrow> r | None \<Rightarrow> gl_rev lock)"

definition ensure_branch ::
  "'g git_exec \<Rightarrow> string \<Rightarrow> GenerationLock \<Rightarrow> ('g, FloxmetaBranchError, unit) action" where
  "ensure_branch exec branch lock =
     act_match (branch_hash exec branch) (\<lambda>r. case r of
         Inr branch_rev \<Rightarrow>
           if branch_rev \<noteq> current_rev lock
           then act_map_err BranchSetup (reset_branch exec branch (current_rev lock))
           else act_ok ()
       | Inl DoesNotExist \<Rightarrow> act_map_err BranchSetup (create_branch exec branch (current_rev lock))
       | Inl err \<Rightarrow> act_err (GitBranchHash err))"

definition floxmeta_branch_new ::
  "'g git_exec \<Rightarrow> (path \<Rightarrow> string) \<Rightarrow> ManagedPointer \<Rightarrow> path \<Rightarrow> GenerationLock option
     \<Rightarrow> ('g, FloxmetaBranchError, FloxmetaBranch \<times> GenerationLock) action" where
  "floxmeta_branch_new exec path_hash pointer dot_flox_path maybe_lock =
     act_bind (open_or_clone_floxmeta exec pointer) (\<lambda>_.
       let remote_branch = remote_branch_name pointer;
           local_branch = branch_name path_hash pointer dot_flox_path
       in act_bind (ensure_generation_locked exec remote_branch local_branch maybe_lock) (\<lambda>lock.
          act_bind (ensure_branch exec local_branch lock) (\<lambda>_.
          act_ok (\<lparr> fb_branch = local_branch, fb_remote_branch = remote_branch \<rparr>, lock))))"

section \<open>Operations on an open branch\<close>

definition generation_lock :: "'g git_exec \<Rightarrow> FloxmetaBranch \<Rightarrow> ('g, FloxmetaBranchError, GenerationLock) action" where
  "generation_lock exec fb =
     act_bind (act_map_err GitBranchHash (branch_hash exec (fb_remote_branch fb))) (\<lambda>rev.
     act_bind (act_map_err GitBranchHash (branch_hash exec (fb_branch fb))) (\<lambda>local_rev.
     act_ok \<lparr> gl_rev = rev, gl_local_rev = (if local_rev = rev then None else Some local_rev) \<rparr>))"

definition fetch_remote_state ::
  "'g git_exec \<Rightarrow> ManagedPointer \<Rightarrow> FloxmetaBranch \<Rightarrow> ('g, FloxmetaBranchError, unit) action" where
  "fetch_remote_state exec pointer fb =
     act_map_err (\<lambda>err. case err of RefNotFound _ \<Rightarrow> UpstreamNotFound (env_ref pointer) | e \<Rightarrow> Fetch e)
       (fetch_ref exec ''dynamicorigin'' (sync_refspec (fb_remote_branch fb)))"

definition compare_branches ::
  "'g git_exec \<Rightarrow> string \<Rightarrow> string \<Rightarrow> ('g, FloxmetaBranchError, BranchOrd) action" where
  "compare_branches exec branch_a branch_b =
     act_bind (act_map_err GitBranchHash (branch_hash exec branch_a)) (\<lambda>branch_a_rev.
     act_bind (act_map_err GitBranchHash (branch_hash exec branch_b)) (\<lambda>branch_b_rev.
     if branch_a_rev = branch_b_rev then act_ok Equal
     else act_bind (act_map_err CheckGitRevision (branch_contains_commit exec branch_b branch_a)) (\<lambda>b_in_a.
       if b_in_a then act_ok Ahead
       else act_bind (act_map_err CheckGitRevision (branch_contains_commit exec branch_a branch_b)) (\<lambda>a_in_b.
         if a_in_b then act_ok Behind else act_ok DivergedOrd))))"

definition compare_remote :: "'g git_exec \<Rightarrow> FloxmetaBranch \<Rightarrow> ('g, FloxmetaBranchError, BranchOrd) action" where
  "compare_remote exec fb = compare_branches exec (fb_branch fb) (fb_remote_branch fb)"

text \<open>The names are listed before the local branch is deleted.\<close>

definition branches_for_other_paths :: "string list \<Rightarrow> string \<Rightarrow> bool" where
  "branches_for_other_paths branch_names remote_branch \<longleftrightarrow>
     list_ex (\<lambda>name. case rsplit_once BRANCH_NAME_PATH_SEPARATOR name of
                       Some (prefix, _) \<Rightarrow> prefix = remote_branch
                     | None \<Rightarrow> False) branch_names"

definition prune_branches_from_floxmeta ::
  "'g git_exec \<Rightarrow> string \<Rightarrow> string \<Rightarrow> ('g, FloxMetaError, unit) action" where
  "prune_branches_from_floxmeta exec local_branch remote_branch =
     act_bind (act_map_err ListBranch (list_branches exec)) (\<lambda>infos.
       let branch_names = map bi_name infos in
       act_bind (if local_branch \<in> set branch_names
                 then act_map_err DeleteBranchError (delete_branch exec local_branch True)
                 else act_ok ()) (\<lambda>_.
       if remote_branch \<in> set branch_names \<and> \<not> branches_for_other_paths branch_names remote_branch
       then act_map_err DeleteBranchError (delete_branch exec remote_branch True)
       else act_ok ()))"

definition prune_branches_from_floxmeta_by_pointer ::
  "'g git_exec \<Rightarrow> (path \<Rightarrow> string) \<Rightarrow> ManagedPointer \<Rightarrow> path \<Rightarrow> ('g, FloxMetaError, unit) action" where
  "prune_branches_from_floxmeta_by_pointer exec path_hash pointer dot_flox_dir =
     prune_branches_from_floxmeta exec (branch_name path_hash pointer dot_flox_dir) (remote_branch_name pointer)"

definition floxmeta_branch_delete :: "'g git_exec \<Rightarrow> FloxmetaBranch \<Rightarrow> ('g, FloxmetaBranchError, unit) action" where
  "floxmeta_branch_delete exec fb =
     act_map_err FbDeleteBranch (prune_branches_from_floxmeta exec (fb_branch fb) (fb_remote_branch fb))"

text \<open>The lock file, rewritten only when it changes.\<close>

definition write_generation_lock ::
  "GenerationLock \<Rightarrow> (GenerationLock option, FloxmetaBranchError, unit) action" where
  "write_generation_lock lock = (\<lambda>existing.
     if existing = Some lock then (Ok (), existing) else (Ok (), Some lock))"

section \<open>What opening promises\<close>

text \<open>The repository after fetching the sync branch.\<close>

definition synced :: "(string \<Rightarrow> string set) \<Rightarrow> string \<Rightarrow> string \<Rightarrow> Repo \<Rightarrow> Repo" where
  "synced hist remote h r =
     r \<lparr> heads := bm_insert remote h (heads r), commits := commits r \<union> hist h \<rparr>"

definition open_spec :: "(string \<Rightarrow> string set) \<Rightarrow> string \<Rightarrow> Repo \<Rightarrow> Repo option" where
  "open_spec hist remote r =
     (if bm_get (heads r) remote \<noteq> None then Some r
      else map_option (\<lambda>h. synced hist remote h r) (bm_get (hub r) remote))"

text \<open>A commit on the local branch needs no FloxHub.\<close>

definition in_local_branch :: "(string \<Rightarrow> string set) \<Rightarrow> string \<Rightarrow> string \<Rightarrow> Repo \<Rightarrow> bool" where
  "in_local_branch hist local c r \<longleftrightarrow> (case bm_get (heads r) local of None \<Rightarrow> False | Some h \<Rightarrow> c \<in> hist h)"

definition lock_spec ::
  "(string \<Rightarrow> string set) \<Rightarrow> string \<Rightarrow> string \<Rightarrow> GenerationLock option \<Rightarrow> Repo \<Rightarrow> (GenerationLock \<times> Repo) option" where
  "lock_spec hist remote local maybe_lock r =
     (case maybe_lock of
        None \<Rightarrow> map_option (\<lambda>h. (\<lparr> gl_rev = h, gl_local_rev = None \<rparr>, synced hist remote h r)) (bm_get (hub r) remote)
      | Some lock \<Rightarrow>
          (case gl_local_rev lock of
             Some local_rev \<Rightarrow> if local_rev \<in> commits r then Some (lock, r) else None
           | None \<Rightarrow>
               if in_local_branch hist local (gl_rev lock) r then Some (lock, r)
               else Option.bind (bm_get (hub r) remote) (\<lambda>h.
                 if gl_rev lock \<in> hist h then Some (lock, synced hist remote h r) else None)))"

definition branch_spec :: "string \<Rightarrow> string \<Rightarrow> Repo \<Rightarrow> Repo" where
  "branch_spec local c r =
     (if bm_get (heads r) local = Some c then r else r \<lparr> heads := bm_insert local c (heads r) \<rparr>)"

definition new_spec ::
  "(string \<Rightarrow> string set) \<Rightarrow> string \<Rightarrow> string \<Rightarrow> GenerationLock option \<Rightarrow> Repo \<Rightarrow> (GenerationLock \<times> Repo) option" where
  "new_spec hist remote local maybe_lock r =
     Option.bind (open_spec hist remote r) (\<lambda>r1.
     map_option (\<lambda>(lock, r2). (lock, branch_spec local (current_rev lock) r2))
       (lock_spec hist remote local maybe_lock r1))"

definition lock_ok :: "GenerationLock \<Rightarrow> bool" where
  "lock_ok lock \<longleftrightarrow> hash_ok (gl_rev lock) \<and> (case gl_local_rev lock of None \<Rightarrow> True | Some r \<Rightarrow> hash_ok r)"

lemma synced_heads:
  "bm_inv (heads r) \<Longrightarrow> bm_get (heads (synced hist remote h r)) n = (if n = remote then Some h else bm_get (heads r) n)"
  by (simp add: synced_def bm_get_insert)

lemma synced_hub [simp]: "hub (synced hist remote h r) = hub r"
  by (simp add: synced_def)

lemma synced_ok:
  "hist_ok hist \<Longrightarrow> repo_ok hist r \<Longrightarrow> name_ok remote \<Longrightarrow> bm_get (hub r) remote = Some h \<Longrightarrow>
   repo_ok hist (synced hist remote h r)"
  unfolding synced_def by (rule repo_ok_fetch)

lemma branch_name_neq: "branch_name path_hash pointer d \<noteq> remote_branch_name pointer"
  by (simp add: branch_name_def remote_branch_name_def)

lemma open_or_clone_eq:
  assumes "git_documented exec view hist" "repo_ok hist (view g)" "name_ok (remote_branch_name pointer)"
  shows "case open_spec hist (remote_branch_name pointer) (view g) of
      Some r \<Rightarrow> \<exists>g'. open_or_clone_floxmeta exec pointer g = (Ok (), g') \<and> view g' = r
    | None \<Rightarrow> \<exists>e g'. open_or_clone_floxmeta exec pointer g = (Err e, g') \<and> view g' = view g"
proof -
  let ?n = "remote_branch_name pointer"
  note has = has_branch_eq [OF assms]
  note unfold = open_or_clone_floxmeta_def open_floxmeta_def act_map_err_def act_bind_def act_match_def act_err_def act_ok_def
  show ?thesis
  proof (cases "bm_get (heads (view g)) ?n")
    case None
    show ?thesis
    proof (cases "bm_get (hub (view g)) ?n")
      case hub: (Some h)
      obtain g' where "fetch_branch exec ''dynamicorigin'' ?n g = (Ok (), g')" "view g' = synced hist ?n h (view g)"
        using fetch_branch_found [OF assms None hub] unfolding synced_def by blast
      then show ?thesis
        using None hub has by (simp add: open_spec_def unfold)
    next
      case hub: None
      obtain e where "fetch_branch exec ''dynamicorigin'' ?n g = (Err e, g)"
        using fetch_branch_missing [OF assms hub] by blast
      then show ?thesis
        using None hub has by (simp add: open_spec_def unfold)
    qed
  qed (simp add: open_spec_def unfold has)
qed

lemma open_spec_ok:
  assumes "hist_ok hist" "repo_ok hist r" "name_ok remote" "open_spec hist remote r = Some r'"
  shows "repo_ok hist r'" "bm_get (heads r') remote \<noteq> None" "hub r' = hub r" "commits r \<subseteq> commits r'"
    "n \<noteq> remote \<Longrightarrow> bm_get (heads r') n = bm_get (heads r) n"
  using assms synced_ok [OF assms(1-3)] repo_ok_inv(1) [OF assms(2)]
  by (auto simp: open_spec_def synced_heads synced_def bm_get_insert split: if_splits)

lemma act_map_err_pair: "m s = (r, s') \<Longrightarrow> act_map_err f m s = (case r of Inl e \<Rightarrow> Inl (f e) | Inr a \<Rightarrow> Inr a, s')"
  by (cases r) (simp_all add: act_map_err_Inl act_map_err_Inr)

lemma fetch_sync_eq:
  assumes "git_documented exec view hist" "repo_ok hist (view g)" "name_ok remote"
  shows "case bm_get (hub (view g)) remote of
      Some h \<Rightarrow> \<exists>g'. fetch_ref exec ''dynamicorigin'' (sync_refspec remote) g = (Ok (), g') \<and>
        view g' = synced hist remote h (view g)
    | None \<Rightarrow> fetch_ref exec ''dynamicorigin'' (sync_refspec remote) g =
        (Err (if is_access_denied (BadExit 128 [] (REF_NOT_FOUND_ERR_PREFIX @ remote)) then AccessDenied
              else RefNotFound remote), g)"
proof (cases "bm_get (hub (view g)) remote")
  case None
  then show ?thesis
    using fetch_ref_missing [OF assms None] by (simp only: sync_refspec_def option.case)
next
  case (Some h)
  then show ?thesis
    unfolding sync_refspec_def synced_def using fetch_ref_found [OF assms Some] by (simp, metis)
qed

lemma ensure_locked_local_rev:
  assumes "git_documented exec view hist" "repo_ok hist (view g)" "gl_local_rev lock = Some c" "hash_ok c"
  shows "ensure_generation_locked exec remote local (Some lock) g =
    (if c \<in> commits (view g) then Ok lock else Err LocalRevDoesNotExist, g)"
proof -
  have "contains_commit exec c g = (Ok (c \<in> commits (view g)), g)"
    using contains_commit_eq [OF assms(1,2)] assms(4) resolve_hash [OF assms(2,4)] by (simp add: rev_ok_def)
  then show ?thesis
    using assms(3) by (simp add: ensure_generation_locked_def act_bind_Inr [OF act_map_err_Inr] act_ok_def act_err_def)
qed

lemma in_branch_eq:
  assumes "git_documented exec view hist" "repo_ok hist (view g)" "hash_ok c" "bm_get (heads (view g)) n = Some h"
  shows "branch_contains_commit exec c n g = (Ok (c \<in> hist h), g)"
proof -
  have "hist h \<subseteq> commits (view g)"
    using repo_ok_head(2) [OF assms(2,4)] assms(2) by (simp add: repo_ok_def)
  then show ?thesis
    using branch_contains_commit_eq [OF assms(1,2) _ repo_ok_head(5) [OF assms(2,4)]] assms(3)
      resolve_hash [OF assms(2,3)] by (auto simp: rev_ok_def)
qed

lemma local_test_eq:
  assumes "git_documented exec view hist" "repo_ok hist (view g)" "hash_ok c" "name_ok local"
  shows "act_bind (act_map_err CheckBranchExists (has_branch exec local)) (\<lambda>has_local.
      act_bind (if has_local then act_map_err CheckGitRevision (branch_contains_commit exec c local) else act_ok False) f) g =
    f (in_local_branch hist local c (view g)) g"
proof (cases "bm_get (heads (view g)) local")
  case None
  then have "act_map_err CheckBranchExists (has_branch exec local) g = (Ok False, g)"
    using has_branch_eq [OF assms(1,2,4)] by (simp add: act_map_err_def act_match_def act_ok_def)
  then show ?thesis
    using None by (simp add: act_bind_def [of "act_map_err CheckBranchExists (has_branch exec local)"] in_local_branch_def)
next
  case (Some h)
  then show ?thesis
    using has_branch_eq [OF assms(1,2,4)] in_branch_eq [OF assms(1-3) Some]
    by (simp add: act_bind_Inr act_map_err_Inr in_local_branch_def)
qed

lemma ensure_generation_locked_eq:
  assumes doc: "git_documented exec view hist" and ok: "repo_ok hist (view g)"
    and names: "name_ok remote" "name_ok local"
    and remote: "bm_get (heads (view g)) remote \<noteq> None"
    and lock: "case maybe_lock of None \<Rightarrow> True | Some l \<Rightarrow> lock_ok l"
  shows "case lock_spec hist remote local maybe_lock (view g) of
      Some (l, r) \<Rightarrow> \<exists>g'. ensure_generation_locked exec remote local maybe_lock g = (Ok l, g') \<and> view g' = r
    | None \<Rightarrow> \<exists>e g'. ensure_generation_locked exec remote local maybe_lock g = (Err e, g')"
proof (cases maybe_lock)
  case None
  show ?thesis
  proof (cases "bm_get (hub (view g)) remote")
    case hub: None
    then show ?thesis
      using None fetch_sync_eq [OF doc ok names(1)]
      by (auto simp: lock_spec_def ensure_generation_locked_def intro!: act_bind_Inl act_map_err_Inl)
  next
    case hub: (Some h)
    then obtain g' where g': "fetch_ref exec ''dynamicorigin'' (sync_refspec remote) g = (Ok (), g')"
      "view g' = synced hist remote h (view g)"
      using fetch_sync_eq [OF doc ok names(1)] by auto
    then have ok': "repo_ok hist (view g')" "bm_get (heads (view g')) remote = Some h"
      using synced_ok [OF documented_hist [OF doc] ok names(1) hub] synced_heads [OF repo_ok_inv(1) [OF ok]] by simp_all
    then have "branch_hash exec remote g' = (Ok h, g')"
      using branch_hash_eq [OF doc ok'(1) names(1)] by simp
    then show ?thesis
      using None hub g' by (simp add: lock_spec_def ensure_generation_locked_def act_bind_Inr act_map_err_Inr act_ok_def)
  qed
next
  case (Some l)
  show ?thesis
  proof (cases "gl_local_rev l")
    case loc: (Some c)
    then have "hash_ok c"
      using lock Some by (simp add: lock_ok_def)
    then show ?thesis
      using Some loc ensure_locked_local_rev [OF doc ok loc] by (simp add: lock_spec_def)
  next
    case loc: None
    let ?c = "gl_rev l"
    have c: "hash_ok ?c"
      using lock Some by (simp add: lock_ok_def)
    have unfold: "ensure_generation_locked exec remote local maybe_lock g =
        act_bind (if \<not> in_local_branch hist local ?c (view g)
                  then act_map_err Fetch (fetch_ref exec ''dynamicorigin'' (sync_refspec remote)) else act_ok ())
          (\<lambda>_. act_bind (act_map_err CheckGitRevision (branch_contains_commit exec ?c remote)) (\<lambda>in_remote.
             if \<not> in_remote \<and> \<not> in_local_branch hist local ?c (view g) then act_err RevDoesNotExist else act_ok l)) g"
      using Some loc by (simp only: ensure_generation_locked_def option.case local_test_eq [OF doc ok c names(2)])
    show ?thesis
    proof (cases "in_local_branch hist local ?c (view g)")
      case True
      obtain h where "bm_get (heads (view g)) remote = Some h"
        using remote by blast
      then have "branch_contains_commit exec ?c remote g = (Ok (?c \<in> hist h), g)"
        by (rule in_branch_eq [OF doc ok c])
      then show ?thesis
        using True Some loc unfold by (simp add: lock_spec_def act_bind_Inr act_map_err_Inr act_ok_def)
    next
      case False
      show ?thesis
      proof (cases "bm_get (hub (view g)) remote")
        case hub: None
        then show ?thesis
          using False Some loc unfold fetch_sync_eq [OF doc ok names(1)]
          by (auto simp: lock_spec_def intro!: act_bind_Inl act_map_err_Inl)
      next
        case hub: (Some h)
        then obtain g' where g': "fetch_ref exec ''dynamicorigin'' (sync_refspec remote) g = (Ok (), g')"
          "view g' = synced hist remote h (view g)"
          using fetch_sync_eq [OF doc ok names(1)] by auto
        then have ok': "repo_ok hist (view g')" "bm_get (heads (view g')) remote = Some h"
          using synced_ok [OF documented_hist [OF doc] ok names(1) hub] synced_heads [OF repo_ok_inv(1) [OF ok]] by simp_all
        have "branch_contains_commit exec ?c remote g' = (Ok (?c \<in> hist h), g')"
          by (rule in_branch_eq [OF doc ok'(1) c ok'(2)])
        then show ?thesis
          using False Some loc unfold hub g'
          by (simp add: lock_spec_def act_bind_Inr act_map_err_Inr act_ok_def act_err_def)
      qed
    qed
  qed
qed

lemma ensure_branch_eq:
  assumes doc: "git_documented exec view hist" and ok: "repo_ok hist (view g)" and "name_ok local"
    and c: "hash_ok (current_rev lock)" "current_rev lock \<in> commits (view g)"
  obtains g' where "ensure_branch exec local lock g = (Ok (), g')"
    "view g' = branch_spec local (current_rev lock) (view g)"
proof -
  have res: "resolve (view g) (current_rev lock) = Some (current_rev lock)"
    using resolve_hash [OF ok c(1)] c(2) by simp
  have hash: "branch_hash exec local g =
      (case bm_get (heads (view g)) local of Some h \<Rightarrow> Ok h | None \<Rightarrow> Err DoesNotExist, g)"
    by (rule branch_hash_eq [OF doc ok assms(3)])
  show thesis
  proof (cases "bm_get (heads (view g)) local")
    case None
    obtain g' where "create_branch exec local (current_rev lock) g = (Ok (), g')"
      "view g' = view g \<lparr> heads := bm_insert local (current_rev lock) (heads (view g)) \<rparr>"
      by (rule create_branch_ok [OF doc ok assms(3) None res])
    then show ?thesis
      using None hash that by (simp add: ensure_branch_def act_match_def act_map_err_Inr branch_spec_def)
  next
    case (Some h)
    show ?thesis
    proof (cases "h = current_rev lock")
      case True
      then show ?thesis
        using Some hash that [of g] by (simp add: ensure_branch_def act_match_def act_ok_def branch_spec_def)
    next
      case False
      obtain g' where "reset_branch exec local (current_rev lock) g = (Ok (), g')"
        "view g' = view g \<lparr> heads := bm_insert local (current_rev lock) (heads (view g)) \<rparr>"
        by (rule reset_branch_ok [OF doc ok assms(3) res])
      then show ?thesis
        using Some False hash that by (simp add: ensure_branch_def act_match_def act_map_err_Inr branch_spec_def)
    qed
  qed
qed

lemma lock_spec_facts:
  assumes "hist_ok hist" "repo_ok hist r" "name_ok remote"
    and "case maybe_lock of None \<Rightarrow> True | Some l \<Rightarrow> lock_ok l"
    and "lock_spec hist remote local maybe_lock r = Some (l, r')"
  shows "repo_ok hist r'" "lock_ok l" "current_rev l \<in> commits r'" "hub r' = hub r"
    "n \<noteq> remote \<Longrightarrow> bm_get (heads r') n = bm_get (heads r) n"
    "case maybe_lock of None \<Rightarrow> bm_get (hub r) remote = Some (gl_rev l) \<and> gl_local_rev l = None | Some l' \<Rightarrow> l = l'"
proof -
  have "hash_ok h" "h \<in> hist h" if "bm_get (hub r) remote = Some h" for h
    using assms(1,2) map_of_SomeD [OF that] by (auto simp: repo_ok_def hist_ok_def)
  moreover have "hist h \<subseteq> commits r" if "bm_get (heads r) local = Some h" for h
    using repo_ok_head(2) [OF assms(2) that] assms(2) by (simp add: repo_ok_def)
  ultimately show "repo_ok hist r'" "lock_ok l" "current_rev l \<in> commits r'" "hub r' = hub r"
    "n \<noteq> remote \<Longrightarrow> bm_get (heads r') n = bm_get (heads r) n"
    "case maybe_lock of None \<Rightarrow> bm_get (hub r) remote = Some (gl_rev l) \<and> gl_local_rev l = None | Some l' \<Rightarrow> l = l'"
    using assms(2,4,5) synced_ok [OF assms(1-3)] synced_heads [OF repo_ok_inv(1) [OF assms(2)]]
    by (auto simp: lock_spec_def in_local_branch_def lock_ok_def current_rev_def synced_def bm_get_insert
        split: option.splits if_splits bind_splits)
qed

text \<open>The refinement, used by the properties below.\<close>

lemma floxmeta_branch_new_eq:
  assumes doc: "git_documented exec view hist" and ok: "repo_ok hist (view g)"
    and names: "name_ok remote" "name_ok local"
    and lock: "case maybe_lock of None \<Rightarrow> True | Some l \<Rightarrow> lock_ok l"
    and eqs: "remote = remote_branch_name pointer" "local = branch_name path_hash pointer d"
  shows "case new_spec hist remote local maybe_lock (view g) of
      Some (l, r) \<Rightarrow> \<exists>g'. floxmeta_branch_new exec path_hash pointer d maybe_lock g =
          (Ok (\<lparr> fb_branch = local, fb_remote_branch = remote \<rparr>, l), g') \<and> view g' = r
    | None \<Rightarrow> \<exists>e g'. floxmeta_branch_new exec path_hash pointer d maybe_lock g = (Err e, g')"
proof -
  have unfold: "floxmeta_branch_new exec path_hash pointer d maybe_lock g =
      act_bind (open_or_clone_floxmeta exec pointer) (\<lambda>_.
        act_bind (ensure_generation_locked exec remote local maybe_lock) (\<lambda>lock.
        act_bind (ensure_branch exec local lock) (\<lambda>_.
        act_ok (\<lparr> fb_branch = local, fb_remote_branch = remote \<rparr>, lock)))) g"
    by (simp add: floxmeta_branch_new_def Let_def eqs)
  note hist = documented_hist [OF doc]
  show ?thesis
  proof (cases "open_spec hist remote (view g)")
    case None
    then obtain e g' where "open_or_clone_floxmeta exec pointer g = (Err e, g')"
      using open_or_clone_eq [OF doc ok] names(1) eqs(1) by fastforce
    then show ?thesis
      using None by (auto simp: new_spec_def unfold act_bind_Inl)
  next
    case (Some r1)
    then obtain g1 where g1: "open_or_clone_floxmeta exec pointer g = (Ok (), g1)" "view g1 = r1"
      using open_or_clone_eq [OF doc ok] names(1) eqs(1) by fastforce
    have ok1: "repo_ok hist (view g1)" "bm_get (heads (view g1)) remote \<noteq> None"
      using open_spec_ok(1,2) [OF hist ok names(1) Some] g1(2) by blast+
    note locked = ensure_generation_locked_eq [OF doc ok1(1) names ok1(2) lock]
    show ?thesis
    proof (cases "lock_spec hist remote local maybe_lock r1")
      case None
      then obtain e g2 where "ensure_generation_locked exec remote local maybe_lock g1 = (Err e, g2)"
        using locked g1(2) by auto
      then show ?thesis
        using Some None g1 by (auto simp: new_spec_def unfold act_bind_Inl act_bind_Inr)
    next
      case lspec: (Some lr)
      obtain l r2 where lr: "lr = (l, r2)"
        by (cases lr)
      obtain g2 where g2: "ensure_generation_locked exec remote local maybe_lock g1 = (Ok l, g2)" "view g2 = r2"
        using locked g1(2) lspec lr by auto
      note facts = lock_spec_facts [OF hist ok1(1) names(1) lock, unfolded g1(2), OF lspec [unfolded lr]]
      have "hash_ok (current_rev l)"
        using facts(2) by (auto simp: lock_ok_def current_rev_def split: option.splits)
      then obtain g3 where g3: "ensure_branch exec local l g2 = (Ok (), g3)"
        "view g3 = branch_spec local (current_rev l) (view g2)"
        using ensure_branch_eq [OF doc _ names(2)] facts(1,3) g2(2) by metis
      then show ?thesis
        using Some lspec lr g1 g2 by (simp add: new_spec_def unfold act_bind_Inr act_ok_def)
    qed
  qed
qed

lemma new_spec_facts:
  assumes "hist_ok hist" "repo_ok hist r" "name_ok remote" "name_ok local" "local \<noteq> remote"
    and "case maybe_lock of None \<Rightarrow> True | Some l \<Rightarrow> lock_ok l"
    and "new_spec hist remote local maybe_lock r = Some (l, r')"
  shows "repo_ok hist r'" and "bm_get (heads r') local = Some (current_rev l)" and "hub r' = hub r"
    and "n \<noteq> remote \<Longrightarrow> n \<noteq> local \<Longrightarrow> bm_get (heads r') n = bm_get (heads r) n"
    and "case maybe_lock of None \<Rightarrow> bm_get (hub r) remote = Some (gl_rev l) \<and> gl_local_rev l = None | Some l' \<Rightarrow> l = l'"
proof -
  obtain r1 r2 where r1: "open_spec hist remote r = Some r1"
    and r2: "lock_spec hist remote local maybe_lock r1 = Some (l, r2)"
    and r': "r' = branch_spec local (current_rev l) r2"
    using assms(7) by (auto simp: new_spec_def bind_eq_Some_conv)
  note o = open_spec_ok [OF assms(1-3) r1]
  note k = lock_spec_facts [OF assms(1) o(1) assms(3,6) r2]
  note inv = repo_ok_inv(1) [OF k(1)]
  show "repo_ok hist r'"
    using repo_ok_insert_head [OF k(1) assms(4) k(3)] k(1) by (simp add: r' branch_spec_def)
  show "bm_get (heads r') local = Some (current_rev l)"
    by (simp add: r' branch_spec_def bm_get_insert [OF inv])
  show "hub r' = hub r"
    by (simp add: r' branch_spec_def k(4) o(3))
  show "n \<noteq> remote \<Longrightarrow> n \<noteq> local \<Longrightarrow> bm_get (heads r') n = bm_get (heads r) n"
    by (simp add: r' branch_spec_def bm_get_insert [OF inv] k(5) o(5))
  show "case maybe_lock of None \<Rightarrow> bm_get (hub r) remote = Some (gl_rev l) \<and> gl_local_rev l = None | Some l' \<Rightarrow> l = l'"
    using k(6) unfolding o(3) .
qed

section \<open>Opening an environment\<close>

text \<open>
  C12. Opening a managed environment succeeds exactly when its locked revision can be had (from
  the local clone, or from FloxHub where the lock has no local revision). It then keeps the
  lock it was given, or locks the latest revision on FloxHub if there was none; the branch of
  the environment points at the locked revision; and the branches of all other environments
  and the repository on FloxHub are as before.
\<close>
theorem opening_follows_the_lock:
  assumes "git_documented exec view hist" and "repo_ok hist (view g)"
    and "name_ok remote" and "name_ok local"
    and "case maybe_lock of None \<Rightarrow> True | Some l \<Rightarrow> lock_ok l"
    and "remote = remote_branch_name pointer" and "local = branch_name path_hash pointer d"
  shows "case floxmeta_branch_new exec path_hash pointer d maybe_lock g of
      (Inr (fb, lock), g') \<Rightarrow>
        new_spec hist remote local maybe_lock (view g) \<noteq> None \<and> repo_ok hist (view g') \<and>
        fb = \<lparr> fb_branch = local, fb_remote_branch = remote \<rparr> \<and>
        bm_get (heads (view g')) local = Some (current_rev lock) \<and>
        (case maybe_lock of
           None \<Rightarrow> bm_get (hub (view g)) remote = Some (gl_rev lock) \<and> gl_local_rev lock = None
         | Some l \<Rightarrow> lock = l) \<and>
        hub (view g') = hub (view g) \<and>
        (\<forall>n. n \<noteq> remote \<longrightarrow> n \<noteq> local \<longrightarrow> bm_get (heads (view g')) n = bm_get (heads (view g)) n)
    | (Inl e, g') \<Rightarrow> new_spec hist remote local maybe_lock (view g) = None"
proof (cases "new_spec hist remote local maybe_lock (view g)")
  case None
  then show ?thesis
    using floxmeta_branch_new_eq [OF assms] by auto
next
  case (Some lr)
  obtain l r where lr: "lr = (l, r)"
    by (cases lr)
  have "local \<noteq> remote"
    using branch_name_neq by (simp add: assms(6,7))
  note facts = new_spec_facts [OF documented_hist [OF assms(1)] assms(2-4) this assms(5) Some [unfolded lr]]
  obtain g' where "floxmeta_branch_new exec path_hash pointer d maybe_lock g =
      (Ok (\<lparr> fb_branch = local, fb_remote_branch = remote \<rparr>, l), g')" "view g' = r"
    using floxmeta_branch_new_eq [OF assms] Some lr by auto
  then show ?thesis
    using Some facts by simp
qed

lemma generation_lock_eq:
  assumes "git_documented exec view hist" "repo_ok hist (view g)"
    and "bm_get (heads (view g)) (fb_remote_branch fb) = Some hr" "bm_get (heads (view g)) (fb_branch fb) = Some hl"
  shows "generation_lock exec fb g =
    (Ok \<lparr> gl_rev = hr, gl_local_rev = (if hl = hr then None else Some hl) \<rparr>, g)"
  using branch_hash_eq [OF assms(1,2) repo_ok_head(3) [OF assms(2,3)]] assms(3)
    branch_hash_eq [OF assms(1,2) repo_ok_head(3) [OF assms(2,4)]] assms(4)
  by (simp add: generation_lock_def act_bind_Inr act_map_err_Inr act_ok_def)

text \<open>
  C13. A lock written from the branches of an environment opens again to the same place: for any
  later state of FloxHub, even with the environment deleted there, opening with that lock
  succeeds, returns the lock unchanged, and changes nothing in the repository.
\<close>
theorem recorded_lock_reopens:
  assumes "git_documented exec view hist" and "repo_ok hist (view g)"
    and "remote = remote_branch_name pointer" and "local = branch_name path_hash pointer d"
    and "fb = \<lparr> fb_branch = local, fb_remote_branch = remote \<rparr>"
    and "bm_get (heads (view g)) remote \<noteq> None" and "bm_get (heads (view g)) local \<noteq> None"
    and "repo_ok hist (view g')" and "heads (view g') = heads (view g)" and "commits (view g') = commits (view g)"
  shows "\<exists>lock g2. generation_lock exec fb g = (Ok lock, g) \<and>
     floxmeta_branch_new exec path_hash pointer d (Some lock) g' = (Ok (fb, lock), g2) \<and> view g2 = view g'"
proof -
  obtain hr hl where h: "bm_get (heads (view g)) remote = Some hr" "bm_get (heads (view g)) local = Some hl"
    using assms(6,7) by blast
  let ?lock = "\<lparr> gl_rev = hr, gl_local_rev = (if hl = hr then None else Some hl) \<rparr>"
  have lock: "generation_lock exec fb g = (Ok ?lock, g)"
    by (rule generation_lock_eq [OF assms(1,2)]) (simp_all add: assms(5) h)
  have ok: "lock_ok ?lock"
    using repo_ok_head(1) [OF assms(2) h(1)] repo_ok_head(1) [OF assms(2) h(2)] by (simp add: lock_ok_def)
  have "c \<in> hist c" "hl \<in> commits (view g)" for c
    using documented_hist [OF assms(1)] repo_ok_head(2) [OF assms(2) h(2)] by (simp_all add: hist_ok_def)
  then have spec: "new_spec hist remote local (Some ?lock) (view g') = Some (?lock, view g')"
    using h by (simp add: new_spec_def open_spec_def lock_spec_def branch_spec_def current_rev_def
        in_local_branch_def assms(9,10))
  have names: "name_ok remote" "name_ok local"
    using repo_ok_head(3) [OF assms(2) h(1)] repo_ok_head(3) [OF assms(2) h(2)] by simp_all
  show ?thesis
    using floxmeta_branch_new_eq [OF assms(1,8) names _ assms(3,4), of "Some ?lock"] lock spec ok
    by (auto simp: assms(5))
qed

section \<open>Comparing and pruning\<close>

definition branch_ord :: "(string \<Rightarrow> string set) \<Rightarrow> string \<Rightarrow> string \<Rightarrow> BranchOrd" where
  "branch_ord hist a b =
     (if a = b then Equal else if b \<in> hist a then Ahead else if a \<in> hist b then Behind else DivergedOrd)"

lemma compare_branches_eq:
  assumes "git_documented exec view hist" "repo_ok hist (view g)"
    and "bm_get (heads (view g)) a = Some ha" "bm_get (heads (view g)) b = Some hb"
  shows "compare_branches exec a b g = (Ok (branch_ord hist ha hb), g)"
proof -
  note a = repo_ok_head [OF assms(2,3)] and b = repo_ok_head [OF assms(2,4)]
  have "branch_hash exec a g = (Ok ha, g)" "branch_hash exec b g = (Ok hb, g)"
    using branch_hash_eq [OF assms(1,2) a(3)] branch_hash_eq [OF assms(1,2) b(3)] assms(3,4) by simp_all
  moreover have "branch_contains_commit exec b a g = (Ok (hb \<in> hist ha), g)"
    using branch_contains_commit_eq [OF assms(1,2) _ a(5), of b] b(3,5) by (simp add: rev_ok_def)
  moreover have "branch_contains_commit exec a b g = (Ok (ha \<in> hist hb), g)"
    using branch_contains_commit_eq [OF assms(1,2) _ b(5), of a] a(3,5) by (simp add: rev_ok_def)
  ultimately show ?thesis
    by (simp add: compare_branches_def branch_ord_def act_bind_Inr act_map_err_Inr act_ok_def)
qed

lemma prune_eq:
  assumes doc: "git_documented exec view hist" and ok: "repo_ok hist (view g)" and "local \<noteq> remote"
  shows "\<exists>g'. prune_branches_from_floxmeta exec local remote g = (Ok (), g') \<and>
    view g' = view g \<lparr> heads :=
      (let names = bm_keys (heads (view g));
           left = (if local \<in> set names then bm_remove local (heads (view g)) else heads (view g))
       in if remote \<in> set names \<and> \<not> branches_for_other_paths names remote then bm_remove remote left else left) \<rparr>"
proof -
  obtain infos where infos: "list_branches exec g = (Ok infos, g)" "map bi_name infos = bm_keys (heads (view g))"
    by (rule list_branches_eq [OF doc ok])
  let ?names = "bm_keys (heads (view g))"
  have key: "n \<in> set (bm_keys m) \<longleftrightarrow> bm_get m n \<noteq> None" for n and m :: "(string, string) bmap"
    by (simp add: bm_keys_def map_of_eq_None_iff)
  obtain g1 where g1: "(if local \<in> set ?names then act_map_err DeleteBranchError (delete_branch exec local True)
        else act_ok ()) g = (Ok (), g1)"
    "view g1 = view g \<lparr> heads := (if local \<in> set ?names then bm_remove local (heads (view g)) else heads (view g)) \<rparr>"
  proof (cases "local \<in> set ?names")
    case True
    then obtain g1 where "delete_branch exec local True g = (Ok (), g1)"
      "view g1 = view g \<lparr> heads := bm_remove local (heads (view g)) \<rparr>"
      using delete_branch_ok [OF doc ok] key by blast
    with True that show thesis
      by (simp add: act_map_err_Inr)
  next
    case False
    with that show thesis
      by (simp add: act_ok_def)
  qed
  have ok1: "repo_ok hist (view g1)"
    using g1(2) repo_ok_remove_head [OF ok] ok by simp
  have remote: "bm_get (heads (view g1)) remote = bm_get (heads (view g)) remote"
    using g1(2) assms(3) repo_ok_inv(1) [OF ok] by (simp add: bm_get_remove)
  let ?both = "remote \<in> set ?names \<and> \<not> branches_for_other_paths ?names remote"
  obtain g2 where g2: "(if ?both then act_map_err DeleteBranchError (delete_branch exec remote True)
        else act_ok ()) g1 = (Ok (), g2)"
    "view g2 = view g1 \<lparr> heads := (if ?both then bm_remove remote (heads (view g1)) else heads (view g1)) \<rparr>"
  proof (cases ?both)
    case True
    then obtain g2 where "delete_branch exec remote True g1 = (Ok (), g2)"
      "view g2 = view g1 \<lparr> heads := bm_remove remote (heads (view g1)) \<rparr>"
      using delete_branch_ok [OF doc ok1] key remote by (metis (no_types, lifting))
    with True that show thesis
      by (simp add: act_map_err_Inr)
  next
    case False
    with that show thesis
      by (auto simp: act_ok_def)
  qed
  have "act_map_err ListBranch (list_branches exec) g = (Ok infos, g)"
    by (simp add: act_map_err_Inr infos(1))
  then have "prune_branches_from_floxmeta exec local remote g = (Ok (), g2)"
    unfolding prune_branches_from_floxmeta_def Let_def
    using g1(1) g2(1) by (simp only: act_bind_Inr infos(2))
  with g1(2) g2(2) show ?thesis
    by (auto simp: Let_def)
qed

lemma branches_for_other_paths_iff:
  "branches_for_other_paths names remote \<longleftrightarrow>
     (\<exists>suffix. remote @ ''.'' @ suffix \<in> set names \<and> CHR ''.'' \<notin> set suffix)"
proof -
  have eq: "(case rsplit_once BRANCH_NAME_PATH_SEPARATOR n of Some (prefix, _) \<Rightarrow> prefix = remote | None \<Rightarrow> False) \<longleftrightarrow>
      (\<exists>suffix. n = remote @ ''.'' @ suffix \<and> CHR ''.'' \<notin> set suffix)" (is "?L \<longleftrightarrow> ?R") for n
  proof -
    have "?L \<longleftrightarrow> (\<exists>suffix. rsplit_once (CHR ''.'') n = Some (remote, suffix))"
      by (auto simp: BRANCH_NAME_PATH_SEPARATOR_def split: option.splits)
    then show ?thesis
      by (simp add: rsplit_once_Some_iff)
  qed
  then show ?thesis
    unfolding branches_for_other_paths_def list_ex_iff eq by blast
qed

text \<open>
  Deleting the only copy of an environment removes its local branch but leaves the branch
  that follows FloxHub: the list of branches is taken before the local branch is deleted, so
  the deleted branch still counts as another copy. Deleting a second time removes it.
\<close>
theorem deleting_last_copy_keeps_sync_branch:
  assumes "git_documented exec view hist" and "repo_ok hist (view g)"
    and "local = branch_name path_hash pointer d" and "remote = remote_branch_name pointer"
    and "CHR ''.'' \<notin> set (path_hash d)" and "fb = \<lparr> fb_branch = local, fb_remote_branch = remote \<rparr>"
    and "bm_get (heads (view g)) local \<noteq> None" and "bm_get (heads (view g)) remote \<noteq> None"
    and "\<forall>suffix. bm_get (heads (view g)) (remote @ ''.'' @ suffix) \<noteq> None \<longrightarrow> remote @ ''.'' @ suffix = local"
  shows "\<exists>g1 g2. floxmeta_branch_delete exec fb g = (Ok (), g1) \<and>
     view g1 = view g \<lparr> heads := bm_remove local (heads (view g)) \<rparr> \<and>
     bm_get (heads (view g1)) remote = bm_get (heads (view g)) remote \<and>
     floxmeta_branch_delete exec fb g1 = (Ok (), g2) \<and> bm_get (heads (view g2)) remote = None"
proof -
  have key: "n \<in> set (bm_keys m) \<longleftrightarrow> bm_get m n \<noteq> None" for n and m :: "(string, string) bmap"
    by (simp add: bm_keys_def map_of_eq_None_iff)
  have neq: "local \<noteq> remote"
    using branch_name_neq by (simp add: assms(3,4))
  note inv = repo_ok_inv(1) [OF assms(2)]
  have loc: "local = remote @ ''.'' @ path_hash d"
    by (simp add: assms(3,4) branch_name_def remote_branch_name_def BRANCH_NAME_PATH_SEPARATOR_def)
  have "branches_for_other_paths (bm_keys (heads (view g))) remote"
    unfolding branches_for_other_paths_iff key using assms(5,7) loc by blast
  then obtain g1 where g1: "prune_branches_from_floxmeta exec local remote g = (Ok (), g1)"
    "view g1 = view g \<lparr> heads := bm_remove local (heads (view g)) \<rparr>"
    using prune_eq [OF assms(1,2) neq] assms(7) by (auto simp: Let_def key)
  have ok1: "repo_ok hist (view g1)"
    unfolding g1(2) by (rule repo_ok_remove_head [OF assms(2)])
  have get1: "bm_get (heads (view g1)) n = (if n = local then None else bm_get (heads (view g)) n)" for n
    by (simp add: g1(2) bm_get_remove [OF inv])
  have "\<not> branches_for_other_paths (bm_keys (heads (view g1))) remote"
    unfolding branches_for_other_paths_iff key get1 using assms(9) by auto
  then obtain g2 where g2: "prune_branches_from_floxmeta exec local remote g1 = (Ok (), g2)"
    "view g2 = view g1 \<lparr> heads := bm_remove remote (heads (view g1)) \<rparr>"
    using prune_eq [OF assms(1) ok1 neq] assms(8) neq by (auto simp: Let_def key get1)
  have "bm_get (heads (view g2)) remote = None"
    using repo_ok_inv(1) [OF ok1] by (simp add: g2(2) bm_get_remove)
  then show ?thesis
    using g1 g2(1) get1 [of remote] neq
    by (simp add: floxmeta_branch_delete_def assms(6) act_map_err_Inr)
qed

section \<open>A clone with one environment\<close>

definition demo_hash :: "char \<Rightarrow> string" where
  "demo_hash c = replicate 40 c"

text \<open>The commit \<open>a\<close> is the parent of \<open>b\<close> and of \<open>c\<close>.\<close>

definition demo_hist :: "string \<Rightarrow> string set" where
  "demo_hist h =
     (if h \<in> {demo_hash (CHR ''b''), demo_hash (CHR ''c'')} then {h, demo_hash (CHR ''a'')} else {h})"

definition demo_pointer :: ManagedPointer where
  "demo_pointer = \<lparr> mp_owner = ''owner'', mp_name = ''myenv'' \<rparr>"

definition demo_path_hash :: "path \<Rightarrow> string" where
  "demo_path_hash p = ''1a2b3c4d''"

definition demo_fb :: FloxmetaBranch where
  "demo_fb = \<lparr> fb_branch = ''myenv.1a2b3c4d'', fb_remote_branch = ''myenv'' \<rparr>"

text \<open>The local branch, the sync branch and the branch on FloxHub at the given commits.\<close>

definition demo_repo :: "char \<Rightarrow> char \<Rightarrow> char option \<Rightarrow> Repo" where
  "demo_repo loc remote upstream =
     \<lparr> heads = [(''myenv'', demo_hash remote), (''myenv.1a2b3c4d'', demo_hash loc)],
       commits = demo_hash ` {CHR ''a'', CHR ''b'', CHR ''c''},
       hub = (case upstream of None \<Rightarrow> [] | Some u \<Rightarrow> [(''myenv'', demo_hash u)]) \<rparr>"

lemma demo_hash_inject [simp]: "demo_hash c = demo_hash d \<longleftrightarrow> c = d"
  by (simp add: demo_hash_def)

lemma demo_hash_ok: "is_hex c \<Longrightarrow> hash_ok (demo_hash c)"
  by (simp add: demo_hash_def hash_ok_def list_all_iff)

lemma demo_hist_ok: "hist_ok demo_hist"
  by (auto simp: hist_ok_def demo_hist_def split: if_splits)

lemmas name_simps = name_ok_def is_name_char_def is_hex_def is_ascii_digit_def strip_prefix_def

lemma demo_names: "name_ok ''myenv''" "name_ok ''myenv.1a2b3c4d''"
  by (simp_all add: name_simps)

lemma demo_names_eq:
  "remote_branch_name demo_pointer = ''myenv''" "branch_name demo_path_hash demo_pointer d = ''myenv.1a2b3c4d''"
  by (simp_all add: demo_pointer_def remote_branch_name_def branch_name_def demo_path_hash_def
      BRANCH_NAME_PATH_SEPARATOR_def)

lemma demo_repo_ok:
  assumes "loc \<in> {CHR ''a'', CHR ''b'', CHR ''c''}" "remote \<in> {CHR ''a'', CHR ''b'', CHR ''c''}"
    "case upstream of None \<Rightarrow> True | Some u \<Rightarrow> u \<in> {CHR ''a'', CHR ''b'', CHR ''c''}"
  shows "repo_ok demo_hist (demo_repo loc remote upstream)"
proof -
  have hex: "hash_ok (demo_hash c)" if "c \<in> {CHR ''a'', CHR ''b'', CHR ''c''}" for c
    using that by (intro demo_hash_ok) (auto simp: is_hex_def)
  have hist: "demo_hist (demo_hash c) \<subseteq> demo_hash ` {CHR ''a'', CHR ''b'', CHR ''c''}"
    if "c \<in> {CHR ''a'', CHR ''b'', CHR ''c''}" for c
    using that by (auto simp: demo_hist_def)
  have hist_ok: "\<forall>x \<in> demo_hist (demo_hash c). hash_ok x" if c: "c \<in> {CHR ''a'', CHR ''b'', CHR ''c''}" for c
  proof
    fix x
    assume "x \<in> demo_hist (demo_hash c)"
    then obtain c' where "x = demo_hash c'" "c' \<in> {CHR ''a'', CHR ''b'', CHR ''c''}"
      using hist [OF c] by blast
    then show "hash_ok x"
      using hex by simp
  qed
  have "bm_inv (heads (demo_repo loc remote upstream))" "bm_inv (hub (demo_repo loc remote upstream))"
    by (simp_all add: demo_repo_def bm_inv_def split: option.splits)
  moreover have "\<forall>(n, h) \<in> set (heads (demo_repo loc remote upstream)).
      name_ok n \<and> hash_ok h \<and> h \<in> commits (demo_repo loc remote upstream)"
    using assms(1,2) hex [OF assms(1)] hex [OF assms(2)] demo_names by (simp add: demo_repo_def)
  moreover have "\<forall>c \<in> commits (demo_repo loc remote upstream).
      demo_hist c \<subseteq> commits (demo_repo loc remote upstream) \<and> hash_ok c"
    using hist hex by (simp add: demo_repo_def)
  moreover have "\<forall>(n, h) \<in> set (hub (demo_repo loc remote upstream)). hash_ok h \<and> (\<forall>c \<in> demo_hist h. hash_ok c)"
    using assms(3) hex hist_ok by (cases upstream) (simp_all add: demo_repo_def)
  ultimately show ?thesis
    unfolding repo_ok_def by (simp add: split_def)
qed

lemma demo_git: "git_documented (small_git demo_hist) id demo_hist"
  by (rule small_git_documented [OF demo_hist_ok])

lemma opening_follows_the_lock_witness:
  "case floxmeta_branch_new (small_git demo_hist) demo_path_hash demo_pointer []
       (Some \<lparr> gl_rev = demo_hash (CHR ''a''), gl_local_rev = Some (demo_hash (CHR ''b'')) \<rparr>)
       (demo_repo (CHR ''a'') (CHR ''a'') (Some (CHR ''a''))) of
     (Inr (fb, lock), g') \<Rightarrow> bm_get (heads g') ''myenv.1a2b3c4d'' = Some (demo_hash (CHR ''b''))
   | (Inl e, g') \<Rightarrow> False"
proof -
  let ?lock = "\<lparr> gl_rev = demo_hash (CHR ''a''), gl_local_rev = Some (demo_hash (CHR ''b'')) \<rparr>"
  let ?r = "demo_repo (CHR ''a'') (CHR ''a'') (Some (CHR ''a''))"
  let ?new = "floxmeta_branch_new (small_git demo_hist) demo_path_hash demo_pointer [] (Some ?lock) ?r"
  have ok: "repo_ok demo_hist (id ?r)"
    by (simp add: demo_repo_ok)
  have lock: "case Some ?lock of None \<Rightarrow> True | Some l \<Rightarrow> lock_ok l"
    by (simp add: lock_ok_def demo_hash_ok is_hex_def is_ascii_digit_def)
  have "new_spec demo_hist ''myenv'' ''myenv.1a2b3c4d'' (Some ?lock) (id ?r) \<noteq> None"
    by (simp add: new_spec_def open_spec_def lock_spec_def demo_repo_def)
  moreover obtain res g' where new: "?new = (res, g')"
    by (cases ?new)
  note follows = opening_follows_the_lock [OF demo_git ok demo_names lock demo_names_eq(1) [symmetric]
      demo_names_eq(2) [symmetric], of "[]", unfolded new]
  ultimately show ?thesis
    using follows by (cases res) (simp_all add: new current_rev_def case_prod_beta)
qed

lemma recorded_lock_reopens_witness:
  "\<exists>lock g2. generation_lock (small_git demo_hist) demo_fb (demo_repo (CHR ''b'') (CHR ''a'') (Some (CHR ''a''))) =
       (Ok lock, demo_repo (CHR ''b'') (CHR ''a'') (Some (CHR ''a''))) \<and>
     floxmeta_branch_new (small_git demo_hist) demo_path_hash demo_pointer [] (Some lock)
       (demo_repo (CHR ''b'') (CHR ''a'') None) = (Ok (demo_fb, lock), g2) \<and>
     g2 = demo_repo (CHR ''b'') (CHR ''a'') None"
proof -
  let ?r = "demo_repo (CHR ''b'') (CHR ''a'') (Some (CHR ''a''))" and ?r' = "demo_repo (CHR ''b'') (CHR ''a'') None"
  have "repo_ok demo_hist ?r" "repo_ok demo_hist ?r'"
    by (simp_all add: demo_repo_ok)
  moreover have "bm_get (heads ?r) ''myenv'' \<noteq> None" "bm_get (heads ?r) ''myenv.1a2b3c4d'' \<noteq> None"
    "heads ?r' = heads ?r" "commits ?r' = commits ?r"
    by (simp_all add: demo_repo_def)
  ultimately show ?thesis
    using recorded_lock_reopens [OF demo_git, of ?r "''myenv''" demo_pointer "''myenv.1a2b3c4d''" demo_path_hash
        "[]" demo_fb ?r']
    by (simp add: demo_names_eq demo_fb_def)
qed

lemma deleting_last_copy_keeps_sync_branch_witness:
  "\<exists>g1 g2. floxmeta_branch_delete (small_git demo_hist) demo_fb (demo_repo (CHR ''a'') (CHR ''a'') None) = (Ok (), g1) \<and>
     bm_get (heads g1) ''myenv'' = Some (demo_hash (CHR ''a'')) \<and>
     floxmeta_branch_delete (small_git demo_hist) demo_fb g1 = (Ok (), g2) \<and> bm_get (heads g2) ''myenv'' = None"
proof -
  let ?r = "demo_repo (CHR ''a'') (CHR ''a'') None"
  have "repo_ok demo_hist ?r"
    by (simp add: demo_repo_ok)
  moreover have "CHR ''.'' \<notin> set (demo_path_hash [])"
    by (simp add: demo_path_hash_def)
  moreover have "\<forall>suffix. bm_get (heads ?r) (''myenv'' @ ''.'' @ suffix) \<noteq> None \<longrightarrow>
      ''myenv'' @ ''.'' @ suffix = ''myenv.1a2b3c4d''"
    by (auto simp: demo_repo_def split: if_splits)
  moreover have "bm_get (heads ?r) ''myenv'' = Some (demo_hash (CHR ''a''))" "bm_get (heads ?r) ''myenv.1a2b3c4d'' \<noteq> None"
    by (simp_all add: demo_repo_def)
  ultimately show ?thesis
    using deleting_last_copy_keeps_sync_branch [OF demo_git, of ?r "''myenv.1a2b3c4d''" demo_path_hash demo_pointer
        "[]" "''myenv''" demo_fb] unfolding demo_names_eq demo_fb_def id_apply by (metis option.distinct(1))
qed

end
