(* ===== verification/Managed.thy ===== *)
theory Managed
  imports Floxmeta Generations Manifest_Types
begin

text \<open>
  Managed environments (\<open>flox-rust-sdk/src/models/environment/managed_environment.rs\<close>): the
  generation lock and the checkout in the \<open>.flox\<close> directory, kept in step with the branches
  of the floxmeta clone, and pushing to and pulling from FloxHub. What a commit of a floxmeta
  branch holds, the TOML parser, locking and building an environment are parameters.
\<close>

section \<open>The state of a managed environment\<close>

text \<open>
  A checkout is the text of \<open>manifest.toml\<close> and of \<open>manifest.lock\<close>. A commit holds the
  generations of a branch, each with such a pair.
\<close>

type_synonym env_files = "string \<times> string option"

record 'g ManagedState =
  ms_git :: 'g
  ms_lock_file :: "GenerationLock option"
  ms_checkout :: "env_files option"

record ManagedEnvironment =
  me_pointer :: ManagedPointer
  me_branch :: FloxmetaBranch
  me_generation :: "GenerationId option"

record ManagedOps =
  op_tree :: "string \<Rightarrow> env_files GenRepo"
  op_toml :: "string \<Rightarrow> string option"
  op_ensure_locked :: "env_files \<Rightarrow> string option"
  op_build :: "env_files \<Rightarrow> bool"
  op_user_manifest :: "string \<Rightarrow> Manifest option"

datatype ManagedEnvironmentError =
    MeFloxmetaBranch FloxmetaBranchError
  | MeUpstreamNotFound string
  | MeAccessDenied
  | CheckoutOutOfSync
  | CreateLocalEnvironmentView
  | DeleteEnvironment
  | MeGenerations GenerationsError
  | MeDiverged
  | MePush GitRemoteCommandError
  | PushWithLocalIncludes
  | ApplyUpdates GitRemoteCommandError
  | MeBuild
  | MeManifest

datatype PullResult = PullUpToDate | PullUpdated
datatype PushResult = PushUpToDate | PushUpdated

type_synonym ('g, 'a) managed = "('g ManagedState, ManagedEnvironmentError, 'a) action"

definition on_git :: "('e \<Rightarrow> ManagedEnvironmentError) \<Rightarrow> ('g, 'e, 'a) action \<Rightarrow> ('g, 'a) managed" where
  "on_git err m = act_map_err err (act_zoom ms_git (\<lambda>g s. s \<lparr> ms_git := g \<rparr>) m)"

section \<open>The checkout\<close>

text \<open>The files of the current generation of a branch.\<close>

definition branch_tree ::
  "'g git_exec \<Rightarrow> ManagedOps \<Rightarrow> string \<Rightarrow> ('g, GenerationsError, env_files GenRepo) action" where
  "branch_tree exec ops branch =
     act_match (branch_hash exec branch) (\<lambda>r. case r of
         Inr h \<Rightarrow> act_ok (op_tree ops h)
       | Inl _ \<Rightarrow> act_err ShowMetadata)"

definition current_generation ::
  "'g git_exec \<Rightarrow> ManagedOps \<Rightarrow> string \<Rightarrow> ('g, GenerationsError, env_files) action" where
  "current_generation exec ops branch =
     act_bind (branch_tree exec ops branch) (\<lambda>tree. act_lift (current_gen_manifest_contents tree))"

definition reset_local_env_to_current_generation ::
  "'g git_exec \<Rightarrow> ManagedOps \<Rightarrow> ManagedEnvironment \<Rightarrow> ('g, unit) managed" where
  "reset_local_env_to_current_generation exec ops env =
     act_bind (on_git MeGenerations (current_generation exec ops (fb_branch (me_branch env)))) (\<lambda>files.
     (\<lambda>s. if ms_checkout s = None then (Err DeleteEnvironment, s)
          else (Ok (), s \<lparr> ms_checkout := Some files \<rparr>)))"

definition local_env_or_copy_current_generation ::
  "'g git_exec \<Rightarrow> ManagedOps \<Rightarrow> ManagedEnvironment \<Rightarrow> ('g, env_files) managed" where
  "local_env_or_copy_current_generation exec ops env =
     (\<lambda>s. case ms_checkout s of
        Some files \<Rightarrow> (Ok files, s)
      | None \<Rightarrow>
          act_bind (on_git MeGenerations (current_generation exec ops (fb_branch (me_branch env)))) (\<lambda>files s.
            (Ok files, s \<lparr> ms_checkout := Some files \<rparr>)) s)"

text \<open>
  The lock files are compared as text, a missing one on either side being \<open>None\<close>; the
  manifests are compared as the TOML library prints them.
\<close>

definition validate_checkout ::
  "'g git_exec \<Rightarrow> ManagedOps \<Rightarrow> ManagedEnvironment \<Rightarrow> env_files \<Rightarrow> ('g, bool) managed" where
  "validate_checkout exec ops env files =
     act_match (on_git MeGenerations (current_generation exec ops (fb_branch (me_branch env)))) (\<lambda>remote.
       let remote_lockfile = (case remote of Inr (_, l) \<Rightarrow> l | Inl _ \<Rightarrow> None) in
       if snd files \<noteq> remote_lockfile then act_ok False
       else (case op_toml ops (fst files) of
               None \<Rightarrow> act_err MeManifest
             | Some local_manifest \<Rightarrow>
                 act_bind (act_lift remote) (\<lambda>(remote_contents, _).
                   case op_toml ops remote_contents of
                     None \<Rightarrow> act_err MeManifest
                   | Some remote_manifest \<Rightarrow>
                       act_ok (op_toml ops remote_manifest = Some local_manifest))))"

definition build :: "'g git_exec \<Rightarrow> ManagedOps \<Rightarrow> ManagedEnvironment \<Rightarrow> ('g, unit) managed" where
  "build exec ops env =
     act_bind (local_env_or_copy_current_generation exec ops env) (\<lambda>files.
     if op_build ops files then act_ok () else act_err MeBuild)"

definition has_local_changes :: "'g git_exec \<Rightarrow> ManagedOps \<Rightarrow> ManagedEnvironment \<Rightarrow> ('g, bool) managed" where
  "has_local_changes exec ops env =
     act_bind (local_env_or_copy_current_generation exec ops env) (\<lambda>files.
     act_bind (validate_checkout exec ops env files) (\<lambda>valid. act_ok (\<not> valid)))"

section \<open>The pointer\<close>

definition put_lock_file :: "GenerationLock \<Rightarrow> ('g, unit) managed" where
  "put_lock_file lock = act_map_err MeFloxmetaBranch
     (act_zoom ms_lock_file (\<lambda>l s. s \<lparr> ms_lock_file := l \<rparr>) (write_generation_lock lock))"

definition lock_pointer :: "'g git_exec \<Rightarrow> ManagedEnvironment \<Rightarrow> ('g, unit) managed" where
  "lock_pointer exec env =
     act_bind (on_git MeFloxmetaBranch (generation_lock exec (me_branch env))) put_lock_file"

text \<open>Opening an environment from its \<open>.flox\<close> directory.\<close>

definition open_managed ::
  "'g git_exec \<Rightarrow> (path \<Rightarrow> string) \<Rightarrow> ManagedPointer \<Rightarrow> path \<Rightarrow> GenerationId option \<Rightarrow> ('g, ManagedEnvironment) managed" where
  "open_managed exec path_hash pointer dot_flox_path generation =
     (\<lambda>s. act_bind (on_git MeFloxmetaBranch
         (floxmeta_branch_new exec path_hash pointer dot_flox_path (ms_lock_file s))) (\<lambda>(branch, validated_lock).
       act_bind (put_lock_file validated_lock) (\<lambda>_.
       act_ok \<lparr> me_pointer = pointer, me_branch = branch, me_generation = generation \<rparr>)) s)"

definition guard_generation_immutable :: "ManagedEnvironment \<Rightarrow> ('g, unit) managed" where
  "guard_generation_immutable env =
     (case me_generation env of None \<Rightarrow> act_ok () | Some g \<Rightarrow> act_err (MeGenerations (ActivatedGenerationImmutable g)))"

section \<open>FloxHub\<close>

definition fetch_remote :: "'g git_exec \<Rightarrow> ManagedEnvironment \<Rightarrow> ('g, unit) managed" where
  "fetch_remote exec env = on_git MeFloxmetaBranch (fetch_remote_state exec (me_pointer env) (me_branch env))"

definition is_local_include :: "IncludeDescriptor \<Rightarrow> bool" where
  "is_local_include i \<longleftrightarrow> (case i of IncludeLocal _ _ \<Rightarrow> True | IncludeRemote _ _ _ \<Rightarrow> False)"

definition check_for_local_includes :: "ManagedOps \<Rightarrow> string \<Rightarrow> ('g, unit) managed" where
  "check_for_local_includes ops lockfile =
     (case op_user_manifest ops lockfile of
        None \<Rightarrow> act_err MeManifest
      | Some manifest \<Rightarrow>
          if list_ex is_local_include (mf_include manifest) then act_err PushWithLocalIncludes else act_ok ())"

text \<open>The metadata of both branches, read for the report that they diverged.\<close>

definition diverged :: "'g git_exec \<Rightarrow> ManagedOps \<Rightarrow> ManagedEnvironment \<Rightarrow> ('g, 'a) managed" where
  "diverged exec ops env =
     act_bind (on_git MeGenerations (branch_tree exec ops (fb_branch (me_branch env)))) (\<lambda>_.
     act_bind (on_git MeGenerations (branch_tree exec ops (fb_remote_branch (me_branch env)))) (\<lambda>_.
     act_err MeDiverged))"

text \<open>The last two steps of a pull.\<close>

definition reset_and_build ::
  "'g git_exec \<Rightarrow> ManagedOps \<Rightarrow> ManagedEnvironment \<Rightarrow> ('g, PullResult) managed" where
  "reset_and_build exec ops env =
     act_bind (reset_local_env_to_current_generation exec ops env) (\<lambda>_.
     act_bind (build exec ops env) (\<lambda>_. act_ok PullUpdated))"

text \<open>What a pull does once it knows how the local branch compares with FloxHub.\<close>

definition finish_pull ::
  "'g git_exec \<Rightarrow> ManagedOps \<Rightarrow> ManagedEnvironment \<Rightarrow> bool \<Rightarrow> bool \<Rightarrow> BranchOrd \<Rightarrow> ('g, PullResult) managed" where
  "finish_pull exec ops env force checkout_valid ord =
     (let is_uptodate = ord \<in> {Equal, Ahead};
          sync_branch = fb_remote_branch (me_branch env);
          project_branch = fb_branch (me_branch env)
      in if is_uptodate \<and> \<not> checkout_valid \<and> force then reset_and_build exec ops env
         else if is_uptodate then act_ok PullUpToDate
         else if ord = DivergedOrd \<and> \<not> force then diverged exec ops env
         else act_bind (on_git ApplyUpdates (push_ref exec ''.''
                (''refs/heads/'' @ sync_branch @ '':refs/heads/'' @ project_branch) force)) (\<lambda>_.
              act_bind (lock_pointer exec env) (\<lambda>_. reset_and_build exec ops env)))"

definition pull :: "'g git_exec \<Rightarrow> ManagedOps \<Rightarrow> ManagedEnvironment \<Rightarrow> bool \<Rightarrow> ('g, PullResult) managed" where
  "pull exec ops env force =
     act_bind (local_env_or_copy_current_generation exec ops env) (\<lambda>local_checkout.
     act_bind (validate_checkout exec ops env local_checkout) (\<lambda>checkout_valid.
     if \<not> checkout_valid \<and> \<not> force then act_err CheckoutOutOfSync
     else act_bind (fetch_remote exec env) (\<lambda>_.
          act_bind (on_git MeFloxmetaBranch (compare_remote exec (me_branch env))) (\<lambda>branch_ord.
          finish_pull exec ops env force checkout_valid branch_ord))))"

text \<open>The part of a push before FloxHub is involved.\<close>

definition check_pushable :: "'g git_exec \<Rightarrow> ManagedOps \<Rightarrow> ManagedEnvironment \<Rightarrow> ('g, unit) managed" where
  "check_pushable exec ops env =
     act_bind (local_env_or_copy_current_generation exec ops env) (\<lambda>files.
     act_bind (validate_checkout exec ops env files) (\<lambda>valid.
     if \<not> valid then act_err CheckoutOutOfSync
     else (case op_ensure_locked ops files of
         None \<Rightarrow> act_err CheckoutOutOfSync
       | Some lockfile \<Rightarrow>
           act_bind (\<lambda>s. (Ok (), s \<lparr> ms_checkout := Some (fst files, Some lockfile) \<rparr>)) (\<lambda>_.
           if \<not> op_build ops (fst files, Some lockfile) then act_err MeBuild
           else check_for_local_includes ops lockfile))))"

text \<open>An upstream that was deleted is to be created by the push.\<close>

definition fetch_before_push :: "'g git_exec \<Rightarrow> ManagedEnvironment \<Rightarrow> ('g, unit) managed" where
  "fetch_before_push exec env =
     act_match (fetch_remote exec env) (\<lambda>r. case r of
         Inr _ \<Rightarrow> act_ok ()
       | Inl (MeUpstreamNotFound _) \<Rightarrow> act_ok ()
       | Inl e \<Rightarrow> act_err e)"

definition push_error :: "GitRemoteCommandError \<Rightarrow> ManagedEnvironmentError" where
  "push_error err = (case err of AccessDenied \<Rightarrow> MeAccessDenied | _ \<Rightarrow> MePush err)"

definition push :: "'g git_exec \<Rightarrow> ManagedOps \<Rightarrow> ManagedEnvironment \<Rightarrow> bool \<Rightarrow> ('g, PushResult) managed" where
  "push exec ops env force =
     (let project_branch = fb_branch (me_branch env);
          sync_branch = fb_remote_branch (me_branch env)
      in act_bind (check_pushable exec ops env) (\<lambda>_.
         act_bind (fetch_before_push exec env) (\<lambda>_.
         act_bind (on_git MeFloxmetaBranch (compare_remote exec (me_branch env))) (\<lambda>branch_ord.
         if branch_ord \<in> {Equal, Behind} \<and> \<not> force then act_ok PushUpToDate
         else if branch_ord = DivergedOrd \<and> \<not> force then diverged exec ops env
         else act_bind (on_git push_error (push_ref exec ''dynamicorigin'' (project_branch @ '':'' @ sync_branch) force)) (\<lambda>_.
              act_bind (pull exec ops env force) (\<lambda>_. act_ok PushUpdated))))))"

section \<open>What pulling and pushing do to the branches\<close>

definition good :: "(string \<Rightarrow> string set) \<Rightarrow> string \<Rightarrow> string \<Rightarrow> Repo \<Rightarrow> bool" where
  "good hist local remote r \<longleftrightarrow>
     hist_ok hist \<and> repo_ok hist r \<and> local \<noteq> remote \<and>
     bm_get (heads r) local \<noteq> None \<and> bm_get (heads r) remote \<noteq> None"

text \<open>A branch only moves to commits that contain its old head.\<close>

definition leads :: "(string \<Rightarrow> string set) \<Rightarrow> string option \<Rightarrow> string option \<Rightarrow> bool" where
  "leads hist old new \<longleftrightarrow> (\<forall>h. old = Some h \<longrightarrow> (\<exists>h'. new = Some h' \<and> h \<in> hist h'))"

definition advances :: "(string \<Rightarrow> string set) \<Rightarrow> string \<Rightarrow> string \<Rightarrow> Repo \<Rightarrow> Repo \<Rightarrow> bool" where
  "advances hist local remote r r' \<longleftrightarrow>
     (good hist local remote r \<longrightarrow>
        good hist local remote r' \<and> leads hist (bm_get (heads r) local) (bm_get (heads r') local) \<and>
        leads hist (bm_get (hub r) remote) (bm_get (hub r') remote))"

text \<open>Only the two branches of the environment, and its branch on FloxHub, are touched.\<close>

definition confined :: "(string \<Rightarrow> string set) \<Rightarrow> string \<Rightarrow> string \<Rightarrow> Repo \<Rightarrow> Repo \<Rightarrow> bool" where
  "confined hist local remote r r' \<longleftrightarrow>
     (good hist local remote r \<longrightarrow>
        good hist local remote r' \<and>
        (\<forall>n. n \<noteq> local \<longrightarrow> n \<noteq> remote \<longrightarrow> bm_get (heads r') n = bm_get (heads r) n) \<and>
        (\<forall>n. n \<noteq> remote \<longrightarrow> bm_get (hub r') n = bm_get (hub r) n))"

lemma leads_refl: "hist_ok hist \<Longrightarrow> leads hist x x"
  by (auto simp: leads_def hist_ok_def)

lemma leads_trans:
  assumes "hist_ok hist" "leads hist x y" "leads hist y z"
  shows "leads hist x z"
  unfolding leads_def
proof (intro allI impI)
  fix h
  assume "x = Some h"
  then obtain h' where h': "y = Some h'" "h \<in> hist h'"
    using assms(2) by (auto simp: leads_def)
  then obtain h'' where h'': "z = Some h''" "h' \<in> hist h''"
    using assms(3) by (auto simp: leads_def)
  then have "hist h' \<subseteq> hist h''"
    using assms(1) by (simp add: hist_ok_def)
  with h' h'' show "\<exists>h'. z = Some h' \<and> h \<in> hist h'"
    by blast
qed

text \<open>The steps, on the repository.\<close>

lemma good_heads:
  assumes "good hist local remote r"
  obtains hl hr where "bm_get (heads r) local = Some hl" "bm_get (heads r) remote = Some hr"
  using assms by (auto simp: good_def)

lemma good_names:
  assumes "good hist local remote r"
  shows "name_ok local" "name_ok remote" "repo_ok hist r" "hist_ok hist"
  using assms repo_ok_head(3) by (auto simp: good_def)

lemma reads_keep_git:
  assumes "git_documented exec view hist" "good hist local remote (view g)"
    and "fb = \<lparr> fb_branch = local, fb_remote_branch = remote \<rparr>"
  shows "snd (branch_tree exec ops local g) = g" "snd (branch_tree exec ops remote g) = g"
    "snd (compare_remote exec fb g) = g" "snd (generation_lock exec fb g) = g"
proof -
  obtain hl hr where h: "bm_get (heads (view g)) local = Some hl" "bm_get (heads (view g)) remote = Some hr"
    by (rule good_heads [OF assms(2)])
  note n = good_names [OF assms(2)]
  show "snd (branch_tree exec ops local g) = g" "snd (branch_tree exec ops remote g) = g"
    using branch_hash_eq [OF assms(1) n(3) n(1)] branch_hash_eq [OF assms(1) n(3) n(2)] h
    by (simp_all add: branch_tree_def act_match_def act_ok_def)
  show "snd (compare_remote exec fb g) = g"
    using compare_branches_eq [OF assms(1) n(3) h] by (simp add: compare_remote_def assms(3))
  show "snd (generation_lock exec fb g) = g"
    using generation_lock_eq [OF assms(1) n(3), of fb] h by (simp add: assms(3))
qed

text \<open>Fetching moves the sync branch only.\<close>

lemma fetch_remote_state_eq:
  assumes "git_documented exec view hist" "good hist local remote (view g)"
    and "fb = \<lparr> fb_branch = local, fb_remote_branch = remote \<rparr>"
  shows "case bm_get (hub (view g)) remote of
      Some u \<Rightarrow> \<exists>g'. fetch_remote_state exec pointer fb g = (Ok (), g') \<and> view g' = synced hist remote u (view g) \<and>
        good hist local remote (view g')
    | None \<Rightarrow> fetch_remote_state exec pointer fb g =
        (Err (if is_access_denied (BadExit 128 [] (REF_NOT_FOUND_ERR_PREFIX @ remote)) then Fetch AccessDenied
              else UpstreamNotFound (env_ref pointer)), g)"
proof -
  note n = good_names [OF assms(2)]
  note fetch = fetch_sync_eq [OF assms(1) n(3) n(2)]
  show ?thesis
  proof (cases "bm_get (hub (view g)) remote")
    case None
    then show ?thesis
      using fetch by (auto simp: fetch_remote_state_def assms(3) act_map_err_def act_match_def act_err_def)
  next
    case (Some u)
    then obtain g' where g': "fetch_ref exec ''dynamicorigin'' (sync_refspec remote) g = (Ok (), g')"
      "view g' = synced hist remote u (view g)"
      using fetch by auto
    have "good hist local remote (view g')"
      using assms(2) synced_ok [OF n(4) n(3) n(2) Some] synced_heads [OF repo_ok_inv(1) [OF n(3)]]
      by (simp add: good_def g'(2))
    with g' Some show ?thesis
      by (simp add: fetch_remote_state_def assms(3) act_map_err_Inr)
  qed
qed

text \<open>Pushing one branch onto another, in the clone or on FloxHub.\<close>

definition pushed_local :: "(string \<Rightarrow> string set) \<Rightarrow> string \<Rightarrow> string \<Rightarrow> bool \<Rightarrow> Repo \<Rightarrow> Repo" where
  "pushed_local hist src dst force r =
     (case bm_get (heads r) src of
        None \<Rightarrow> r
      | Some h \<Rightarrow> if push_status hist h (bm_get (heads r) dst) force = Rejected then r
                  else r \<lparr> heads := bm_insert dst h (heads r) \<rparr>)"

definition pushed_hub :: "(string \<Rightarrow> string set) \<Rightarrow> string \<Rightarrow> string \<Rightarrow> bool \<Rightarrow> Repo \<Rightarrow> Repo" where
  "pushed_hub hist src dst force r =
     (case bm_get (heads r) src of
        None \<Rightarrow> r
      | Some h \<Rightarrow> if push_status hist h (bm_get (hub r) dst) force = Rejected then r
                  else r \<lparr> hub := bm_insert dst h (hub r) \<rparr>)"

lemma push_local_view:
  assumes "git_documented exec view hist" "good hist local remote (view g)"
  shows "view (snd (push_ref exec ''.'' (''refs/heads/'' @ remote @ '':refs/heads/'' @ local) force g)) =
    pushed_local hist remote local force (view g)"
proof -
  obtain hl hr where h: "bm_get (heads (view g)) local = Some hl" "bm_get (heads (view g)) remote = Some hr"
    by (rule good_heads [OF assms(2)])
  note n = good_names [OF assms(2)]
  show ?thesis
    by (rule push_ref_local [OF assms(1) n(3) n(1) h(2) refl, of force]) (simp add: pushed_local_def h)
qed

lemma push_hub_view:
  assumes "git_documented exec view hist" "good hist local remote (view g)"
  shows "view (snd (push_ref exec ''dynamicorigin'' (local @ '':'' @ remote) force g)) =
    pushed_hub hist local remote force (view g)"
proof -
  obtain hl hr where h: "bm_get (heads (view g)) local = Some hl" "bm_get (heads (view g)) remote = Some hr"
    by (rule good_heads [OF assms(2)])
  note n = good_names [OF assms(2)]
  show ?thesis
    by (rule push_ref_remote [OF assms(1) n(3) n(2) h(1) refl, of force]) (simp add: pushed_hub_def h)
qed

lemma push_status_leads:
  assumes "push_status hist src dst force \<noteq> Rejected" "\<not> force" "hist_ok hist"
  shows "leads hist dst (Some src)"
  using assms by (auto simp: push_status_def leads_def hist_ok_def split: option.splits if_splits)

lemma pushed_local_good:
  assumes "good hist local remote r"
  shows "good hist local remote (pushed_local hist remote local force r)"
proof -
  obtain hl hr where h: "bm_get (heads r) local = Some hl" "bm_get (heads r) remote = Some hr"
    by (rule good_heads [OF assms])
  note n = good_names [OF assms]
  have "repo_ok hist (r \<lparr> heads := bm_insert local hr (heads r) \<rparr>)"
    by (rule repo_ok_insert_head [OF n(3) n(1) repo_ok_head(2) [OF n(3) h(2)]])
  then show ?thesis
    using assms repo_ok_inv(1) [OF n(3)] by (simp add: pushed_local_def h good_def bm_get_insert)
qed

lemma pushed_hub_good:
  assumes "good hist local remote r"
  shows "good hist local remote (pushed_hub hist local remote force r)"
proof -
  obtain hl hr where h: "bm_get (heads r) local = Some hl" "bm_get (heads r) remote = Some hr"
    by (rule good_heads [OF assms])
  note n = good_names [OF assms]
  have "repo_ok hist (r \<lparr> hub := bm_insert remote hl (hub r) \<rparr>)"
    by (rule repo_ok_insert_hub [OF n(3) repo_ok_head(2) [OF n(3) h(1)]])
  then show ?thesis
    using assms by (simp add: pushed_hub_def h good_def)
qed

lemma pushed_local_steps:
  shows "confined hist local remote r (pushed_local hist remote local force r)"
    and "\<not> force \<Longrightarrow> advances hist local remote r (pushed_local hist remote local force r)"
proof -
  have frame: "(\<forall>n. n \<noteq> local \<longrightarrow> n \<noteq> remote \<longrightarrow>
        bm_get (heads (pushed_local hist remote local force r)) n = bm_get (heads r) n) \<and>
      hub (pushed_local hist remote local force r) = hub r"
    if "good hist local remote r"
    using repo_ok_inv(1) [OF good_names(3) [OF that]]
    by (simp add: pushed_local_def bm_get_insert split: option.splits)
  then show "confined hist local remote r (pushed_local hist remote local force r)"
    by (simp add: confined_def pushed_local_good)
  assume force: "\<not> force"
  have "leads hist (bm_get (heads r) local) (bm_get (heads (pushed_local hist remote local force r)) local)"
    if g: "good hist local remote r"
    using repo_ok_inv(1) [OF good_names(3) [OF g]] push_status_leads [OF _ force good_names(4) [OF g]]
      leads_refl [OF good_names(4) [OF g]]
    by (simp add: pushed_local_def bm_get_insert split: option.splits)
  then show "advances hist local remote r (pushed_local hist remote local force r)"
    using frame leads_refl good_names(4) by (simp add: advances_def pushed_local_good)
qed

lemma pushed_hub_steps:
  shows "confined hist local remote r (pushed_hub hist local remote force r)"
    and "\<not> force \<Longrightarrow> advances hist local remote r (pushed_hub hist local remote force r)"
proof -
  have frame: "heads (pushed_hub hist local remote force r) = heads r \<and>
      (\<forall>n. n \<noteq> remote \<longrightarrow> bm_get (hub (pushed_hub hist local remote force r)) n = bm_get (hub r) n)"
    if "good hist local remote r"
    using repo_ok_inv(2) [OF good_names(3) [OF that]]
    by (simp add: pushed_hub_def bm_get_insert split: option.splits)
  then show "confined hist local remote r (pushed_hub hist local remote force r)"
    by (simp add: confined_def pushed_hub_good)
  assume force: "\<not> force"
  have "leads hist (bm_get (hub r) remote) (bm_get (hub (pushed_hub hist local remote force r)) remote)"
    if g: "good hist local remote r"
    using repo_ok_inv(2) [OF good_names(3) [OF g]] push_status_leads [OF _ force good_names(4) [OF g]]
      leads_refl [OF good_names(4) [OF g]]
    by (simp add: pushed_hub_def bm_get_insert split: option.splits)
  then show "advances hist local remote r (pushed_hub hist local remote force r)"
    using frame leads_refl good_names(4) by (simp add: advances_def pushed_hub_good)
qed

lemma synced_steps:
  assumes "bm_get (hub r) remote = Some u"
  shows "confined hist local remote r (synced hist remote u r)"
    and "advances hist local remote r (synced hist remote u r)"
proof -
  have get: "bm_get (heads (synced hist remote u r)) n = (if n = remote then Some u else bm_get (heads r) n)"
    if "good hist local remote r" for n
    by (rule synced_heads [OF repo_ok_inv(1) [OF good_names(3) [OF that]]])
  have good: "good hist local remote (synced hist remote u r)" if g: "good hist local remote r"
    using g synced_ok [OF good_names(4) [OF g] good_names(3) [OF g] good_names(2) [OF g] assms] get [OF g]
    by (simp add: good_def)
  show "confined hist local remote r (synced hist remote u r)"
    using get good by (simp add: confined_def)
  have "local \<noteq> remote" if "good hist local remote r"
    using that by (simp add: good_def)
  then show "advances hist local remote r (synced hist remote u r)"
    using get good leads_refl good_names(4) by (simp add: advances_def)
qed

section \<open>The operations keep to these steps\<close>

text \<open>
  The client of git: a relation between repositories that fetching and the two pushes keep is
  kept by every operation of a managed environment, whatever its result.
\<close>

lemma current_generation_keeps:
  "snd (branch_tree exec ops n g) = g \<Longrightarrow> snd (current_generation exec ops n g) = g"
  by (cases "branch_tree exec ops n g"; cases "fst (branch_tree exec ops n g)")
    (simp_all add: current_generation_def act_bind_def act_match_def act_lift_def act_err_def)

lemma on_git_state: "snd (on_git err m s) = s \<lparr> ms_git := snd (m (ms_git s)) \<rparr>"
  by (simp add: on_git_def act_map_err_def act_match_def act_zoom_def act_ok_def act_err_def case_prod_beta
      split: sum.splits)

lemma put_lock_file_git: "ms_git (snd (put_lock_file lock s)) = ms_git s"
  by (simp add: put_lock_file_def act_map_err_def act_match_def act_zoom_def act_ok_def act_err_def case_prod_beta
      split: sum.splits)

locale repo_reader =
  fixes view :: "'g \<Rightarrow> Repo" and hist :: "string \<Rightarrow> string set" and local :: string and remote :: string
    and R :: "Repo \<Rightarrow> Repo \<Rightarrow> bool"
  assumes R_refl: "R r r"
    and R_trans: "R r1 r2 \<Longrightarrow> R r2 r3 \<Longrightarrow> R r1 r3"
    and R_bad: "\<not> good hist local remote r \<Longrightarrow> R r r'"
begin

definition keeps :: "'g ManagedState \<Rightarrow> 'g ManagedState \<Rightarrow> bool" where
  "keeps s s' \<longleftrightarrow> R (view (ms_git s)) (view (ms_git s'))"

lemma keeps_relation: "action_relation keeps"
  by (unfold_locales; unfold keeps_def; blast intro: R_refl R_trans)

lemmas rules = action_relation.preserves_rules [OF keeps_relation]

lemma on_git_keeps:
  assumes "\<And>g. good hist local remote (view g) \<Longrightarrow> R (view g) (view (snd (m g)))"
  shows "preserves keeps (on_git err m)"
  unfolding preserves_def keeps_def on_git_state using assms R_bad
  by (metis ManagedState.select_convs(1) ManagedState.surjective ManagedState.update_convs(1))

lemma on_git_reads:
  assumes "\<And>g. good hist local remote (view g) \<Longrightarrow> snd (m g) = g"
  shows "preserves keeps (on_git err m)"
  by (rule on_git_keeps) (simp add: assms R_refl)

lemma same_git_keeps:
  assumes "\<And>s. ms_git (snd (m s)) = ms_git s"
  shows "preserves keeps m"
  by (simp add: preserves_def keeps_def assms R_refl)

lemma reset_keeps:
  assumes documented: "git_documented exec view hist"
    and "fb_branch (me_branch env) = local"
  shows "preserves keeps (reset_local_env_to_current_generation exec ops env)"
  unfolding reset_local_env_to_current_generation_def assms(2)
proof (intro rules(4,5))
  show "preserves keeps (on_git MeGenerations (current_generation exec ops local))"
    by (rule on_git_reads) (simp add: current_generation_keeps reads_keep_git [OF documented _ refl])
  show "preserves keeps (\<lambda>s. if ms_checkout s = None then (Err DeleteEnvironment, s)
      else (Ok (), s \<lparr> ms_checkout := Some files \<rparr>))" for files
    by (rule same_git_keeps) simp
qed

lemma checkout_keeps:
  assumes documented: "git_documented exec view hist"
    and "fb_branch (me_branch env) = local"
  shows "preserves keeps (local_env_or_copy_current_generation exec ops env)"
proof -
  let ?copy = "act_bind (on_git MeGenerations (current_generation exec ops local)) (\<lambda>files s.
      (Ok files, s \<lparr> ms_checkout := Some files \<rparr>))"
  have "preserves keeps ?copy"
  proof (intro rules(4,5))
    show "preserves keeps (on_git MeGenerations (current_generation exec ops local))"
      by (rule on_git_reads) (simp add: current_generation_keeps reads_keep_git [OF documented _ refl])
    show "preserves keeps (\<lambda>s. (Ok files, s \<lparr> ms_checkout := Some files \<rparr>))" for files
      by (rule same_git_keeps) simp
  qed
  then show ?thesis
    unfolding preserves_def local_env_or_copy_current_generation_def assms(2)
    by (simp add: keeps_def R_refl split: option.splits)
qed

lemma validate_keeps:
  assumes documented: "git_documented exec view hist"
    and "fb_branch (me_branch env) = local"
  shows "preserves keeps (validate_checkout exec ops env files)"
proof -
  have "preserves keeps (on_git MeGenerations (current_generation exec ops local))"
    by (rule on_git_reads) (simp add: current_generation_keeps reads_keep_git [OF documented _ refl])
  then show ?thesis
    unfolding validate_checkout_def Let_def assms(2)
    by (intro rules allI) (auto intro!: rules split: option.splits)
qed

lemma build_keeps:
  assumes documented: "git_documented exec view hist"
    and "fb_branch (me_branch env) = local"
  shows "preserves keeps (build exec ops env)"
  unfolding build_def by (intro rules checkout_keeps assms)

lemma lock_pointer_keeps:
  assumes documented: "git_documented exec view hist"
    and "me_branch env = \<lparr> fb_branch = local, fb_remote_branch = remote \<rparr>"
  shows "preserves keeps (lock_pointer exec env)"
  unfolding lock_pointer_def assms(2)
proof (intro rules(4,5))
  show "preserves keeps (on_git MeFloxmetaBranch (generation_lock exec \<lparr> fb_branch = local, fb_remote_branch = remote \<rparr>))"
    by (rule on_git_reads) (simp add: reads_keep_git(4) [OF documented _ refl])
  show "preserves keeps (put_lock_file lock)" for lock
    by (rule same_git_keeps) (rule put_lock_file_git)
qed

lemma diverged_keeps:
  assumes documented: "git_documented exec view hist"
    and "me_branch env = \<lparr> fb_branch = local, fb_remote_branch = remote \<rparr>"
  shows "preserves keeps (diverged exec ops env)"
  unfolding diverged_def assms(2) FloxmetaBranch.select_convs
  by (intro rules on_git_reads reads_keep_git [OF documented _ refl])

lemma compare_keeps:
  assumes documented: "git_documented exec view hist"
    and "me_branch env = \<lparr> fb_branch = local, fb_remote_branch = remote \<rparr>"
  shows "preserves keeps (on_git MeFloxmetaBranch (compare_remote exec (me_branch env)))"
  unfolding assms(2) by (rule on_git_reads) (rule reads_keep_git(3) [OF documented _ refl])

lemma check_pushable_keeps:
  assumes documented: "git_documented exec view hist"
    and "fb_branch (me_branch env) = local"
  shows "preserves keeps (check_pushable exec ops env)"
proof -
  have local_includes: "preserves keeps (check_for_local_includes ops lockfile)" for lockfile
    unfolding check_for_local_includes_def by (simp add: rules split: option.splits)
  have "preserves keeps (\<lambda>s. (Ok (), s \<lparr> ms_checkout := c \<rparr>))" for c
    by (rule same_git_keeps) simp
  note steps = rules this local_includes
  have "preserves keeps (case op_ensure_locked ops files of
      None \<Rightarrow> act_err CheckoutOutOfSync
    | Some lockfile \<Rightarrow>
        act_bind (\<lambda>s. (Ok (), s \<lparr> ms_checkout := Some (fst files, Some lockfile) \<rparr>)) (\<lambda>_.
        if \<not> op_build ops (fst files, Some lockfile) then act_err MeBuild
        else check_for_local_includes ops lockfile))" for files
    by (cases "op_ensure_locked ops files"; simp only: option.case; intro steps)
  then show ?thesis
    unfolding check_pushable_def by (intro rules checkout_keeps validate_keeps assms)
qed

end

text \<open>The steps that move branches.\<close>

locale repo_relation = repo_reader view hist local remote R
  for view :: "'g \<Rightarrow> Repo" and hist :: "string \<Rightarrow> string set" and local :: string and remote :: string
    and R :: "Repo \<Rightarrow> Repo \<Rightarrow> bool" +
  fixes force :: bool
  assumes R_synced: "bm_get (hub r) remote = Some u \<Longrightarrow> R r (synced hist remote u r)"
    and R_pushed_local: "R r (pushed_local hist remote local force r)"
    and R_pushed_hub: "R r (pushed_hub hist local remote force r)"
begin

lemma fetch_keeps:
  assumes documented: "git_documented exec view hist"
    and "me_branch env = \<lparr> fb_branch = local, fb_remote_branch = remote \<rparr>"
  shows "preserves keeps (fetch_remote exec env)"
  unfolding fetch_remote_def assms(2)
proof (rule on_git_keeps)
  fix g
  assume g: "good hist local remote (view g)"
  show "R (view g) (view (snd (fetch_remote_state exec (me_pointer env)
      \<lparr> fb_branch = local, fb_remote_branch = remote \<rparr> g)))"
    using fetch_remote_state_eq [OF documented g refl, of "me_pointer env"] R_refl R_synced
    by (auto split: option.splits)
qed

lemma pull_keeps:
  assumes documented: "git_documented exec view hist"
    and "me_branch env = \<lparr> fb_branch = local, fb_remote_branch = remote \<rparr>"
  shows "preserves keeps (pull exec ops env force)"
proof -
  have "preserves keeps (on_git ApplyUpdates
      (push_ref exec ''.'' (''refs/heads/'' @ remote @ '':refs/heads/'' @ local) force))"
    by (rule on_git_keeps) (simp only: push_local_view [OF documented] R_pushed_local)
  then show ?thesis
    unfolding pull_def finish_pull_def reset_and_build_def Let_def
    by (intro rules checkout_keeps validate_keeps fetch_keeps compare_keeps reset_keeps build_keeps diverged_keeps
        lock_pointer_keeps) (simp_all add: assms)
qed

lemma push_keeps:
  assumes documented: "git_documented exec view hist"
    and "me_branch env = \<lparr> fb_branch = local, fb_remote_branch = remote \<rparr>"
  shows "preserves keeps (push exec ops env force)"
proof -
  have "preserves keeps (on_git push_error (push_ref exec ''dynamicorigin'' (local @ '':'' @ remote) force))"
    by (rule on_git_keeps) (simp only: push_hub_view [OF documented] R_pushed_hub)
  moreover have "preserves keeps (fetch_before_push exec env)"
    unfolding fetch_before_push_def
  proof (intro rules(4) fetch_keeps assms)
    show "preserves keeps (case r of Inr _ \<Rightarrow> act_ok () | Inl (MeUpstreamNotFound _) \<Rightarrow> act_ok ()
        | Inl e \<Rightarrow> act_err e)" for r
      by (simp add: rules split: sum.splits ManagedEnvironmentError.splits)
  qed
  ultimately show ?thesis
    unfolding push_def Let_def
    by (intro rules check_pushable_keeps compare_keeps diverged_keeps pull_keeps) (simp_all add: assms)
qed

end

interpretation unchanged: repo_reader view hist local remote "\<lambda>r r'. good hist local remote r \<longrightarrow> r' = r"
  for view hist local remote
  by unfold_locales simp_all

text \<open>Both relations are kept: without force the branches only advance.\<close>

lemma advances_refl: "advances hist local remote r r"
  by (simp add: advances_def leads_refl good_def)

lemma advances_trans:
  "advances hist local remote r1 r2 \<Longrightarrow> advances hist local remote r2 r3 \<Longrightarrow> advances hist local remote r1 r3"
  unfolding advances_def using leads_trans unfolding good_def by blast

interpretation advances: repo_relation view hist local remote "advances hist local remote" False
  for view hist local remote
proof
  show "advances hist local remote r r" for r
    by (rule advances_refl)
  show "advances hist local remote r1 r2 \<Longrightarrow> advances hist local remote r2 r3 \<Longrightarrow>
      advances hist local remote r1 r3" for r1 r2 r3
    by (rule advances_trans)
  show "\<not> good hist local remote r \<Longrightarrow> advances hist local remote r r'" for r r'
    by (simp add: advances_def)
  show "bm_get (hub r) remote = Some u \<Longrightarrow> advances hist local remote r (synced hist remote u r)" for r u
    by (rule synced_steps(2))
  show "advances hist local remote r (pushed_local hist remote local False r)" for r
    by (rule pushed_local_steps(2)) simp
  show "advances hist local remote r (pushed_hub hist local remote False r)" for r
    by (rule pushed_hub_steps(2)) simp
qed

interpretation confined: repo_relation view hist local remote "confined hist local remote" force
  for view hist local remote force
proof
  show "confined hist local remote r r" for r
    by (simp add: confined_def)
  show "confined hist local remote r1 r2 \<Longrightarrow> confined hist local remote r2 r3 \<Longrightarrow>
      confined hist local remote r1 r3" for r1 r2 r3
    by (simp add: confined_def)
  show "\<not> good hist local remote r \<Longrightarrow> confined hist local remote r r'" for r r'
    by (simp add: confined_def)
  show "bm_get (hub r) remote = Some u \<Longrightarrow> confined hist local remote r (synced hist remote u r)" for r u
    by (rule synced_steps(1))
qed (rule pushed_local_steps(1), rule pushed_hub_steps(1))

section \<open>Pulling and pushing\<close>

text \<open>The environment of two given branches.\<close>

definition on_branches :: "string \<Rightarrow> string \<Rightarrow> ManagedEnvironment \<Rightarrow> bool" where
  "on_branches local remote env \<longleftrightarrow> me_branch env = \<lparr> fb_branch = local, fb_remote_branch = remote \<rparr>"

lemma on_branches_simps:
  assumes "on_branches local remote env"
  shows "me_branch env = \<lparr> fb_branch = local, fb_remote_branch = remote \<rparr>"
    "fb_branch (me_branch env) = local" "fb_remote_branch (me_branch env) = remote"
  using assms by (simp_all add: on_branches_def)

text \<open>
  C14. Pulling and pushing without force never lose a commit, whatever their result: the local
  branch and the branch on FloxHub stay where they are or move to a commit that contains their
  old head.
\<close>
theorem without_force_branches_only_advance:
  assumes "git_documented exec view hist" and "good hist local remote (view (ms_git s))"
    and "on_branches local remote env"
    and "s' \<in> {snd (pull exec ops env False s), snd (push exec ops env False s)}"
  shows "good hist local remote (view (ms_git s')) \<and>
    leads hist (bm_get (heads (view (ms_git s))) local) (bm_get (heads (view (ms_git s'))) local) \<and>
    leads hist (bm_get (hub (view (ms_git s))) remote) (bm_get (hub (view (ms_git s'))) remote)"
proof -
  have "advances hist local remote (view (ms_git s)) (view (ms_git s'))"
    using assms(4) advances.pull_keeps [OF assms(1) on_branches_simps(1) [OF assms(3)], of ops]
      advances.push_keeps [OF assms(1) on_branches_simps(1) [OF assms(3)], of ops]
    by (auto simp: preserves_def advances.keeps_def)
  then show ?thesis
    using assms(2) by (simp add: advances_def)
qed

text \<open>
  Pulling and pushing, with force or without, touch the two branches of the environment
  and its branch on FloxHub only, whatever their result: the branches of other environments in
  the clone and on FloxHub are as before.
\<close>
theorem other_environments_untouched:
  assumes "git_documented exec view hist" and "good hist local remote (view (ms_git s))"
    and "on_branches local remote env"
    and "s' \<in> {snd (pull exec ops env force s), snd (push exec ops env force s)}"
    and "n \<noteq> remote"
  shows "bm_get (hub (view (ms_git s'))) n = bm_get (hub (view (ms_git s))) n \<and>
    (n \<noteq> local \<longrightarrow> bm_get (heads (view (ms_git s'))) n = bm_get (heads (view (ms_git s))) n)"
proof -
  have "confined hist local remote (view (ms_git s)) (view (ms_git s'))"
    using assms(4) confined.pull_keeps [OF assms(1) on_branches_simps(1) [OF assms(3)], of ops]
      confined.push_keeps [OF assms(1) on_branches_simps(1) [OF assms(3)], of ops]
    by (auto simp: preserves_def confined.keeps_def)
  then show ?thesis
    using assms(2,5) by (simp add: confined_def)
qed

text \<open>What the reading steps and fetching give.\<close>

lemma reads_view:
  assumes "good hist local remote (view (ms_git s))" and "preserves (unchanged.keeps view hist local remote) m"
    and "m s = (r, s')"
  shows "view (ms_git s') = view (ms_git s)"
  using assms unfolding preserves_def unchanged.keeps_def by (metis snd_conv)

lemma fetch_remote_eq:
  assumes "git_documented exec view hist" "good hist local remote (view (ms_git s))"
    and "on_branches local remote env" "fetch_remote exec env s = (r, s')"
  shows "(case bm_get (hub (view (ms_git s))) remote of
      Some u \<Rightarrow> r = Ok () \<and> view (ms_git s') = synced hist remote u (view (ms_git s)) \<and>
        good hist local remote (view (ms_git s'))
    | None \<Rightarrow> r = Err (MeFloxmetaBranch (if is_access_denied (BadExit 128 [] (REF_NOT_FOUND_ERR_PREFIX @ remote))
          then Fetch AccessDenied else UpstreamNotFound (env_ref (me_pointer env)))) \<and> s' = s) \<and>
    ms_lock_file s' = ms_lock_file s \<and> ms_checkout s' = ms_checkout s"
proof -
  have eq: "fetch_remote exec env s =
      (case fetch_remote_state exec (me_pointer env) \<lparr> fb_branch = local, fb_remote_branch = remote \<rparr> (ms_git s) of
         (x, g') \<Rightarrow> (case x of Inl e \<Rightarrow> Inl (MeFloxmetaBranch e) | Inr a \<Rightarrow> Inr a, s \<lparr> ms_git := g' \<rparr>))"
    by (auto simp: fetch_remote_def on_git_def act_map_err_def act_match_def act_zoom_def act_ok_def act_err_def
        on_branches_simps [OF assms(3)] split: prod.splits sum.splits)
  show ?thesis
    using assms(4) fetch_remote_state_eq [OF assms(1,2) refl, of "me_pointer env"]
    by (auto simp: eq split: option.splits)
qed

text \<open>
  C15. A push after the environment was deleted on FloxHub fails and creates nothing there, although
  the push means to create it again: the error that fetching gives is not the one \<open>push\<close>
  looks for.
\<close>
theorem push_never_recreates_deleted_upstream:
  assumes "git_documented exec view hist" and "good hist local remote (view (ms_git s))"
    and "on_branches local remote env" and "bm_get (hub (view (ms_git s))) remote = None"
    and "push exec ops env force s = (r, s')"
  shows "view (ms_git s') = view (ms_git s) \<and>
    (case fst (check_pushable exec ops env s) of
       Inl e \<Rightarrow> r = Err e
     | Inr _ \<Rightarrow> r = Err (MeFloxmetaBranch (if is_access_denied (BadExit 128 [] (REF_NOT_FOUND_ERR_PREFIX @ remote))
          then Fetch AccessDenied else UpstreamNotFound (env_ref (me_pointer env)))))"
proof -
  obtain c s1 where c: "check_pushable exec ops env s = (c, s1)"
    by fastforce
  have v1: "view (ms_git s1) = view (ms_git s)"
    by (rule reads_view [OF assms(2) unchanged.check_pushable_keeps [OF assms(1) on_branches_simps(2) [OF assms(3)]] c])
  show ?thesis
  proof (cases c)
    case (Inl e)
    then show ?thesis
      using assms(5) c v1 by (simp add: push_def Let_def act_bind_Inl)
  next
    case (Inr u)
    obtain f s2 where f: "fetch_remote exec env s1 = (f, s2)"
      by fastforce
    let ?e = "MeFloxmetaBranch (if is_access_denied (BadExit 128 [] (REF_NOT_FOUND_ERR_PREFIX @ remote))
          then Fetch AccessDenied else UpstreamNotFound (env_ref (me_pointer env)))"
    have "f = Err ?e \<and> s2 = s1"
      using fetch_remote_eq [OF assms(1) _ assms(3) f] assms(2,4) v1 by simp
    then have "fetch_before_push exec env s1 = (Err ?e, s1)"
      using f by (simp add: fetch_before_push_def act_err_def)
    then have "push exec ops env force s = (Err ?e, s1)"
      using c Inr by (simp add: push_def Let_def act_bind_Inl act_bind_Inr)
    then show ?thesis
      using assms(5) c Inr v1 by simp
  qed
qed

lemma compare_eq:
  assumes "git_documented exec view hist" "good hist local remote (view (ms_git s))" "on_branches local remote env"
    and "bm_get (heads (view (ms_git s))) local = Some hl" "bm_get (heads (view (ms_git s))) remote = Some hr"
  shows "on_git MeFloxmetaBranch (compare_remote exec (me_branch env)) s = (Ok (branch_ord hist hl hr), s)"
  using compare_branches_eq [OF assms(1) good_names(3) [OF assms(2)] assms(4,5)]
  by (simp add: on_git_def compare_remote_def on_branches_simps [OF assms(3)] act_map_err_def act_zoom_def act_ok_def)

lemma lock_pointer_eq:
  assumes "git_documented exec view hist" "good hist local remote (view (ms_git s))" "on_branches local remote env"
    and "bm_get (heads (view (ms_git s))) local = Some h" "bm_get (heads (view (ms_git s))) remote = Some h"
    and "lock_pointer exec env s = (Ok (), s')"
  shows "ms_lock_file s' = Some \<lparr> gl_rev = h, gl_local_rev = None \<rparr> \<and> ms_git s' = ms_git s"
proof -
  have "generation_lock exec (me_branch env) (ms_git s) = (Ok \<lparr> gl_rev = h, gl_local_rev = None \<rparr>, ms_git s)"
    using generation_lock_eq [OF assms(1) good_names(3) [OF assms(2)], of "me_branch env" h h] assms(4,5)
    by (simp add: on_branches_simps [OF assms(3)])
  then have "on_git MeFloxmetaBranch (generation_lock exec (me_branch env)) s =
      (Ok \<lparr> gl_rev = h, gl_local_rev = None \<rparr>, s)"
    by (simp add: on_git_def act_map_err_def act_zoom_def act_ok_def)
  then have "put_lock_file \<lparr> gl_rev = h, gl_local_rev = None \<rparr> s = (Ok (), s')"
    using assms(6) by (simp add: lock_pointer_def act_bind_Inr)
  then show ?thesis
    by (auto simp: put_lock_file_def write_generation_lock_def act_map_err_def act_match_def act_zoom_def act_ok_def
        split: if_splits)
qed

text \<open>Only \<open>lock_pointer\<close> writes the lock.\<close>

definition same_lock :: "'g ManagedState \<Rightarrow> 'g ManagedState \<Rightarrow> bool" where
  "same_lock s s' \<longleftrightarrow> ms_lock_file s' = ms_lock_file s"

interpretation same_lock: action_relation same_lock
  by unfold_locales (simp_all add: same_lock_def)

lemma on_git_same_lock: "preserves same_lock (on_git err m)"
  by (simp add: preserves_def same_lock_def on_git_state)

lemma checkout_same_lock: "preserves same_lock (\<lambda>s. (Ok x, s \<lparr> ms_checkout := c \<rparr>))"
  by (simp add: preserves_def same_lock_def)

lemma reset_same_lock: "preserves same_lock (reset_local_env_to_current_generation exec ops env)"
  unfolding reset_local_env_to_current_generation_def
  by (intro same_lock.preserves_rules(4,5) on_git_same_lock) (simp add: preserves_def same_lock_def)

lemma copy_same_lock: "preserves same_lock (local_env_or_copy_current_generation exec ops env)"
proof -
  have "preserves same_lock (act_bind (on_git MeGenerations (current_generation exec ops (fb_branch (me_branch env))))
      (\<lambda>files s. (Ok files, s \<lparr> ms_checkout := Some files \<rparr>)))"
    by (intro same_lock.preserves_rules(4,5) on_git_same_lock checkout_same_lock)
  then show ?thesis
    unfolding preserves_def local_env_or_copy_current_generation_def
    by (simp add: same_lock_def split: option.splits)
qed

lemma validate_same_lock: "preserves same_lock (validate_checkout exec ops env files)"
  unfolding validate_checkout_def Let_def
  by (intro same_lock.preserves_rules on_git_same_lock allI)
    (auto intro!: same_lock.preserves_rules split: option.splits)

lemma build_same_lock: "preserves same_lock (build exec ops env)"
  unfolding build_def by (intro same_lock.preserves_rules copy_same_lock)

lemma check_pushable_same_lock: "preserves same_lock (check_pushable exec ops env)"
proof -
  have "preserves same_lock (case op_ensure_locked ops files of
      None \<Rightarrow> act_err CheckoutOutOfSync
    | Some lockfile \<Rightarrow>
        act_bind (\<lambda>s. (Ok (), s \<lparr> ms_checkout := Some (fst files, Some lockfile) \<rparr>)) (\<lambda>_.
        if \<not> op_build ops (fst files, Some lockfile) then act_err MeBuild
        else check_for_local_includes ops lockfile))" for files
  proof (cases "op_ensure_locked ops files")
    case (Some lockfile)
    have "preserves same_lock (check_for_local_includes ops lockfile)"
      unfolding check_for_local_includes_def by (simp add: same_lock.preserves_rules split: option.splits)
    then show ?thesis
      unfolding Some option.case by (intro same_lock.preserves_rules checkout_same_lock)
  qed (simp add: same_lock.preserves_rules)
  then show ?thesis
    unfolding check_pushable_def by (intro same_lock.preserves_rules copy_same_lock validate_same_lock)
qed

lemma same_lock_file:
  assumes "preserves same_lock m" "m s = (r, s')"
  shows "ms_lock_file s' = ms_lock_file s"
  using assms unfolding preserves_def same_lock_def by (metis snd_conv)

lemma reset_and_build_keep:
  assumes "git_documented exec view hist" "good hist local remote (view (ms_git s))" "on_branches local remote env"
    and "reset_and_build exec ops env s = (r, s')"
  shows "view (ms_git s') = view (ms_git s)" "ms_lock_file s' = ms_lock_file s"
proof -
  have "preserves (unchanged.keeps view hist local remote) (reset_and_build exec ops env)"
    unfolding reset_and_build_def
    by (intro unchanged.rules unchanged.reset_keeps unchanged.build_keeps assms(1) on_branches_simps(2) [OF assms(3)])
  then show "view (ms_git s') = view (ms_git s)"
    by (rule reads_view [of hist local remote view s "reset_and_build exec ops env", OF assms(2) _ assms(4)])
  have "preserves same_lock (reset_and_build exec ops env)"
    unfolding reset_and_build_def by (intro same_lock.preserves_rules reset_same_lock build_same_lock)
  then show "ms_lock_file s' = ms_lock_file s"
    by (rule same_lock_file [of "reset_and_build exec ops env", OF _ assms(4)])
qed

text \<open>A pull that got as far as fetching.\<close>

lemma pull_fetched:
  assumes "git_documented exec view hist" "good hist local remote (view (ms_git s))" "on_branches local remote env"
    and "pull exec ops env force s = (Ok r, s')"
  obtains valid s3 u hl where "bm_get (hub (view (ms_git s))) remote = Some u"
    "view (ms_git s3) = synced hist remote u (view (ms_git s))" "good hist local remote (view (ms_git s3))"
    "ms_lock_file s3 = ms_lock_file s" "bm_get (heads (view (ms_git s))) local = Some hl"
    "bm_get (heads (view (ms_git s3))) local = Some hl" "bm_get (heads (view (ms_git s3))) remote = Some u"
    "finish_pull exec ops env force valid (branch_ord hist hl u) s3 = (Ok r, s')"
proof -
  note env = on_branches_simps [OF assms(3)]
  obtain files s1 where s1: "local_env_or_copy_current_generation exec ops env s = (Ok files, s1)"
    using assms(4) unfolding pull_def act_bind_Inr_iff by blast
  obtain valid s2 where s2: "validate_checkout exec ops env files s1 = (Ok valid, s2)" and "valid \<or> force"
    using assms(4) s1 unfolding pull_def by (auto simp: act_bind_Inr_iff act_bind_Inr act_err_def split: if_splits)
  obtain s3 where s3: "fetch_remote exec env s2 = (Ok (), s3)"
    using assms(4) s1 s2 \<open>valid \<or> force\<close> unfolding pull_def Let_def by (auto simp: act_bind_Inr_iff act_bind_Inr)
  have v1: "view (ms_git s1) = view (ms_git s)"
    by (rule reads_view [OF assms(2) unchanged.checkout_keeps [OF assms(1) env(2)] s1])
  have v2: "view (ms_git s2) = view (ms_git s)"
    using reads_view [OF _ unchanged.validate_keeps [OF assms(1) env(2)] s2] assms(2) v1 by metis
  have l2: "ms_lock_file s2 = ms_lock_file s"
    using same_lock_file [OF copy_same_lock s1] same_lock_file [OF validate_same_lock s2] by simp
  note fetch = fetch_remote_eq [OF assms(1) _ assms(3) s3]
  obtain u where u: "bm_get (hub (view (ms_git s))) remote = Some u"
    "view (ms_git s3) = synced hist remote u (view (ms_git s))" "good hist local remote (view (ms_git s3))"
    "ms_lock_file s3 = ms_lock_file s"
    using fetch assms(2) v2 l2 by (auto split: option.splits)
  obtain hl hr where hl: "bm_get (heads (view (ms_git s))) local = Some hl"
    by (rule good_heads [OF assms(2)])
  have neq: "local \<noteq> remote"
    using assms(2) by (simp add: good_def)
  have h3: "bm_get (heads (view (ms_git s3))) local = Some hl" "bm_get (heads (view (ms_git s3))) remote = Some u"
    using hl neq synced_heads [OF repo_ok_inv(1) [OF good_names(3) [OF assms(2)]]] by (simp_all add: u(2))
  show thesis
  proof (rule that [OF u(1-4) hl h3, of valid])
    show "finish_pull exec ops env force valid (branch_ord hist hl u) s3 = (Ok r, s')"
    proof -
      have "\<not> (\<not> valid \<and> \<not> force)"
        using \<open>valid \<or> force\<close> by simp
      then show ?thesis
        using assms(4) unfolding pull_def Let_def act_bind_Inr [of "local_env_or_copy_current_generation exec ops env", OF s1]
          act_bind_Inr [of "validate_checkout exec ops env files", OF s2] env(2,3)
        by (simp only: if_False act_bind_Inr [of "fetch_remote exec env", OF s3]
            act_bind_Inr [of "on_git MeFloxmetaBranch (compare_remote exec (me_branch env))",
              OF compare_eq [OF assms(1) u(3) assms(3) h3]])
    qed
  qed
qed

lemma good_moved:
  assumes "good hist local remote r" "bm_get (heads r) remote = Some u"
  shows "good hist local remote (r \<lparr> heads := bm_insert local u (heads r) \<rparr>)"
proof -
  note n = good_names [OF assms(1)]
  have "repo_ok hist (r \<lparr> heads := bm_insert local u (heads r) \<rparr>)"
    by (rule repo_ok_insert_head [OF n(3) n(1) repo_ok_head(2) [OF n(3) assms(2)]])
  then show ?thesis
    using assms repo_ok_inv(1) [OF n(3)] by (simp add: good_def bm_get_insert)
qed

lemma on_git_Inr:
  assumes "on_git err m s = (Ok a, s')"
  shows "m (ms_git s) = (Ok a, ms_git s')" "ms_lock_file s' = ms_lock_file s"
  using assms by (auto simp: on_git_def act_map_err_Inr_iff act_zoom_def split: prod.splits)

lemma push_local_ok:
  assumes "git_documented exec view hist" "good hist local remote (view (ms_git s))"
    and "on_git err (push_ref exec ''.'' (''refs/heads/'' @ remote @ '':refs/heads/'' @ local) force) s = (Ok flag, s')"
    and "bm_get (heads (view (ms_git s))) remote = Some u"
  shows "view (ms_git s') = view (ms_git s) \<lparr> heads := bm_insert local u (heads (view (ms_git s))) \<rparr>"
proof -
  note n = good_names [OF assms(2)]
  obtain g' where g': "push_ref exec ''.'' (''refs/heads/'' @ remote @ '':refs/heads/'' @ local) force (ms_git s) =
      (if push_status hist u (bm_get (heads (view (ms_git s))) local) force = Rejected then Err Diverged
       else Ok (push_status hist u (bm_get (heads (view (ms_git s))) local) force), g')"
    "view g' = (if push_status hist u (bm_get (heads (view (ms_git s))) local) force = Rejected then view (ms_git s)
       else view (ms_git s) \<lparr> heads := bm_insert local u (heads (view (ms_git s))) \<rparr>)"
    by (rule push_ref_local [OF assms(1) n(3) n(1) assms(4) refl, of force])
  then show ?thesis
    using on_git_Inr(1) [OF assms(3)] by (cases "push_status hist u (bm_get (heads (view (ms_git s))) local) force = Rejected") (simp_all only: if_True if_False, simp_all)
qed

lemma diverged_Err: "diverged exec ops env s \<noteq> (Ok x, s')"
  by (auto simp: diverged_def act_bind_Inr_iff act_err_def)

text \<open>
  C16. A pull that succeeds, with force or without, has caught up: the sync branch is where FloxHub
  is, and the local branch contains that commit. If the local branch moved, it is exactly
  where FloxHub is and the lock names that revision and no local one.
\<close>
theorem successful_pull_catches_up:
  assumes "git_documented exec view hist" "good hist local remote (view (ms_git s))" "on_branches local remote env"
    and "pull exec ops env force s = (Ok r, s')"
  shows "\<exists>u hl. bm_get (hub (view (ms_git s))) remote = Some u \<and> bm_get (hub (view (ms_git s'))) remote = Some u \<and>
    bm_get (heads (view (ms_git s'))) remote = Some u \<and>
    bm_get (heads (view (ms_git s'))) local = Some hl \<and> u \<in> hist hl \<and>
    (bm_get (heads (view (ms_git s))) local = Some hl \<and> ms_lock_file s' = ms_lock_file s \<or>
     hl = u \<and> ms_lock_file s' = Some \<lparr> gl_rev = u, gl_local_rev = None \<rparr>)"
proof -
  obtain valid s3 u hl where s3: "bm_get (hub (view (ms_git s))) remote = Some u"
    "view (ms_git s3) = synced hist remote u (view (ms_git s))" "good hist local remote (view (ms_git s3))"
    "ms_lock_file s3 = ms_lock_file s" "bm_get (heads (view (ms_git s))) local = Some hl"
    "bm_get (heads (view (ms_git s3))) local = Some hl" "bm_get (heads (view (ms_git s3))) remote = Some u"
    and run: "finish_pull exec ops env force valid (branch_ord hist hl u) s3 = (Ok r, s')"
    by (rule pull_fetched [OF assms])
  note env = on_branches_simps [OF assms(3)]
  have hub3: "bm_get (hub (view (ms_git s3))) remote = Some u"
    by (simp add: s3(1,2))
  consider (uptodate) "branch_ord hist hl u \<in> {Equal, Ahead}"
    | (moves) "branch_ord hist hl u \<notin> {Equal, Ahead}" "\<not> (branch_ord hist hl u = DivergedOrd \<and> \<not> force)"
    using run by (auto simp: finish_pull_def diverged_Err split: if_splits)
  then show ?thesis
  proof cases
    case uptodate
    have "view (ms_git s') = view (ms_git s3) \<and> ms_lock_file s' = ms_lock_file s3"
      using run uptodate reset_and_build_keep [OF assms(1) s3(3) assms(3)] by (cases "\<not> valid \<and> force") (simp_all add: act_ok_def finish_pull_def)
    moreover have "u \<in> hist hl"
      using uptodate good_names(4) [OF assms(2)] by (auto simp: branch_ord_def hist_ok_def split: if_splits)
    ultimately show ?thesis
      using s3 hub3 by auto
  next
    case moves
    let ?push = "on_git ApplyUpdates (push_ref exec ''.'' (''refs/heads/'' @ remote @ '':refs/heads/'' @ local) force)"
    obtain flag s4 s5 where s4: "?push s3 = (Ok flag, s4)" and s5: "lock_pointer exec env s4 = (Ok (), s5)"
      and r: "reset_and_build exec ops env s5 = (Ok r, s')"
      using run moves by (auto simp: finish_pull_def act_bind_Inr_iff env)
    have v4: "view (ms_git s4) = view (ms_git s3) \<lparr> heads := bm_insert local u (heads (view (ms_git s3))) \<rparr>"
      by (rule push_local_ok [OF assms(1) s3(3) s4 s3(7)])
    have good4: "good hist local remote (view (ms_git s4))"
      unfolding v4 by (rule good_moved [OF s3(3,7)])
    have heads4: "bm_get (heads (view (ms_git s4))) local = Some u" "bm_get (heads (view (ms_git s4))) remote = Some u"
      using s3(7) good_names(3) [OF s3(3)] by (simp_all add: v4 bm_get_insert repo_ok_inv)
    have lock5: "ms_lock_file s5 = Some \<lparr> gl_rev = u, gl_local_rev = None \<rparr>" "ms_git s5 = ms_git s4"
      using lock_pointer_eq [OF assms(1) good4 assms(3) heads4 s5] by simp_all
    have "view (ms_git s') = view (ms_git s4)" "ms_lock_file s' = Some \<lparr> gl_rev = u, gl_local_rev = None \<rparr>"
      using reset_and_build_keep [OF assms(1) _ assms(3) r] good4 lock5 by simp_all
    moreover have "u \<in> hist u" "bm_get (hub (view (ms_git s4))) remote = Some u"
      using good_names(4) [OF assms(2)] hub3 by (simp_all add: v4 hist_ok_def)
    ultimately show ?thesis
      using heads4 s3(1) by simp
  qed
qed

lemma push_hub_ok:
  assumes "git_documented exec view hist" "good hist local remote (view (ms_git s))"
    and "on_git err (push_ref exec ''dynamicorigin'' (local @ '':'' @ remote) force) s = (Ok flag, s')"
    and "bm_get (heads (view (ms_git s))) local = Some h"
  shows "view (ms_git s') = view (ms_git s) \<lparr> hub := bm_insert remote h (hub (view (ms_git s))) \<rparr>"
proof -
  note n = good_names [OF assms(2)]
  obtain g' where g': "push_ref exec ''dynamicorigin'' (local @ '':'' @ remote) force (ms_git s) =
      (if push_status hist h (bm_get (hub (view (ms_git s))) remote) force = Rejected then Err Diverged
       else Ok (push_status hist h (bm_get (hub (view (ms_git s))) remote) force), g')"
    "view g' = (if push_status hist h (bm_get (hub (view (ms_git s))) remote) force = Rejected then view (ms_git s)
       else view (ms_git s) \<lparr> hub := bm_insert remote h (hub (view (ms_git s))) \<rparr>)"
    by (rule push_ref_remote [OF assms(1) n(3) n(2) assms(4) refl, of force])
  then show ?thesis
    using on_git_Inr(1) [OF assms(3)]
    by (cases "push_status hist h (bm_get (hub (view (ms_git s))) remote) force = Rejected")
      (simp_all only: if_True if_False, simp_all)
qed

text \<open>A pull when FloxHub is where the local branch is.\<close>

lemma pull_after_push:
  assumes "git_documented exec view hist" "good hist local remote (view (ms_git s))" "on_branches local remote env"
    and "pull exec ops env force s = (Ok r, s')"
    and "bm_get (heads (view (ms_git s))) local = Some h" "bm_get (hub (view (ms_git s))) remote = Some h"
  shows "view (ms_git s') = synced hist remote h (view (ms_git s))" "ms_lock_file s' = ms_lock_file s"
proof -
  obtain valid s3 u hl where s3: "bm_get (hub (view (ms_git s))) remote = Some u"
    "view (ms_git s3) = synced hist remote u (view (ms_git s))" "good hist local remote (view (ms_git s3))"
    "ms_lock_file s3 = ms_lock_file s" "bm_get (heads (view (ms_git s))) local = Some hl"
    "finish_pull exec ops env force valid (branch_ord hist hl u) s3 = (Ok r, s')"
    by (rule pull_fetched [OF assms(1-4)])
  have "u = h" "hl = h"
    using s3(1,5) assms(5,6) by simp_all
  then have "branch_ord hist hl u = Equal"
    by (simp add: branch_ord_def)
  then have "view (ms_git s') = view (ms_git s3) \<and> ms_lock_file s' = ms_lock_file s3"
    using s3(6) reset_and_build_keep [OF assms(1) s3(3) assms(3)]
    by (cases "\<not> valid \<and> force") (simp_all add: act_ok_def finish_pull_def)
  then show "view (ms_git s') = synced hist remote h (view (ms_git s))" "ms_lock_file s' = ms_lock_file s"
    using s3(2,4) \<open>u = h\<close> by simp_all
qed

text \<open>What a push that updated FloxHub did.\<close>

lemma push_updated:
  assumes "git_documented exec view hist" "good hist local remote (view (ms_git s))" "on_branches local remote env"
    and "push exec ops env force s = (Ok PushUpdated, s')"
  shows "ms_lock_file s' = ms_lock_file s \<and>
    (\<exists>h. bm_get (heads (view (ms_git s))) local = Some h \<and> bm_get (heads (view (ms_git s'))) local = Some h \<and>
      bm_get (heads (view (ms_git s'))) remote = Some h \<and> bm_get (hub (view (ms_git s'))) remote = Some h)"
proof -
  note env = on_branches_simps [OF assms(3)]
  obtain s1 where s1: "check_pushable exec ops env s = (Ok (), s1)"
    using assms(4) by (auto simp: push_def act_bind_Inr_iff)
  obtain s2 where s2: "fetch_before_push exec env s1 = (Ok (), s2)"
    using assms(4) by (auto simp: push_def Let_def act_bind_Inr_iff s1)
  have v1: "view (ms_git s1) = view (ms_git s)"
    by (rule reads_view [OF assms(2) unchanged.check_pushable_keeps [OF assms(1) env(2)] s1])
  have l1: "ms_lock_file s1 = ms_lock_file s"
    by (rule same_lock_file [OF check_pushable_same_lock s1])
  have good1: "good hist local remote (view (ms_git s1))"
    using assms(2) v1 by simp
  obtain f where f: "fetch_remote exec env s1 = (f, s2)"
    using s2 by (cases "fetch_remote exec env s1")
      (auto simp: fetch_before_push_def act_match_def act_ok_def act_err_def split: sum.splits ManagedEnvironmentError.splits)
  obtain u where u: "bm_get (hub (view (ms_git s))) remote = Some u" "view (ms_git s2) = synced hist remote u (view (ms_git s))"
    "good hist local remote (view (ms_git s2))" "ms_lock_file s2 = ms_lock_file s"
    using fetch_remote_eq [OF assms(1) good1 assms(3) f] s2 f v1 l1
    by (auto simp: fetch_before_push_def act_err_def split: option.splits)
  obtain hl hr where hl: "bm_get (heads (view (ms_git s))) local = Some hl"
    by (rule good_heads [OF assms(2)])
  have "local \<noteq> remote"
    using assms(2) by (simp add: good_def)
  then have h2: "bm_get (heads (view (ms_git s2))) local = Some hl" "bm_get (heads (view (ms_git s2))) remote = Some u"
    using hl synced_heads [OF repo_ok_inv(1) [OF good_names(3) [OF assms(2)]]] by (simp_all add: u(2))
  note cmp = compare_eq [OF assms(1) u(3) assms(3) h2]
  obtain flag s3 r where s3: "on_git push_error (push_ref exec ''dynamicorigin'' (local @ '':'' @ remote) force) s2 = (Ok flag, s3)"
    and r: "pull exec ops env force s3 = (Ok r, s')"
    using assms(4) unfolding push_def Let_def env(2,3) act_bind_Inr [of "check_pushable exec ops env", OF s1]
      act_bind_Inr [of "fetch_before_push exec env", OF s2]
      act_bind_Inr [of "on_git MeFloxmetaBranch (compare_remote exec (me_branch env))", OF cmp]
    by (auto simp: diverged_Err act_ok_def act_bind_Inr_iff split: if_splits)
  have v3: "view (ms_git s3) = view (ms_git s2) \<lparr> hub := bm_insert remote hl (hub (view (ms_git s2))) \<rparr>"
    by (rule push_hub_ok [OF assms(1) u(3) s3 h2(1)])
  have good3: "good hist local remote (view (ms_git s3))"
    using u(3) repo_ok_insert_hub [OF good_names(3) [OF u(3)] repo_ok_head(2) [OF good_names(3) [OF u(3)] h2(1)]]
    by (simp add: v3 good_def)
  have l3: "bm_get (heads (view (ms_git s3))) local = Some hl" "bm_get (hub (view (ms_git s3))) remote = Some hl"
    using h2 good_names(3) [OF u(3)] by (simp_all add: v3 bm_get_insert repo_ok_inv)
  note after = pull_after_push [OF assms(1) good3 assms(3) r l3]
  then show ?thesis
    using hl l3 on_git_Inr(2) [OF s3] u(4) \<open>local \<noteq> remote\<close> synced_heads [OF repo_ok_inv(1) [OF good_names(3) [OF good3]]]
    by simp
qed

text \<open>The checkout is that of the current generation of a commit.\<close>

definition in_sync :: "ManagedOps \<Rightarrow> env_files \<Rightarrow> string \<Rightarrow> bool" where
  "in_sync ops files h \<longleftrightarrow>
     (\<exists>contents manifest m. current_gen_manifest_contents (op_tree ops h) = Ok (contents, snd files) \<and>
        op_toml ops (fst files) = Some m \<and> op_toml ops contents = Some manifest \<and> op_toml ops manifest = Some m)"

lemma current_generation_eq:
  assumes "git_documented exec view hist" "good hist local remote (view (ms_git s))" "on_branches local remote env"
    and "bm_get (heads (view (ms_git s))) local = Some h"
    and "current_gen_manifest_contents (op_tree ops h) = Ok files"
  shows "on_git MeGenerations (current_generation exec ops (fb_branch (me_branch env))) s = (Ok files, s)"
proof -
  have "branch_hash exec local (ms_git s) = (Ok h, ms_git s)"
    using branch_hash_eq [OF assms(1) good_names(3,1) [OF assms(2)]] assms(4) by simp
  then have "current_generation exec ops local (ms_git s) = (Ok files, ms_git s)"
    using assms(5) by (simp add: current_generation_def branch_tree_def action_defs)
  then show ?thesis
    by (simp add: on_git_def on_branches_simps [OF assms(3)] act_map_err_def act_zoom_def act_ok_def)
qed

lemma validate_checkout_eq:
  assumes "git_documented exec view hist" "good hist local remote (view (ms_git s))" "on_branches local remote env"
    and "bm_get (heads (view (ms_git s))) local = Some h" "in_sync ops files h"
  shows "validate_checkout exec ops env files s = (Ok True, s)"
proof -
  obtain contents manifest m where m: "current_gen_manifest_contents (op_tree ops h) = Ok (contents, snd files)"
    "op_toml ops (fst files) = Some m" "op_toml ops contents = Some manifest" "op_toml ops manifest = Some m"
    using assms(5) by (auto simp: in_sync_def)
  note cur = current_generation_eq [OF assms(1-4) m(1)]
  show ?thesis
    unfolding validate_checkout_def
      act_match_eq [of "on_git MeGenerations (current_generation exec ops (fb_branch (me_branch env)))", OF cur]
    using m by (simp add: Let_def act_lift_def act_bind_def act_match_def act_ok_def)
qed

lemma checkout_present: "ms_checkout s = Some files \<Longrightarrow> local_env_or_copy_current_generation exec ops env s = (Ok files, s)"
  by (simp add: local_env_or_copy_current_generation_def)

lemma fetch_remote_ok:
  assumes "git_documented exec view hist" "good hist local remote (view (ms_git s))" "on_branches local remote env"
    and "bm_get (hub (view (ms_git s))) remote = Some u" "bm_get (heads (view (ms_git s))) local = Some hl"
  obtains s' where "fetch_remote exec env s = (Ok (), s')" "view (ms_git s') = synced hist remote u (view (ms_git s))"
    "good hist local remote (view (ms_git s'))" "ms_checkout s' = ms_checkout s" "ms_lock_file s' = ms_lock_file s"
    "bm_get (heads (view (ms_git s'))) local = Some hl" "bm_get (heads (view (ms_git s'))) remote = Some u"
proof -
  obtain r s' where f: "fetch_remote exec env s = (r, s')"
    by fastforce
  have neq: "local \<noteq> remote"
    using assms(2) by (simp add: good_def)
  have s': "r = Ok ()" "view (ms_git s') = synced hist remote u (view (ms_git s))"
    "good hist local remote (view (ms_git s'))" "ms_checkout s' = ms_checkout s" "ms_lock_file s' = ms_lock_file s"
    using fetch_remote_eq [OF assms(1-3) f] unfolding assms(4) option.case by blast+
  moreover have "bm_get (heads (view (ms_git s'))) local = Some hl" "bm_get (heads (view (ms_git s'))) remote = Some u"
    using assms(5) neq synced_heads [OF repo_ok_inv(1) [OF good_names(3) [OF assms(2)]]] by (simp_all add: s'(2))
  ultimately show thesis
    using f that by simp
qed

text \<open>What a push asks of the checkout.\<close>

definition pushable :: "ManagedOps \<Rightarrow> env_files \<Rightarrow> string \<Rightarrow> bool" where
  "pushable ops files h \<longleftrightarrow>
     in_sync ops files h \<and> op_ensure_locked ops files = snd files \<and> op_build ops files \<and>
     (case snd files of
        None \<Rightarrow> False
      | Some lockfile \<Rightarrow>
          (case op_user_manifest ops lockfile of
             None \<Rightarrow> False | Some m \<Rightarrow> \<not> list_ex is_local_include (mf_include m)))"

lemma check_pushable_ok:
  assumes "git_documented exec view hist" "good hist local remote (view (ms_git s))" "on_branches local remote env"
    and "bm_get (heads (view (ms_git s))) local = Some h" "pushable ops files h" "ms_checkout s = Some files"
  shows "check_pushable exec ops env s = (Ok (), s)"
proof -
  obtain contents lockfile where files: "files = (contents, Some lockfile)"
    using assms(5) by (cases files) (auto simp: pushable_def split: option.splits)
  then have ops: "op_ensure_locked ops files = Some lockfile" "op_build ops (fst files, Some lockfile)"
    "check_for_local_includes ops lockfile s = (Ok (), s)" "s \<lparr> ms_checkout := Some (fst files, Some lockfile) \<rparr> = s"
    using assms(5,6) by (auto simp: pushable_def check_for_local_includes_def act_ok_def split: option.splits)
  have valid: "validate_checkout exec ops env files s = (Ok True, s)"
    using validate_checkout_eq [OF assms(1-4)] assms(5) by (simp add: pushable_def)
  show ?thesis
    unfolding check_pushable_def
      act_bind_Inr [of "local_env_or_copy_current_generation exec ops env", OF checkout_present [OF assms(6)]]
      act_bind_Inr [of "validate_checkout exec ops env files", OF valid]
    by (simp add: ops act_bind_def act_match_def)
qed

lemma pull_equal_ok:
  assumes "git_documented exec view hist" "good hist local remote (view (ms_git s))" "on_branches local remote env"
    and "bm_get (heads (view (ms_git s))) local = Some h" "bm_get (hub (view (ms_git s))) remote = Some h"
    and "in_sync ops files h" "ms_checkout s = Some files"
  shows "\<exists>s'. pull exec ops env force s = (Ok PullUpToDate, s')"
proof -
  obtain s' where s': "fetch_remote exec env s = (Ok (), s')" "good hist local remote (view (ms_git s'))"
    "bm_get (heads (view (ms_git s'))) local = Some h" "bm_get (heads (view (ms_git s'))) remote = Some h"
    by (rule fetch_remote_ok [OF assms(1-3,5,4)])
  note valid = validate_checkout_eq [OF assms(1-4,6)]
  note cmp = compare_eq [OF assms(1) s'(2) assms(3) s'(3,4)]
  show ?thesis
    unfolding pull_def
      act_bind_Inr [of "local_env_or_copy_current_generation exec ops env", OF checkout_present [OF assms(7)]]
      act_bind_Inr [of "validate_checkout exec ops env files", OF valid]
    by (simp add: act_bind_Inr [of "fetch_remote exec env", OF s'(1)]
        act_bind_Inr [of "on_git MeFloxmetaBranch (compare_remote exec (me_branch env))", OF cmp]
        finish_pull_def branch_ord_def act_ok_def)
qed

lemma on_git_Ok: "m (ms_git s) = (Ok a, g) \<Longrightarrow> on_git err m s = (Ok a, s \<lparr> ms_git := g \<rparr>)"
  by (simp add: on_git_def act_map_err_def act_match_def act_zoom_def act_ok_def)

lemma push_ahead_ok:
  assumes "git_documented exec view hist" "good hist local remote (view (ms_git s))" "on_branches local remote env"
    and "bm_get (heads (view (ms_git s))) local = Some h" "bm_get (hub (view (ms_git s))) remote = Some u"
    and "u \<in> hist h" "u \<noteq> h" "pushable ops files h" "ms_checkout s = Some files"
  shows "\<exists>s'. push exec ops env force s = (Ok PushUpdated, s')"
proof -
  note check = check_pushable_ok [OF assms(1-4,8,9)]
  obtain s2 where s2: "fetch_remote exec env s = (Ok (), s2)" "good hist local remote (view (ms_git s2))"
    "bm_get (heads (view (ms_git s2))) local = Some h" "bm_get (heads (view (ms_git s2))) remote = Some u"
    "ms_checkout s2 = ms_checkout s" "view (ms_git s2) = synced hist remote u (view (ms_git s))"
    by (rule fetch_remote_ok [OF assms(1-3,5,4)])
  have before: "fetch_before_push exec env s = (Ok (), s2)"
    using s2(1) by (simp add: fetch_before_push_def act_ok_def)
  have ord: "branch_ord hist h u = Ahead"
    using assms(6,7) by (simp add: branch_ord_def)
  note cmp = compare_eq [OF assms(1) s2(2) assms(3) s2(3,4), unfolded ord]
  have "push_status hist h (bm_get (hub (view (ms_git s2))) remote) force = FastForward"
    using assms(5-7) by (simp add: s2(6) push_status_def)
  then obtain g3 where g3: "push_ref exec ''dynamicorigin'' (local @ '':'' @ remote) force (ms_git s2) = (Ok FastForward, g3)"
    by (rule push_ref_remote [OF assms(1) good_names(3,2) [OF s2(2)] s2(3) sym]) simp
  define s3 where "s3 = s2 \<lparr> ms_git := g3 \<rparr>"
  have s3: "on_git push_error (push_ref exec ''dynamicorigin'' (local @ '':'' @ remote) force) s2 =
      (Ok FastForward, s3)" "ms_checkout s3 = ms_checkout s2"
    using on_git_Ok [of "push_ref exec ''dynamicorigin'' (local @ '':'' @ remote) force", OF g3]
    unfolding s3_def by (blast, simp)
  have v3: "view (ms_git s3) = view (ms_git s2) \<lparr> hub := bm_insert remote h (hub (view (ms_git s2))) \<rparr>"
    by (rule push_hub_ok [OF assms(1) s2(2) s3(1) s2(3)])
  have good3: "good hist local remote (view (ms_git s3))"
    using s2(2) repo_ok_insert_hub [OF good_names(3) [OF s2(2)] repo_ok_head(2) [OF good_names(3) [OF s2(2)] s2(3)]]
    by (simp add: v3 good_def)
  have h3: "bm_get (heads (view (ms_git s3))) local = Some h" "bm_get (hub (view (ms_git s3))) remote = Some h"
    using s2(3) good_names(3) [OF s2(2)] by (simp_all add: v3 bm_get_insert repo_ok_inv)
  obtain s' where "pull exec ops env force s3 = (Ok PullUpToDate, s')"
    using pull_equal_ok [OF assms(1) good3 assms(3) h3, of ops files] assms(8,9) s2(5) s3(2)
    by (auto simp: pushable_def)
  then show ?thesis
    unfolding push_def Let_def on_branches_simps(2,3) [OF assms(3)] act_bind_Inr [of "check_pushable exec ops env", OF check]
      act_bind_Inr [of "fetch_before_push exec env", OF before]
      act_bind_Inr [of "on_git MeFloxmetaBranch (compare_remote exec (me_branch env))", OF cmp]
    by (simp only: BranchOrd.distinct simp_thms insert_iff empty_iff if_False
        act_bind_Inr [of "on_git push_error (push_ref exec ''dynamicorigin'' (local @ '':'' @ remote) force)", OF s3(1)])
      (simp add: act_bind_def act_match_def act_ok_def)
qed

text \<open>
  A push that updated FloxHub leaves all three branches at the old head of the local branch,
  so the revision is no local one any more, yet it does not write the lock: a lock with a local
  revision keeps naming it as local, with the old revision of FloxHub beside it.
\<close>
theorem successful_push_keeps_lock:
  assumes "git_documented exec view hist" "good hist local remote (view (ms_git s))" "on_branches local remote env"
    and "push exec ops env force s = (Ok PushUpdated, s')"
  shows "ms_lock_file s' = ms_lock_file s \<and>
    (\<exists>h. bm_get (heads (view (ms_git s))) local = Some h \<and> bm_get (heads (view (ms_git s'))) local = Some h \<and>
      bm_get (heads (view (ms_git s'))) remote = Some h \<and> bm_get (hub (view (ms_git s'))) remote = Some h)"
  by (rule push_updated [OF assms])

text \<open>
  C17. A push goes through when there is something to push and nothing in the way: FloxHub is at an
  older commit of the local branch, the checkout is in sync with its head, locked and
  building, and includes no local environment. FloxHub is then at the head of the local branch.
\<close>
theorem push_ahead_succeeds:
  assumes "git_documented exec view hist" "good hist local remote (view (ms_git s))" "on_branches local remote env"
    and "bm_get (heads (view (ms_git s))) local = Some h" "bm_get (hub (view (ms_git s))) remote = Some u"
    and "u \<in> hist h" "u \<noteq> h" "pushable ops files h" "ms_checkout s = Some files"
  shows "\<exists>s'. push exec ops env force s = (Ok PushUpdated, s') \<and> bm_get (hub (view (ms_git s'))) remote = Some h"
  using push_ahead_ok [OF assms, of force] push_updated [OF assms(1-3)] assms(4) by (metis option.inject)

section \<open>An environment with one copy\<close>

text \<open>The files differ between the commits, by the first character of the commit.\<close>

definition demo_files :: "string \<Rightarrow> env_files" where
  "demo_files h = (''manifest '' @ take 1 h, Some ''lock'')"

definition demo_ops :: ManagedOps where
  "demo_ops = \<lparr> op_tree = (\<lambda>h. \<lparr> gr_metadata = demo_two, gr_files = [(2, demo_files h)], gr_log = [] \<rparr>),
     op_toml = Some, op_ensure_locked = snd, op_build = (\<lambda>_. True),
     op_user_manifest = (\<lambda>_. Some default_manifest) \<rparr>"

definition demo_env :: ManagedEnvironment where
  "demo_env = \<lparr> me_pointer = demo_pointer, me_branch = demo_fb, me_generation = None \<rparr>"

definition demo_state :: "char \<Rightarrow> char \<Rightarrow> char option \<Rightarrow> Repo ManagedState" where
  "demo_state loc remote upstream = \<lparr> ms_git = demo_repo loc remote upstream,
     ms_lock_file = Some \<lparr> gl_rev = demo_hash (CHR ''a''), gl_local_rev = Some (demo_hash (CHR ''b'')) \<rparr>,
     ms_checkout = Some (demo_files (demo_hash loc)) \<rparr>"

lemma demo_good:
  assumes "loc \<in> {CHR ''a'', CHR ''b'', CHR ''c''}" "remote \<in> {CHR ''a'', CHR ''b'', CHR ''c''}"
    "case upstream of None \<Rightarrow> True | Some u \<Rightarrow> u \<in> {CHR ''a'', CHR ''b'', CHR ''c''}"
  shows "good demo_hist ''myenv.1a2b3c4d'' ''myenv'' (id (ms_git (demo_state loc remote upstream)))"
  using demo_repo_ok [OF assms] demo_hist_ok by (simp add: good_def demo_state_def) (simp add: demo_repo_def)

lemma demo_branches:
  "bm_get (heads (id (ms_git (demo_state loc remote upstream)))) ''myenv.1a2b3c4d'' = Some (demo_hash loc)"
  "bm_get (hub (id (ms_git (demo_state loc remote upstream)))) ''myenv'' = map_option demo_hash upstream"
  by (simp_all add: demo_state_def demo_repo_def split: option.splits)

lemma demo_on_branches: "on_branches ''myenv.1a2b3c4d'' ''myenv'' demo_env"
  by (simp add: on_branches_def demo_env_def demo_fb_def)

lemma demo_toml: "op_toml demo_ops = Some"
  by (simp add: demo_ops_def)

lemma demo_current: "current_gen_manifest_contents (op_tree demo_ops h) = Ok (demo_files h)"
  by (simp add: demo_ops_def current_gen_manifest_contents_def demo_two_live manifest_contents_def table_of_def
      generations_def demo_two_eq current_gen_def generations_step_def summary_def set_last_live_def
      bm_contains_def Let_def)

lemma demo_pushable: "pushable demo_ops (demo_files h) h"
proof -
  have "in_sync demo_ops (demo_files h) h"
    using demo_current [of h] by (auto simp: in_sync_def demo_toml demo_files_def)
  then show ?thesis
    by (simp add: pushable_def) (simp add: demo_ops_def demo_files_def default_manifest_def)
qed

lemma demo_ahead: "good demo_hist ''myenv.1a2b3c4d'' ''myenv'' (id (ms_git (demo_state (CHR ''b'') (CHR ''a'') (Some (CHR ''a'')))))"
  by (rule demo_good) simp_all

lemma demo_ancestor: "demo_hash (CHR ''a'') \<in> demo_hist (demo_hash (CHR ''b''))"
  by (simp add: demo_hist_def)

lemma demo_push:
  obtains s' where "push (small_git demo_hist) demo_ops demo_env False (demo_state (CHR ''b'') (CHR ''a'') (Some (CHR ''a''))) =
    (Ok PushUpdated, s')"
  using push_ahead_ok [OF demo_git demo_ahead demo_on_branches demo_branches(1) _ demo_ancestor _ demo_pushable,
      of False] demo_branches(2) by (auto simp: demo_state_def)

lemma without_force_branches_only_advance_witness:
  "let s' = snd (pull (small_git demo_hist) demo_ops demo_env False (demo_state (CHR ''b'') (CHR ''a'') (Some (CHR ''c''))))
   in leads demo_hist (Some (demo_hash (CHR ''b''))) (bm_get (heads (ms_git s')) ''myenv.1a2b3c4d'')"
proof -
  let ?s = "demo_state (CHR ''b'') (CHR ''a'') (Some (CHR ''c''))"
  have "good demo_hist ''myenv.1a2b3c4d'' ''myenv'' (id (ms_git ?s))"
    by (rule demo_good) simp_all
  from without_force_branches_only_advance [OF demo_git this demo_on_branches,
      of "snd (pull (small_git demo_hist) demo_ops demo_env False ?s)" demo_ops]
  show ?thesis
    using demo_branches(1) [of "CHR ''b''" "CHR ''a''" "Some (CHR ''c'')"] by (simp add: Let_def)
qed

lemma other_environments_untouched_witness:
  "bm_get (hub (ms_git (snd (push (small_git demo_hist) demo_ops demo_env True
     (demo_state (CHR ''b'') (CHR ''a'') (Some (CHR ''a''))))))) ''other'' = None"
  using other_environments_untouched [OF demo_git demo_ahead demo_on_branches,
      of "snd (push (small_git demo_hist) demo_ops demo_env True (demo_state (CHR ''b'') (CHR ''a'') (Some (CHR ''a''))))"
        demo_ops True "''other''"]
  by (simp add: demo_state_def) (simp add: demo_repo_def)

lemma push_never_recreates_deleted_upstream_witness:
  "hub (ms_git (snd (push (small_git demo_hist) demo_ops demo_env False (demo_state (CHR ''b'') (CHR ''a'') None)))) = []"
proof -
  let ?s = "demo_state (CHR ''b'') (CHR ''a'') None"
  have "good demo_hist ''myenv.1a2b3c4d'' ''myenv'' (id (ms_git ?s))"
    by (rule demo_good) simp_all
  moreover obtain r s' where "push (small_git demo_hist) demo_ops demo_env False ?s = (r, s')"
    by fastforce
  ultimately show ?thesis
    using push_never_recreates_deleted_upstream [OF demo_git _ demo_on_branches, of ?s demo_ops False r s'] demo_branches(2)
    by (simp add: demo_state_def) (simp add: demo_repo_def)
qed

lemma successful_pull_catches_up_witness:
  "\<exists>s'. pull (small_git demo_hist) demo_ops demo_env False (demo_state (CHR ''b'') (CHR ''a'') (Some (CHR ''b''))) =
      (Ok PullUpToDate, s') \<and> bm_get (heads (ms_git s')) ''myenv'' = Some (demo_hash (CHR ''b''))"
proof -
  let ?s = "demo_state (CHR ''b'') (CHR ''a'') (Some (CHR ''b''))"
  have good: "good demo_hist ''myenv.1a2b3c4d'' ''myenv'' (id (ms_git ?s))"
    by (rule demo_good) simp_all
  have "in_sync demo_ops (demo_files (demo_hash (CHR ''b''))) (demo_hash (CHR ''b''))"
    using demo_pushable by (simp add: pushable_def)
  then obtain s' where s': "pull (small_git demo_hist) demo_ops demo_env False ?s = (Ok PullUpToDate, s')"
    using pull_equal_ok [OF demo_git good demo_on_branches demo_branches(1), of demo_ops "demo_files (demo_hash (CHR ''b''))"
        False] demo_branches(2) by (auto simp: demo_state_def)
  then show ?thesis
    using successful_pull_catches_up [OF demo_git good demo_on_branches s'] demo_branches(2) by auto
qed

lemma successful_push_keeps_lock_witness:
  "\<exists>s'. push (small_git demo_hist) demo_ops demo_env False (demo_state (CHR ''b'') (CHR ''a'') (Some (CHR ''a''))) =
      (Ok PushUpdated, s') \<and>
    ms_lock_file s' = Some \<lparr> gl_rev = demo_hash (CHR ''a''), gl_local_rev = Some (demo_hash (CHR ''b'')) \<rparr> \<and>
    bm_get (hub (ms_git s')) ''myenv'' = Some (demo_hash (CHR ''b''))"
proof -
  let ?s = "demo_state (CHR ''b'') (CHR ''a'') (Some (CHR ''a''))"
  obtain s' where s': "push (small_git demo_hist) demo_ops demo_env False ?s = (Ok PushUpdated, s')"
    by (rule demo_push)
  then show ?thesis
    using successful_push_keeps_lock [OF demo_git demo_ahead demo_on_branches s'] demo_branches(1)
    by (auto simp: demo_state_def)
qed

lemma push_ahead_succeeds_witness:
  "\<exists>s'. push (small_git demo_hist) demo_ops demo_env True (demo_state (CHR ''b'') (CHR ''a'') (Some (CHR ''a''))) =
      (Ok PushUpdated, s') \<and> bm_get (hub (ms_git s')) ''myenv'' = Some (demo_hash (CHR ''b''))"
  using push_ahead_succeeds [OF demo_git demo_ahead demo_on_branches demo_branches(1) _ demo_ancestor _ demo_pushable,
      of True] demo_branches(2) by (auto simp: demo_state_def)

end
