(* ===== verification/Path_Vars.thy ===== *)
theory Path_Vars
  imports Text
begin

text \<open>
  The \<open>PATH\<close>-like variables of an activation (\<open>flox-activations/src/cli/mod.rs\<close>,
  \<open>fix_paths.rs\<close>, \<open>set_env_dirs.rs\<close>, \<open>prepend_and_dedup.rs\<close> and \<open>fix_fpath.rs\<close>):
  \<open>FLOX_ENV_DIRS\<close> lists the active environments, most recent first, and the directories of
  these environments are put before what the variables held. A \<open>PathBuf\<close> is its string;
  paths are compared by their components, as \<open>Path\<close> does.
\<close>

section \<open>Paths\<close>

datatype PathComponent = RootDir | CurDir | ParentDir | Normal string

definition body_component :: "string \<Rightarrow> PathComponent" where
  "body_component s = (if s = ''..'' then ParentDir else Normal s)"

text \<open>
  \<open>Path::components\<close>: repeated separators and \<open>.\<close> are dropped, except for a leading \<open>.\<close>.
\<close>

definition path_components :: "string \<Rightarrow> PathComponent list" where
  "path_components p =
     (let parts = split_on (CHR ''/'') p;
          body = map body_component (filter (\<lambda>s. s \<noteq> [] \<and> s \<noteq> ''.'') parts)
      in if take 1 p = ''/'' then RootDir # body
         else if hd parts = ''.'' then CurDir # body
         else body)"

definition path_eq :: "string \<Rightarrow> string \<Rightarrow> bool" where
  "path_eq p q \<longleftrightarrow> path_components p = path_components q"

text \<open>\<open>Path::join\<close>\<close>

definition path_join :: "string \<Rightarrow> string \<Rightarrow> string" where
  "path_join dir suffix =
     (if take 1 suffix = ''/'' then suffix
      else if dir \<noteq> [] \<and> last dir \<noteq> CHR ''/'' then dir @ ''/'' @ suffix
      else dir @ suffix)"

section \<open>The variables\<close>

definition separate_dir_list :: "string \<Rightarrow> string list" where
  "separate_dir_list joined =
     (let split = split_on (CHR '':'') (if joined = ''empty'' then [] else joined)
      in if length split = 1 \<and> path_eq (split ! 0) [] then [] else split)"

definition join_dir_list :: "string list \<Rightarrow> string" where
  "join_dir_list dirs = join '':'' dirs"

text \<open>
  The set of directories seen so far holds their components. A directory goes to the front of
  the list when it is new.
\<close>

type_synonym dirs_seen = "PathComponent list list \<times> string list"

definition push_front_new :: "string \<Rightarrow> dirs_seen \<Rightarrow> dirs_seen" where
  "push_front_new dir acc =
     (case acc of (seen, dirs) \<Rightarrow>
        if path_components dir \<in> set seen then (seen, dirs)
        else (path_components dir # seen, dir # dirs))"

definition prepend_env_dir :: "string list \<Rightarrow> string \<Rightarrow> dirs_seen \<Rightarrow> dirs_seen" where
  "prepend_env_dir suffixes dir acc =
     (if suffixes = [] then push_front_new dir acc
      else fold (\<lambda>suffix. push_front_new (path_join dir suffix)) (rev suffixes) acc)"

definition push_back_existing :: "string \<Rightarrow> dirs_seen \<Rightarrow> dirs_seen" where
  "push_back_existing existing_dir acc =
     (case acc of (seen, dirs) \<Rightarrow>
        if path_eq existing_dir [] then (seen, dirs @ [[]])
        else if path_components existing_dir \<in> set seen then (seen, dirs)
        else (path_components existing_dir # seen, dirs @ [existing_dir]))"

definition prepend_dirs_to_pathlike_var :: "string list \<Rightarrow> string list \<Rightarrow> string list \<Rightarrow> string list" where
  "prepend_dirs_to_pathlike_var flox_env_dirs suffixes existing_dirs =
     snd (fold push_back_existing existing_dirs
       (fold (prepend_env_dir suffixes) (rev flox_env_dirs) ([], [])))"

definition fix_path_var :: "string \<Rightarrow> string \<Rightarrow> string" where
  "fix_path_var flox_env_dirs_var path_var =
     join_dir_list (prepend_dirs_to_pathlike_var (separate_dir_list flox_env_dirs_var)
       [''bin'', ''sbin''] (separate_dir_list path_var))"

definition fix_manpath_var :: "string \<Rightarrow> string \<Rightarrow> string" where
  "fix_manpath_var flox_env_dirs_var manpath_var =
     (let has_leading_colon = take 1 manpath_var = '':'';
          has_double_colon = str_contains ''::'' manpath_var;
          has_trailing_colon = manpath_var \<noteq> [] \<and> last manpath_var = CHR '':'';
          joined = join_dir_list (prepend_dirs_to_pathlike_var (separate_dir_list flox_env_dirs_var)
            [''share/man''] (separate_dir_list manpath_var))
      in if has_leading_colon \<or> has_trailing_colon \<or> has_double_colon then joined else joined @ '':'')"

definition prepend_and_dedup :: "string \<Rightarrow> string list option \<Rightarrow> string \<Rightarrow> string" where
  "prepend_and_dedup env_dirs_joined suffixes path_like =
     join_dir_list (prepend_dirs_to_pathlike_var (separate_dir_list env_dirs_joined)
       (case suffixes of Some ss \<Rightarrow> ss | None \<Rightarrow> []) (separate_dir_list path_like))"

definition format_fpath_array :: "string list \<Rightarrow> string" where
  "format_fpath_array dir_list =
     ''fpath=('' @ join '' '' (map (\<lambda>s. [CHR 0x22] @ s @ [CHR 0x22]) dir_list) @ '')''"

definition fix_fpath :: "string \<Rightarrow> string \<Rightarrow> string" where
  "fix_fpath env_dirs_joined colon_separated_fpath =
     format_fpath_array (prepend_dirs_to_pathlike_var (separate_dir_list env_dirs_joined)
       [''share/zsh/site-functions'', ''share/zsh/vendor-completions'']
       (separate_dir_list colon_separated_fpath))"

definition populate_env_dirs :: "string \<Rightarrow> string list \<Rightarrow> string list" where
  "populate_env_dirs flox_env env_dirs =
     (if \<not> (\<exists>d \<in> set env_dirs. path_eq d flox_env) then flox_env # env_dirs else env_dirs)"

definition fix_env_dirs_var :: "string \<Rightarrow> string \<Rightarrow> string" where
  "fix_env_dirs_var flox_env env_dirs = join_dir_list (populate_env_dirs flox_env (separate_dir_list env_dirs))"

section \<open>Components\<close>

lemma split_on_sep: "split_on d (a @ d # s) = split_on d a @ split_on d s"
  by (induction a) (auto split: list.splits)

lemma hd_split_on_sep: "hd (split_on d (a @ d # s)) = hd (split_on d a)"
  by (simp add: split_on_sep hd_append)

lemma root_not_cur: "take 1 p = ''/'' \<Longrightarrow> hd (split_on (CHR ''/'') p) = []"
  by (cases p) auto

lemma path_components_Nil_iff: "path_components p = [] \<longleftrightarrow> p = []"
proof
  assume empty: "path_components p = []"
  then have parts: "take 1 p \<noteq> ''/''" "hd (split_on (CHR ''/'') p) \<noteq> ''.''"
    "\<forall>s \<in> set (split_on (CHR ''/'') p). s = [] \<or> s = ''.''"
    by (auto simp: path_components_def Let_def filter_empty_conv split: if_splits)
  then have "hd (split_on (CHR ''/'') p) = []"
    by (meson hd_in_set split_on_not_Nil)
  then show "p = []"
    using parts(1) by (cases p) (auto split: list.splits if_splits)
qed (simp add: path_components_def)

lemma path_eq_Nil [simp]: "path_eq p [] \<longleftrightarrow> p = []"
  by (simp add: path_eq_def path_components_Nil_iff path_components_Nil_iff [of "[]", simplified])

text \<open>A suffix that adds components of its own: relative and without empty parts and dots.\<close>

definition plain_suffix :: "string \<Rightarrow> bool" where
  "plain_suffix s \<longleftrightarrow> (\<forall>x \<in> set (split_on (CHR ''/'') s). x \<noteq> [] \<and> x \<noteq> ''.'' \<and> x \<noteq> ''..'' \<and> CHR '':'' \<notin> set x)"

lemma plain_suffix_hd:
  assumes "plain_suffix s"
  shows "s \<noteq> [] \<and> take 1 s \<noteq> ''/'' \<and> hd (split_on (CHR ''/'') s) \<noteq> ''.''"
proof -
  have "hd (split_on (CHR ''/'') s) \<in> set (split_on (CHR ''/'') s)"
    by simp
  then have "hd (split_on (CHR ''/'') s) \<noteq> []" "hd (split_on (CHR ''/'') s) \<noteq> ''.''"
    using assms unfolding plain_suffix_def by blast+
  then show ?thesis
    using root_not_cur [of s] by auto
qed

lemma path_components_plain: "plain_suffix s \<Longrightarrow> path_components s = map Normal (split_on (CHR ''/'') s)"
  using plain_suffix_hd [of s]
  by (auto simp: path_components_def Let_def plain_suffix_def body_component_def filter_id_conv)

lemma path_components_sep:
  assumes "plain_suffix s"
  shows "path_components (d @ CHR ''/'' # s) =
    (if d = [] then RootDir # path_components s else path_components d @ path_components s)"
proof (cases "d = []")
  case True
  then show ?thesis
    using path_components_plain [OF assms] assms
    by (auto simp: path_components_def Let_def plain_suffix_def body_component_def)
next
  case False
  then have first: "take (Suc 0) (d @ CHR ''/'' # s) = take (Suc 0) d"
    by (cases d) auto
  have body: "filter (\<lambda>x. x \<noteq> [] \<and> x \<noteq> ''.'') (split_on (CHR ''/'') s) = split_on (CHR ''/'') s"
    using assms by (auto simp: plain_suffix_def filter_id_conv)
  have s: "map body_component (split_on (CHR ''/'') s) = path_components s"
    using assms by (auto simp: path_components_plain plain_suffix_def body_component_def)
  show ?thesis
    using False unfolding path_components_def [of "d @ CHR ''/'' # s"] path_components_def [of d]
    by (simp del: take_append split_on.simps(2) add: first Let_def split_on_sep hd_append body s)
qed

lemma path_components_trailing:
  assumes "d \<noteq> []"
  shows "path_components (d @ ''/'') = path_components d"
proof -
  have first: "take (Suc 0) (d @ ''/'') = take (Suc 0) d"
    using assms by (cases d) auto
  show ?thesis
    unfolding path_components_def
    by (simp del: take_append split_on.simps(2) add: first Let_def split_on_sep hd_append)
qed

lemma path_components_join:
  assumes "plain_suffix s"
  shows "path_components (path_join d s) = path_components d @ path_components s"
proof (cases d rule: rev_cases)
  case Nil
  then show ?thesis
    using plain_suffix_hd [OF assms] by (simp add: path_join_def path_components_Nil_iff)
next
  case (snoc d' c)
  then have d: "d \<noteq> []"
    by simp
  show ?thesis
  proof (cases "c = CHR ''/''")
    case slash: True
    then have "path_join d s = d' @ CHR ''/'' # s"
      using snoc plain_suffix_hd [OF assms] by (simp add: path_join_def)
    moreover have "path_components d = (if d' = [] then [RootDir] else path_components d')"
      using snoc slash path_components_trailing [of d'] by (simp add: path_components_def [of "''/''"])
    ultimately show ?thesis
      by (simp add: path_components_sep [OF assms])
  next
    case False
    then have "path_join d s = d @ CHR ''/'' # s"
      using snoc plain_suffix_hd [OF assms] by (simp add: path_join_def)
    then show ?thesis
      by (simp add: path_components_sep [OF assms] d)
  qed
qed

lemma path_join_not_Nil: "plain_suffix s \<Longrightarrow> path_join d s \<noteq> []"
  using plain_suffix_hd [of s] by (simp add: path_join_def)

lemma plain_suffixes [simp]: "plain_suffix ''bin''" "plain_suffix ''sbin''" "plain_suffix ''share/man''"
  by (simp_all add: plain_suffix_def)

section \<open>Directories to search\<close>

text \<open>The directories of the active environments, and what is kept of the existing ones.\<close>

definition env_dir_entries :: "string list \<Rightarrow> string list \<Rightarrow> string list" where
  "env_dir_entries suffixes env_dirs =
     concat (map (\<lambda>dir. if suffixes = [] then [dir] else map (path_join dir) suffixes) env_dirs)"

fun keep_existing :: "PathComponent list set \<Rightarrow> string list \<Rightarrow> string list" where
  "keep_existing seen [] = []"
| "keep_existing seen (e # es) =
     (if e = [] then [] # keep_existing seen es
      else if path_components e \<in> seen then keep_existing seen es
      else e # keep_existing (insert (path_components e) seen) es)"

lemma snd_push_back: "snd (fold push_back_existing es (seen, dirs)) = dirs @ keep_existing (set seen) es"
  by (induction es arbitrary: seen dirs) (auto simp: push_back_existing_def)

lemma fold_concat_map: "fold f (concat (map g xs)) = fold (\<lambda>x. fold f (g x)) xs"
  by (induction xs) auto

lemma fold_prepend_env_dir:
  "fold (prepend_env_dir suffixes) (rev env_dirs) = fold push_front_new (rev (env_dir_entries suffixes env_dirs))"
proof -
  have "prepend_env_dir suffixes d = fold push_front_new (rev (if suffixes = [] then [d] else map (path_join d) suffixes))" for d
    by (auto simp: prepend_env_dir_def fun_eq_iff rev_map fold_map o_def)
  then have "prepend_env_dir suffixes =
      (\<lambda>d. fold push_front_new (rev (if suffixes = [] then [d] else map (path_join d) suffixes)))"
    by blast
  then show ?thesis
    by (simp add: env_dir_entries_def rev_concat rev_map fold_concat_map o_def)
qed

lemma push_front_seen:
  assumes "set seen = path_components ` set dirs"
  shows "set (fst (fold push_front_new ds (seen, dirs))) = path_components ` set (snd (fold push_front_new ds (seen, dirs)))"
  using assms by (induction ds arbitrary: seen dirs) (auto simp: push_front_new_def)

lemma push_front_sub: "set (snd (fold push_front_new ds (seen, dirs))) \<subseteq> set dirs \<union> set ds"
proof (induction ds arbitrary: seen dirs)
  case (Cons d ds)
  show ?case
    using Cons.IH [of seen dirs] Cons.IH [of "path_components d # seen" "d # dirs"]
    by (auto simp: push_front_new_def)
qed simp

lemma push_front_keeps: "dirs \<noteq> [] \<Longrightarrow> snd (fold push_front_new ds (seen, dirs)) \<noteq> []"
  by (induction ds arbitrary: seen dirs) (auto simp: push_front_new_def)

lemma push_front_distinct:
  assumes "distinct (map path_components ds)" "path_components ` set ds \<inter> set seen = {}"
  shows "fold push_front_new (rev ds) (seen, dirs) = (map path_components ds @ seen, ds @ dirs)"
  using assms by (induction ds) (auto simp: push_front_new_def)

text \<open>The result: the entries of the environments, then the existing directories that are new.\<close>

definition front_dirs :: "string list \<Rightarrow> string list \<Rightarrow> string list" where
  "front_dirs env_dirs suffixes = snd (fold push_front_new (rev (env_dir_entries suffixes env_dirs)) ([], []))"

lemma prepend_dirs_eq:
  "prepend_dirs_to_pathlike_var env_dirs suffixes es =
     front_dirs env_dirs suffixes @ keep_existing (path_components ` set (front_dirs env_dirs suffixes)) es"
proof -
  obtain seen front where f: "fold push_front_new (rev (env_dir_entries suffixes env_dirs)) ([], []) = (seen, front)"
    by (metis surj_pair)
  then have "set seen = path_components ` set front"
    using push_front_seen [of "[]" "[]" "rev (env_dir_entries suffixes env_dirs)"] by simp
  then show ?thesis
    by (simp add: prepend_dirs_to_pathlike_var_def fold_prepend_env_dir front_dirs_def f snd_push_back)
qed

lemma front_dirs_sub: "set (front_dirs env_dirs suffixes) \<subseteq> set (env_dir_entries suffixes env_dirs)"
  using push_front_sub [of "rev (env_dir_entries suffixes env_dirs)" "[]" "[]"] by (simp add: front_dirs_def)

lemma front_dirs_distinct:
  "distinct (map path_components (env_dir_entries suffixes env_dirs)) \<Longrightarrow>
   front_dirs env_dirs suffixes = env_dir_entries suffixes env_dirs"
  using push_front_distinct [of "env_dir_entries suffixes env_dirs" "[]" "[]"] by (simp add: front_dirs_def)

lemma find_keep_existing:
  assumes "\<And>p q. path_components p = path_components q \<Longrightarrow> P p \<Longrightarrow> P q"
    and "\<forall>e. path_components e \<in> seen \<longrightarrow> \<not> P e"
  shows "find P (keep_existing seen es) = find P es"
  using assms(2)
proof (induction es arbitrary: seen)
  case (Cons e es)
  show ?case
  proof (cases "P e")
    case True
    then have "path_components e \<notin> seen"
      using Cons.prems by blast
    then show ?thesis
      using True by auto
  next
    case False
    then have "\<forall>x. path_components x \<in> insert (path_components e) seen \<longrightarrow> \<not> P x"
      using Cons.prems assms(1) by (metis insertE)
    then show ?thesis
      using False Cons.IH [OF Cons.prems] Cons.IH [of "insert (path_components e) seen"] by simp
  qed
qed simp

lemma find_append: "find P (xs @ ys) = (case find P xs of Some x \<Rightarrow> Some x | None \<Rightarrow> find P ys)"
  by (induction xs) auto

lemma find_front_keep_existing:
  assumes "\<And>p q. path_components p = path_components q \<Longrightarrow> P p \<Longrightarrow> P q"
  shows "find P (front @ keep_existing (path_components ` set front) es) = find P (front @ es)"
proof (cases "find P front")
  case None
  then have "\<forall>e. path_components e \<in> path_components ` set front \<longrightarrow> \<not> P e"
    using assms by (metis find_None_iff imageE)
  then have "find P (keep_existing (path_components ` set front) es) = find P es"
    by (rule find_keep_existing [rotated]) (rule assms)
  then show ?thesis
    using None by (simp add: find_append)
qed (simp add: find_append)

lemma keep_existing_again:
  "path_components ` set front \<subseteq> seen \<Longrightarrow> [] \<notin> set front \<Longrightarrow> keep_existing seen (front @ es) = keep_existing seen es"
  by (induction front) auto

lemma keep_existing_kept: "seen \<subseteq> seen' \<Longrightarrow> keep_existing seen (keep_existing seen' es) = keep_existing seen' es"
proof (induction es arbitrary: seen seen')
  case (Cons e es)
  have "insert (path_components e) seen \<subseteq> insert (path_components e) seen'"
    using Cons.prems by blast
  then show ?case
    using Cons.prems Cons.IH [of seen seen'] Cons.IH [of "insert (path_components e) seen" "insert (path_components e) seen'"]
    by (simp add: subset_iff)
qed simp

lemma keep_existing_sub: "set (keep_existing seen es) \<subseteq> set es"
  by (induction es arbitrary: seen) auto

lemma keep_existing_empty: "[] \<in> set es \<Longrightarrow> [] \<in> set (keep_existing seen es)"
  by (induction es arbitrary: seen) auto

section \<open>Reading and writing the variables\<close>

lemma separate_parts: "d \<in> set (separate_dir_list s) \<Longrightarrow> CHR '':'' \<notin> set d"
  by (auto simp: separate_dir_list_def Let_def split: if_splits dest: split_on_parts_no_sep)

lemma separate_join:
  assumes "\<forall>d \<in> set dirs. CHR '':'' \<notin> set d" and "dirs \<noteq> [[]]" and "dirs \<noteq> [''empty'']"
  shows "separate_dir_list (join_dir_list dirs) = dirs"
proof (cases "dirs = []")
  case False
  have "join '':'' dirs \<noteq> ''empty''"
  proof
    assume "join '':'' dirs = ''empty''"
    then have "dirs = split_on (CHR '':'') ''empty''"
      using split_on_join [OF False assms(1)] by simp
    then show False
      using assms(3) by simp
  qed
  moreover have "\<not> (length dirs = 1 \<and> dirs ! 0 = [])"
    using assms(2) by (cases dirs) auto
  ultimately show ?thesis
    using split_on_join [OF False assms(1)] by (auto simp: separate_dir_list_def join_dir_list_def Let_def)
qed (simp add: separate_dir_list_def join_dir_list_def)

lemma plain_suffix_colon: "plain_suffix s \<Longrightarrow> CHR '':'' \<notin> set s"
  using set_join [of "''/''" "split_on (CHR ''/'') s"] by (auto simp: join_split_on plain_suffix_def)

lemma path_join_colon: "plain_suffix s \<Longrightarrow> CHR '':'' \<notin> set d \<Longrightarrow> CHR '':'' \<notin> set (path_join d s)"
  using plain_suffix_colon [of s] by (simp add: path_join_def)

section \<open>Looking up a command\<close>

lemma entries_cases:
  assumes "e \<in> set (env_dir_entries suffixes env_dirs)" "suffixes \<noteq> []"
  obtains d x where "d \<in> set env_dirs" "x \<in> set suffixes" "e = path_join d x"
  using assms by (auto simp: env_dir_entries_def)

lemma entries_parts:
  assumes "\<forall>s \<in> set suffixes. plain_suffix s" "suffixes \<noteq> []" "\<forall>d \<in> set env_dirs. CHR '':'' \<notin> set d"
    and "e \<in> set (env_dir_entries suffixes env_dirs)"
  shows "e \<noteq> [] \<and> CHR '':'' \<notin> set e"
  by (rule entries_cases [OF assms(4,2)]) (simp add: assms path_join_not_Nil path_join_colon)

lemma result_parts:
  assumes "\<forall>s \<in> set suffixes. plain_suffix s" "suffixes \<noteq> []"
  shows "\<forall>d \<in> set (prepend_dirs_to_pathlike_var (separate_dir_list env_dirs) suffixes (separate_dir_list p)).
    CHR '':'' \<notin> set d"
proof
  fix d
  assume "d \<in> set (prepend_dirs_to_pathlike_var (separate_dir_list env_dirs) suffixes (separate_dir_list p))"
  then have "d \<in> set (env_dir_entries suffixes (separate_dir_list env_dirs)) \<or> d \<in> set (separate_dir_list p)"
    unfolding prepend_dirs_eq set_append using front_dirs_sub keep_existing_sub by blast
  then show "CHR '':'' \<notin> set d"
    using entries_parts [OF assms, of "separate_dir_list env_dirs" d] separate_parts by blast
qed

lemma distinct_bin_entries:
  "distinct (map path_components ds) \<Longrightarrow> distinct (map path_components (env_dir_entries [''bin'', ''sbin''] ds))"
proof (induction ds)
  case (Cons d ds)
  have "path_components d @ [Normal x] \<notin> path_components ` set (env_dir_entries [''bin'', ''sbin''] ds)" for x
    using Cons.prems by (force simp: env_dir_entries_def path_components_join path_components_plain)
  then show ?case
    using Cons by (simp add: env_dir_entries_def path_components_join path_components_plain)
qed (simp add: env_dir_entries_def)

lemma front_dirs_bin: "set (front_dirs ds [''bin'', ''sbin'']) \<subseteq> {e. e \<noteq> []}"
proof
  fix e
  assume "e \<in> set (front_dirs ds [''bin'', ''sbin''])"
  then have "e \<in> set (env_dir_entries [''bin'', ''sbin''] ds)"
    using front_dirs_sub by blast
  then show "e \<in> {e. e \<noteq> []}"
    by (rule entries_cases) (auto simp: path_join_not_Nil)
qed

lemma front_dirs_two:
  assumes "ds \<noteq> []"
  shows "2 \<le> length (front_dirs ds [''bin'', ''sbin''])"
proof -
  let ?ds = "rev (env_dir_entries [''bin'', ''sbin''] ds)"
  obtain d ds' where "rev ds = d # ds'"
    using assms by (cases "rev ds") auto
  then have ds: "ds = rev ds' @ [d]"
    by (metis rev.simps(2) rev_rev_ident)
  have first: "?ds = path_join d ''sbin'' # path_join d ''bin'' # rev (env_dir_entries [''bin'', ''sbin''] (rev ds'))"
    by (simp add: ds env_dir_entries_def)
  have neq: "path_components (path_join d ''sbin'') \<noteq> path_components (path_join d ''bin'')"
    by (simp add: path_components_join path_components_plain)
  have len: "length dirs \<le> length (snd (fold push_front_new xs (seen, dirs)))" for xs seen dirs
  proof (induction xs arbitrary: seen dirs)
    case (Cons x xs)
    then show ?case
      using Cons [of "x # dirs" "path_components x # seen"] Cons [of dirs seen] by (simp add: push_front_new_def)
  qed simp
  show ?thesis
    unfolding front_dirs_def first
    using len [of "[path_join d ''bin'', path_join d ''sbin'']"] neq
    by (simp add: push_front_new_def numeral_2_eq_2)
qed

lemma separate_fix_path:
  assumes "separate_dir_list env_dirs \<noteq> []"
  shows "separate_dir_list (fix_path_var env_dirs p) =
    prepend_dirs_to_pathlike_var (separate_dir_list env_dirs) [''bin'', ''sbin''] (separate_dir_list p)"
proof -
  let ?r = "prepend_dirs_to_pathlike_var (separate_dir_list env_dirs) [''bin'', ''sbin''] (separate_dir_list p)"
  have "length ?r \<noteq> 1"
    using front_dirs_two [OF assms] by (simp add: prepend_dirs_eq)
  then have "?r \<noteq> [[]]" "?r \<noteq> [''empty'']"
    by auto
  then show ?thesis
    unfolding fix_path_var_def by (intro separate_join result_parts) auto
qed

lemma populate_distinct:
  "distinct (map path_components ds) \<Longrightarrow> distinct (map path_components (populate_env_dirs flox_env ds))"
  by (auto simp: populate_env_dirs_def path_eq_def)

lemma separate_fix_env_dirs:
  assumes "take 1 flox_env = ''/''" "CHR '':'' \<notin> set flox_env"
  shows "separate_dir_list (fix_env_dirs_var flox_env env_dirs) = populate_env_dirs flox_env (separate_dir_list env_dirs)"
proof -
  let ?ds = "populate_env_dirs flox_env (separate_dir_list env_dirs)"
  have member: "\<exists>d \<in> set ?ds. path_eq d flox_env"
    by (auto simp: populate_env_dirs_def path_eq_def)
  have root: "path_components d = path_components flox_env \<Longrightarrow> take 1 d = ''/''" for d
    using assms(1) by (auto simp: path_components_def Let_def body_component_def split: if_splits)
  have "?ds \<noteq> [[]]" "?ds \<noteq> [''empty'']"
    using member root [of "[]"] root [of "''empty''"] by (auto simp: path_eq_def)
  moreover have "\<forall>d \<in> set ?ds. CHR '':'' \<notin> set d"
    using assms(2) separate_parts by (auto simp: populate_env_dirs_def)
  ultimately show ?thesis
    unfolding fix_env_dirs_var_def by (intro separate_join)
qed

text \<open>
  C21. The commands of the active environments come first. When an environment is activated in
  a shell, a search of the new \<open>PATH\<close> finds what a search of the \<open>bin\<close> and \<open>sbin\<close>
  directories of the active environments finds, the activated one (unless it was active
  before) first, and otherwise what the old \<open>PATH\<close> had: nothing is lost, and dropping
  repeated directories never changes the command that is found. The test \<open>P\<close> of a directory
  stands for the command being there, so it depends on the components of the path only.
\<close>

theorem active_commands_come_first:
  assumes "take 1 flox_env = ''/''" and "CHR '':'' \<notin> set flox_env"
    and "distinct (map path_components (separate_dir_list env_dirs))"
    and "\<And>p q. path_components p = path_components q \<Longrightarrow> P p \<Longrightarrow> P q"
  shows "find P (separate_dir_list (fix_path_var (fix_env_dirs_var flox_env env_dirs) path_var)) =
    find P (concat (map (\<lambda>d. [path_join d ''bin'', path_join d ''sbin''])
        (populate_env_dirs flox_env (separate_dir_list env_dirs))) @ separate_dir_list path_var)"
proof -
  let ?ds = "populate_env_dirs flox_env (separate_dir_list env_dirs)"
  have ds: "separate_dir_list (fix_env_dirs_var flox_env env_dirs) = ?ds"
    by (rule separate_fix_env_dirs [OF assms(1,2)])
  have "?ds \<noteq> []"
    by (auto simp: populate_env_dirs_def)
  moreover have "front_dirs ?ds [''bin'', ''sbin''] = env_dir_entries [''bin'', ''sbin''] ?ds"
    by (intro front_dirs_distinct distinct_bin_entries populate_distinct assms(3))
  ultimately have "find P (separate_dir_list (fix_path_var (fix_env_dirs_var flox_env env_dirs) path_var)) =
      find P (env_dir_entries [''bin'', ''sbin''] ?ds @ separate_dir_list path_var)"
    using find_front_keep_existing [of P "front_dirs ?ds [''bin'', ''sbin'']", OF assms(4)]
    by (simp add: separate_fix_path ds prepend_dirs_eq)
  then show ?thesis
    by (simp add: env_dir_entries_def)
qed

lemma active_commands_come_first_witness:
  "find (\<lambda>d. path_eq d ''/env/bin'') (separate_dir_list
     (fix_path_var (fix_env_dirs_var ''/env'' ''/outer'') ''/usr/bin:/env//bin'')) = Some ''/env/bin''"
  using active_commands_come_first [of "''/env''" "''/outer''" "\<lambda>d. path_eq d ''/env/bin''" "''/usr/bin:/env//bin''"]
  by (simp add: path_eq_def path_components_def body_component_def separate_dir_list_def populate_env_dirs_def
      path_join_def)

lemma fix_path_var_idem:
  assumes "separate_dir_list env_dirs \<noteq> []"
  shows "fix_path_var env_dirs (fix_path_var env_dirs p) = fix_path_var env_dirs p"
proof -
  let ?front = "front_dirs (separate_dir_list env_dirs) [''bin'', ''sbin'']"
  have "[] \<notin> set ?front"
    using front_dirs_bin by blast
  then show ?thesis
    unfolding fix_path_var_def [of env_dirs "fix_path_var env_dirs p"] separate_fix_path [OF assms]
    by (simp add: prepend_dirs_eq keep_existing_again keep_existing_kept fix_path_var_def)
qed

end
