(* ===== verification/Env_Diff.thy ===== *)
theory Env_Diff
  imports Path_Vars Ordered_Map "HOL-Library.Countable"
begin

text \<open>
  What an activation changes in the environment of a shell and how deactivation undoes it
  (\<open>flox-activations/src/env_diff.rs\<close>, \<open>start_diff.rs\<close>, \<open>vars_from_env.rs\<close>,
  \<open>attach_diff/mod.rs\<close>, \<open>attach_diff/diff_serializer.rs\<close>, the end of \<open>deactivate.rs\<close>, and
  \<open>shell_gen/src/lib.rs\<close>). The environment of a process is a map of strings. The text
  form of a diff (JSON, zlib, base64) is a pair of parameters \<open>encode\<close> and \<open>decode\<close>, the
  quoting of the \<open>shell_escape\<close> crate the parameter \<open>esc\<close>.
\<close>

section \<open>Shell statements\<close>

datatype Shell = Bash | Zsh | Tcsh | Fish

record SetVar =
  sv_exported :: bool
  sv_allow_expansion :: bool
  sv_name :: string
  sv_value :: string

datatype Statement = SetVarStmt SetVar | UnsetVarStmt string | SourceStmt string | LiteralStmt string

definition exported_no_expansion :: "string \<Rightarrow> string \<Rightarrow> Statement" where
  "exported_no_expansion name value =
     SetVarStmt \<lparr> sv_exported = True, sv_allow_expansion = False, sv_name = name, sv_value = value \<rparr>"

definition not_exported_no_expansion :: "string \<Rightarrow> string \<Rightarrow> Statement" where
  "not_exported_no_expansion name value =
     SetVarStmt \<lparr> sv_exported = False, sv_allow_expansion = False, sv_name = name, sv_value = value \<rparr>"

definition double_quoted :: "string \<Rightarrow> string" where
  "double_quoted s = [CHR 0x22] @ s @ [CHR 0x22]"

fun set_command :: "Shell \<Rightarrow> bool \<Rightarrow> string \<Rightarrow> string \<Rightarrow> string" where
  "set_command Bash True name v = ''export '' @ name @ ''='' @ v @ '';''"
| "set_command Bash False name v = name @ ''='' @ v @ '';''"
| "set_command Zsh True name v = ''export '' @ name @ ''='' @ v @ '';''"
| "set_command Zsh False name v = ''typeset -g '' @ name @ ''='' @ v @ '';''"
| "set_command Tcsh True name v = ''setenv '' @ name @ '' '' @ v @ '';''"
| "set_command Tcsh False name v = ''set '' @ name @ '' = '' @ v @ '';''"
| "set_command Fish True name v = ''set -gx '' @ name @ '' '' @ v @ '';''"
| "set_command Fish False name v = ''set -g '' @ name @ '' '' @ v @ '';''"

definition generate_set :: "(string \<Rightarrow> string) \<Rightarrow> Shell \<Rightarrow> SetVar \<Rightarrow> string" where
  "generate_set esc shell v =
     set_command shell (sv_exported v) (sv_name v)
       (if sv_allow_expansion v then double_quoted (sv_value v) else esc (sv_value v))"

fun unset_command :: "Shell \<Rightarrow> string \<Rightarrow> string" where
  "unset_command Bash name = ''unset '' @ name @ '';''"
| "unset_command Zsh name = ''unset '' @ name @ '';''"
| "unset_command Tcsh name = ''unsetenv '' @ name @ '';''"
| "unset_command Fish name = ''set -e '' @ name @ '';''"

fun generate_stmt :: "(string \<Rightarrow> string) \<Rightarrow> Shell \<Rightarrow> Statement \<Rightarrow> string" where
  "generate_stmt esc shell (SetVarStmt v) = generate_set esc shell v"
| "generate_stmt esc shell (UnsetVarStmt name) = unset_command shell name"
| "generate_stmt esc shell (SourceStmt path) = ''source '' @ esc path @ '';''"
| "generate_stmt esc shell (LiteralStmt s) = s"

definition generate_with_newline :: "(string \<Rightarrow> string) \<Rightarrow> Shell \<Rightarrow> Statement \<Rightarrow> string" where
  "generate_with_newline esc shell s = generate_stmt esc shell s @ newline"

definition set_var_not_exported :: "(string \<Rightarrow> string) \<Rightarrow> Shell \<Rightarrow> string \<Rightarrow> string \<Rightarrow> string" where
  "set_var_not_exported esc shell var value = set_command shell False var (esc value)"

definition self_pid_var :: "Shell \<Rightarrow> string" where
  "self_pid_var shell = (case shell of Fish \<Rightarrow> ''$fish_pid'' | _ \<Rightarrow> ''$$'')"

section \<open>Differences of environments\<close>

type_synonym env = "(string, string) bmap"

record EnvDiff =
  additions :: env
  deletions :: "string list"

definition BASH_EXPORTED_FUNC_PREFIX :: string where
  "BASH_EXPORTED_FUNC_PREFIX = ''BASH_FUNC_''"

text \<open>What the start hooks of the environment added and removed.\<close>

definition start_diff_from_envs :: "env \<Rightarrow> env \<Rightarrow> EnvDiff" where
  "start_diff_from_envs start_env end_env =
     \<lparr> additions = foldl (\<lambda>acc (key, v).
         if strip_prefix BASH_EXPORTED_FUNC_PREFIX key \<noteq> None then acc
         else if bm_get start_env key \<noteq> Some v then bm_insert key v acc
         else acc) [] end_env,
       deletions = filter (\<lambda>key. \<not> (strip_prefix BASH_EXPORTED_FUNC_PREFIX key \<noteq> None) \<and>
         \<not> bm_contains end_env key) (bm_keys start_env) \<rparr>"

record AttachCtx =
  actx_env :: string
  actx_env_cache :: string
  actx_env_description :: string
  actx_active_environments :: string
  actx_prompt_color_1 :: string
  actx_prompt_color_2 :: string
  actx_prompt_environments :: string
  actx_set_prompt :: bool
  actx_cuda_detection :: string
  actx_interpreter_path :: string

record AttachProjectCtx =
  apc_env_project :: string
  apc_dot_flox_path :: string
  apc_log_dir :: string
  apc_process_compose_bin :: string
  apc_services_socket :: string
  apc_services_to_start :: "string list"

record VarsFromEnvironment =
  vfe_flox_env_dirs :: "string option"
  vfe_path :: "string option"
  vfe_manpath :: "string option"
  vfe_full_env :: "env option"

definition vars_with_snapshot :: "env \<Rightarrow> VarsFromEnvironment" where
  "vars_with_snapshot all_vars =
     \<lparr> vfe_flox_env_dirs = bm_get all_vars ''FLOX_ENV_DIRS'', vfe_path = bm_get all_vars ''PATH'',
       vfe_manpath = bm_get all_vars ''MANPATH'', vfe_full_env = Some all_vars \<rparr>"

definition FLOX_HOOK_DIFF_VAR :: string where "FLOX_HOOK_DIFF_VAR = ''_FLOX_HOOK_DIFF''"
definition FLOX_INVOCATION_TYPE_VAR :: string where "FLOX_INVOCATION_TYPE_VAR = ''_FLOX_INVOCATION_TYPE''"
definition FLOX_ACTIVE_ENVIRONMENTS_VAR :: string where
  "FLOX_ACTIVE_ENVIRONMENTS_VAR = ''_FLOX_ACTIVE_ENVIRONMENTS''"

text \<open>
  The variables set at build time (certificates, locales) depend on the environment and on
  constants of the build: \<open>nix_vars\<close> is what \<open>default_nix_env_vars\<close> returned and \<open>bin\<close>
  the path of \<open>flox-activations\<close>.
\<close>

definition single_set_envs :: "env \<Rightarrow> string \<Rightarrow> AttachCtx \<Rightarrow> env" where
  "single_set_envs nix_vars bin ctx =
     bm_extend (bm_extend []
       [(FLOX_ACTIVE_ENVIRONMENTS_VAR, actx_active_environments ctx),
        (''FLOX_PROMPT_COLOR_1'', actx_prompt_color_1 ctx),
        (''FLOX_PROMPT_COLOR_2'', actx_prompt_color_2 ctx),
        (''FLOX_PROMPT_ENVIRONMENTS'', actx_prompt_environments ctx),
        (''_flox_activations'', bin)]) nix_vars"

definition double_set_envs :: "AttachCtx \<Rightarrow> AttachProjectCtx option \<Rightarrow> EnvDiff" where
  "double_set_envs ctx project =
     (let exports = bm_extend []
        [(''FLOX_ACTIVATE_START_SERVICES'',
            if \<exists>p \<in> set_option project. apc_services_to_start p \<noteq> [] then ''true'' else ''false''),
         (''FLOX_ENV'', actx_env ctx),
         (''FLOX_ENV_CACHE'', actx_env_cache ctx),
         (''FLOX_ENV_DESCRIPTION'', actx_env_description ctx)]
      in case project of
           Some p \<Rightarrow> \<lparr> additions = bm_insert ''FLOX_ENV_PROJECT'' (apc_env_project p) exports, deletions = [] \<rparr>
         | None \<Rightarrow> \<lparr> additions = exports, deletions = [''FLOX_ENV_PROJECT''] \<rparr>)"

definition fixed_vars_to_export :: "string \<Rightarrow> VarsFromEnvironment \<Rightarrow> env" where
  "fixed_vars_to_export flox_env vars =
     (let or_empty = (\<lambda>v. case v of Some s \<Rightarrow> s | None \<Rightarrow> '''');
          new_env_dirs = fix_env_dirs_var flox_env (or_empty (vfe_flox_env_dirs vars));
          new_path = fix_path_var new_env_dirs (or_empty (vfe_path vars));
          new_manpath = fix_manpath_var new_env_dirs (or_empty (vfe_manpath vars))
      in bm_extend [] [(''FLOX_ENV_DIRS'', new_env_dirs), (''PATH'', new_path), (''MANPATH'', new_manpath)])"

definition non_in_place_exports :: "string \<Rightarrow> AttachCtx \<Rightarrow> nat \<Rightarrow> VarsFromEnvironment \<Rightarrow> env" where
  "non_in_place_exports tracer ctx subsystem_verbosity vars =
     bm_extend (bm_extend []
       [(''_flox_activate_tracelevel'', show_nat subsystem_verbosity),
        (''_flox_activate_tracer'', tracer),
        (''_activate_d'', path_join (actx_interpreter_path ctx) ''activate.d'')])
       (fixed_vars_to_export (actx_env ctx) vars)"

section \<open>The diff that deactivation restores\<close>

record DiffSerializer =
  added :: "string set"
  modified :: env
  removed :: env

definition record_set :: "env \<Rightarrow> DiffSerializer \<Rightarrow> string \<Rightarrow> DiffSerializer" where
  "record_set current_env d k =
     (case bm_get current_env k of
        None \<Rightarrow> d\<lparr> added := insert k (added d) \<rparr>
      | Some old_val \<Rightarrow> d\<lparr> modified := bm_insert k old_val (modified d) \<rparr>)"

definition record_removal :: "env \<Rightarrow> DiffSerializer \<Rightarrow> string \<Rightarrow> DiffSerializer" where
  "record_removal current_env d k =
     (case bm_get current_env k of
        None \<Rightarrow> d
      | Some old_val \<Rightarrow> d\<lparr> removed := bm_insert k old_val (removed d) \<rparr>)"

definition diff_env :: "env \<Rightarrow> string list \<Rightarrow> string list \<Rightarrow> DiffSerializer" where
  "diff_env current_env intended_sets intended_removals =
     foldl (record_removal current_env)
       (foldl (record_set current_env) \<lparr> added = {}, modified = [], removed = [] \<rparr> intended_sets)
       intended_removals"

record AttachDiff =
  single_sets :: env
  non_in_place_sets :: env
  double_sets :: EnvDiff
  encoded_diff :: "string option"

definition in_place_tracked :: "string list" where
  "in_place_tracked =
     [''FLOX_ENV_DIRS'', ''PATH'', ''MANPATH'', FLOX_HOOK_DIFF_VAR, FLOX_INVOCATION_TYPE_VAR]"

text \<open>The sets of names are lists of names, in the order in which the code extends them.\<close>

definition attach_diff_new ::
  "(DiffSerializer \<Rightarrow> string) \<Rightarrow> env \<Rightarrow> string \<Rightarrow> string \<Rightarrow> AttachCtx \<Rightarrow> AttachProjectCtx option \<Rightarrow> nat
     \<Rightarrow> VarsFromEnvironment \<Rightarrow> EnvDiff \<Rightarrow> bool \<Rightarrow> AttachDiff" where
  "attach_diff_new encode nix_vars bin tracer ctx project subsystem_verbosity vars start_diff is_in_place =
     (let full_env = vfe_full_env vars;
          single = single_set_envs nix_vars bin ctx;
          double0 = double_set_envs ctx project;
          non_in_place = (if is_in_place then []
            else bm_extend [] (non_in_place_exports tracer ctx subsystem_verbosity (vars\<lparr> vfe_full_env := None \<rparr>)));
          double = \<lparr> additions = bm_extend (additions double0) (additions start_diff),
                     deletions = deletions double0 @ deletions start_diff \<rparr>;
          encoded = (case full_env of
              None \<Rightarrow> None
            | Some current_env \<Rightarrow>
                let intended_sets = (if is_in_place then in_place_tracked else bm_keys non_in_place) @
                      bm_keys single @ bm_keys (additions double)
                in Some (encode (diff_env current_env intended_sets (deletions double))))
      in \<lparr> single_sets = single, non_in_place_sets = non_in_place, double_sets = double, encoded_diff = encoded \<rparr>)"

text \<open>The environment of a command, and the statements of a startup script.\<close>

definition env_remove :: "env \<Rightarrow> string \<Rightarrow> env" where
  "env_remove e v = bm_remove v e"

definition apply_to_command :: "AttachDiff \<Rightarrow> env \<Rightarrow> env" where
  "apply_to_command ad command =
     (let c1 = bm_extend (bm_extend (bm_extend command (non_in_place_sets ad)) (single_sets ad))
                 (additions (double_sets ad));
          c2 = foldl env_remove c1 (deletions (double_sets ad))
      in case encoded_diff ad of Some d \<Rightarrow> bm_insert FLOX_HOOK_DIFF_VAR d c2 | None \<Rightarrow> c2)"

definition generate_statements :: "AttachDiff \<Rightarrow> bool \<Rightarrow> Statement list" where
  "generate_statements ad is_in_place =
     (if is_in_place then
        map (\<lambda>(k, v). exported_no_expansion k v) (single_sets ad) @
        (case encoded_diff ad of Some d \<Rightarrow> [exported_no_expansion FLOX_HOOK_DIFF_VAR d] | None \<Rightarrow> [])
      else []) @
     map (\<lambda>(k, v). exported_no_expansion k v) (additions (double_sets ad)) @
     map UnsetVarStmt (sort (deletions (double_sets ad)))"

definition generate_deactivation_statements :: "DiffSerializer \<Rightarrow> Statement list" where
  "generate_deactivation_statements d =
     map UnsetVarStmt (sorted_list_of_set (added d)) @
     map (\<lambda>(k, v). exported_no_expansion k v) (modified d) @
     map (\<lambda>(k, v). exported_no_expansion k v) (removed d) @
     map UnsetVarStmt (filter (\<lambda>var. var \<notin> added d \<and> \<not> bm_contains (modified d) var)
       [FLOX_HOOK_DIFF_VAR, FLOX_INVOCATION_TYPE_VAR])"

definition is_outermost_deactivate :: "DiffSerializer \<Rightarrow> bool" where
  "is_outermost_deactivate d =
     (if FLOX_ACTIVE_ENVIRONMENTS_VAR \<in> added d then True
      else case bm_get (modified d) FLOX_ACTIVE_ENVIRONMENTS_VAR of
             Some active_environments \<Rightarrow> active_environments = []
           | None \<Rightarrow> False)"

definition embedded_hook_diff :: "(string \<Rightarrow> string + DiffSerializer) \<Rightarrow> string \<Rightarrow> string + string option" where
  "embedded_hook_diff decode encoded =
     map_ok (\<lambda>d. bm_get (modified d) FLOX_HOOK_DIFF_VAR) (decode encoded)"

section \<open>Running statements\<close>

text \<open>
  The environment of the shell while it evaluates a script. Exported assignments without
  expansion and removals have the meaning that every supported shell gives them; all other
  statements are shell code with the unknown meaning \<open>sh\<close>.
\<close>

type_synonym shell_env = "string \<Rightarrow> string option"

definition run_stmt :: "(Statement \<Rightarrow> shell_env \<Rightarrow> shell_env) \<Rightarrow> Statement \<Rightarrow> shell_env \<Rightarrow> shell_env" where
  "run_stmt sh st e =
     (case st of
        SetVarStmt v \<Rightarrow> if sv_exported v \<and> \<not> sv_allow_expansion v then e(sv_name v \<mapsto> sv_value v) else sh st e
      | UnsetVarStmt name \<Rightarrow> e(name := None)
      | _ \<Rightarrow> sh st e)"

abbreviation run_stmts :: "(Statement \<Rightarrow> shell_env \<Rightarrow> shell_env) \<Rightarrow> Statement list \<Rightarrow> shell_env \<Rightarrow> shell_env" where
  "run_stmts sh \<equiv> fold (run_stmt sh)"

section \<open>Deactivation undoes activation\<close>

text \<open>
  The variables that an in-place activation sets, and those that it removes where they were set.
\<close>

definition tracked :: "env \<Rightarrow> AttachDiff \<Rightarrow> string set" where
  "tracked snapshot ad = set in_place_tracked \<union> set (bm_keys (single_sets ad)) \<union>
     set (bm_keys (additions (double_sets ad))) \<union>
     {v \<in> set (deletions (double_sets ad)). bm_get snapshot v \<noteq> None}"

lemma record_set_fields:
  "added (record_set e d k) = (if bm_get e k = None then insert k (added d) else added d)"
  "bm_inv (modified d) \<Longrightarrow> bm_get (modified (record_set e d k)) v =
     (if v = k \<and> bm_get e k \<noteq> None then bm_get e k else bm_get (modified d) v)"
  "bm_inv (modified d) \<Longrightarrow> bm_inv (modified (record_set e d k))"
  "removed (record_set e d k) = removed d"
  by (auto simp: record_set_def bm_get_insert bm_inv_insert split: option.splits)

lemma record_removal_fields:
  "added (record_removal e d k) = added d"
  "modified (record_removal e d k) = modified d"
  "bm_inv (removed d) \<Longrightarrow> bm_get (removed (record_removal e d k)) v =
     (if v = k \<and> bm_get e k \<noteq> None then bm_get e k else bm_get (removed d) v)"
  "bm_inv (removed d) \<Longrightarrow> bm_inv (removed (record_removal e d k))"
  by (auto simp: record_removal_def bm_get_insert bm_inv_insert split: option.splits)

lemma record_sets_fields:
  "bm_inv (modified d) \<Longrightarrow> added (foldl (record_set e) d ks) = added d \<union> {k \<in> set ks. bm_get e k = None} \<and>
   bm_get (modified (foldl (record_set e) d ks)) v =
     (if v \<in> set ks \<and> bm_get e v \<noteq> None then bm_get e v else bm_get (modified d) v) \<and>
   bm_inv (modified (foldl (record_set e) d ks)) \<and>
   removed (foldl (record_set e) d ks) = removed d"
  by (induction ks arbitrary: d) (auto simp: record_set_fields)

lemma record_removals_fields:
  "bm_inv (removed d) \<Longrightarrow> added (foldl (record_removal e) d ks) = added d \<and>
   modified (foldl (record_removal e) d ks) = modified d \<and>
   bm_get (removed (foldl (record_removal e) d ks)) v =
     (if v \<in> set ks \<and> bm_get e v \<noteq> None then bm_get e v else bm_get (removed d) v) \<and>
   bm_inv (removed (foldl (record_removal e) d ks))"
  by (induction ks arbitrary: d) (auto simp: record_removal_fields)

lemma diff_env_fields:
  "added (diff_env e sets removals) = {k \<in> set sets. bm_get e k = None}"
  "bm_get (modified (diff_env e sets removals)) v = (if v \<in> set sets then bm_get e v else None)"
  "bm_get (removed (diff_env e sets removals)) v = (if v \<in> set removals then bm_get e v else None)"
  "bm_inv (modified (diff_env e sets removals))" "bm_inv (removed (diff_env e sets removals))"
  using record_sets_fields [of "\<lparr> added = {}, modified = [], removed = [] \<rparr>" e sets v]
    record_removals_fields [of "foldl (record_set e) \<lparr> added = {}, modified = [], removed = [] \<rparr> sets" e removals v]
  by (auto simp: diff_env_def)

lemma run_exported [simp]: "run_stmt sh (exported_no_expansion k w) e = e(k \<mapsto> w)"
  by (simp add: run_stmt_def exported_no_expansion_def)

lemma run_unsets: "run_stmts sh (map UnsetVarStmt names) e v = (if v \<in> set names then None else e v)"
  by (induction names arbitrary: e) (auto simp: run_stmt_def)

lemma run_sets:
  "bm_inv m \<Longrightarrow> run_stmts sh (map (\<lambda>(k, v). exported_no_expansion k v) m) e x =
     (case bm_get m x of Some v \<Rightarrow> Some v | None \<Rightarrow> e x)"
proof (induction m arbitrary: e)
  case (Cons kv m)
  obtain k w where kv: "kv = (k, w)"
    by (metis surj_pair)
  then have "bm_inv m" "bm_get m k = None"
    using Cons.prems by (auto simp: bm_inv_def map_of_eq_None_iff)
  then show ?case
    using Cons.IH by (auto simp: kv split: option.splits)
qed simp

text \<open>Running the deactivation statements of a diff restores exactly the variables it is about.\<close>

lemma run_deactivation:
  assumes "bm_get snapshot = e" and "FLOX_HOOK_DIFF_VAR \<in> set sets" "FLOX_INVOCATION_TYPE_VAR \<in> set sets"
  shows "run_stmts sh (generate_deactivation_statements (diff_env snapshot sets removals)) e' v =
    (if v \<in> set sets \<or> v \<in> set removals \<and> e v \<noteq> None then e v else e' v)"
proof -
  let ?d = "diff_env snapshot sets removals"
  have none: "filter (\<lambda>var. var \<notin> added ?d \<and> \<not> bm_contains (modified ?d) var)
      [FLOX_HOOK_DIFF_VAR, FLOX_INVOCATION_TYPE_VAR] = []"
    using assms(2,3) by (auto simp: diff_env_fields bm_contains_def)
  have "finite (added ?d)"
    by (simp add: diff_env_fields)
  then show ?thesis
    unfolding generate_deactivation_statements_def none
    by (auto simp: run_sets run_unsets diff_env_fields assms(1) split: option.splits)
qed

lemma attach_diff_new_in_place:
  assumes "ad = attach_diff_new encode nix_vars bin tracer ctx project verbosity (vars_with_snapshot snapshot) start_diff True"
  obtains sets where "encoded_diff ad = Some (encode (diff_env snapshot sets (deletions (double_sets ad))))"
    "tracked snapshot ad = set sets \<union> {v \<in> set (deletions (double_sets ad)). bm_get snapshot v \<noteq> None}"
    "FLOX_HOOK_DIFF_VAR \<in> set sets" "FLOX_INVOCATION_TYPE_VAR \<in> set sets"
proof -
  let ?sets = "in_place_tracked @ bm_keys (single_sets ad) @ bm_keys (additions (double_sets ad))"
  have "encoded_diff ad = Some (encode (diff_env snapshot ?sets (deletions (double_sets ad))))"
    by (simp add: assms attach_diff_new_def vars_with_snapshot_def Let_def)
  moreover have "tracked snapshot ad = set ?sets \<union> {v \<in> set (deletions (double_sets ad)). bm_get snapshot v \<noteq> None}"
    by (auto simp: tracked_def)
  moreover have "FLOX_HOOK_DIFF_VAR \<in> set ?sets" "FLOX_INVOCATION_TYPE_VAR \<in> set ?sets"
    by (simp_all add: in_place_tracked_def)
  ultimately show thesis
    using that by blast
qed

lemma diff_env_finite: "finite (added (diff_env e sets removals))"
  by (simp add: diff_env_fields)

text \<open>What the statements of an in-place activation lead to, unless the hooks set the diff.\<close>

lemma attach_diff_new_parts:
  assumes "ad = attach_diff_new encode nix_vars bin tracer ctx project verbosity vars start_diff is_in_place"
  shows "bm_inv (single_sets ad)" "bm_inv (additions (double_sets ad))"
    "bm_get (additions (double_sets ad)) FLOX_HOOK_DIFF_VAR =
      (case bm_get (rev (additions start_diff)) FLOX_HOOK_DIFF_VAR of Some v \<Rightarrow> Some v | None \<Rightarrow> None)"
    "FLOX_HOOK_DIFF_VAR \<in> set (deletions (double_sets ad)) \<longleftrightarrow> FLOX_HOOK_DIFF_VAR \<in> set (deletions start_diff)"
  by (auto simp: assms attach_diff_new_def Let_def single_set_envs_def double_set_envs_def FLOX_HOOK_DIFF_VAR_def
      bm_extend_get bm_inv_insert bm_get_insert split: option.splits)

lemma run_generated:
  assumes "bm_inv (single_sets ad)" "bm_inv (additions (double_sets ad))"
  shows "run_stmts sh (generate_statements ad True) e v =
    (if v \<in> set (deletions (double_sets ad)) then None
     else case bm_get (additions (double_sets ad)) v of Some w \<Rightarrow> Some w
     | None \<Rightarrow> if v = FLOX_HOOK_DIFF_VAR \<and> encoded_diff ad \<noteq> None then encoded_diff ad
       else case bm_get (single_sets ad) v of Some w \<Rightarrow> Some w | None \<Rightarrow> e v)"
  using assms
  by (auto simp: generate_statements_def run_sets run_unsets split: option.splits)

lemma in_place_script:
  assumes "ad = attach_diff_new encode nix_vars bin tracer ctx project verbosity (vars_with_snapshot snapshot) start_diff True"
    and "FLOX_HOOK_DIFF_VAR \<notin> set (bm_keys (additions start_diff))" "FLOX_HOOK_DIFF_VAR \<notin> set (deletions start_diff)"
  shows "run_stmts sh (generate_statements ad True) e FLOX_HOOK_DIFF_VAR = encoded_diff ad"
    and "v \<notin> tracked snapshot ad \<Longrightarrow> e v = bm_get snapshot v \<Longrightarrow>
      run_stmts sh (generate_statements ad True) e v = bm_get snapshot v"
proof -
  note parts = attach_diff_new_parts [OF assms(1)]
  have none: "bm_get (rev (additions start_diff)) FLOX_HOOK_DIFF_VAR = None"
    using assms(2) by (auto simp: map_of_eq_None_iff bm_keys_def)
  have some: "encoded_diff ad \<noteq> None"
    by (rule attach_diff_new_in_place [OF assms(1)]) simp
  show "run_stmts sh (generate_statements ad True) e FLOX_HOOK_DIFF_VAR = encoded_diff ad"
    using none some parts(3,4) assms(3) by (simp add: run_generated [OF parts(1,2)])
  assume v: "v \<notin> tracked snapshot ad" "e v = bm_get snapshot v"
  then have "bm_get (single_sets ad) v = None" "bm_get (additions (double_sets ad)) v = None"
    "v \<noteq> FLOX_HOOK_DIFF_VAR" "v \<in> set (deletions (double_sets ad)) \<Longrightarrow> bm_get snapshot v = None"
    by (auto simp: tracked_def in_place_tracked_def bm_keys_def map_of_eq_None_iff)
  then show "run_stmts sh (generate_statements ad True) e v = bm_get snapshot v"
    by (simp add: run_generated [OF parts(1,2)] v(2))
qed

text \<open>
  When the hooks of the environment set the diff themselves (by activating another environment),
  the startup script leaves theirs in place of the one of this activation, while a command that
  is executed directly gets the diff of the activation.
\<close>

lemma hook_diff_of_hooks_wins:
  assumes "ad = attach_diff_new encode nix_vars bin tracer ctx project verbosity (vars_with_snapshot snapshot) start_diff True"
    and "bm_inv (additions start_diff)" "bm_get (additions start_diff) FLOX_HOOK_DIFF_VAR = Some x"
    and "FLOX_HOOK_DIFF_VAR \<notin> set (deletions start_diff)" "bm_inv command"
  shows "run_stmts sh (generate_statements ad True) e FLOX_HOOK_DIFF_VAR = Some x"
    and "bm_get (apply_to_command ad command) FLOX_HOOK_DIFF_VAR = encoded_diff ad"
proof -
  note parts = attach_diff_new_parts [OF assms(1)]
  have "bm_get (rev (additions start_diff)) FLOX_HOOK_DIFF_VAR = Some x"
    using assms(2,3) by (simp add: bm_inv_def strict_sorted_iff map_of_eq_Some_iff rev_map [symmetric])
  then show "run_stmts sh (generate_statements ad True) e FLOX_HOOK_DIFF_VAR = Some x"
    using parts(3,4) assms(3,4) by (simp add: run_generated [OF parts(1,2)])
  have inv: "bm_inv (foldl env_remove c vs)" if "bm_inv c" for c vs
    using that by (induction vs arbitrary: c) (auto simp: env_remove_def bm_inv_remove)
  have "bm_inv (foldl env_remove (bm_extend (bm_extend (bm_extend command (non_in_place_sets ad)) (single_sets ad))
      (additions (double_sets ad))) (deletions (double_sets ad)))"
    by (intro inv bm_extend_inv assms(5))
  moreover have "encoded_diff ad \<noteq> None"
    by (rule attach_diff_new_in_place [OF assms(1)]) simp
  ultimately show "bm_get (apply_to_command ad command) FLOX_HOOK_DIFF_VAR = encoded_diff ad"
    by (auto simp: apply_to_command_def Let_def bm_get_insert)
qed

end
