(* ===== verification/Gen_Rc.thy ===== *)
theory Gen_Rc
  imports Env_Diff
begin

text \<open>
  The scripts that a shell evaluates to activate and to deactivate an environment
  (\<open>flox-activations/src/gen_rc/\<close>, \<open>hook.rs\<close>, \<open>startup_ctx\<close> and \<open>write_to_writer\<close> of
  \<open>attach.rs\<close>, and \<open>deactivate.rs\<close>). Each shell has one list of statements per direction and,
  for an activation, the code that registers the prompt hook. The path of \<open>flox-activations\<close>
  (\<open>bin\<close>), that of \<open>rm\<close> and the quoting \<open>esc\<close> of the \<open>shell_escape\<close> crate are parameters.
\<close>

section \<open>Invocations\<close>

datatype InvocationKind = InPlace | Interactive | ShellCommand | ExecCommand

datatype InvocationType = InPlaceType | InteractiveType | ShellCommandType string | ExecCommandType "string list"

fun kind_of_type :: "InvocationType \<Rightarrow> InvocationKind" where
  "kind_of_type InPlaceType = InPlace"
| "kind_of_type InteractiveType = Interactive"
| "kind_of_type (ShellCommandType command) = ShellCommand"
| "kind_of_type (ExecCommandType command) = ExecCommand"

definition is_in_place :: "InvocationType \<Rightarrow> bool" where
  "is_in_place t \<longleftrightarrow> (case t of InPlaceType \<Rightarrow> True | _ \<Rightarrow> False)"

fun kind_display :: "InvocationKind \<Rightarrow> string" where
  "kind_display InPlace = ''inplace''"
| "kind_display Interactive = ''interactive''"
| "kind_display ShellCommand = ''shellcommand''"
| "kind_display ExecCommand = ''execcommand''"

definition invocation_display :: "InvocationType \<Rightarrow> string" where
  "invocation_display t = kind_display (kind_of_type t)"

datatype AutoActivateFishMode = EvalOnArrow | EvalAfterArrow | DisableArrow

fun fish_mode_display :: "AutoActivateFishMode \<Rightarrow> string" where
  "fish_mode_display EvalOnArrow = ''eval_on_arrow''"
| "fish_mode_display EvalAfterArrow = ''eval_after_arrow''"
| "fish_mode_display DisableArrow = ''disable_arrow''"

definition PROMPT_HOOK_VERSION :: nat where "PROMPT_HOOK_VERSION = 1"
definition PROMPT_HOOK_VERSION_ENV :: string where "PROMPT_HOOK_VERSION_ENV = ''_FLOX_PROMPT_HOOK_VERSION''"

section \<open>Pieces of shell code\<close>

definition dq :: string where "dq = [CHR 0x22]"
definition sq :: string where "sq = [CHR 0x27]"
definition bslash :: string where "bslash = [CHR 0x5C]"

definition bash_set_prompt :: "string \<Rightarrow> string" where
  "bash_set_prompt path =
     ''if [ -t 1 ]; then source '' @ sq @ path @ sq @ ''; fi;''"

definition bash_set_env_dirs :: "string \<Rightarrow> string \<Rightarrow> string" where
  "bash_set_env_dirs bin flox_env =
     ''eval '' @ dq @ ''$('' @ sq @ bin @ sq @ '' set-env-dirs --shell bash --flox-env '' @ dq @ flox_env @
     dq @ '' --env-dirs '' @ dq @ ''${FLOX_ENV_DIRS:-}'' @ dq @ '')'' @ dq @ '';''"

definition bash_fix_paths :: "string \<Rightarrow> string" where
  "bash_fix_paths bin =
     ''eval '' @ dq @ ''$('' @ sq @ bin @ sq @ '' fix-paths --shell bash --env-dirs '' @ dq @
     ''$FLOX_ENV_DIRS'' @ dq @ '' --path '' @ dq @ ''$PATH'' @ dq @ '' --manpath '' @ dq @
     ''${MANPATH:-}'' @ dq @ '')'' @ dq @ '';''"

definition bash_profile_scripts :: "string \<Rightarrow> string" where
  "bash_profile_scripts bin =
     ''eval '' @ dq @ ''$('' @ sq @ bin @ sq @
     '' profile-scripts --shell bash --already-sourced-env-dirs '' @ dq @
     ''${_FLOX_SOURCED_PROFILE_SCRIPTS:-}'' @ dq @ '' --env-dirs '' @ dq @ ''${FLOX_ENV_DIRS:-}'' @ dq @
     '')'' @ dq @ '';''"

definition posix_profile_scripts_deactivate :: "string \<Rightarrow> string \<Rightarrow> string \<Rightarrow> string" where
  "posix_profile_scripts_deactivate shell_name bin flox_env =
     ''eval '' @ dq @ ''$('' @ sq @ bin @ sq @ '' profile-scripts-deactivate --shell '' @ shell_name @
     '' --env '' @ sq @ flox_env @ sq @ '' --already-sourced-env-dirs '' @ dq @
     ''${_FLOX_SOURCED_PROFILE_SCRIPTS:-}'' @ dq @ '')'' @ dq @ '';''"

definition zsh_set_prompt :: "string \<Rightarrow> string" where
  "zsh_set_prompt path =
     ''if [[ -o interactive ]]; then source '' @ sq @ path @ sq @ ''; fi;''"

definition zsh_drop_rehash :: "string" where
  "zsh_drop_rehash =
     ''if [[ -o interactive ]]; then'' @ newline @ ''    autoload -Uz add-zsh-hook;'' @ newline @
     ''    add-zsh-hook -d precmd _flox_rehash;'' @ newline @
     ''    if (( ${+functions[_flox_rehash]} )); then'' @ newline @ ''        unfunction _flox_rehash;'' @
     newline @ ''    fi;'' @ newline @ ''fi;''"

definition zsh_restore_fpath :: "string" where
  "zsh_restore_fpath =
     ''if [[ -n '' @ dq @ ''${_FLOX_HOOK_SAVE_FPATH+set}'' @ dq @ '' ]]; then'' @ newline @
     ''    FPATH='' @ dq @ ''$_FLOX_HOOK_SAVE_FPATH'' @ dq @ '';'' @ newline @ ''    if [[ -n '' @ dq @
     ''${_FLOX_HOOK_SAVE_COMPINIT_DUMPFILE:-}'' @ dq @ '' ]]; then'' @ newline @
     ''        autoload -U compinit;'' @ newline @ ''        compinit -d '' @ dq @
     ''$_FLOX_HOOK_SAVE_COMPINIT_DUMPFILE'' @ dq @ '';'' @ newline @ ''    fi;'' @ newline @
     ''    unset _FLOX_HOOK_SAVE_FPATH _FLOX_HOOK_SAVE_COMPINIT_DUMPFILE;'' @ newline @ ''fi;''"

definition zsh_recompute_fpath :: "string \<Rightarrow> string" where
  "zsh_recompute_fpath bin =
     ''if [[ -n '' @ dq @ ''${_FLOX_HOOK_SAVE_FPATH+set}'' @ dq @ '' ]]; then'' @ newline @
     ''    _flox_deactivate_old_fpath='' @ dq @ ''$FPATH'' @ dq @ '';'' @ newline @ ''    source <('' @
     dq @ bin @ dq @ '' fix-fpath '' @ bslash @ newline @ ''        --colon-separated-fpath '' @ dq @
     ''$_FLOX_HOOK_SAVE_FPATH'' @ dq @ '' '' @ bslash @ newline @ ''        --env-dirs '' @ dq @
     ''${FLOX_ENV_DIRS:-}'' @ dq @ '');'' @ newline @ ''    if [[ '' @ dq @ ''$FPATH'' @ dq @ '' != '' @
     dq @ ''$_flox_deactivate_old_fpath'' @ dq @ '' ]]; then'' @ newline @
     ''        autoload -U compinit;'' @ newline @ ''        if [[ -n '' @ dq @ ''${FLOX_ENV_CACHE:-}'' @
     dq @ '' && -d '' @ dq @ ''${FLOX_ENV_CACHE}'' @ dq @ '' ]]; then'' @ newline @
     ''            compinit -d '' @ dq @ ''${FLOX_ENV_CACHE}/.zcompdump'' @ dq @ '';'' @ newline @
     ''        else'' @ newline @ ''            compinit;'' @ newline @ ''        fi;'' @ newline @
     ''    fi;'' @ newline @ ''    unset _flox_deactivate_old_fpath;'' @ newline @ ''fi;''"

definition fish_set_prompt :: "string \<Rightarrow> string" where
  "fish_set_prompt path =
     ''if isatty 1; source '' @ sq @ path @ sq @ ''; end;''"

definition fish_default_env_dirs :: "string" where
  "fish_default_env_dirs =
     ''set -gx FLOX_ENV_DIRS (if set -q FLOX_ENV_DIRS; echo '' @ dq @ ''$FLOX_ENV_DIRS'' @ dq @
     ''; else; echo empty; end);''"

definition fish_set_env_dirs :: "string \<Rightarrow> string \<Rightarrow> string" where
  "fish_set_env_dirs bin flox_env =
     bin @ '' set-env-dirs --shell fish --flox-env '' @ dq @ flox_env @ dq @ '' --env-dirs '' @ dq @
     ''$FLOX_ENV_DIRS'' @ dq @ '' | source;''"

definition fish_default_manpath :: "string" where
  "fish_default_manpath =
     ''set -gx MANPATH (if set -q MANPATH; echo '' @ dq @ ''$MANPATH'' @ dq @
     ''; else; echo empty; end);''"

definition fish_fix_paths :: "string \<Rightarrow> string" where
  "fish_fix_paths bin =
     bin @ '' fix-paths --shell fish --env-dirs '' @ dq @ ''$FLOX_ENV_DIRS'' @ dq @ '' --path '' @ dq @
     ''$PATH'' @ dq @ '' --manpath '' @ dq @ ''$MANPATH'' @ dq @ '' | source;''"

definition fish_default_sourced :: "string" where
  "fish_default_sourced =
     ''set -g  _FLOX_SOURCED_PROFILE_SCRIPTS (if set -q _FLOX_SOURCED_PROFILE_SCRIPTS; echo '' @ dq @
     ''$_FLOX_SOURCED_PROFILE_SCRIPTS'' @ dq @ ''; else; echo '' @ dq @ dq @ ''; end);''"

definition fish_profile_scripts :: "string \<Rightarrow> string" where
  "fish_profile_scripts bin =
     bin @ '' profile-scripts --shell fish --already-sourced-env-dirs  '' @ dq @
     ''$_FLOX_SOURCED_PROFILE_SCRIPTS'' @ dq @ '' --env-dirs '' @ dq @ ''$FLOX_ENV_DIRS'' @ dq @
     '' | source;''"

definition fish_profile_scripts_deactivate :: "string \<Rightarrow> string \<Rightarrow> string" where
  "fish_profile_scripts_deactivate bin flox_env =
     bin @ '' profile-scripts-deactivate --shell fish --env '' @ sq @ flox_env @ sq @
     '' --already-sourced-env-dirs (if set -q _FLOX_SOURCED_PROFILE_SCRIPTS; echo '' @ dq @
     ''$_FLOX_SOURCED_PROFILE_SCRIPTS'' @ dq @ ''; else; echo '' @ dq @ dq @ ''; end) | source;''"

definition tcsh_set_prompt :: "string \<Rightarrow> string" where
  "tcsh_set_prompt path =
     ''if ( $?tty ) then; source '' @ sq @ path @ sq @ ''; endif;''"

definition tcsh_default_env_dirs :: "string" where
  "tcsh_default_env_dirs =
     ''if (! $?FLOX_ENV_DIRS) setenv FLOX_ENV_DIRS '' @ dq @ ''empty'' @ dq @ '';''"

definition tcsh_set_env_dirs :: "string \<Rightarrow> string \<Rightarrow> string" where
  "tcsh_set_env_dirs bin flox_env =
     ''eval '' @ dq @ ''`'' @ sq @ bin @ sq @ '' set-env-dirs --shell tcsh --flox-env '' @ sq @ flox_env @
     sq @ '' --env-dirs $FLOX_ENV_DIRS:q`'' @ dq @ '';''"

definition tcsh_default_manpath :: "string" where
  "tcsh_default_manpath =
     ''if (! $?MANPATH) setenv MANPATH '' @ dq @ ''empty'' @ dq @ '';''"

definition tcsh_fix_paths :: "string \<Rightarrow> string" where
  "tcsh_fix_paths bin =
     ''eval '' @ dq @ ''`'' @ sq @ bin @ sq @
     '' fix-paths --shell tcsh --env-dirs $FLOX_ENV_DIRS:q --path $PATH:q --manpath $MANPATH:q`'' @ dq @
     '';''"

definition tcsh_already_sourced :: "string" where
  "tcsh_already_sourced =
     ''if ($?_FLOX_SOURCED_PROFILE_SCRIPTS) set _already_sourced_args = ( --already-sourced-env-dirs `echo $_FLOX_SOURCED_PROFILE_SCRIPTS:q` );''"

definition tcsh_profile_scripts :: "string \<Rightarrow> string" where
  "tcsh_profile_scripts bin =
     ''eval '' @ dq @ ''`'' @ sq @ bin @ sq @
     '' profile-scripts --shell tcsh --env-dirs $FLOX_ENV_DIRS:q $_already_sourced_args:q`'' @ dq @ '';''"

definition tcsh_profile_scripts_deactivate :: "string \<Rightarrow> string \<Rightarrow> string" where
  "tcsh_profile_scripts_deactivate bin flox_env =
     ''eval '' @ dq @ ''`'' @ sq @ bin @ sq @ '' profile-scripts-deactivate --shell tcsh --env '' @ sq @
     flox_env @ sq @ '' $_already_sourced_args:q`'' @ dq @ '';''"

section \<open>The prompt hook of each shell\<close>

definition bash_hook :: "string \<Rightarrow> string" where
  "bash_hook flox_bin =
     ''export '' @ PROMPT_HOOK_VERSION_ENV @ ''='' @ show_nat PROMPT_HOOK_VERSION @ '';'' @ newline @
     ''_flox_hook() {'' @ newline @ ''  local _prev_exit=$?;'' @ newline @ ''  local _flox_vars;'' @
     newline @ ''  _flox_vars='' @ dq @ ''$('' @ dq @ flox_bin @ dq @
     '' hook-env --shell bash --shell-pid $$ --invocation-type '' @ dq @
     ''${_FLOX_INVOCATION_TYPE:-inplace}'' @ dq @ '')'' @ dq @ '';'' @ newline @ ''  trap -- '' @ sq @ sq @
     '' SIGINT;'' @ newline @ ''  eval '' @ dq @ ''$_flox_vars'' @ dq @ '';'' @ newline @
     ''  trap - SIGINT;'' @ newline @ ''  return $_prev_exit;'' @ newline @ ''};'' @ newline @ ''if [[ '' @
     dq @ '';${PROMPT_COMMAND[*]:-};'' @ dq @ '' != *'' @ dq @ '';_flox_hook;'' @ dq @ ''* ]]; then'' @
     newline @ ''  if [[ '' @ dq @ ''$(declare -p PROMPT_COMMAND 2>&1)'' @ dq @ '' == '' @ dq @
     ''declare -a'' @ dq @ ''* ]]; then'' @ newline @ ''    PROMPT_COMMAND=(_flox_hook '' @ dq @
     ''${PROMPT_COMMAND[@]}'' @ dq @ '');'' @ newline @ ''  else'' @ newline @ ''    PROMPT_COMMAND='' @
     dq @ ''_flox_hook${PROMPT_COMMAND:+;$PROMPT_COMMAND}'' @ dq @ '';'' @ newline @ ''  fi;'' @ newline @
     ''fi;'' @ newline"

definition zsh_hook :: "string \<Rightarrow> string" where
  "zsh_hook flox_bin =
     ''export '' @ PROMPT_HOOK_VERSION_ENV @ ''='' @ show_nat PROMPT_HOOK_VERSION @ '';'' @ newline @
     ''_flox_hook() {'' @ newline @ ''  local _flox_vars;'' @ newline @ ''  _flox_vars='' @ dq @ ''$('' @
     dq @ flox_bin @ dq @ '' hook-env --shell zsh --shell-pid $$ --invocation-type '' @ dq @
     ''${_FLOX_INVOCATION_TYPE:-inplace}'' @ dq @ '')'' @ dq @ '';'' @ newline @ ''  trap -- '' @ sq @ sq @
     '' SIGINT;'' @ newline @ ''  eval '' @ dq @ ''$_flox_vars'' @ dq @ '';'' @ newline @
     ''  trap - SIGINT;'' @ newline @ ''};'' @ newline @ ''typeset -ag precmd_functions;'' @ newline @
     ''if (( ! ${+functions[_flox_hook]} )) || (( ! ${precmd_functions[(I)_flox_hook]} )); then'' @
     newline @ ''  precmd_functions=(_flox_hook $precmd_functions);'' @ newline @ ''fi;'' @ newline @
     ''typeset -ag chpwd_functions;'' @ newline @ ''if (( ! ${chpwd_functions[(I)_flox_hook]} )); then'' @
     newline @ ''  chpwd_functions=(_flox_hook $chpwd_functions);'' @ newline @ ''fi;'' @ newline"

definition fish_hook :: "string \<Rightarrow> string" where
  "fish_hook flox_bin =
     ''set -gx '' @ PROMPT_HOOK_VERSION_ENV @ '' '' @ show_nat PROMPT_HOOK_VERSION @ '';'' @ newline @
     ''function _flox_invocation_type;'' @ newline @ ''    test -n '' @ dq @ ''$_FLOX_INVOCATION_TYPE'' @
     dq @ ''; and echo $_FLOX_INVOCATION_TYPE; or echo inplace;'' @ newline @ ''end;'' @ newline @
     ''function _flox_hook --on-event fish_prompt;'' @ newline @ ''    eval ('' @ dq @ flox_bin @ dq @
     '' hook-env --shell fish --shell-pid $fish_pid --invocation-type (_flox_invocation_type) | string collect);'' @
     newline @ ''    if test '' @ dq @ ''$FLOX_AUTO_ACTIVATE_FISH_MODE'' @ dq @ '' != '' @ dq @
     ''disable_arrow'' @ dq @ '';'' @ newline @ ''        set -g _flox_pwd_hook_active 1;'' @ newline @
     ''    end;'' @ newline @ ''end;'' @ newline @ ''function _flox_hook_pwd --on-variable PWD;'' @
     newline @ ''    if set -q _flox_pwd_hook_active;'' @ newline @ ''        if test '' @ dq @
     ''$FLOX_AUTO_ACTIVATE_FISH_MODE'' @ dq @ '' = '' @ dq @ ''eval_after_arrow'' @ dq @ '';'' @ newline @
     ''            set -g _flox_env_again 0;'' @ newline @ ''        else;'' @ newline @
     ''            eval ('' @ dq @ flox_bin @ dq @
     '' hook-env --shell fish --shell-pid $fish_pid --invocation-type (_flox_invocation_type) | string collect);'' @
     newline @ ''        end;'' @ newline @ ''    end;'' @ newline @ ''end;'' @ newline @
     ''function _flox_hook_preexec --on-event fish_preexec;'' @ newline @
     ''    if set -q _flox_env_again;'' @ newline @ ''        set -e _flox_env_again;'' @ newline @
     ''        eval ('' @ dq @ flox_bin @ dq @
     '' hook-env --shell fish --shell-pid $fish_pid --invocation-type (_flox_invocation_type) | string collect);'' @
     newline @ ''    end;'' @ newline @ ''    set -e _flox_pwd_hook_active;'' @ newline @ ''end;'' @
     newline"

definition tcsh_hook_body :: "string \<Rightarrow> string" where
  "tcsh_hook_body flox_bin =
     ''set _flox_invocation_type=inplace; if ( $?_FLOX_INVOCATION_TYPE ) set _flox_invocation_type='' @
     dq @ ''$_FLOX_INVOCATION_TYPE'' @ dq @ ''; eval '' @ dq @ ''`'' @ flox_bin @
     '' hook-env --shell tcsh --shell-pid $$ --invocation-type '' @ dq @ ''$_flox_invocation_type'' @ dq @
     ''`'' @ dq @ ''; unset _flox_invocation_type; if ( $?_flox_exit ) exit''"

definition tcsh_hook :: "string \<Rightarrow> string" where
  "tcsh_hook flox_bin =
     ''setenv '' @ PROMPT_HOOK_VERSION_ENV @ '' '' @ show_nat PROMPT_HOOK_VERSION @ '';'' @ newline @
     ''alias precmd '' @ sq @ tcsh_hook_body flox_bin @ sq @ '';'' @ newline @ ''alias cwdcmd '' @ sq @
     tcsh_hook_body flox_bin @ sq @ '';'' @ newline"

section \<open>Arguments of the scripts\<close>

record BashStartupArgs =
  bash_tracelevel :: nat
  bash_activate_d :: string
  bash_flox_env :: string
  bash_invocation_type :: InvocationType
  bash_clean_up :: "string option"
  bash_bashrc_path :: "string option"
  bash_tracer :: string
  bash_sourcing_rc :: bool
  bash_flox_activations :: string
  bash_register_hook :: bool
  bash_flox_bin :: string
  bash_set_prompt_flag :: bool

record ZshStartupArgs =
  zsh_tracelevel :: nat
  zsh_activate_d :: string
  zsh_invocation_type :: InvocationType
  zsh_clean_up :: "string option"
  zsh_register_hook :: bool
  zsh_flox_bin :: string
  zsh_set_prompt_flag :: bool

record FishStartupArgs =
  fish_tracelevel :: nat
  fish_activate_d :: string
  fish_flox_env :: string
  fish_invocation_type :: InvocationType
  fish_clean_up :: "string option"
  fish_sourcing_rc :: bool
  fish_tracer :: string
  fish_flox_activations :: string
  fish_register_hook :: bool
  fish_flox_bin :: string
  fish_auto_activate_mode :: "AutoActivateFishMode option"
  fish_set_prompt_flag :: bool

record TcshStartupArgs =
  tcsh_tracelevel :: nat
  tcsh_activate_d :: string
  tcsh_flox_env :: string
  tcsh_invocation_type :: InvocationType
  tcsh_clean_up :: "string option"
  tcsh_tracer :: string
  tcsh_sourcing_rc :: bool
  tcsh_flox_activations :: string
  tcsh_register_hook :: bool
  tcsh_flox_bin :: string
  tcsh_set_prompt_flag :: bool

record DeactivateCtx =
  dc_activate_d :: string
  dc_flox_env :: string
  dc_tracelevel :: nat
  dc_restore_diff :: DiffSerializer
  dc_flox_activations :: string

datatype 'a RcAction = ActivateRc 'a AttachDiff | DeactivateRc DeactivateCtx

definition clean_up_stmt :: "(string \<Rightarrow> string) \<Rightarrow> string \<Rightarrow> string option \<Rightarrow> Statement list" where
  "clean_up_stmt esc rm clean_up =
     (case clean_up of Some path \<Rightarrow> [LiteralStmt (rm @ '' '' @ esc path @ '';'')] | None \<Rightarrow> [])"

definition may_register_hook :: "InvocationType \<Rightarrow> bool" where
  "may_register_hook t \<longleftrightarrow> (case t of InteractiveType \<Rightarrow> True | InPlaceType \<Rightarrow> True | _ \<Rightarrow> False)"

section \<open>bash\<close>

definition bash_profile_stmts ::
  "(string \<Rightarrow> string) \<Rightarrow> string \<Rightarrow> string \<Rightarrow> BashStartupArgs RcAction \<Rightarrow> Statement list" where
  "bash_profile_stmts esc rm bin action =
     (case action of
        ActivateRc args _ \<Rightarrow> if bash_tracelevel args \<ge> 2 then [LiteralStmt ''set -x''] else []
      | DeactivateRc ctx \<Rightarrow> if dc_tracelevel ctx \<ge> 2 then [LiteralStmt ''set -x''] else []) @
     (case action of
        ActivateRc args _ \<Rightarrow>
          (case bash_bashrc_path args of
             Some rc \<Rightarrow>
               if \<not> is_in_place (bash_invocation_type args) \<and> \<not> bash_sourcing_rc args
               then [exported_no_expansion ''_flox_sourcing_rc'' ''true'', SourceStmt rc, UnsetVarStmt ''_flox_sourcing_rc'']
               else []
           | None \<Rightarrow> [])
      | DeactivateRc _ \<Rightarrow> []) @
     (case action of
        ActivateRc args attach_diff \<Rightarrow> generate_statements attach_diff (is_in_place (bash_invocation_type args))
      | DeactivateRc ctx \<Rightarrow> generate_deactivation_statements (dc_restore_diff ctx)) @
     (case action of
        ActivateRc args _ \<Rightarrow>
          [exported_no_expansion ''_activate_d'' (bash_activate_d args),
           exported_no_expansion ''_flox_activate_tracer'' (bash_tracer args)]
      | DeactivateRc _ \<Rightarrow> []) @
     (case action of
        ActivateRc args _ \<Rightarrow>
          [exported_no_expansion ''_FLOX_INVOCATION_TYPE'' (invocation_display (bash_invocation_type args))]
      | DeactivateRc _ \<Rightarrow> []) @
     (case action of
        DeactivateRc ctx \<Rightarrow>
          if is_outermost_deactivate (dc_restore_diff ctx) then [UnsetVarStmt PROMPT_HOOK_VERSION_ENV] else []
      | ActivateRc _ _ \<Rightarrow> []) @
     (case action of
        ActivateRc args _ \<Rightarrow>
          if bash_set_prompt_flag args
          then [LiteralStmt (bash_set_prompt (path_join (bash_activate_d args) ''set-prompt.bash''))] else []
      | DeactivateRc ctx \<Rightarrow> [LiteralStmt (bash_set_prompt (path_join (dc_activate_d ctx) ''set-prompt.bash''))]) @
     (case action of
        ActivateRc args _ \<Rightarrow>
          [LiteralStmt (bash_set_env_dirs (bash_flox_activations args) (bash_flox_env args)),
           LiteralStmt (bash_fix_paths (bash_flox_activations args))]
      | DeactivateRc _ \<Rightarrow> []) @
     (case action of
        ActivateRc args _ \<Rightarrow> [LiteralStmt (bash_profile_scripts (bash_flox_activations args))]
      | DeactivateRc ctx \<Rightarrow> [LiteralStmt (posix_profile_scripts_deactivate ''bash'' bin (dc_flox_env ctx))]) @
     (case action of
        ActivateRc _ _ \<Rightarrow> []
      | DeactivateRc _ \<Rightarrow> [LiteralStmt ''unset _activate_d _flox_activate_tracer;'']) @
     (case action of
        ActivateRc _ _ \<Rightarrow> [LiteralStmt ''set +h'']
      | DeactivateRc ctx \<Rightarrow> if is_outermost_deactivate (dc_restore_diff ctx) then [LiteralStmt ''set -h;''] else []) @
     (case action of
        ActivateRc args _ \<Rightarrow> if bash_tracelevel args \<ge> 2 then [LiteralStmt ''set +x''] else []
      | DeactivateRc ctx \<Rightarrow> if dc_tracelevel ctx \<ge> 2 then [LiteralStmt ''set +x''] else []) @
     (case action of
        ActivateRc args _ \<Rightarrow> clean_up_stmt esc rm (bash_clean_up args)
      | DeactivateRc _ \<Rightarrow> [])"

definition write_stmts :: "(string \<Rightarrow> string) \<Rightarrow> Shell \<Rightarrow> Statement list \<Rightarrow> string" where
  "write_stmts esc shell stmts = concat (map (generate_with_newline esc shell) stmts)"

definition generate_bash_profile_commands ::
  "(string \<Rightarrow> string) \<Rightarrow> string \<Rightarrow> string \<Rightarrow> BashStartupArgs RcAction \<Rightarrow> string" where
  "generate_bash_profile_commands esc rm bin action =
     write_stmts esc Bash (bash_profile_stmts esc rm bin action) @
     (case action of
        ActivateRc args _ \<Rightarrow>
          if bash_register_hook args \<and> may_register_hook (bash_invocation_type args)
          then bash_hook (bash_flox_bin args) else []
      | DeactivateRc _ \<Rightarrow> [])"

section \<open>zsh\<close>

definition zsh_profile_stmts ::
  "(string \<Rightarrow> string) \<Rightarrow> string \<Rightarrow> string \<Rightarrow> ZshStartupArgs RcAction \<Rightarrow> Statement list" where
  "zsh_profile_stmts esc rm bin action =
     (case action of
        ActivateRc args _ \<Rightarrow>
          [not_exported_no_expansion ''_flox_activate_tracelevel'' (show_nat (zsh_tracelevel args)),
           not_exported_no_expansion ''_activate_d'' (zsh_activate_d args)]
      | DeactivateRc _ \<Rightarrow> []) @
     (case action of
        ActivateRc args attach_diff \<Rightarrow> generate_statements attach_diff (is_in_place (zsh_invocation_type args))
      | DeactivateRc ctx \<Rightarrow> generate_deactivation_statements (dc_restore_diff ctx)) @
     (case action of
        ActivateRc args _ \<Rightarrow> [SourceStmt (path_join (zsh_activate_d args) ''zsh'')]
      | DeactivateRc ctx \<Rightarrow>
          (if is_outermost_deactivate (dc_restore_diff ctx)
           then [LiteralStmt zsh_drop_rehash, LiteralStmt ''setopt hashcmds; setopt hashdirs;''] else []) @
          (if is_outermost_deactivate (dc_restore_diff ctx)
           then [LiteralStmt zsh_restore_fpath] else [LiteralStmt (zsh_recompute_fpath (dc_flox_activations ctx))]) @
          [LiteralStmt (posix_profile_scripts_deactivate ''zsh'' bin (dc_flox_env ctx))]) @
     (case action of
        ActivateRc args _ \<Rightarrow>
          [exported_no_expansion ''_FLOX_INVOCATION_TYPE'' (invocation_display (zsh_invocation_type args))]
      | DeactivateRc _ \<Rightarrow> []) @
     (case action of
        DeactivateRc ctx \<Rightarrow>
          if is_outermost_deactivate (dc_restore_diff ctx) then [UnsetVarStmt PROMPT_HOOK_VERSION_ENV] else []
      | ActivateRc _ _ \<Rightarrow> []) @
     (case action of
        ActivateRc args _ \<Rightarrow>
          if zsh_set_prompt_flag args
          then [LiteralStmt (zsh_set_prompt (path_join (zsh_activate_d args) ''set-prompt.zsh''))] else []
      | DeactivateRc ctx \<Rightarrow> [LiteralStmt (zsh_set_prompt (path_join (dc_activate_d ctx) ''set-prompt.zsh''))]) @
     (case action of
        ActivateRc _ _ \<Rightarrow> []
      | DeactivateRc _ \<Rightarrow> [LiteralStmt ''unset _activate_d _flox_activate_tracer _flox_activate_tracelevel;'']) @
     (case action of
        ActivateRc args _ \<Rightarrow> clean_up_stmt esc rm (zsh_clean_up args)
      | DeactivateRc _ \<Rightarrow> [])"

definition generate_zsh_profile_commands ::
  "(string \<Rightarrow> string) \<Rightarrow> string \<Rightarrow> string \<Rightarrow> ZshStartupArgs RcAction \<Rightarrow> string" where
  "generate_zsh_profile_commands esc rm bin action =
     write_stmts esc Zsh (zsh_profile_stmts esc rm bin action) @
     (case action of
        ActivateRc args _ \<Rightarrow>
          if zsh_register_hook args \<and> may_register_hook (zsh_invocation_type args)
          then zsh_hook (zsh_flox_bin args) else []
      | DeactivateRc _ \<Rightarrow> [])"

section \<open>fish\<close>

definition fish_profile_stmts ::
  "(string \<Rightarrow> string) \<Rightarrow> string \<Rightarrow> string \<Rightarrow> FishStartupArgs RcAction \<Rightarrow> Statement list" where
  "fish_profile_stmts esc rm bin action =
     (case action of
        ActivateRc args _ \<Rightarrow> if fish_tracelevel args \<ge> 2 then [exported_no_expansion ''fish_trace'' ''1''] else []
      | DeactivateRc ctx \<Rightarrow> if dc_tracelevel ctx \<ge> 2 then [exported_no_expansion ''fish_trace'' ''1''] else []) @
     (case action of
        ActivateRc args attach_diff \<Rightarrow> generate_statements attach_diff (is_in_place (fish_invocation_type args))
      | DeactivateRc ctx \<Rightarrow> generate_deactivation_statements (dc_restore_diff ctx)) @
     (case action of
        ActivateRc args _ \<Rightarrow>
          [exported_no_expansion ''_activate_d'' (fish_activate_d args),
           exported_no_expansion ''_flox_activate_tracer'' (fish_tracer args)]
      | DeactivateRc _ \<Rightarrow> []) @
     (case action of
        ActivateRc args _ \<Rightarrow>
          [exported_no_expansion ''_FLOX_INVOCATION_TYPE'' (invocation_display (fish_invocation_type args))]
      | DeactivateRc _ \<Rightarrow> []) @
     (case action of
        DeactivateRc ctx \<Rightarrow>
          if is_outermost_deactivate (dc_restore_diff ctx) then [UnsetVarStmt PROMPT_HOOK_VERSION_ENV] else []
      | ActivateRc _ _ \<Rightarrow> []) @
     (case action of
        ActivateRc args _ \<Rightarrow>
          if fish_set_prompt_flag args
          then [LiteralStmt (fish_set_prompt (path_join (fish_activate_d args) ''set-prompt.fish''))] else []
      | DeactivateRc ctx \<Rightarrow> [LiteralStmt (fish_set_prompt (path_join (dc_activate_d ctx) ''set-prompt.fish''))]) @
     (case action of
        ActivateRc args _ \<Rightarrow>
          [LiteralStmt fish_default_env_dirs,
           LiteralStmt (fish_set_env_dirs (fish_flox_activations args) (fish_flox_env args)),
           LiteralStmt fish_default_manpath,
           LiteralStmt (fish_fix_paths (fish_flox_activations args))]
      | DeactivateRc _ \<Rightarrow> []) @
     (case action of
        ActivateRc args _ \<Rightarrow>
          [LiteralStmt fish_default_sourced, LiteralStmt (fish_profile_scripts (fish_flox_activations args))]
      | DeactivateRc ctx \<Rightarrow> [LiteralStmt (fish_profile_scripts_deactivate bin (dc_flox_env ctx))]) @
     (case action of
        ActivateRc _ _ \<Rightarrow> []
      | DeactivateRc _ \<Rightarrow> [LiteralStmt ''set -e _activate_d _flox_activate_tracer;'']) @
     (case action of
        ActivateRc args _ \<Rightarrow> if fish_tracelevel args \<ge> 2 then [LiteralStmt ''set -gx fish_trace 0;''] else []
      | DeactivateRc ctx \<Rightarrow> if dc_tracelevel ctx \<ge> 2 then [LiteralStmt ''set -gx fish_trace 0;''] else []) @
     (case action of
        ActivateRc args _ \<Rightarrow> clean_up_stmt esc rm (fish_clean_up args)
      | DeactivateRc _ \<Rightarrow> [])"

definition generate_fish_profile_commands ::
  "(string \<Rightarrow> string) \<Rightarrow> string \<Rightarrow> string \<Rightarrow> FishStartupArgs RcAction \<Rightarrow> string" where
  "generate_fish_profile_commands esc rm bin action =
     write_stmts esc Fish (fish_profile_stmts esc rm bin action) @
     (case action of
        ActivateRc args _ \<Rightarrow>
          if fish_register_hook args \<and> may_register_hook (fish_invocation_type args)
          then (case fish_auto_activate_mode args of
                  Some mode \<Rightarrow> ''set -gx FLOX_AUTO_ACTIVATE_FISH_MODE '' @ fish_mode_display mode @ '';'' @ newline
                | None \<Rightarrow> []) @
               fish_hook (fish_flox_bin args)
          else []
      | DeactivateRc _ \<Rightarrow> [])"

section \<open>tcsh\<close>

definition tcsh_profile_stmts ::
  "(string \<Rightarrow> string) \<Rightarrow> string \<Rightarrow> string \<Rightarrow> TcshStartupArgs RcAction \<Rightarrow> Statement list" where
  "tcsh_profile_stmts esc rm bin action =
     (case action of
        ActivateRc args _ \<Rightarrow> if tcsh_tracelevel args \<ge> 2 then [LiteralStmt ''set verbose''] else []
      | DeactivateRc ctx \<Rightarrow> if dc_tracelevel ctx \<ge> 2 then [LiteralStmt ''set verbose''] else []) @
     (case action of
        ActivateRc args attach_diff \<Rightarrow> generate_statements attach_diff (is_in_place (tcsh_invocation_type args))
      | DeactivateRc ctx \<Rightarrow> generate_deactivation_statements (dc_restore_diff ctx)) @
     (case action of
        ActivateRc args _ \<Rightarrow>
          [exported_no_expansion ''_activate_d'' (tcsh_activate_d args),
           exported_no_expansion ''_flox_activate_tracer'' (tcsh_tracer args)]
      | DeactivateRc _ \<Rightarrow> []) @
     (case action of
        ActivateRc args _ \<Rightarrow>
          [exported_no_expansion ''_FLOX_INVOCATION_TYPE'' (invocation_display (tcsh_invocation_type args))]
      | DeactivateRc _ \<Rightarrow> []) @
     (case action of
        DeactivateRc ctx \<Rightarrow>
          if is_outermost_deactivate (dc_restore_diff ctx)
          then [LiteralStmt (''unsetenv '' @ PROMPT_HOOK_VERSION_ENV @ '';'')] else []
      | ActivateRc _ _ \<Rightarrow> []) @
     (case action of
        ActivateRc args _ \<Rightarrow>
          if tcsh_set_prompt_flag args
          then [LiteralStmt (tcsh_set_prompt (path_join (tcsh_activate_d args) ''set-prompt.tcsh''))] else []
      | DeactivateRc ctx \<Rightarrow> [LiteralStmt (tcsh_set_prompt (path_join (dc_activate_d ctx) ''set-prompt.tcsh''))]) @
     (case action of
        ActivateRc args _ \<Rightarrow>
          [LiteralStmt tcsh_default_env_dirs,
           LiteralStmt (tcsh_set_env_dirs (tcsh_flox_activations args) (tcsh_flox_env args)),
           LiteralStmt tcsh_default_manpath,
           LiteralStmt (tcsh_fix_paths (tcsh_flox_activations args))]
      | DeactivateRc _ \<Rightarrow> []) @
     (case action of
        ActivateRc args _ \<Rightarrow>
          [LiteralStmt ''set _already_sourced_args = ();'', LiteralStmt tcsh_already_sourced,
           LiteralStmt (tcsh_profile_scripts (tcsh_flox_activations args))]
      | DeactivateRc ctx \<Rightarrow>
          [LiteralStmt ''set _already_sourced_args = ();'', LiteralStmt tcsh_already_sourced,
           LiteralStmt (tcsh_profile_scripts_deactivate bin (dc_flox_env ctx))]) @
     (case action of
        ActivateRc _ _ \<Rightarrow> []
      | DeactivateRc _ \<Rightarrow> [LiteralStmt ''unsetenv _activate_d; unsetenv _flox_activate_tracer;'']) @
     (case action of
        ActivateRc _ _ \<Rightarrow> [LiteralStmt ''unhash;'']
      | DeactivateRc ctx \<Rightarrow> if is_outermost_deactivate (dc_restore_diff ctx) then [LiteralStmt ''rehash;''] else []) @
     (case action of
        ActivateRc args _ \<Rightarrow> if tcsh_tracelevel args \<ge> 2 then [LiteralStmt ''unset verbose;''] else []
      | DeactivateRc ctx \<Rightarrow> if dc_tracelevel ctx \<ge> 2 then [LiteralStmt ''unset verbose;''] else []) @
     (case action of
        ActivateRc args _ \<Rightarrow> clean_up_stmt esc rm (tcsh_clean_up args)
      | DeactivateRc _ \<Rightarrow> [])"

definition generate_tcsh_profile_commands ::
  "(string \<Rightarrow> string) \<Rightarrow> string \<Rightarrow> string \<Rightarrow> TcshStartupArgs RcAction \<Rightarrow> string" where
  "generate_tcsh_profile_commands esc rm bin action =
     write_stmts esc Tcsh (tcsh_profile_stmts esc rm bin action) @
     (case action of
        ActivateRc args _ \<Rightarrow>
          if tcsh_register_hook args \<and> may_register_hook (tcsh_invocation_type args)
          then tcsh_hook (tcsh_flox_bin args) else []
      | DeactivateRc _ \<Rightarrow> [])"

section \<open>Startup scripts\<close>

datatype ShellStartupArgs =
    BashArgs BashStartupArgs
  | FishArgs FishStartupArgs
  | TcshArgs TcshStartupArgs
  | ZshArgs ZshStartupArgs

record StartupCtx =
  sc_args :: ShellStartupArgs
  sc_rc_path :: "string option"
  sc_attach_diff :: AttachDiff

record ActivateCtx =
  act_attach_ctx :: AttachCtx
  act_project_ctx :: "AttachProjectCtx option"
  act_shell :: Shell
  act_disable_hook :: bool
  act_flox_bin :: string
  act_fish_mode :: "AutoActivateFishMode option"

definition startup_ctx ::
  "(DiffSerializer \<Rightarrow> string) \<Rightarrow> env \<Rightarrow> string \<Rightarrow> ActivateCtx \<Rightarrow> InvocationType \<Rightarrow> string option \<Rightarrow> EnvDiff
     \<Rightarrow> string \<Rightarrow> nat \<Rightarrow> VarsFromEnvironment \<Rightarrow> bool \<Rightarrow> bool \<Rightarrow> string option \<Rightarrow> StartupCtx" where
  "startup_ctx encode nix_vars bin ctx invocation_type rc_path start_diff tracer subsystem_verbosity
      vars is_sourcing_rc self_destruct bashrc_path =
     (let clean_up = (if rc_path \<noteq> None \<and> self_destruct then rc_path else None);
          attach_diff = attach_diff_new encode nix_vars bin tracer (act_attach_ctx ctx) (act_project_ctx ctx)
            subsystem_verbosity vars start_diff (is_in_place invocation_type);
          set_prompt = actx_set_prompt (act_attach_ctx ctx);
          register_hook = (\<not> act_disable_hook ctx);
          activate_d = path_join (actx_interpreter_path (act_attach_ctx ctx)) ''activate.d'';
          flox_env = actx_env (act_attach_ctx ctx);
          args = (case act_shell ctx of
              Bash \<Rightarrow> BashArgs \<lparr> bash_tracelevel = subsystem_verbosity, bash_activate_d = activate_d,
                bash_flox_env = flox_env, bash_invocation_type = invocation_type, bash_clean_up = clean_up,
                bash_bashrc_path = bashrc_path, bash_tracer = tracer, bash_sourcing_rc = is_sourcing_rc,
                bash_flox_activations = bin, bash_register_hook = register_hook,
                bash_flox_bin = act_flox_bin ctx, bash_set_prompt_flag = set_prompt \<rparr>
            | Fish \<Rightarrow> FishArgs \<lparr> fish_tracelevel = subsystem_verbosity, fish_activate_d = activate_d,
                fish_flox_env = flox_env, fish_invocation_type = invocation_type, fish_clean_up = clean_up,
                fish_sourcing_rc = is_sourcing_rc, fish_tracer = tracer, fish_flox_activations = bin,
                fish_register_hook = register_hook, fish_flox_bin = act_flox_bin ctx,
                fish_auto_activate_mode = act_fish_mode ctx, fish_set_prompt_flag = set_prompt \<rparr>
            | Tcsh \<Rightarrow> TcshArgs \<lparr> tcsh_tracelevel = subsystem_verbosity, tcsh_activate_d = activate_d,
                tcsh_flox_env = flox_env, tcsh_invocation_type = invocation_type, tcsh_clean_up = clean_up,
                tcsh_tracer = tracer, tcsh_sourcing_rc = is_sourcing_rc, tcsh_flox_activations = bin,
                tcsh_register_hook = register_hook, tcsh_flox_bin = act_flox_bin ctx,
                tcsh_set_prompt_flag = set_prompt \<rparr>
            | Zsh \<Rightarrow> ZshArgs \<lparr> zsh_tracelevel = subsystem_verbosity, zsh_activate_d = activate_d,
                zsh_invocation_type = invocation_type, zsh_clean_up = clean_up,
                zsh_register_hook = register_hook, zsh_flox_bin = act_flox_bin ctx,
                zsh_set_prompt_flag = set_prompt \<rparr>)
      in \<lparr> sc_args = args, sc_rc_path = rc_path, sc_attach_diff = attach_diff \<rparr>)"

definition startup_stmts :: "(string \<Rightarrow> string) \<Rightarrow> string \<Rightarrow> string \<Rightarrow> StartupCtx \<Rightarrow> Statement list" where
  "startup_stmts esc rm bin ctx =
     (case sc_args ctx of
        BashArgs args \<Rightarrow> bash_profile_stmts esc rm bin (ActivateRc args (sc_attach_diff ctx))
      | FishArgs args \<Rightarrow> fish_profile_stmts esc rm bin (ActivateRc args (sc_attach_diff ctx))
      | TcshArgs args \<Rightarrow> tcsh_profile_stmts esc rm bin (ActivateRc args (sc_attach_diff ctx))
      | ZshArgs args \<Rightarrow> zsh_profile_stmts esc rm bin (ActivateRc args (sc_attach_diff ctx)))"

definition write_to_writer :: "(string \<Rightarrow> string) \<Rightarrow> string \<Rightarrow> string \<Rightarrow> StartupCtx \<Rightarrow> string" where
  "write_to_writer esc rm bin ctx =
     (case sc_args ctx of
        BashArgs args \<Rightarrow> generate_bash_profile_commands esc rm bin (ActivateRc args (sc_attach_diff ctx))
      | FishArgs args \<Rightarrow> generate_fish_profile_commands esc rm bin (ActivateRc args (sc_attach_diff ctx))
      | TcshArgs args \<Rightarrow> generate_tcsh_profile_commands esc rm bin (ActivateRc args (sc_attach_diff ctx))
      | ZshArgs args \<Rightarrow> generate_zsh_profile_commands esc rm bin (ActivateRc args (sc_attach_diff ctx)))"

section \<open>Deactivation scripts\<close>

definition deactivate_ctx :: "string \<Rightarrow> string \<Rightarrow> string \<Rightarrow> nat \<Rightarrow> DiffSerializer \<Rightarrow> DeactivateCtx" where
  "deactivate_ctx interpreter_path bin flox_env tracelevel d =
     \<lparr> dc_activate_d = path_join interpreter_path ''activate.d'', dc_flox_env = flox_env,
       dc_tracelevel = tracelevel, dc_restore_diff = d, dc_flox_activations = bin \<rparr>"

definition deactivate_stmts :: "(string \<Rightarrow> string) \<Rightarrow> string \<Rightarrow> string \<Rightarrow> Shell \<Rightarrow> DeactivateCtx \<Rightarrow> Statement list" where
  "deactivate_stmts esc rm bin shell ctx =
     (case shell of
        Bash \<Rightarrow> bash_profile_stmts esc rm bin (DeactivateRc ctx)
      | Zsh \<Rightarrow> zsh_profile_stmts esc rm bin (DeactivateRc ctx)
      | Fish \<Rightarrow> fish_profile_stmts esc rm bin (DeactivateRc ctx)
      | Tcsh \<Rightarrow> tcsh_profile_stmts esc rm bin (DeactivateRc ctx))"

definition detach_command :: "string \<Rightarrow> string \<Rightarrow> Shell \<Rightarrow> string" where
  "detach_command bin activation_state_dir shell =
     dq @ bin @ dq @ '' detach --activation-state-dir '' @ dq @ activation_state_dir @ dq @ '' --pid '' @
     self_pid_var shell @ '';'' @ newline"

section \<open>What the scripts do to the environment\<close>

text \<open>
  Variables that the scripts, those of \<open>activate.d\<close> included, use for themselves: helpers, the
  marker and the state of the prompt hook, trace modes, the search path and save variables of zsh
  completion and of the dot directory of zsh, the lists the prompt hook registers itself in, and the
  prompt with what \<open>set-prompt\<close> saves and computes. Shell code is confined to a set of variables when it changes no other.
\<close>

definition own_vars :: "string set" where
  "own_vars = {''_activate_d'', ''_flox_activate_tracer'', ''_flox_activate_tracelevel'',
     PROMPT_HOOK_VERSION_ENV, ''fish_trace'', ''_flox_sourcing_rc'', ''_FLOX_SOURCED_PROFILE_SCRIPTS'',
     ''FPATH'', ''_FLOX_HOOK_SAVE_FPATH'', ''_FLOX_HOOK_SAVE_COMPINIT_DUMPFILE'',
     ''_FLOX_AUTO_ACTIVATED_ENVIRONMENTS'', ''_FLOX_SUPPRESSED_ENVIRONMENTS'',
     ''PS1'', ''prompt'', ''FLOX_SAVE_BASH_PS1'', ''FLOX_SAVE_ZSH_PS1'', ''FLOX_SAVE_TCSH_PROMPT'', ''FLOX_PROMPT'',
     ''_flox'', ''_flox_have_envs'', ''colorReset'', ''colorBold'', ''colorPrompt1'', ''colorPrompt2'',
     ''_floxPrompt1'', ''_floxPrompt2'', ''_already_sourced_args'', ''verbose'',
     ''ZDOTDIR'', ''FLOX_ORIG_ZDOTDIR'', ''FLOX_ZSH_INIT_SCRIPT'', ''old_fpath'', ''new_fpath'',
     ''profile_script_dirs'', ''_flox_activations'', ''_flox_compinit_args'', ''_comp_dumpfile'',
     ''_flox_deactivate_old_fpath'', ''fpath'', ''_flox_invocation_type'', ''PROMPT_COMMAND'',
     ''precmd_functions'', ''chpwd_functions'', ''_save_flox_activate_tracer'', ''_save_flox_activate_tracelevel'',
     ''_save_ZDOTDIR'', ''_save_FLOX_ORIG_ZDOTDIR'', ''_save_FLOX_ZSH_INIT_SCRIPT''}"

definition confined :: "string set \<Rightarrow> (Statement \<Rightarrow> shell_env \<Rightarrow> shell_env) \<Rightarrow> bool" where
  "confined vs sh \<longleftrightarrow> (\<forall>st e v. v \<notin> vs \<longrightarrow> sh st e v = e v)"

definition touches_only :: "string set \<Rightarrow> Statement \<Rightarrow> bool" where
  "touches_only vs st \<longleftrightarrow>
     (case st of
        SetVarStmt s \<Rightarrow> sv_exported s \<and> \<not> sv_allow_expansion s \<longrightarrow> sv_name s \<in> vs
      | UnsetVarStmt name \<Rightarrow> name \<in> vs
      | _ \<Rightarrow> True)"

lemma touches_only_simps [simp]:
  "touches_only vs (LiteralStmt s)" "touches_only vs (SourceStmt s)"
  "touches_only vs (UnsetVarStmt n) \<longleftrightarrow> n \<in> vs"
  "touches_only vs (exported_no_expansion n x) \<longleftrightarrow> n \<in> vs"
  "touches_only vs (not_exported_no_expansion n x)"
  by (simp_all add: touches_only_def exported_no_expansion_def not_exported_no_expansion_def)

definition only :: "string set \<Rightarrow> Statement list \<Rightarrow> bool" where
  "only vs sts \<longleftrightarrow> (\<forall>st \<in> set sts. touches_only vs st)"

lemma only_simps [simp]:
  "only vs []" "only vs (st # sts) \<longleftrightarrow> touches_only vs st \<and> only vs sts"
  "only vs (sts @ sts') \<longleftrightarrow> only vs sts \<and> only vs sts'" "only vs (clean_up_stmt esc rm c)"
  by (auto simp: only_def clean_up_stmt_def split: option.splits)

lemma only_mono: "only vs sts \<Longrightarrow> vs \<subseteq> vs' \<Longrightarrow> only vs' sts"
  by (force simp: only_def touches_only_def split: Statement.splits)

lemma run_touching:
  assumes "confined vs sh" "only vs sts" "v \<notin> vs"
  shows "run_stmts sh sts e v = e v"
  using assms(2)
proof (induction sts arbitrary: e)
  case (Cons st sts)
  then have "run_stmt sh st e v = e v"
    using assms(1,3) by (auto simp: run_stmt_def touches_only_def confined_def split: Statement.splits)
  then show ?case
    using Cons by simp
qed simp

lemma own_vars_simps [simp]:
  "''_activate_d'' \<in> own_vars" "''_flox_activate_tracer'' \<in> own_vars" "PROMPT_HOOK_VERSION_ENV \<in> own_vars"
  "''fish_trace'' \<in> own_vars" "FLOX_HOOK_DIFF_VAR \<notin> own_vars"
  by (simp_all add: own_vars_def PROMPT_HOOK_VERSION_ENV_def FLOX_HOOK_DIFF_VAR_def)

lemma deactivate_stmts_parts:
  obtains pre post where
    "deactivate_stmts esc rm bin shell ctx = pre @ generate_deactivation_statements (dc_restore_diff ctx) @ post"
    "only own_vars pre" "only own_vars post"
proof (cases shell)
  case Bash
  show thesis
    by (rule that [OF _ _ _, of "if dc_tracelevel ctx \<ge> 2 then [LiteralStmt ''set -x''] else []"])
      (auto simp: Bash deactivate_stmts_def bash_profile_stmts_def)
next
  case Zsh
  show thesis
    by (rule that [of "[]"]) (auto simp: Zsh deactivate_stmts_def zsh_profile_stmts_def)
next
  case Tcsh
  show thesis
    by (rule that [of "if dc_tracelevel ctx \<ge> 2 then [LiteralStmt ''set verbose''] else []"])
      (auto simp: Tcsh deactivate_stmts_def tcsh_profile_stmts_def)
next
  case Fish
  show thesis
    by (rule that [of "if dc_tracelevel ctx \<ge> 2 then [exported_no_expansion ''fish_trace'' ''1''] else []"])
      (auto simp: Fish deactivate_stmts_def fish_profile_stmts_def)
qed

text \<open>
  The same for the startup script of an in-place activation, whose own shell code may also set
  the variables that it computes itself.
\<close>

definition in_place_vars :: "string set" where
  "in_place_vars = own_vars \<union> {''FLOX_ENV_DIRS'', ''PATH'', ''MANPATH'', FLOX_INVOCATION_TYPE_VAR}"

lemma in_place_vars_simps [simp]:
  "''_activate_d'' \<in> in_place_vars" "''_flox_activate_tracer'' \<in> in_place_vars" "''fish_trace'' \<in> in_place_vars"
  "''_FLOX_INVOCATION_TYPE'' \<in> in_place_vars" "FLOX_HOOK_DIFF_VAR \<notin> in_place_vars"
  by (simp_all add: in_place_vars_def FLOX_HOOK_DIFF_VAR_def FLOX_INVOCATION_TYPE_VAR_def own_vars_def
      PROMPT_HOOK_VERSION_ENV_def)

lemma in_place_vars_tracked: "in_place_vars \<subseteq> own_vars \<union> tracked snapshot ad"
  by (auto simp: in_place_vars_def tracked_def in_place_tracked_def)

lemma startup_stmts_parts:
  assumes "ctx = startup_ctx encode nix_vars bin actx InPlaceType rc_path start_diff tracer verbosity vars
      is_sourcing_rc self_destruct bashrc_path"
  obtains pre post where
    "startup_stmts esc rm bin ctx = pre @ generate_statements (sc_attach_diff ctx) True @ post"
    "only own_vars pre" "only in_place_vars post"
proof (cases "act_shell actx")
  case Bash
  show thesis
    by (rule that [of "if verbosity \<ge> 2 then [LiteralStmt ''set -x''] else []"],
      (cases bashrc_path; simp add: Bash assms startup_ctx_def Let_def startup_stmts_def bash_profile_stmts_def
        is_in_place_def split del: if_split)) (auto split: option.split)
next
  case Zsh
  show thesis
    by (rule that [of "[not_exported_no_expansion ''_flox_activate_tracelevel'' (show_nat verbosity),
        not_exported_no_expansion ''_activate_d'' (path_join (actx_interpreter_path (act_attach_ctx actx)) ''activate.d'')]"],
      (simp add: Zsh assms startup_ctx_def Let_def startup_stmts_def zsh_profile_stmts_def is_in_place_def
        split del: if_split; fail)) (auto split: option.split)
next
  case Tcsh
  show thesis
    by (rule that [of "if verbosity \<ge> 2 then [LiteralStmt ''set verbose''] else []"],
      (simp add: Tcsh assms startup_ctx_def Let_def startup_stmts_def tcsh_profile_stmts_def is_in_place_def
        split del: if_split; fail)) (auto split: option.split)
next
  case Fish
  show thesis
    by (rule that [of "if verbosity \<ge> 2 then [exported_no_expansion ''fish_trace'' ''1''] else []"],
      (simp add: Fish assms startup_ctx_def Let_def startup_stmts_def fish_profile_stmts_def is_in_place_def
        split del: if_split; fail)) (auto split: option.split)
qed

section \<open>Stacks of in-place activations\<close>

text \<open>
  A stack of in-place activations from the environment \<open>e0\<close> of the shell: each takes a snapshot,
  and the environment it leads to agrees with the snapshot on all variables that the activation
  does not track and that are not in the set \<open>vs\<close>. What the scripts, the profile of the
  environment and the user do to the tracked variables is free, except that the diff stays, and so
  is what they do to the variables of \<open>vs\<close>: the scripts' own ones and whatever else profiles and
  user set.
\<close>

inductive activation_stack ::
  "string set \<Rightarrow> (DiffSerializer \<Rightarrow> string) \<Rightarrow> shell_env \<Rightarrow> string list \<Rightarrow> shell_env \<Rightarrow> bool"
  for vs encode e0 where
  inactive: "activation_stack vs encode e0 [] e0"
| activate: "\<lbrakk> activation_stack vs encode e0 ls e; bm_get snapshot = e; bm_inv snapshot;
     ad = attach_diff_new encode nix_vars bin tracer ctx project verbosity (vars_with_snapshot snapshot) start_diff True;
     encoded_diff ad = Some l; e' FLOX_HOOK_DIFF_VAR = Some l;
     \<forall>v. v \<notin> tracked snapshot ad \<union> vs \<longrightarrow> e' v = e v \<rbrakk>
   \<Longrightarrow> activation_stack vs encode e0 (l # ls) e'"

text \<open>
  The generated startup script of every shell is such a step, when the shell code in it, with all
  it sources, only changes variables of \<open>vs\<close> and those that the script computes.
\<close>

lemma startup_script_activates:
  assumes "activation_stack vs encode e0 ls (bm_get snapshot)" "bm_inv snapshot" "own_vars \<subseteq> vs"
    and "confined (vs \<union> in_place_vars) sh" "FLOX_HOOK_DIFF_VAR \<notin> vs"
    and "FLOX_HOOK_DIFF_VAR \<notin> set (bm_keys (additions start_diff))" "FLOX_HOOK_DIFF_VAR \<notin> set (deletions start_diff)"
  obtains l where "activation_stack vs encode e0 (l # ls) (run_stmts sh (startup_stmts esc rm bin
    (startup_ctx encode nix_vars bin actx InPlaceType rc_path start_diff tracer verbosity (vars_with_snapshot snapshot)
      is_sourcing_rc self_destruct bashrc_path)) (bm_get snapshot))"
proof -
  let ?ctx = "startup_ctx encode nix_vars bin actx InPlaceType rc_path start_diff tracer verbosity
    (vars_with_snapshot snapshot) is_sourcing_rc self_destruct bashrc_path"
  let ?ad = "sc_attach_diff ?ctx" and ?e = "bm_get snapshot"
  have ad: "?ad = attach_diff_new encode nix_vars bin tracer (act_attach_ctx actx) (act_project_ctx actx) verbosity
      (vars_with_snapshot snapshot) start_diff True"
    by (simp add: startup_ctx_def Let_def is_in_place_def)
  obtain l where l: "encoded_diff ?ad = Some l"
    by (rule attach_diff_new_in_place [OF ad]) simp
  obtain pre post where parts: "startup_stmts esc rm bin ?ctx = pre @ generate_statements ?ad True @ post"
    "only own_vars pre" "only in_place_vars post"
    by (rule startup_stmts_parts [OF refl])
  let ?e1 = "run_stmts sh pre ?e"
  let ?e2 = "run_stmts sh (generate_statements ?ad True) ?e1"
  let ?vs = "vs \<union> in_place_vars"
  have only: "only ?vs pre" "only ?vs post"
    by (rule only_mono [OF parts(2)], use assms(3) in blast) (rule only_mono [OF parts(3)], simp)
  have pre: "?e1 v = ?e v" if "v \<notin> ?vs" for v
    by (rule run_touching [OF assms(4) only(1) that])
  have post: "run_stmts sh (startup_stmts esc rm bin ?ctx) ?e v = ?e2 v" if "v \<notin> ?vs" for v
    using run_touching [OF assms(4) only(2) that] by (simp add: parts(1))
  note script = in_place_script [OF ad assms(6,7)]
  have "run_stmts sh (startup_stmts esc rm bin ?ctx) ?e FLOX_HOOK_DIFF_VAR = Some l"
    by (simp add: post script(1) l assms(5))
  moreover have "run_stmts sh (startup_stmts esc rm bin ?ctx) ?e v = ?e v" if "v \<notin> tracked snapshot ?ad \<union> vs" for v
  proof -
    have "v \<notin> ?vs" "v \<notin> tracked snapshot ?ad"
      using that in_place_vars_tracked assms(3) by blast+
    then show ?thesis
      by (simp add: post script(2) pre)
  qed
  ultimately have "activation_stack vs encode e0 (l # ls) (run_stmts sh (startup_stmts esc rm bin ?ctx) ?e)"
    by (intro activation_stack.activate [OF assms(1) refl assms(2) ad l]) blast+
  then show thesis
    by (rule that)
qed

text \<open>
  Undoing one layer: its diff is decoded, names the diff of the layer below, and the script of
  every shell leads back to the environment before the layer, up to the variables of \<open>vs\<close>.
\<close>

definition agree :: "string set \<Rightarrow> shell_env \<Rightarrow> shell_env \<Rightarrow> bool" where
  "agree vs e e' \<longleftrightarrow> (\<forall>v. v \<notin> vs \<longrightarrow> e v = e' v)"

lemma deactivate_layer:
  assumes "ad = attach_diff_new encode nix_vars bin' tracer ctx project verbosity (vars_with_snapshot snapshot) start_diff True"
    and "bm_get snapshot = e" "encoded_diff ad = Some l"
    and "\<forall>v. v \<notin> tracked snapshot ad \<union> vs \<longrightarrow> e' v = e v"
    and "\<forall>d. finite (added d) \<longrightarrow> decode (encode d) = Ok d" and "own_vars \<subseteq> vs"
  obtains d where "decode l = Ok d" "embedded_hook_diff decode l = Ok (e FLOX_HOOK_DIFF_VAR)"
    "\<And>esc rm bin shell interpreter bin'' flox_env tracelevel sh e''. confined vs sh \<Longrightarrow> agree vs e'' e' \<Longrightarrow>
      agree vs (run_stmts sh (deactivate_stmts esc rm bin shell (deactivate_ctx interpreter bin'' flox_env tracelevel d)) e'') e"
proof -
  obtain sets where s: "encoded_diff ad = Some (encode (diff_env snapshot sets (deletions (double_sets ad))))"
    "tracked snapshot ad = set sets \<union> {v \<in> set (deletions (double_sets ad)). bm_get snapshot v \<noteq> None}"
    "FLOX_HOOK_DIFF_VAR \<in> set sets" "FLOX_INVOCATION_TYPE_VAR \<in> set sets"
    by (rule attach_diff_new_in_place [OF assms(1)])
  let ?d = "diff_env snapshot sets (deletions (double_sets ad))"
  have l: "decode l = Ok ?d"
    using assms(3) s(1) assms(5) [rule_format, OF diff_env_finite] by auto
  moreover have "embedded_hook_diff decode l = Ok (e FLOX_HOOK_DIFF_VAR)"
    using s(3) by (simp add: embedded_hook_diff_def l diff_env_fields assms(2))
  moreover have "agree vs (run_stmts sh (deactivate_stmts esc rm bin shell (deactivate_ctx interpreter bin'' flox_env tracelevel ?d)) e'') e"
    if sh: "confined vs sh" and e'': "agree vs e'' e'" for esc rm bin shell interpreter bin'' flox_env tracelevel sh e''
    unfolding agree_def
  proof (intro allI impI)
    fix v
    assume v: "v \<notin> vs"
    let ?ctx = "deactivate_ctx interpreter bin'' flox_env tracelevel ?d"
    obtain pre post where parts:
      "deactivate_stmts esc rm bin shell ?ctx = pre @ generate_deactivation_statements (dc_restore_diff ?ctx) @ post"
      "only own_vars pre" "only own_vars post"
      by (rule deactivate_stmts_parts)
    have d: "dc_restore_diff ?ctx = ?d"
      by (simp add: deactivate_ctx_def)
    have "run_stmts sh (deactivate_stmts esc rm bin shell ?ctx) e'' v =
        run_stmts sh (generate_deactivation_statements ?d) (run_stmts sh pre e'') v"
      using run_touching [OF sh only_mono [OF parts(3) assms(6)] v] unfolding parts(1) d by simp
    also have "\<dots> = (if v \<in> tracked snapshot ad then e v else run_stmts sh pre e'' v)"
      by (auto simp: run_deactivation [OF assms(2) s(3,4)] s(2) assms(2))
    also have "\<dots> = e v"
      using run_touching [OF sh only_mono [OF parts(2) assms(6)] v] e'' assms(4) v by (simp add: agree_def)
    finally show "run_stmts sh (deactivate_stmts esc rm bin shell ?ctx) e'' v = e v" .
  qed
  ultimately show thesis
    by (rule that)
qed

section \<open>Scripts on one line\<close>

text \<open>The statements whose text does not end with a separator.\<close>

definition unterminated :: "(string \<Rightarrow> string) \<Rightarrow> Shell \<Rightarrow> Statement list \<Rightarrow> Statement list" where
  "unterminated esc shell sts = filter (\<lambda>st. last (generate_stmt esc shell st) \<noteq> CHR '';'') sts"

lemma last_set_command: "last (set_command shell exported name v) = CHR '';''"
  by (cases shell; cases exported) simp_all

lemma last_unset_command: "last (unset_command shell name) = CHR '';''"
  by (cases shell) simp_all

lemma unterminated_simps [simp]:
  "unterminated esc shell [] = []"
  "unterminated esc shell (sts @ sts') = unterminated esc shell sts @ unterminated esc shell sts'"
  "unterminated esc shell (SetVarStmt s # sts) = unterminated esc shell sts"
  "unterminated esc shell (exported_no_expansion n x # sts) = unterminated esc shell sts"
  "unterminated esc shell (not_exported_no_expansion n x # sts) = unterminated esc shell sts"
  "unterminated esc shell (UnsetVarStmt n # sts) = unterminated esc shell sts"
  "unterminated esc shell (SourceStmt p # sts) = unterminated esc shell sts"
  by (simp_all add: unterminated_def generate_set_def last_set_command last_unset_command
      exported_no_expansion_def not_exported_no_expansion_def)

lemma unterminated_literal [simp]:
  "unterminated esc shell (LiteralStmt s # sts) =
     (if last s = CHR '';'' then unterminated esc shell sts else LiteralStmt s # unterminated esc shell sts)"
  by (simp add: unterminated_def)

lemma unterminated_unsets [simp]: "unterminated esc shell (map UnsetVarStmt names) = []"
  by (induction names) simp_all

lemma unterminated_sets [simp]: "unterminated esc shell (map (\<lambda>(k, v). exported_no_expansion k v) m) = []"
  by (induction m) auto

lemma unterminated_parts [simp]:
  "unterminated esc shell (generate_statements ad in_place) = []"
  "unterminated esc shell (generate_deactivation_statements d) = []"
  "unterminated esc shell (clean_up_stmt esc rm c) = []"
  by (auto simp: generate_statements_def generate_deactivation_statements_def clean_up_stmt_def split: option.split)

lemma last_append_nonempty: "ys \<noteq> [] \<Longrightarrow> last (xs @ ys) = last ys"
  by simp

lemmas snippet_defs =
  bash_set_prompt_def bash_set_env_dirs_def bash_fix_paths_def bash_profile_scripts_def
  posix_profile_scripts_deactivate_def zsh_set_prompt_def zsh_drop_rehash_def zsh_restore_fpath_def
  zsh_recompute_fpath_def fish_set_prompt_def fish_default_env_dirs_def fish_set_env_dirs_def
  fish_default_manpath_def fish_fix_paths_def fish_default_sourced_def fish_profile_scripts_def
  fish_profile_scripts_deactivate_def tcsh_set_prompt_def tcsh_default_env_dirs_def tcsh_set_env_dirs_def
  tcsh_default_manpath_def tcsh_fix_paths_def tcsh_already_sourced_def tcsh_profile_scripts_def
  tcsh_profile_scripts_deactivate_def PROMPT_HOOK_VERSION_ENV_def

lemma snippets_terminated [simp]:
  "last (bash_set_prompt p) = CHR '';''" "last (bash_set_env_dirs b f) = CHR '';''"
  "last (bash_fix_paths b) = CHR '';''" "last (bash_profile_scripts b) = CHR '';''"
  "last (posix_profile_scripts_deactivate n b f) = CHR '';''" "last (zsh_set_prompt p) = CHR '';''"
  "last zsh_drop_rehash = CHR '';''" "last zsh_restore_fpath = CHR '';''"
  "last (zsh_recompute_fpath b) = CHR '';''" "last (fish_set_prompt p) = CHR '';''"
  "last fish_default_env_dirs = CHR '';''" "last (fish_set_env_dirs b f) = CHR '';''"
  "last fish_default_manpath = CHR '';''" "last (fish_fix_paths b) = CHR '';''"
  "last fish_default_sourced = CHR '';''" "last (fish_profile_scripts b) = CHR '';''"
  "last (fish_profile_scripts_deactivate b f) = CHR '';''" "last (tcsh_set_prompt p) = CHR '';''"
  "last tcsh_default_env_dirs = CHR '';''" "last (tcsh_set_env_dirs b f) = CHR '';''"
  "last tcsh_default_manpath = CHR '';''" "last (tcsh_fix_paths b) = CHR '';''"
  "last tcsh_already_sourced = CHR '';''" "last (tcsh_profile_scripts b) = CHR '';''"
  "last (tcsh_profile_scripts_deactivate b f) = CHR '';''"
  "last (''unsetenv '' @ PROMPT_HOOK_VERSION_ENV @ '';'') = CHR '';''"
  by (simp_all add: snippet_defs)

text \<open>
  Which statements rely on the end of the line. The scripts have to be valid when newlines are
  dropped (a shell that evaluates the output of a command in backquotes does so). All statements
  of the deactivation scripts and of the startup scripts end with a separator, for every shell,
  environment and diff, with exactly these exceptions: a startup script of bash has
  \<open>set +h\<close>, which swallows what follows on its line (the statement that marks the prompt hook),
  and the trace modes of bash and tcsh are switched on, and that of bash off, without one.
\<close>

theorem unterminated_statements:
  "unterminated esc shell (deactivate_stmts esc rm bin shell ctx) =
     (if dc_tracelevel ctx \<ge> 2 then
        (case shell of Bash \<Rightarrow> [LiteralStmt ''set -x'', LiteralStmt ''set +x''] | Tcsh \<Rightarrow> [LiteralStmt ''set verbose''] | _ \<Rightarrow> [])
      else []) \<and>
   unterminated esc (act_shell actx) (startup_stmts esc rm bin (startup_ctx encode nix_vars bin' actx invocation_type
       rc_path start_diff tracer verbosity vars is_sourcing_rc self_destruct bashrc_path)) =
     (case act_shell actx of
        Bash \<Rightarrow> if verbosity \<ge> 2 then [LiteralStmt ''set -x'', LiteralStmt ''set +h'', LiteralStmt ''set +x'']
          else [LiteralStmt ''set +h'']
      | Tcsh \<Rightarrow> if verbosity \<ge> 2 then [LiteralStmt ''set verbose''] else []
      | _ \<Rightarrow> [])"
proof
  show "unterminated esc shell (deactivate_stmts esc rm bin shell ctx) =
     (if dc_tracelevel ctx \<ge> 2 then
        (case shell of Bash \<Rightarrow> [LiteralStmt ''set -x'', LiteralStmt ''set +x''] | Tcsh \<Rightarrow> [LiteralStmt ''set verbose''] | _ \<Rightarrow> [])
      else [])"
    by (cases shell) (simp_all add: deactivate_stmts_def bash_profile_stmts_def zsh_profile_stmts_def
        fish_profile_stmts_def tcsh_profile_stmts_def)
next
  show "unterminated esc (act_shell actx) (startup_stmts esc rm bin (startup_ctx encode nix_vars bin' actx invocation_type
       rc_path start_diff tracer verbosity vars is_sourcing_rc self_destruct bashrc_path)) =
     (case act_shell actx of
        Bash \<Rightarrow> if verbosity \<ge> 2 then [LiteralStmt ''set -x'', LiteralStmt ''set +h'', LiteralStmt ''set +x'']
          else [LiteralStmt ''set +h'']
      | Tcsh \<Rightarrow> if verbosity \<ge> 2 then [LiteralStmt ''set verbose''] else []
      | _ \<Rightarrow> [])"
    by (cases "act_shell actx"; cases bashrc_path) (simp_all add: startup_ctx_def Let_def startup_stmts_def bash_profile_stmts_def
        zsh_profile_stmts_def fish_profile_stmts_def tcsh_profile_stmts_def)
qed

section \<open>A concrete activation\<close>

definition demo_encode :: "DiffSerializer \<Rightarrow> string" where
  "demo_encode d = show_nat (to_nat (sorted_list_of_set (added d), modified d, removed d))"

definition demo_decode :: "string \<Rightarrow> string + DiffSerializer" where
  "demo_decode s =
     (case parse_digits 0 s of
        Some n \<Rightarrow> (case from_nat n of (a, m, r) \<Rightarrow> Ok \<lparr> added = set a, modified = m, removed = r \<rparr>)
      | None \<Rightarrow> Err ''no number'')"

lemma demo_decode_encode: "finite (added d) \<Longrightarrow> demo_decode (demo_encode d) = Ok d"
  by (simp add: demo_decode_def demo_encode_def parse_digits_show_nat)

definition demo_activate_ctx :: ActivateCtx where
  "demo_activate_ctx = \<lparr> act_attach_ctx = \<lparr> actx_env = ''/env'', actx_env_cache = ''/cache'',
       actx_env_description = ''env'', actx_active_environments = ''[]'', actx_prompt_color_1 = ''1'',
       actx_prompt_color_2 = ''2'', actx_prompt_environments = ''env'', actx_set_prompt = True,
       actx_cuda_detection = ''0'', actx_interpreter_path = ''/interpreter'' \<rparr>,
     act_project_ctx = None, act_shell = Bash, act_disable_hook = False, act_flox_bin = ''/bin/flox'',
     act_fish_mode = None \<rparr>"

definition demo_start_diff :: EnvDiff where
  "demo_start_diff = \<lparr> additions = [(''EDITOR'', ''vi'')], deletions = [''PAGER''] \<rparr>"

text \<open>A shell that sets its prompt and a variable of the profile whenever it runs other code.\<close>

definition demo_vars :: "string set" where
  "demo_vars = insert ''PROJECT_ROOT'' own_vars"

definition demo_shell :: "Statement \<Rightarrow> shell_env \<Rightarrow> shell_env" where
  "demo_shell st e = e(''PS1'' \<mapsto> ''flox [env] '', ''PROJECT_ROOT'' \<mapsto> ''/proj'')"

lemma demo_shell_confined: "confined demo_vars demo_shell" "own_vars \<subseteq> demo_vars" "FLOX_HOOK_DIFF_VAR \<notin> demo_vars"
  by (auto simp: confined_def demo_shell_def demo_vars_def own_vars_def FLOX_HOOK_DIFF_VAR_def
      PROMPT_HOOK_VERSION_ENV_def)

lemma demo_stack:
  obtains l e where "activation_stack demo_vars demo_encode (bm_get [(''PAGER'', ''less'')]) [l] e"
    "e ''EDITOR'' = Some ''vi''" "e ''PAGER'' = None"
proof -
  let ?env = "[(''PAGER'', ''less'')]"
  let ?ctx = "startup_ctx demo_encode [] ''/bin/fa'' demo_activate_ctx InPlaceType None demo_start_diff ''true'' 0
    (vars_with_snapshot ?env) False True None"
  have hooks: "FLOX_HOOK_DIFF_VAR \<notin> set (bm_keys (additions demo_start_diff))"
    "FLOX_HOOK_DIFF_VAR \<notin> set (deletions demo_start_diff)"
    by (auto simp: demo_start_diff_def FLOX_HOOK_DIFF_VAR_def bm_keys_def)
  let ?vs = "demo_vars \<union> in_place_vars" and ?sh = demo_shell
  have inv: "bm_inv ?env"
    by (simp add: bm_inv_def)
  have sh: "confined ?vs ?sh"
    using demo_shell_confined(1) by (simp add: confined_def)
  obtain l where l: "activation_stack demo_vars demo_encode (bm_get ?env) [l]
      (run_stmts ?sh (startup_stmts id ''/bin/rm'' ''/bin/fa'' ?ctx) (bm_get ?env))"
    by (rule startup_script_activates [OF activation_stack.inactive inv demo_shell_confined(2) sh demo_shell_confined(3) hooks])
  have ad: "sc_attach_diff ?ctx = attach_diff_new demo_encode [] ''/bin/fa'' ''true'' (act_attach_ctx demo_activate_ctx)
      (act_project_ctx demo_activate_ctx) 0 (vars_with_snapshot ?env) demo_start_diff True"
    by (simp add: startup_ctx_def Let_def is_in_place_def)
  obtain pre post where parts: "startup_stmts id ''/bin/rm'' ''/bin/fa'' ?ctx = pre @ generate_statements (sc_attach_diff ?ctx) True @ post"
    "only own_vars pre" "only in_place_vars post"
    by (rule startup_stmts_parts [OF refl])
  have "run_stmts ?sh (startup_stmts id ''/bin/rm'' ''/bin/fa'' ?ctx) (bm_get ?env) v =
      run_stmts ?sh (generate_statements (sc_attach_diff ?ctx) True) (run_stmts ?sh pre (bm_get ?env)) v"
    if "v \<notin> ?vs" for v
  proof -
    have "only ?vs post"
      by (rule only_mono [OF parts(3)]) blast
    then show ?thesis
      using run_touching [OF sh _ that] by (simp add: parts(1))
  qed
  moreover have "''EDITOR'' \<notin> ?vs" "''PAGER'' \<notin> ?vs"
    by (simp_all add: demo_vars_def in_place_vars_def own_vars_def PROMPT_HOOK_VERSION_ENV_def FLOX_INVOCATION_TYPE_VAR_def)
  moreover have "bm_get (additions (double_sets (sc_attach_diff ?ctx))) ''EDITOR'' = Some ''vi''"
    "''EDITOR'' \<notin> set (deletions (double_sets (sc_attach_diff ?ctx)))"
    "''PAGER'' \<in> set (deletions (double_sets (sc_attach_diff ?ctx)))"
    unfolding ad by (simp_all add: attach_diff_new_def Let_def double_set_envs_def demo_start_diff_def bm_extend_def
        demo_activate_ctx_def)
  ultimately show thesis
    using that [OF l] by (simp add: run_generated [OF attach_diff_new_parts(1,2) [OF ad]])
qed

end
