(* ===== verification/Auto_Activate.thy ===== *)
theory Auto_Activate
  imports Gen_Rc Activations
begin

text \<open>
  The prompt hook (\<open>flox/src/commands/hook_env.rs\<close>, \<open>deactivate.rs\<close>,
  \<open>flox/src/utils/active_environments.rs\<close>, \<open>flox-core/src/hook_actions.rs\<close>): before every
  prompt the shell runs \<open>flox hook-env\<close> and evaluates what it prints. The hook carries out
  requested deactivations, deactivates the environments whose directory the shell has left,
  and activates those the user allowed. Its memory are two variables of the shell. Paths are
  lists of components; opening an environment, the terminal and the files are parameters.
\<close>

section \<open>Requests for the hook\<close>

datatype HookAction = Deactivate (ha_state_dir: path) (ha_flox_env: path)

datatype HookActionsError = ReadActions string | RemoveActions string | WriteActions string

text \<open>
  The file of pending actions, one per shell. Reading consumes it, whether it can be parsed or
  not: \<open>parse\<close> is the JSON parser and \<open>print\<close> its counterpart.
\<close>

record hook_files =
  hf_content :: "Pid \<Rightarrow> string option"
  hf_readable :: "Pid \<Rightarrow> bool"
  hf_removable :: "Pid \<Rightarrow> bool"
  hf_writable :: "Pid \<Rightarrow> bool"

definition write_hook_actions ::
  "(HookAction list \<Rightarrow> string) \<Rightarrow> Pid \<Rightarrow> HookAction list \<Rightarrow> (hook_files, HookActionsError, unit) action" where
  "write_hook_actions print pid actions fs =
     (if hf_writable fs pid then (Ok (), fs\<lparr> hf_content := (hf_content fs)(pid \<mapsto> print actions) \<rparr>)
      else (Err (WriteActions ''failed to write prompt-hook actions''), fs))"

definition take_hook_actions ::
  "(string \<Rightarrow> HookAction list option) \<Rightarrow> Pid \<Rightarrow> (hook_files, HookActionsError, HookAction list) action" where
  "take_hook_actions parse pid fs =
     (case hf_content fs pid of
        None \<Rightarrow> (Ok [], fs)
      | Some contents \<Rightarrow>
          if \<not> hf_readable fs pid then (Err (ReadActions ''failed to read prompt-hook actions''), fs)
          else if \<not> hf_removable fs pid then (Err (RemoveActions ''failed to remove prompt-hook actions file''), fs)
          else
            let fs' = fs\<lparr> hf_content := (hf_content fs)(pid := None) \<rparr>
            in (case parse contents of Some actions \<Rightarrow> (Ok actions, fs') | None \<Rightarrow> (Ok [], fs')))"

section \<open>Active environments\<close>

text \<open>
  An active environment: the directory of its \<open>.flox\<close> when it has one (a remote environment has
  none), the generation and the mode.
\<close>

record ActiveEnvironment =
  ae_path :: "path option"
  ae_name :: string
  ae_generation :: "nat option"
  ae_mode :: ActivateMode

type_synonym ActiveEnvironments = "ActiveEnvironment list"

definition last_active_full :: "ActiveEnvironments \<Rightarrow> ActiveEnvironment option" where
  "last_active_full envs = (case envs of [] \<Rightarrow> None | e # _ \<Rightarrow> Some e)"

definition set_last_active :: "ActiveEnvironment \<Rightarrow> ActiveEnvironments \<Rightarrow> ActiveEnvironments" where
  "set_last_active e envs = e # envs"

definition project_dir :: "ActiveEnvironment \<Rightarrow> path option" where
  "project_dir e = Option.bind (ae_path e) parent"

section \<open>Planning\<close>

record AutoActivateContext =
  ctx_cwd :: path
  ctx_discovered :: "path list"
  ctx_active :: "path option list"
  ctx_auto_activated :: "path list"
  ctx_suppressed :: "path list"
  ctx_allowed :: "path list"
  ctx_denied :: "path list"
  ctx_prompt_unregistered :: bool
  ctx_pending_deactivations :: bool

record AutoActivatePlan =
  plan_activate :: "path list"
  plan_prompt :: "path list"
  plan_deactivate :: "path list"
  plan_abandoned :: "path list"
  plan_auto_activated :: "path list"
  plan_suppressed :: "path list"

definition starts_with :: "path \<Rightarrow> path \<Rightarrow> bool" where
  "starts_with p base \<longleftrightarrow> take (length base) p = base"

definition inside :: "AutoActivateContext \<Rightarrow> path \<Rightarrow> bool" where
  "inside ctx p \<longleftrightarrow> starts_with (ctx_cwd ctx) p"

definition is_active :: "AutoActivateContext \<Rightarrow> path \<Rightarrow> bool" where
  "is_active ctx p \<longleftrightarrow> Some p \<in> set (ctx_active ctx)"

definition push_unless_in :: "path \<Rightarrow> path list \<Rightarrow> path list" where
  "push_unless_in p ps = (if p \<in> set ps then ps else ps @ [p])"

text \<open>The suppressed environments that the shell is still inside, without duplicates.\<close>

definition still_suppressed :: "AutoActivateContext \<Rightarrow> path list" where
  "still_suppressed ctx =
     foldl (\<lambda>acc p. if inside ctx p then push_unless_in p acc else acc) [] (ctx_suppressed ctx)"

text \<open>
  Tracked environments that are active stay tracked; one that is not was deactivated by hand and
  is suppressed while the shell is inside it.
\<close>

definition reconcile_one :: "AutoActivateContext \<Rightarrow> path list \<times> path list \<Rightarrow> path \<Rightarrow> path list \<times> path list" where
  "reconcile_one ctx acc p =
     (case acc of (auto_activated, suppressed) \<Rightarrow>
        if is_active ctx p then (push_unless_in p auto_activated, suppressed)
        else if inside ctx p then (auto_activated, push_unless_in p suppressed)
        else (auto_activated, suppressed))"

definition reconcile :: "AutoActivateContext \<Rightarrow> path list \<times> path list" where
  "reconcile ctx = foldl (reconcile_one ctx) ([], still_suppressed ctx) (ctx_auto_activated ctx)"

definition pending_plan :: "AutoActivateContext \<Rightarrow> path list \<Rightarrow> path list \<Rightarrow> AutoActivatePlan" where
  "pending_plan ctx auto_activated suppressed =
     (let (auto', supp') =
        (case ctx_active ctx of
           Some front # _ \<Rightarrow>
             (filter (\<lambda>p. p \<noteq> front) auto_activated,
              if inside ctx front then push_unless_in front suppressed else suppressed)
         | _ \<Rightarrow> (auto_activated, suppressed))
      in \<lparr> plan_activate = [], plan_prompt = [], plan_deactivate = [], plan_abandoned = [],
           plan_auto_activated = auto', plan_suppressed = supp' \<rparr>)"

text \<open>The layers at the front of the stack whose directory the shell has left.\<close>

fun leaving_layers :: "path list \<Rightarrow> path option list \<Rightarrow> path list" where
  "leaving_layers leavers [] = []"
| "leaving_layers leavers (layer # layers) =
     (case layer of
        Some p \<Rightarrow> if p \<in> set leavers then p # leaving_layers leavers layers else []
      | None \<Rightarrow> [])"

text \<open>Layers to deactivate, layers to give up, and the environments that stay tracked.\<close>

definition plan_leaving :: "AutoActivateContext \<Rightarrow> path list \<Rightarrow> path list \<times> path list \<times> path list" where
  "plan_leaving ctx auto_activated =
     (let leavers = filter (\<lambda>p. \<not> inside ctx p) auto_activated
      in if leavers = [] then ([], [], auto_activated)
         else
           let deactivate = leaving_layers leavers (ctx_active ctx);
               auto' = filter (\<lambda>p. p \<notin> set deactivate) auto_activated
           in if deactivate = [] then ([], leavers, filter (inside ctx) auto')
              else (deactivate, [], auto'))"

definition plan_one ::
  "AutoActivateContext \<Rightarrow> path list \<Rightarrow> path list \<times> path list \<times> path list \<Rightarrow> path \<Rightarrow> path list \<times> path list \<times> path list" where
  "plan_one ctx suppressed acc p =
     (case acc of (activate, prompt, auto_activated) \<Rightarrow>
        if is_active ctx p \<or> p \<in> set suppressed \<or> p \<in> set (ctx_denied ctx) \<or> p \<in> set activate \<or> p \<in> set prompt
        then (activate, prompt, auto_activated)
        else if p \<in> set (ctx_allowed ctx) then (activate @ [p], prompt, auto_activated @ [p])
        else if ctx_prompt_unregistered ctx then (activate, prompt @ [p], auto_activated)
        else (activate, prompt, auto_activated))"

definition plan_auto_activation :: "AutoActivateContext \<Rightarrow> AutoActivatePlan" where
  "plan_auto_activation ctx =
     (case reconcile ctx of (auto_activated, suppressed) \<Rightarrow>
        if ctx_pending_deactivations ctx then pending_plan ctx auto_activated suppressed
        else case plan_leaving ctx auto_activated of (deactivate, abandoned, auto') \<Rightarrow>
          let unwinding = (\<exists>p \<in> set auto'. \<not> inside ctx p);
              (activate, prompt, auto'') =
                (if unwinding then ([], [], auto')
                 else foldl (plan_one ctx suppressed) ([], [], auto') (ctx_discovered ctx))
          in \<lparr> plan_activate = activate, plan_prompt = prompt, plan_deactivate = deactivate,
               plan_abandoned = abandoned, plan_auto_activated = auto'', plan_suppressed = suppressed \<rparr>)"

section \<open>Gathering the context\<close>

datatype AutoActivationPreference = AllowPref | DenyPref
datatype AutoActivate = AllowedMode | PromptMode

record HookConfig =
  cfg_auto_activate :: "AutoActivate option"
  cfg_preferences :: "(path \<times> AutoActivationPreference) list"
  cfg_feature_auto_activate :: bool
  cfg_disable_hook :: "bool option"

definition ancestors :: "path \<Rightarrow> path list" where
  "ancestors p = map (\<lambda>n. take n p) (rev [0..<Suc (length p)])"

text \<open>
  The \<open>.flox\<close> directories above a directory, outermost first; broken ones are skipped. Opening
  one yields its canonical path.
\<close>

definition find_all_dot_flox :: "(path \<Rightarrow> bool) \<Rightarrow> (path \<Rightarrow> string + path) \<Rightarrow> path \<Rightarrow> path list" where
  "find_all_dot_flox exists open_in initial_dir =
     rev (List.map_filter (\<lambda>ancestor.
       if \<not> exists (ancestor @ [''.flox'']) then None
       else case open_in ancestor of Inr dot_flox \<Rightarrow> Some dot_flox | Inl err \<Rightarrow> None) (ancestors initial_dir))"

definition preference :: "HookConfig \<Rightarrow> AutoActivationPreference \<Rightarrow> path list" where
  "preference config want = map fst (filter (\<lambda>(p, pref). pref = want) (cfg_preferences config))"

definition gather_auto_activate_context ::
  "(path \<Rightarrow> bool) \<Rightarrow> (path \<Rightarrow> string + path) \<Rightarrow> HookConfig \<Rightarrow> path \<Rightarrow> ActiveEnvironments \<Rightarrow> path list \<Rightarrow> path list \<Rightarrow> bool
     \<Rightarrow> AutoActivateContext" where
  "gather_auto_activate_context exists open_in config cwd active auto_activated suppressed pending =
     \<lparr> ctx_cwd = cwd,
       ctx_discovered = List.map_filter parent (find_all_dot_flox exists open_in cwd),
       ctx_active = map project_dir active,
       ctx_auto_activated = auto_activated,
       ctx_suppressed = suppressed,
       ctx_allowed = preference config AllowPref,
       ctx_denied = preference config DenyPref,
       ctx_prompt_unregistered =
         (case cfg_auto_activate config of Some m \<Rightarrow> m = PromptMode | None \<Rightarrow> True),
       ctx_pending_deactivations = pending \<rparr>"

section \<open>Deactivation scripts\<close>

text \<open>
  What the scripts depend on: the decoder of diffs, the path of the activation scripts, that of
  \<open>flox-activations\<close> and the verbosity of the subsystems.
\<close>

record DeactivationSettings =
  ds_decode :: "string \<Rightarrow> string + DiffSerializer"
  ds_interpreter :: string
  ds_activations_bin :: string
  ds_tracelevel :: nat

definition path_display :: "path \<Rightarrow> string" where
  "path_display p = (if p = [] then ''/'' else concat (map (\<lambda>c. ''/'' @ c) p))"

record DeactivationTarget =
  dt_activation_state_dir :: path
  dt_flox_env :: path

datatype hook_script =
    Exit string
  | Restore DeactivateCtx path
  | Activate path
  | SetPathList string "path list"
  | UnsetPathList string

datatype hook_warning =
    PredatesPromptHook path
  | BuriedLayer path
  | AbandonedLayer path
  | DidNotAutoActivate "path list"

datatype hook_error =
    ReadHookActions HookActionsError
  | HookDiffNotSet
  | HookDiffDecode string
  | CannotDeactivateExec
  | NoActiveEnvironment path
  | StackMismatch path
  | OpenEnvironment string
  | WritePreference string
  | PromptHookUnavailable string

record hook_out =
  out_scripts :: "hook_script list"
  out_warnings :: "hook_warning list"
  out_preferences :: "(path \<times> AutoActivationPreference) list"

type_synonym 'a hook_run = "(hook_out, hook_error, 'a) action"

definition emit :: "hook_script \<Rightarrow> unit hook_run" where
  "emit script out = (Ok (), out\<lparr> out_scripts := out_scripts out @ [script] \<rparr>)"

definition warn :: "hook_warning \<Rightarrow> unit hook_run" where
  "warn w out = (Ok (), out\<lparr> out_warnings := out_warnings out @ [w] \<rparr>)"

fun each :: "('b \<Rightarrow> unit hook_run) \<Rightarrow> 'b list \<Rightarrow> unit hook_run" where
  "each f [] = act_ok ()"
| "each f (x # xs) = act_bind (f x) (\<lambda>_. each f xs)"

text \<open>
  An interactive subshell exits; otherwise the variables are restored and the process detaches.
  \<open>hook_diff\<close> is the variable \<open>_FLOX_HOOK_DIFF\<close> of the shell.
\<close>

definition generate_deactivate_script_with_diff ::
  "DeactivationSettings \<Rightarrow> path \<Rightarrow> path \<Rightarrow> string \<Rightarrow> unit hook_run" where
  "generate_deactivate_script_with_diff ds activation_state_dir flox_env encoded =
     (case ds_decode ds encoded of
        Inl e \<Rightarrow> act_err (HookDiffDecode e)
      | Inr d \<Rightarrow> emit (Restore (deactivate_ctx (ds_interpreter ds) (ds_activations_bin ds) (path_display flox_env)
          (ds_tracelevel ds) d) activation_state_dir))"

definition emit_deactivate_script ::
  "DeactivationSettings \<Rightarrow> string option \<Rightarrow> Shell \<Rightarrow> InvocationKind \<Rightarrow> path \<Rightarrow> path \<Rightarrow> string option
     \<Rightarrow> unit hook_run" where
  "emit_deactivate_script ds hook_diff shell kind activation_state_dir flox_env enc =
     (case kind of
        Interactive \<Rightarrow> emit (Exit (case shell of Tcsh \<Rightarrow> ''set _flox_exit=1;'' | _ \<Rightarrow> ''exit;''))
      | ExecCommand \<Rightarrow> act_err CannotDeactivateExec
      | _ \<Rightarrow>
          (case enc of
             Some e \<Rightarrow> generate_deactivate_script_with_diff ds activation_state_dir flox_env e
           | None \<Rightarrow>
               (case hook_diff of
                  Some e \<Rightarrow> generate_deactivate_script_with_diff ds activation_state_dir flox_env e
                | None \<Rightarrow> act_err HookDiffNotSet)))"

section \<open>The hook\<close>

text \<open>
  Popping the layers of the plan. Each layer of the stack must be the next one of the plan; the
  chain of diffs may end early, which strands this layer and the ones behind it.
\<close>

fun deactivate_planned ::
  "DeactivationSettings \<Rightarrow> (ActiveEnvironment \<Rightarrow> string + DeactivationTarget) \<Rightarrow> Shell
     \<Rightarrow> string option \<Rightarrow> ActiveEnvironments \<Rightarrow> path list \<Rightarrow> unit hook_run" where
  "deactivate_planned ds open_target shell enc layers [] = act_ok ()"
| "deactivate_planned ds open_target shell enc layers (dir # dirs) =
     (case layers of
        [] \<Rightarrow> act_err (NoActiveEnvironment dir)
      | layer # layers' \<Rightarrow>
          if project_dir layer \<noteq> Some dir then act_err (StackMismatch dir)
          else case enc of
            None \<Rightarrow> act_bind (warn (PredatesPromptHook dir)) (\<lambda>_. each (\<lambda>buried. warn (BuriedLayer buried)) dirs)
          | Some diff \<Rightarrow>
              act_bind (act_lift (case open_target layer of Inl e \<Rightarrow> Err (OpenEnvironment e) | Inr t \<Rightarrow> Ok t)) (\<lambda>target.
              act_bind (emit_deactivate_script ds None shell InPlace (dt_activation_state_dir target)
                (dt_flox_env target) (Some diff)) (\<lambda>_.
              act_bind (act_lift (case embedded_hook_diff (ds_decode ds) diff of Inl e \<Rightarrow> Err (HookDiffDecode e) | Inr o' \<Rightarrow> Ok o'))
                (\<lambda>outer. deactivate_planned ds open_target shell outer layers' dirs))))"

datatype AutoActivateConsent = ConsentAllow | ConsentDecline | NoTerminal

text \<open>The answer on the terminal, if there is one.\<close>

definition to_ascii_lowercase :: "char \<Rightarrow> char" where
  "to_ascii_lowercase c = (if 65 \<le> (of_char c :: nat) \<and> (of_char c :: nat) \<le> 90 then char_of (of_char c + 32 :: nat) else c)"

definition eq_ignore_ascii_case :: "string \<Rightarrow> string \<Rightarrow> bool" where
  "eq_ignore_ascii_case s t \<longleftrightarrow> map to_ascii_lowercase s = map to_ascii_lowercase t"

definition consent_of_answer :: "string \<Rightarrow> AutoActivateConsent" where
  "consent_of_answer line =
     (let answer = trim line
      in if eq_ignore_ascii_case answer ''y'' \<or> eq_ignore_ascii_case answer ''yes''
         then ConsentAllow else ConsentDecline)"

definition prompt_for_auto_activation :: "string option \<Rightarrow> AutoActivateConsent" where
  "prompt_for_auto_activation tty = (case tty of None \<Rightarrow> NoTerminal | Some line \<Rightarrow> consent_of_answer line)"

text \<open>One discovered directory: activated, asked about, or passed by.\<close>

definition handle_discovered ::
  "(path \<Rightarrow> string + unit) \<Rightarrow> AutoActivatePlan \<Rightarrow> AutoActivateConsent \<Rightarrow> path \<Rightarrow> path list \<times> path list
     \<Rightarrow> (path list \<times> path list) hook_run" where
  "handle_discovered write_pref plan consent p acc =
     (case acc of (auto_activated, suppressed) \<Rightarrow>
        if p \<in> set (plan_activate plan) then
          act_bind (emit (Activate p)) (\<lambda>_. act_ok (auto_activated, suppressed))
        else if p \<in> set (plan_prompt plan) then
          (case consent of
             ConsentAllow \<Rightarrow>
               act_bind (act_lift (case write_pref p of Inl e \<Rightarrow> Err (WritePreference e) | Inr _ \<Rightarrow> Ok ())) (\<lambda>_.
               act_bind (\<lambda>out. (Ok (), out\<lparr> out_preferences := out_preferences out @ [(p, AllowPref)] \<rparr>)) (\<lambda>_.
               act_bind (emit (Activate p)) (\<lambda>_.
               act_ok (push_unless_in p auto_activated, suppressed))))
           | ConsentDecline \<Rightarrow> act_ok (auto_activated, push_unless_in p suppressed)
           | NoTerminal \<Rightarrow> act_ok (auto_activated, suppressed))
        else act_ok (auto_activated, suppressed))"

fun handle_all_discovered ::
  "(path \<Rightarrow> string + unit) \<Rightarrow> AutoActivatePlan \<Rightarrow> AutoActivateConsent \<Rightarrow> path list \<Rightarrow> path list \<times> path list
     \<Rightarrow> (path list \<times> path list) hook_run" where
  "handle_all_discovered write_pref plan consent [] acc = act_ok acc"
| "handle_all_discovered write_pref plan consent (p # ps) acc =
     act_bind (handle_discovered write_pref plan consent p acc) (\<lambda>acc'.
     handle_all_discovered write_pref plan consent ps acc')"

definition FLOX_AUTO_ACTIVATED_ENVIRONMENTS_VAR :: string where
  "FLOX_AUTO_ACTIVATED_ENVIRONMENTS_VAR = ''_FLOX_AUTO_ACTIVATED_ENVIRONMENTS''"
definition FLOX_SUPPRESSED_ENVIRONMENTS_VAR :: string where
  "FLOX_SUPPRESSED_ENVIRONMENTS_VAR = ''_FLOX_SUPPRESSED_ENVIRONMENTS''"

definition write_path_list_update :: "string \<Rightarrow> path list \<Rightarrow> path list \<Rightarrow> unit hook_run" where
  "write_path_list_update var old new =
     (if old = new then act_ok ()
      else if new = [] then emit (UnsetPathList var)
      else emit (SetPathList var new))"

definition handle_actions ::
  "DeactivationSettings \<Rightarrow> string option \<Rightarrow> Shell \<Rightarrow> InvocationKind option \<Rightarrow> HookAction list \<Rightarrow> unit hook_run" where
  "handle_actions ds hook_diff shell invocation_kind actions =
     each (\<lambda>action. case action of Deactivate state_dir flox_env \<Rightarrow>
       emit_deactivate_script ds hook_diff shell
         (case invocation_kind of Some k \<Rightarrow> k | None \<Rightarrow> InPlace) state_dir flox_env None) actions"

text \<open>
  The auto-activation half of the hook, after the pending actions; \<open>hook_diff\<close> is the variable
  of the shell, \<open>stack\<close> its active environments and \<open>tty\<close> the answer on the terminal.
\<close>

definition auto_activation ::
  "DeactivationSettings \<Rightarrow> (ActiveEnvironment \<Rightarrow> string + DeactivationTarget) \<Rightarrow> (path \<Rightarrow> string + unit)
     \<Rightarrow> string option \<Rightarrow> Shell \<Rightarrow> string option \<Rightarrow> ActiveEnvironments \<Rightarrow> AutoActivateContext \<Rightarrow> unit hook_run" where
  "auto_activation ds open_target write_pref tty shell hook_diff stack ctx =
     (let plan = plan_auto_activation ctx;
          consent = (if plan_prompt plan = [] then NoTerminal else prompt_for_auto_activation tty)
      in act_bind (deactivate_planned ds open_target shell hook_diff stack (plan_deactivate plan)) (\<lambda>_.
         act_bind (each (\<lambda>p. warn (AbandonedLayer p)) (plan_abandoned plan)) (\<lambda>_.
         act_bind (handle_all_discovered write_pref plan consent (ctx_discovered ctx)
           (plan_auto_activated plan, plan_suppressed plan)) (\<lambda>(auto_activated, suppressed).
         act_bind (if consent = ConsentDecline \<and> plan_prompt plan \<noteq> [] then warn (DidNotAutoActivate (plan_prompt plan))
           else act_ok ()) (\<lambda>_.
         act_bind (write_path_list_update FLOX_AUTO_ACTIVATED_ENVIRONMENTS_VAR (ctx_auto_activated ctx) auto_activated) (\<lambda>_.
         write_path_list_update FLOX_SUPPRESSED_ENVIRONMENTS_VAR (ctx_suppressed ctx) suppressed))))))"

definition hook_env ::
  "DeactivationSettings \<Rightarrow> (ActiveEnvironment \<Rightarrow> string + DeactivationTarget) \<Rightarrow> (path \<Rightarrow> string + unit)
     \<Rightarrow> string option \<Rightarrow> Shell \<Rightarrow> InvocationKind option \<Rightarrow> string option \<Rightarrow> ActiveEnvironments
     \<Rightarrow> (path \<Rightarrow> bool) \<Rightarrow> (path \<Rightarrow> string + path) \<Rightarrow> HookConfig \<Rightarrow> path \<Rightarrow> path list \<Rightarrow> path list
     \<Rightarrow> HookActionsError + HookAction list \<Rightarrow> unit hook_run" where
  "hook_env ds open_target write_pref tty shell invocation_kind hook_diff stack exists open_in config cwd
      auto_activated suppressed taken =
     act_bind (act_lift (case taken of Inl e \<Rightarrow> Err (ReadHookActions e) | Inr actions \<Rightarrow> Ok actions)) (\<lambda>actions.
     act_bind (handle_actions ds hook_diff shell invocation_kind actions) (\<lambda>_.
     if \<not> cfg_feature_auto_activate config then act_ok ()
     else auto_activation ds open_target write_pref tty shell hook_diff stack
       (gather_auto_activate_context exists open_in config cwd stack auto_activated suppressed (actions \<noteq> []))))"

section \<open>Requesting a deactivation\<close>

definition ensure_prompt_hook_available :: "HookConfig \<Rightarrow> string option \<Rightarrow> hook_error + unit" where
  "ensure_prompt_hook_available config version_var =
     (if cfg_disable_hook config = Some True then Err (PromptHookUnavailable ''disabled'')
      else case Option.bind version_var (parse_uint 255) of
             Some version \<Rightarrow> if version = PROMPT_HOOK_VERSION then Ok () else Err (PromptHookUnavailable ''incompatible'')
           | None \<Rightarrow> Err (PromptHookUnavailable ''not set up''))"

definition handle_request_deactivate ::
  "(HookAction list \<Rightarrow> string) \<Rightarrow> (ActiveEnvironment \<Rightarrow> string + DeactivationTarget) \<Rightarrow> HookConfig \<Rightarrow> string option
     \<Rightarrow> ActiveEnvironments \<Rightarrow> Pid \<Rightarrow> (hook_files, hook_error, unit) action" where
  "handle_request_deactivate print open_target config version_var envs shell_pid =
     (case last_active_full envs of
        None \<Rightarrow> act_ok ()
      | Some active \<Rightarrow>
          act_bind (act_lift (ensure_prompt_hook_available config version_var)) (\<lambda>_.
          act_bind (act_lift (case open_target active of Inl e \<Rightarrow> Err (OpenEnvironment e) | Inr t \<Rightarrow> Ok t)) (\<lambda>target.
          act_map_err ReadHookActions (write_hook_actions print shell_pid
            [Deactivate (dt_activation_state_dir target) (dt_flox_env target)]))))"

section \<open>Leaving restores the environment\<close>

text \<open>The text that the hook prints; \<open>json\<close> prints a list of paths.\<close>

definition activate_command :: "(string \<Rightarrow> string) \<Rightarrow> string \<Rightarrow> Shell \<Rightarrow> path \<Rightarrow> string" where
  "activate_command esc flox_bin shell p =
     (let command = esc flox_bin @ '' activate --dir '' @ esc (path_display p)
      in (case shell of
            Fish \<Rightarrow> command @ '' | source;''
          | Tcsh \<Rightarrow> ''eval '' @ dq @ ''`'' @ command @ ''`'' @ dq @ '';''
          | _ \<Rightarrow> ''eval '' @ dq @ ''$('' @ command @ '')'' @ dq @ '';'') @ newline)"

definition deactivate_text :: "(string \<Rightarrow> string) \<Rightarrow> string \<Rightarrow> string \<Rightarrow> Shell \<Rightarrow> DeactivateCtx \<Rightarrow> path \<Rightarrow> string" where
  "deactivate_text esc rm bin shell ctx activation_state_dir =
     (case shell of
        Bash \<Rightarrow> generate_bash_profile_commands esc rm bin (DeactivateRc ctx)
      | Zsh \<Rightarrow> generate_zsh_profile_commands esc rm bin (DeactivateRc ctx)
      | Fish \<Rightarrow> generate_fish_profile_commands esc rm bin (DeactivateRc ctx)
      | Tcsh \<Rightarrow> generate_tcsh_profile_commands esc rm bin (DeactivateRc ctx)) @
     detach_command (dc_flox_activations ctx) (path_display activation_state_dir) shell"

fun script_text ::
  "(string \<Rightarrow> string) \<Rightarrow> string \<Rightarrow> string \<Rightarrow> string \<Rightarrow> (string list \<Rightarrow> string) \<Rightarrow> Shell \<Rightarrow> hook_script \<Rightarrow> string" where
  "script_text esc rm bin flox_bin json shell (Exit s) = s"
| "script_text esc rm bin flox_bin json shell (Restore ctx dir) = deactivate_text esc rm bin shell ctx dir"
| "script_text esc rm bin flox_bin json shell (Activate p) = activate_command esc flox_bin shell p"
| "script_text esc rm bin flox_bin json shell (SetPathList var ps) =
     generate_with_newline esc shell (exported_no_expansion var (json (map path_display ps)))"
| "script_text esc rm bin flox_bin json shell (UnsetPathList var) = generate_with_newline esc shell (UnsetVarStmt var)"

lemma deactivate_text_stmts:
  "deactivate_text esc rm bin shell ctx dir =
     write_stmts esc shell (deactivate_stmts esc rm bin shell ctx) @
     detach_command (dc_flox_activations ctx) (path_display dir) shell"
  by (cases shell) (simp_all add: deactivate_text_def deactivate_stmts_def generate_bash_profile_commands_def
      generate_zsh_profile_commands_def generate_fish_profile_commands_def generate_tcsh_profile_commands_def)

definition run_restores ::
  "(string \<Rightarrow> string) \<Rightarrow> string \<Rightarrow> string \<Rightarrow> Shell \<Rightarrow> (Statement \<Rightarrow> shell_env \<Rightarrow> shell_env)
     \<Rightarrow> (DeactivateCtx \<times> path) list \<Rightarrow> shell_env \<Rightarrow> shell_env" where
  "run_restores esc rm bin shell sh = fold (\<lambda>(ctx, dir). run_stmts sh (deactivate_stmts esc rm bin shell ctx))"

lemma unwinding:
  assumes "activation_stack vs encode e0 ls e"
    and "\<forall>d. finite (added d) \<longrightarrow> ds_decode ds (encode d) = Ok d"
    and "map project_dir layers = map Some dirs" "map open_target layers = map Ok targets" "length dirs = length ls"
    and vs: "own_vars \<subseteq> vs" and sh: "confined vs sh"
  obtains restores where
    "deactivate_planned ds open_target shell (e FLOX_HOOK_DIFF_VAR) (layers @ rest) dirs out =
       (Ok (), out\<lparr> out_scripts := out_scripts out @ map (\<lambda>(ctx, dir). Restore ctx dir) restores \<rparr>)"
    "map snd restores = map dt_activation_state_dir targets"
    "\<forall>e''. agree vs e'' e \<longrightarrow> agree vs (run_restores esc rm bin shell sh restores e'') e0"
  using assms(1,3-5)
proof (induction arbitrary: layers dirs targets out thesis)
  case inactive
  then show ?case
    by (auto intro: inactive(1) [of "[]"] simp: run_restores_def act_ok_def)
next
  case (activate ls e snapshot ad nix_vars bin' tracer actx project verbosity start_diff l e')
  obtain dir dirs' where dirs: "dirs = dir # dirs'" "length dirs' = length ls"
    using activate.prems(4) by (cases dirs) auto
  obtain layer layers' where layers: "layers = layer # layers'" "project_dir layer = Some dir"
      "map project_dir layers' = map Some dirs'"
    using activate.prems(2) dirs(1) by (cases layers) auto
  obtain target targets' where targets: "targets = target # targets'" "open_target layer = Ok target"
      "map open_target layers' = map Ok targets'"
    using activate.prems(3) layers(1) by (cases targets) auto
  obtain d where d: "ds_decode ds l = Ok d" "embedded_hook_diff (ds_decode ds) l = Ok (e FLOX_HOOK_DIFF_VAR)"
    "\<And>esc rm bin shell interpreter bin'' flox_env tracelevel sh e''. confined vs sh \<Longrightarrow> agree vs e'' e' \<Longrightarrow>
      agree vs (run_stmts sh (deactivate_stmts esc rm bin shell (deactivate_ctx interpreter bin'' flox_env tracelevel d)) e'') e"
    by (rule deactivate_layer [OF activate.hyps(4,2,5,7) assms(2) vs]) blast
  let ?c = "deactivate_ctx (ds_interpreter ds) (ds_activations_bin ds) (path_display (dt_flox_env target)) (ds_tracelevel ds) d"
  let ?r = "(?c, dt_activation_state_dir target)"
  let ?out = "out\<lparr> out_scripts := out_scripts out @ [Restore ?c (dt_activation_state_dir target)] \<rparr>"
  obtain restores where r:
    "deactivate_planned ds open_target shell (e FLOX_HOOK_DIFF_VAR) (layers' @ rest) dirs' ?out =
       (Ok (), ?out\<lparr> out_scripts := out_scripts ?out @ map (\<lambda>(ctx, dir). Restore ctx dir) restores \<rparr>)"
    "map snd restores = map dt_activation_state_dir targets'"
    "\<forall>e''. agree vs e'' e \<longrightarrow> agree vs (run_restores esc rm bin shell sh restores e'') e0"
    by (rule activate.IH [OF _ layers(3) targets(3) dirs(2)]) blast
  show ?case
  proof (rule activate.prems(1) [of "?r # restores"])
    show "deactivate_planned ds open_target shell (e' FLOX_HOOK_DIFF_VAR) (layers @ rest) dirs out =
        (Ok (), out\<lparr> out_scripts := out_scripts out @ map (\<lambda>(ctx, dir). Restore ctx dir) (?r # restores) \<rparr>)"
      using r(1) by (simp add: dirs layers targets activate.hyps(6) d emit_deactivate_script_def
          generate_deactivate_script_with_diff_def emit_def act_bind_def act_lift_def)
    show "map snd (?r # restores) = map dt_activation_state_dir targets"
      by (simp add: r(2) targets)
    show "\<forall>e''. agree vs e'' e' \<longrightarrow> agree vs (run_restores esc rm bin shell sh (?r # restores) e'') e0"
      using r(3) d(3) [OF sh] by (simp add: run_restores_def)
  qed
qed

text \<open>
  C22. The prompt hook undoes in-place activations. For every stack of in-place activations (a
  step of it is, for example, any startup script that \<open>startup_ctx\<close> generates), popping as many
  layers of it as were activated succeeds without a warning: it prints one deactivation script per
  layer, each for the activation of that layer, and a shell of any kind that evaluates them has
  every variable as before the first of these activations, apart from the variables of a set \<open>vs\<close>.
  The set is the one of the variables that shell code other than the generated assignments may
  change without flox knowing: it contains the scripts' own variables, the prompt among them, and
  whatever the profile scripts and the user set besides. The claim holds whatever happened to the
  tracked variables in between, also when more environments are active below. Hypotheses:
  decoding undoes encoding, the layers are those of the plan and can be opened, and the remaining
  shell code of the deactivation scripts changes only variables of \<open>vs\<close>.
\<close>

theorem hook_restores_environment:
  assumes "activation_stack vs encode e0 ls e"
    and "\<forall>d. finite (added d) \<longrightarrow> ds_decode ds (encode d) = Ok d"
    and "map project_dir layers = map Some dirs" "map open_target layers = map Ok targets" "length dirs = length ls"
    and "own_vars \<subseteq> vs" and "confined vs sh"
  shows "\<exists>restores.
    deactivate_planned ds open_target shell (e FLOX_HOOK_DIFF_VAR) (layers @ rest) dirs out =
      (Ok (), out\<lparr> out_scripts := out_scripts out @ map (\<lambda>(ctx, dir). Restore ctx dir) restores \<rparr>) \<and>
    map snd restores = map dt_activation_state_dir targets \<and>
    (\<forall>v. v \<notin> vs \<longrightarrow> run_restores esc rm bin shell sh restores e v = e0 v)"
proof -
  obtain restores where
    "deactivate_planned ds open_target shell (e FLOX_HOOK_DIFF_VAR) (layers @ rest) dirs out =
       (Ok (), out\<lparr> out_scripts := out_scripts out @ map (\<lambda>(ctx, dir). Restore ctx dir) restores \<rparr>)"
    "map snd restores = map dt_activation_state_dir targets"
    "\<forall>e''. agree vs e'' e \<longrightarrow> agree vs (run_restores esc rm bin shell sh restores e'') e0"
    by (rule unwinding [OF assms, where shell = shell and rest = rest and out = out and esc = esc and rm = rm and bin = bin])
  then show ?thesis
    by (auto simp: agree_def)
qed

section \<open>What a plan may do\<close>

lemma set_push_unless_in [simp]: "set (push_unless_in p ps) = insert p (set ps)"
  by (auto simp: push_unless_in_def)

lemma distinct_push_unless_in [simp]: "distinct (push_unless_in p ps) = distinct ps"
  by (simp add: push_unless_in_def)

lemma still_suppressed_fold:
  "distinct acc \<Longrightarrow> \<forall>p \<in> set acc. inside ctx p \<Longrightarrow>
   set (foldl (\<lambda>acc p. if inside ctx p then push_unless_in p acc else acc) acc ps) = set acc \<union> {p \<in> set ps. inside ctx p} \<and>
   distinct (foldl (\<lambda>acc p. if inside ctx p then push_unless_in p acc else acc) acc ps)"
  by (induction ps arbitrary: acc) auto

lemma still_suppressed_facts:
  "set (still_suppressed ctx) = {p \<in> set (ctx_suppressed ctx). inside ctx p}" "distinct (still_suppressed ctx)"
  using still_suppressed_fold [of "[]" ctx "ctx_suppressed ctx"] by (simp_all add: still_suppressed_def)

lemma reconcile_fold:
  assumes "foldl (reconcile_one ctx) (auto0, supp0) ps = (auto_activated, suppressed)"
    and "distinct auto0" "distinct supp0"
  shows "set auto_activated = set auto0 \<union> {p \<in> set ps. is_active ctx p}" "distinct auto_activated"
    "set suppressed = set supp0 \<union> {p \<in> set ps. \<not> is_active ctx p \<and> inside ctx p}" "distinct suppressed"
  using assms
  by (induction ps arbitrary: auto0 supp0) (auto simp: reconcile_one_def split: if_splits)

lemma reconcile_facts:
  assumes "reconcile ctx = (auto_activated, suppressed)"
  shows "set auto_activated = {p \<in> set (ctx_auto_activated ctx). is_active ctx p}" "distinct auto_activated"
    "set suppressed = {p \<in> set (ctx_suppressed ctx) \<union> {p \<in> set (ctx_auto_activated ctx). \<not> is_active ctx p}. inside ctx p}"
    "distinct suppressed"
  using reconcile_fold [of ctx "[]" "still_suppressed ctx" "ctx_auto_activated ctx" auto_activated suppressed] assms
  by (auto simp: reconcile_def still_suppressed_facts)

definition may_consider :: "AutoActivateContext \<Rightarrow> path list \<Rightarrow> path \<Rightarrow> bool" where
  "may_consider ctx suppressed p \<longleftrightarrow>
     p \<in> set (ctx_discovered ctx) \<and> \<not> is_active ctx p \<and> p \<notin> set suppressed \<and> p \<notin> set (ctx_denied ctx)"

lemma plan_one_fold:
  assumes "foldl (plan_one ctx suppressed) (act0, prompt0, auto0) ps = (activate, prompt, auto_activated)"
    and "set ps \<subseteq> set (ctx_discovered ctx)"
    and "\<forall>p \<in> set act0. may_consider ctx suppressed p \<and> p \<in> set (ctx_allowed ctx)"
    and "\<forall>p \<in> set prompt0. may_consider ctx suppressed p \<and> ctx_prompt_unregistered ctx \<and> p \<notin> set (ctx_allowed ctx)"
    and "distinct act0"
  shows "(\<forall>p \<in> set activate. may_consider ctx suppressed p \<and> p \<in> set (ctx_allowed ctx)) \<and>
    (\<forall>p \<in> set prompt. may_consider ctx suppressed p \<and> ctx_prompt_unregistered ctx \<and> p \<notin> set (ctx_allowed ctx)) \<and>
    distinct activate \<and> (\<exists>new. activate = act0 @ new \<and> auto_activated = auto0 @ new) \<and>
    (\<forall>p \<in> set ps. may_consider ctx suppressed p \<and> p \<in> set (ctx_allowed ctx) \<longrightarrow> p \<in> set activate)"
  using assms
proof (induction ps arbitrary: act0 prompt0 auto0)
  case (Cons p ps)
  obtain act1 prompt1 auto1 where one: "plan_one ctx suppressed (act0, prompt0, auto0) p = (act1, prompt1, auto1)"
    by (metis surj_pair)
  have step: "(\<forall>q \<in> set act1. may_consider ctx suppressed q \<and> q \<in> set (ctx_allowed ctx)) \<and>
      (\<forall>q \<in> set prompt1. may_consider ctx suppressed q \<and> ctx_prompt_unregistered ctx \<and> q \<notin> set (ctx_allowed ctx)) \<and>
      distinct act1 \<and> (\<exists>new. act1 = act0 @ new \<and> auto1 = auto0 @ new) \<and>
      (may_consider ctx suppressed p \<and> p \<in> set (ctx_allowed ctx) \<longrightarrow> p \<in> set act1)"
    using one Cons.prems(2-5) by (auto simp: plan_one_def may_consider_def split: if_splits)
  then show ?case
    using Cons.IH [of act1 prompt1 auto1] Cons.prems(1,2) by (fastforce simp: one)
qed simp

lemma plan_parts:
  assumes "\<not> ctx_pending_deactivations ctx" "reconcile ctx = (auto_activated, suppressed)"
    and "plan_leaving ctx auto_activated = (deactivate, abandoned, auto')"
  obtains activate prompt where
    "plan_auto_activation ctx = \<lparr> plan_activate = activate, plan_prompt = prompt, plan_deactivate = deactivate,
       plan_abandoned = abandoned, plan_auto_activated = auto' @ activate, plan_suppressed = suppressed \<rparr>"
    "\<forall>p \<in> set activate. may_consider ctx suppressed p \<and> p \<in> set (ctx_allowed ctx)"
    "\<forall>p \<in> set prompt. may_consider ctx suppressed p \<and> ctx_prompt_unregistered ctx \<and> p \<notin> set (ctx_allowed ctx)"
    "distinct activate"
    "(\<forall>p \<in> set auto'. inside ctx p) \<longrightarrow>
       (\<forall>p \<in> set (ctx_discovered ctx). may_consider ctx suppressed p \<and> p \<in> set (ctx_allowed ctx) \<longrightarrow> p \<in> set activate)"
    "(\<exists>p \<in> set auto'. \<not> inside ctx p) \<longrightarrow> activate = []"
proof (cases "\<exists>p \<in> set auto'. \<not> inside ctx p")
  case True
  then have "plan_auto_activation ctx = \<lparr> plan_activate = [], plan_prompt = [], plan_deactivate = deactivate,
      plan_abandoned = abandoned, plan_auto_activated = auto' @ [], plan_suppressed = suppressed \<rparr>"
    using assms by (simp add: plan_auto_activation_def Let_def)
  then show thesis
    by (rule that) (simp_all, use True in blast)
next
  case False
  obtain activate prompt auto'' where f: "foldl (plan_one ctx suppressed) ([], [], auto') (ctx_discovered ctx) = (activate, prompt, auto'')"
    by (metis surj_pair)
  have fold: "(\<forall>p \<in> set activate. may_consider ctx suppressed p \<and> p \<in> set (ctx_allowed ctx)) \<and>
      (\<forall>p \<in> set prompt. may_consider ctx suppressed p \<and> ctx_prompt_unregistered ctx \<and> p \<notin> set (ctx_allowed ctx)) \<and>
      distinct activate \<and> (\<exists>new. activate = [] @ new \<and> auto'' = auto' @ new) \<and>
      (\<forall>p \<in> set (ctx_discovered ctx). may_consider ctx suppressed p \<and> p \<in> set (ctx_allowed ctx) \<longrightarrow> p \<in> set activate)"
    by (rule plan_one_fold [OF f]) simp_all
  then have props: "\<forall>p \<in> set activate. may_consider ctx suppressed p \<and> p \<in> set (ctx_allowed ctx)"
    "\<forall>p \<in> set prompt. may_consider ctx suppressed p \<and> ctx_prompt_unregistered ctx \<and> p \<notin> set (ctx_allowed ctx)"
    "distinct activate"
    "\<forall>p \<in> set (ctx_discovered ctx). may_consider ctx suppressed p \<and> p \<in> set (ctx_allowed ctx) \<longrightarrow> p \<in> set activate"
    by blast+
  have auto'': "auto'' = auto' @ activate"
    using fold by (metis append_Nil)
  have "plan_auto_activation ctx = \<lparr> plan_activate = activate, plan_prompt = prompt, plan_deactivate = deactivate,
      plan_abandoned = abandoned, plan_auto_activated = auto' @ activate, plan_suppressed = suppressed \<rparr>"
    using assms False f auto'' by (simp add: plan_auto_activation_def Let_def)
  then show thesis
    by (rule that) (use props False in blast)+
qed

lemma pending_plan_parts:
  assumes "ctx_pending_deactivations ctx"
  shows "plan_activate (plan_auto_activation ctx) = []" "plan_prompt (plan_auto_activation ctx) = []"
    "plan_deactivate (plan_auto_activation ctx) = []" "plan_abandoned (plan_auto_activation ctx) = []"
  using assms by (auto simp: plan_auto_activation_def pending_plan_def split: prod.split)

lemma plan_considers:
  shows "p \<in> set (plan_activate (plan_auto_activation ctx)) \<Longrightarrow>
      may_consider ctx (snd (reconcile ctx)) p \<and> p \<in> set (ctx_allowed ctx) \<and> \<not> ctx_pending_deactivations ctx"
    and "p \<in> set (plan_prompt (plan_auto_activation ctx)) \<Longrightarrow>
      may_consider ctx (snd (reconcile ctx)) p \<and> ctx_prompt_unregistered ctx \<and> \<not> ctx_pending_deactivations ctx"
proof -
  obtain auto_activated suppressed where r: "reconcile ctx = (auto_activated, suppressed)"
    by (metis surj_pair)
  obtain deactivate abandoned auto' where l: "plan_leaving ctx auto_activated = (deactivate, abandoned, auto')"
    by (metis surj_pair)
  show "p \<in> set (plan_activate (plan_auto_activation ctx)) \<Longrightarrow>
      may_consider ctx (snd (reconcile ctx)) p \<and> p \<in> set (ctx_allowed ctx) \<and> \<not> ctx_pending_deactivations ctx"
    using pending_plan_parts [of ctx] by (cases "ctx_pending_deactivations ctx") (auto simp: r intro: plan_parts [OF _ r l])
  show "p \<in> set (plan_prompt (plan_auto_activation ctx)) \<Longrightarrow>
      may_consider ctx (snd (reconcile ctx)) p \<and> ctx_prompt_unregistered ctx \<and> \<not> ctx_pending_deactivations ctx"
    using pending_plan_parts [of ctx] by (cases "ctx_pending_deactivations ctx") (auto simp: r intro: plan_parts [OF _ r l])
qed

section \<open>Only what the user allowed\<close>

definition activates_only :: "(path \<Rightarrow> bool) \<Rightarrow> hook_out \<Rightarrow> hook_out \<Rightarrow> bool" where
  "activates_only Q out out' \<longleftrightarrow>
     (\<forall>p. Activate p \<in> set (out_scripts out') \<longrightarrow> Activate p \<in> set (out_scripts out) \<or> Q p)"

interpretation activates: action_relation "activates_only Q" for Q
  by unfold_locales (auto simp: activates_only_def)

lemma emit_activates: "(\<And>p. script = Activate p \<Longrightarrow> Q p) \<Longrightarrow> preserves (activates_only Q) (emit script)"
  by (auto simp: preserves_def activates_only_def emit_def)

lemma warn_activates: "preserves (activates_only Q) (warn w)"
  by (auto simp: preserves_def activates_only_def warn_def)

lemma each_activates: "(\<And>x. preserves (activates_only Q) (f x)) \<Longrightarrow> preserves (activates_only Q) (each f xs)"
  by (induction xs) (auto intro: activates.preserves_rules)

lemma emit_deactivate_activates:
  "preserves (activates_only Q) (emit_deactivate_script ds hook_diff shell kind state_dir flox_env enc)"
  unfolding emit_deactivate_script_def generate_deactivate_script_with_diff_def
  by (auto split: InvocationKind.split option.split sum.split intro: emit_activates activates.preserves_rules)

lemma deactivate_planned_activates:
  "preserves (activates_only Q) (deactivate_planned ds open_target shell enc layers dirs)"
proof (induction dirs arbitrary: enc layers)
  case (Cons d ds)
  then show ?case
    by (auto split: list.split option.split
        intro!: activates.preserves_rules warn_activates each_activates emit_deactivate_activates)
qed (auto intro: activates.preserves_rules)

lemma handle_discovered_activates:
  assumes "\<And>p. p \<in> set (plan_activate plan) \<Longrightarrow> Q p"
    and "\<And>p. p \<in> set (plan_prompt plan) \<Longrightarrow> consent = ConsentAllow \<Longrightarrow> Q p"
  shows "preserves (activates_only Q) (handle_discovered write_pref plan consent p acc)"
proof -
  have pref: "preserves (activates_only Q) (\<lambda>out. (Ok (), out\<lparr> out_preferences := out_preferences out @ [x] \<rparr>))" for x
    by (simp add: preserves_def activates_only_def)
  show ?thesis
    unfolding handle_discovered_def using assms
    by (auto split: prod.split AutoActivateConsent.split intro!: activates.preserves_rules emit_activates pref)
qed

lemma handle_all_activates:
  assumes "\<And>p. p \<in> set (plan_activate plan) \<Longrightarrow> Q p"
    and "\<And>p. p \<in> set (plan_prompt plan) \<Longrightarrow> consent = ConsentAllow \<Longrightarrow> Q p"
  shows "preserves (activates_only Q) (handle_all_discovered write_pref plan consent ps acc)"
proof (induction ps arbitrary: acc)
  case (Cons p ps)
  have "preserves (activates_only Q) (handle_discovered write_pref plan consent p acc)"
    by (rule handle_discovered_activates) (use assms in auto)
  then show ?case
    using Cons.IH by (auto intro!: activates.preserves_bind)
qed (simp add: activates.preserves_pure)

lemma path_list_update_activates: "preserves (activates_only Q) (write_path_list_update var old new)"
  by (auto simp: write_path_list_update_def intro!: activates.preserves_rules emit_activates)

lemma in_preference: "p \<in> set (preference config want) \<longleftrightarrow> (p, want) \<in> set (cfg_preferences config)"
  by (force simp: preference_def)

definition may_activate :: "string option \<Rightarrow> AutoActivateContext \<Rightarrow> path \<Rightarrow> bool" where
  "may_activate tty ctx p \<longleftrightarrow>
     \<not> ctx_pending_deactivations ctx \<and> may_consider ctx (snd (reconcile ctx)) p \<and>
     (p \<in> set (ctx_allowed ctx) \<or>
      ctx_prompt_unregistered ctx \<and> (\<exists>line. tty = Some line \<and> consent_of_answer line = ConsentAllow))"

lemma auto_activation_activates:
  "preserves (activates_only (may_activate tty ctx))
     (auto_activation ds open_target write_pref tty shell hook_diff stack ctx)"
proof -
  let ?plan = "plan_auto_activation ctx"
  define consent where "consent = (if plan_prompt ?plan = [] then NoTerminal else prompt_for_auto_activation tty)"
  have "may_activate tty ctx p" if "p \<in> set (plan_activate ?plan)" for p
    using plan_considers(1) [OF that] by (simp add: may_activate_def)
  moreover have "may_activate tty ctx p" if "p \<in> set (plan_prompt ?plan)" "consent = ConsentAllow" for p
    using plan_considers(2) [OF that(1)] that(2)
    by (auto simp: may_activate_def consent_def prompt_for_auto_activation_def split: option.splits if_splits)
  ultimately show ?thesis
    unfolding auto_activation_def Let_def consent_def [symmetric]
    by (auto intro!: activates.preserves_rules deactivate_planned_activates each_activates warn_activates
        handle_all_activates path_list_update_activates split: prod.split)
qed

text \<open>
  C23. The prompt hook activates only what the user agreed to. Whatever one run of the hook
  prints, and even when it fails halfway, every environment that it activates has its \<open>.flox\<close>
  among those found above the working directory, is not active yet, is not denied, and either is
  allowed in the configuration or was just allowed on the terminal in the mode that asks; it is
  not suppressed while the shell is inside it; and no deactivation was requested in that run.
\<close>

theorem hook_activates_with_consent:
  assumes "Activate p \<in> set (out_scripts (snd (hook_env ds open_target write_pref tty shell kind hook_diff stack
      exists open_in config cwd auto_activated suppressed taken out)))"
    and "Activate p \<notin> set (out_scripts out)"
  shows "cfg_feature_auto_activate config \<and> taken = Ok [] \<and>
    p \<in> set (List.map_filter parent (find_all_dot_flox exists open_in cwd)) \<and>
    Some p \<notin> project_dir ` set stack \<and> (p, DenyPref) \<notin> set (cfg_preferences config) \<and>
    ((p, AllowPref) \<in> set (cfg_preferences config) \<or>
     cfg_auto_activate config \<noteq> Some AllowedMode \<and> (\<exists>line. tty = Some line \<and> consent_of_answer line = ConsentAllow)) \<and>
    (p \<in> set suppressed \<longrightarrow> \<not> starts_with cwd p)"
proof -
  define Q where "Q p \<longleftrightarrow> cfg_feature_auto_activate config \<and> (\<exists>actions. taken = Ok actions \<and>
    may_activate tty (gather_auto_activate_context exists open_in config cwd stack auto_activated suppressed (actions \<noteq> [])) p)" for p
  have actions: "preserves (activates_only Q) (handle_actions ds hook_diff shell kind actions)" for actions
    unfolding handle_actions_def by (auto intro!: each_activates emit_deactivate_activates split: HookAction.split)
  have auto: "preserves (activates_only Q) (auto_activation ds open_target write_pref tty shell hook_diff stack
      (gather_auto_activate_context exists open_in config cwd stack auto_activated suppressed (actions \<noteq> [])))"
    if "cfg_feature_auto_activate config" "taken = Ok actions" for actions
    using auto_activation_activates [of tty "gather_auto_activate_context exists open_in config cwd stack auto_activated
        suppressed (actions \<noteq> [])" ds open_target write_pref shell hook_diff stack] that
    by (auto simp: preserves_def activates_only_def Q_def)
  have "preserves (activates_only Q) (hook_env ds open_target write_pref tty shell kind hook_diff stack
      exists open_in config cwd auto_activated suppressed taken)"
  proof (cases taken)
    case (Inr as)
    have "preserves (activates_only Q) (if \<not> cfg_feature_auto_activate config then act_ok ()
        else auto_activation ds open_target write_pref tty shell hook_diff stack
          (gather_auto_activate_context exists open_in config cwd stack auto_activated suppressed (as \<noteq> [])))"
      using auto [OF _ Inr] by (simp add: activates.preserves_pure)
    then have rest: "preserves (activates_only Q) (act_bind (handle_actions ds hook_diff shell kind as) (\<lambda>_.
        if \<not> cfg_feature_auto_activate config then act_ok ()
        else auto_activation ds open_target write_pref tty shell hook_diff stack
          (gather_auto_activate_context exists open_in config cwd stack auto_activated suppressed (as \<noteq> []))))"
      by (rule activates.preserves_bind [OF actions])
    have lift: "act_lift (Ok as) = act_ok as"
      by (simp add: fun_eq_iff action_defs)
    show ?thesis
      using rest by (simp only: hook_env_def Inr sum.case lift act_ok_laws)
  qed (simp add: hook_env_def preserves_def act_lift_def act_bind_def act_match_def act_err_def activates.refl)
  then have "Q p"
    using assms by (auto simp: preserves_def activates_only_def)
  then obtain actions where q: "cfg_feature_auto_activate config" "taken = Ok actions"
    "may_activate tty (gather_auto_activate_context exists open_in config cwd stack auto_activated suppressed (actions \<noteq> [])) p"
    by (auto simp: Q_def)
  let ?ctx = "gather_auto_activate_context exists open_in config cwd stack auto_activated suppressed False"
  have none: "actions = []"
    using q(3) by (simp add: may_activate_def gather_auto_activate_context_def)
  obtain as ss where r: "reconcile ?ctx = (as, ss)"
    by (metis surj_pair)
  have "may_activate tty ?ctx p"
    using q(3) by (simp add: none)
  moreover have "p \<notin> set ss \<Longrightarrow> p \<in> set suppressed \<Longrightarrow> \<not> starts_with cwd p"
    using reconcile_facts(3) [OF r] by (auto simp: gather_auto_activate_context_def inside_def)
  ultimately show ?thesis
    using q(1,2) r none
    by (auto simp: may_activate_def may_consider_def gather_auto_activate_context_def is_active_def inside_def
        in_preference split: option.splits)
qed

section \<open>The hook settles\<close>

text \<open>
  What a prompt leaves behind when the shell evaluates the script of the hook and nobody answers
  on the terminal: the layers of the plan are popped (or the one whose deactivation was
  requested), the environments whose activation succeeds, those with \<open>ok\<close>, are on top, and the
  variables hold the new lists, in which an environment stands whether its activation succeeds or
  not.
\<close>

definition next_context :: "(path \<Rightarrow> bool) \<Rightarrow> AutoActivateContext \<Rightarrow> AutoActivateContext" where
  "next_context ok ctx =
     (let plan = plan_auto_activation ctx;
          popped = (if ctx_pending_deactivations ctx then 1 else length (plan_deactivate plan))
      in ctx\<lparr> ctx_active := map Some (rev (filter ok (plan_activate plan))) @ drop popped (ctx_active ctx),
             ctx_auto_activated := plan_auto_activated plan,
             ctx_suppressed := plan_suppressed plan,
             ctx_pending_deactivations := False \<rparr>)"

text \<open>The hook has nothing to do: it would change neither the stack nor the variables.\<close>

definition settled :: "AutoActivateContext \<Rightarrow> bool" where
  "settled ctx \<longleftrightarrow>
     (let plan = plan_auto_activation ctx
      in plan_activate plan = [] \<and> plan_deactivate plan = [] \<and> plan_abandoned plan = [] \<and>
         plan_auto_activated plan = ctx_auto_activated ctx \<and> plan_suppressed plan = ctx_suppressed ctx)"

text \<open>
  The variables of the hook have no repetitions, and suppress only what the shell is inside; and,
  when no activation failed, they also agree with the stack.
\<close>

definition tidy :: "AutoActivateContext \<Rightarrow> bool" where
  "tidy ctx \<longleftrightarrow> \<not> ctx_pending_deactivations ctx \<and> distinct (ctx_auto_activated ctx) \<and>
     distinct (ctx_suppressed ctx) \<and> (\<forall>p \<in> set (ctx_suppressed ctx). inside ctx p)"

definition clean :: "AutoActivateContext \<Rightarrow> bool" where
  "clean ctx \<longleftrightarrow> tidy ctx \<and> (\<forall>p \<in> set (ctx_auto_activated ctx). is_active ctx p)"

lemma still_suppressed_id:
  "distinct (acc @ ps) \<Longrightarrow> \<forall>p \<in> set ps. inside ctx p \<Longrightarrow>
   foldl (\<lambda>acc p. if inside ctx p then push_unless_in p acc else acc) acc ps = acc @ ps"
  by (induction ps arbitrary: acc) (auto simp: push_unless_in_def)

lemma reconcile_id:
  "distinct (acc @ ps) \<Longrightarrow> \<forall>p \<in> set ps. is_active ctx p \<Longrightarrow> foldl (reconcile_one ctx) (acc, supp) ps = (acc @ ps, supp)"
  by (induction ps arbitrary: acc) (auto simp: reconcile_one_def push_unless_in_def)

lemma reconcile_clean: "clean ctx \<Longrightarrow> reconcile ctx = (ctx_auto_activated ctx, ctx_suppressed ctx)"
  using still_suppressed_id [of "[]" "ctx_suppressed ctx" ctx] reconcile_id [of "[]" "ctx_auto_activated ctx" ctx]
  by (simp add: clean_def tidy_def reconcile_def still_suppressed_def)

lemma leaving_layers_prefix: "\<exists>rest. layers = map Some (leaving_layers leavers layers) @ rest \<and> leaving_layers leavers rest = []"
proof (induction layers)
  case (Cons l ls)
  then show ?case
    by (cases l) (auto intro: exI [of _ "l # ls"])
qed simp

lemma leaving_layers_sub: "set (leaving_layers leavers layers) \<subseteq> set leavers"
  by (induction layers) (auto split: option.splits)

lemma leaving_layers_mono: "set leavers' \<subseteq> set leavers \<Longrightarrow> leaving_layers leavers layers = [] \<Longrightarrow> leaving_layers leavers' layers = []"
  by (cases layers) (auto split: option.splits if_splits)

text \<open>Leaving: which tracked environments remain, and whether the stack still has to be unwound.\<close>

lemma plan_leaving_cases:
  assumes "plan_leaving ctx auto_activated = (deactivate, abandoned, auto')"
  obtains rest where "ctx_active ctx = map Some deactivate @ rest"
    "auto' = filter (\<lambda>p. p \<notin> set deactivate \<and> (abandoned \<noteq> [] \<longrightarrow> inside ctx p)) auto_activated"
    "set deactivate \<subseteq> {p \<in> set auto_activated. \<not> inside ctx p}"
    "deactivate = [] \<Longrightarrow> \<forall>p \<in> set auto'. inside ctx p"
    "leaving_layers (filter (\<lambda>p. \<not> inside ctx p) auto') rest = []"
    "\<forall>p \<in> set auto_activated. inside ctx p \<Longrightarrow> deactivate = [] \<and> abandoned = []"
proof (cases "\<forall>p \<in> set auto_activated. inside ctx p")
  case True
  then have none: "filter (\<lambda>p. \<not> inside ctx p) auto_activated = []"
    by (simp add: filter_empty_conv)
  have noleave: "leaving_layers [] layers = []" for layers
    by (cases layers) (auto split: option.splits)
  show thesis
    by (rule that [of "ctx_active ctx"]) (use assms none True noleave in \<open>auto simp: plan_leaving_def Let_def\<close>)
next
  case False
  let ?leavers = "filter (\<lambda>p. \<not> inside ctx p) auto_activated"
  obtain rest where rest: "ctx_active ctx = map Some (leaving_layers ?leavers (ctx_active ctx)) @ rest"
    "leaving_layers ?leavers rest = []"
    using leaving_layers_prefix by blast
  have plan: "deactivate = leaving_layers ?leavers (ctx_active ctx)"
    "abandoned = (if deactivate = [] then ?leavers else [])"
    "auto' = filter (\<lambda>p. p \<notin> set deactivate \<and> (deactivate = [] \<longrightarrow> inside ctx p)) auto_activated"
    "?leavers \<noteq> []"
    using assms False by (auto simp: plan_leaving_def Let_def filter_empty_conv split: if_splits)
  show thesis
  proof (rule that [of rest])
    show "leaving_layers (filter (\<lambda>p. \<not> inside ctx p) auto') rest = []"
      by (rule leaving_layers_mono [OF _ rest(2)]) (auto simp: plan(3))
    show "auto' = filter (\<lambda>p. p \<notin> set deactivate \<and> (abandoned \<noteq> [] \<longrightarrow> inside ctx p)) auto_activated"
      using plan(2-4) by (auto intro!: filter_cong)
    show "set deactivate \<subseteq> {p \<in> set auto_activated. \<not> inside ctx p}"
      using leaving_layers_sub [of ?leavers] by (auto simp: plan(1))
  qed (use rest(1) plan False in auto)
qed

lemma next_context_fields [simp]:
  "ctx_cwd (next_context ok ctx) = ctx_cwd ctx" "ctx_discovered (next_context ok ctx) = ctx_discovered ctx"
  "ctx_allowed (next_context ok ctx) = ctx_allowed ctx" "ctx_denied (next_context ok ctx) = ctx_denied ctx"
  "\<not> ctx_pending_deactivations (next_context ok ctx)" "inside (next_context ok ctx) p = inside ctx p"
  by (simp_all add: next_context_def Let_def inside_def)

text \<open>A prompt, by the parts of its plan.\<close>

lemma next_context_parts:
  assumes "\<not> ctx_pending_deactivations ctx" and "reconcile ctx = (auto_activated, suppressed)"
    and "plan_leaving ctx auto_activated = (deactivate, abandoned, auto')"
  obtains activate rest where "ctx_active ctx = map Some deactivate @ rest"
    "ctx_active (next_context ok ctx) = map Some (rev (filter ok activate)) @ rest"
    "ctx_auto_activated (next_context ok ctx) = auto' @ activate" "ctx_suppressed (next_context ok ctx) = suppressed"
    "\<forall>p \<in> set activate. may_consider ctx suppressed p \<and> p \<in> set (ctx_allowed ctx)" "distinct activate"
    "(\<forall>p \<in> set auto'. inside ctx p) \<longrightarrow>
       (\<forall>p \<in> set (ctx_discovered ctx). may_consider ctx suppressed p \<and> p \<in> set (ctx_allowed ctx) \<longrightarrow> p \<in> set activate)"
    "(\<exists>p \<in> set auto'. \<not> inside ctx p) \<longrightarrow> activate = []"
    "leaving_layers (filter (\<lambda>p. \<not> inside ctx p) auto') rest = []"
proof -
  obtain rest where rest: "ctx_active ctx = map Some deactivate @ rest"
    "leaving_layers (filter (\<lambda>p. \<not> inside ctx p) auto') rest = []"
    by (rule plan_leaving_cases [OF assms(3)])
  obtain activate prompt where p: "plan_auto_activation ctx = \<lparr> plan_activate = activate, plan_prompt = prompt,
      plan_deactivate = deactivate, plan_abandoned = abandoned, plan_auto_activated = auto' @ activate,
      plan_suppressed = suppressed \<rparr>"
    "\<forall>p \<in> set activate. may_consider ctx suppressed p \<and> p \<in> set (ctx_allowed ctx)" "distinct activate"
    "(\<forall>p \<in> set auto'. inside ctx p) \<longrightarrow>
       (\<forall>p \<in> set (ctx_discovered ctx). may_consider ctx suppressed p \<and> p \<in> set (ctx_allowed ctx) \<longrightarrow> p \<in> set activate)"
    "(\<exists>p \<in> set auto'. \<not> inside ctx p) \<longrightarrow> activate = []"
    by (rule plan_parts [OF assms])
  show thesis
    by (rule that [OF rest(1) _ _ _ p(2,3,4,5) rest(2)])
      (use assms(1) rest(1) in \<open>simp_all add: next_context_def p(1) Let_def\<close>)
qed

lemma clean_next:
  shows "tidy (next_context ok ctx)" and "(\<And>p. ok p) \<Longrightarrow> clean (next_context ok ctx)"
proof -
  obtain auto_activated suppressed where r: "reconcile ctx = (auto_activated, suppressed)"
    by (metis surj_pair)
  note rf = reconcile_facts [OF r]
  have "tidy (next_context ok ctx) \<and> ((\<forall>p. ok p) \<longrightarrow> clean (next_context ok ctx))"
  proof (cases "ctx_pending_deactivations ctx")
    case True
    show ?thesis
    proof (cases "ctx_active ctx")
      case Nil
      then show ?thesis
        using True r rf by (auto simp: clean_def tidy_def next_context_def plan_auto_activation_def pending_plan_def
            is_active_def inside_def Let_def)
    next
      case (Cons layer layers)
      then show ?thesis
        using True r rf by (cases layer) (auto simp: clean_def tidy_def next_context_def plan_auto_activation_def
            pending_plan_def is_active_def inside_def Let_def)
    qed
  next
    case False
    obtain deactivate abandoned auto' where l: "plan_leaving ctx auto_activated = (deactivate, abandoned, auto')"
      by (metis surj_pair)
    obtain activate rest where n: "ctx_active ctx = map Some deactivate @ rest"
      "ctx_active (next_context ok ctx) = map Some (rev (filter ok activate)) @ rest"
      "ctx_auto_activated (next_context ok ctx) = auto' @ activate" "ctx_suppressed (next_context ok ctx) = suppressed"
      "\<forall>p \<in> set activate. may_consider ctx suppressed p \<and> p \<in> set (ctx_allowed ctx)" "distinct activate"
      by (rule next_context_parts [OF False r l])
    have auto': "auto' = filter (\<lambda>p. p \<notin> set deactivate \<and> (abandoned \<noteq> [] \<longrightarrow> inside ctx p)) auto_activated"
      by (rule plan_leaving_cases [OF l])
    have "distinct (auto' @ activate)"
      using rf(1,2) n(5,6) by (auto simp: auto' may_consider_def)
    moreover have "Some q \<in> set rest" if "q \<in> set auto'" for q
      using that rf(1) n(1) by (auto simp: auto' is_active_def)
    ultimately show ?thesis
      using rf(3,4) n(2-4) by (auto simp: clean_def tidy_def is_active_def)
  qed
  then show "tidy (next_context ok ctx)" and "(\<And>p. ok p) \<Longrightarrow> clean (next_context ok ctx)"
    by blast+
qed

text \<open>
  Nothing is left to leave, and every environment that may be activated is active, suppressed, or
  was tried; without failures nothing is left to do.
\<close>

definition calm :: "AutoActivateContext \<Rightarrow> bool" where
  "calm ctx \<longleftrightarrow> tidy ctx \<and> (\<forall>p \<in> set (ctx_auto_activated ctx). inside ctx p) \<and>
     (\<forall>p \<in> set (ctx_discovered ctx). p \<in> set (ctx_allowed ctx) \<longrightarrow> p \<notin> set (ctx_denied ctx) \<longrightarrow>
        is_active ctx p \<or> p \<in> set (ctx_suppressed ctx) \<or> p \<in> set (ctx_auto_activated ctx))"

definition ready :: "AutoActivateContext \<Rightarrow> bool" where
  "ready ctx \<longleftrightarrow> calm ctx \<and> clean ctx"

lemma calm_step:
  assumes "calm ctx"
  obtains auto_activated suppressed prompt where "reconcile ctx = (auto_activated, suppressed)"
    "plan_auto_activation ctx = \<lparr> plan_activate = [], plan_prompt = prompt, plan_deactivate = [], plan_abandoned = [],
       plan_auto_activated = auto_activated, plan_suppressed = suppressed \<rparr>"
    "next_context ok ctx = ctx\<lparr> ctx_auto_activated := auto_activated, ctx_suppressed := suppressed \<rparr>"
proof -
  have pending: "\<not> ctx_pending_deactivations ctx"
    using assms by (simp add: calm_def tidy_def)
  obtain auto_activated suppressed where r: "reconcile ctx = (auto_activated, suppressed)"
    by (metis surj_pair)
  note rf = reconcile_facts [OF r]
  have "\<forall>p \<in> set auto_activated. inside ctx p"
    using assms rf(1) by (simp add: calm_def)
  then have l: "plan_leaving ctx auto_activated = ([], [], auto_activated)"
    by (simp add: plan_leaving_def filter_empty_conv)
  obtain activate prompt where p: "plan_auto_activation ctx = \<lparr> plan_activate = activate, plan_prompt = prompt,
      plan_deactivate = [], plan_abandoned = [], plan_auto_activated = auto_activated @ activate,
      plan_suppressed = suppressed \<rparr>"
    "\<forall>p \<in> set activate. may_consider ctx suppressed p \<and> p \<in> set (ctx_allowed ctx)"
    by (rule plan_parts [OF pending r l])
  have "\<not> may_consider ctx suppressed p" if "p \<in> set (ctx_allowed ctx)" for p
    using assms that rf(3) by (auto simp: may_consider_def calm_def tidy_def)
  then have none: "activate = []"
    using p(2) by (cases activate) auto
  show thesis
    by (rule that [OF r]) (use p(1) none pending in \<open>simp_all add: next_context_def\<close>)
qed

lemma ready_settled:
  assumes "ready ctx"
  shows "settled ctx" "next_context ok ctx = ctx"
proof -
  have "calm ctx" "reconcile ctx = (ctx_auto_activated ctx, ctx_suppressed ctx)"
    using assms reconcile_clean by (simp_all add: ready_def)
  then show "settled ctx" "next_context ok ctx = ctx"
    by (auto simp: settled_def elim!: calm_step [where ok = ok])
qed

lemma calm_next:
  assumes "calm ctx"
  shows "ready (next_context ok ctx)"
proof -
  obtain auto_activated suppressed where r: "reconcile ctx = (auto_activated, suppressed)"
    and n: "next_context ok ctx = ctx\<lparr> ctx_auto_activated := auto_activated, ctx_suppressed := suppressed \<rparr>"
    by (rule calm_step [OF assms])
  note rf = reconcile_facts [OF r]
  have active: "is_active (next_context ok ctx) p = is_active ctx p" for p
    by (simp add: n is_active_def)
  have "is_active ctx p \<or> p \<in> set suppressed \<or> p \<in> set auto_activated"
    if "p \<in> set (ctx_discovered ctx)" "p \<in> set (ctx_allowed ctx)" "p \<notin> set (ctx_denied ctx)" for p
    using assms that rf(1,3) by (auto simp: calm_def tidy_def)
  moreover have "\<forall>p \<in> set auto_activated. inside ctx p \<and> is_active ctx p"
    using assms rf(1) by (simp add: calm_def)
  ultimately show ?thesis
    using clean_next(1) [of ok ctx] active by (simp add: ready_def calm_def clean_def) (simp add: n)
qed

text \<open>The allowed environments that are discovered are those of directories above the shell.\<close>

definition unlinked :: "AutoActivateContext \<Rightarrow> bool" where
  "unlinked ctx \<longleftrightarrow>
     (\<forall>p \<in> set (ctx_discovered ctx). p \<in> set (ctx_allowed ctx) \<longrightarrow> p \<notin> set (ctx_denied ctx) \<longrightarrow> inside ctx p)"

lemma unlinked_next [simp]: "unlinked (next_context ok ctx) = unlinked ctx"
  by (simp add: unlinked_def)

lemma becomes_calm:
  assumes "tidy ctx" and "reconcile ctx = (auto_activated, suppressed)"
    and "plan_leaving ctx auto_activated = (deactivate, abandoned, auto')"
    and "\<forall>p \<in> set auto'. inside ctx p" and "unlinked ctx"
  shows "calm (next_context ok ctx)"
proof -
  have pending: "\<not> ctx_pending_deactivations ctx"
    using assms(1) by (simp add: tidy_def)
  have outside: "set deactivate \<subseteq> {p \<in> set auto_activated. \<not> inside ctx p}"
    by (rule plan_leaving_cases [OF assms(3)])
  obtain activate rest where n: "ctx_active ctx = map Some deactivate @ rest"
    "ctx_active (next_context ok ctx) = map Some (rev (filter ok activate)) @ rest"
    "ctx_auto_activated (next_context ok ctx) = auto' @ activate" "ctx_suppressed (next_context ok ctx) = suppressed"
    "\<forall>p \<in> set activate. may_consider ctx suppressed p \<and> p \<in> set (ctx_allowed ctx)"
    "(\<forall>p \<in> set auto'. inside ctx p) \<longrightarrow>
       (\<forall>p \<in> set (ctx_discovered ctx). may_consider ctx suppressed p \<and> p \<in> set (ctx_allowed ctx) \<longrightarrow> p \<in> set activate)"
    by (rule next_context_parts [OF pending assms(2,3), where ok = ok])
  have "\<forall>q \<in> set (auto' @ activate). inside ctx q"
    using assms(4,5) n(5) by (auto simp: may_consider_def unlinked_def)
  moreover have "Some q \<in> set rest \<or> q \<in> set suppressed \<or> q \<in> set activate"
    if q: "q \<in> set (ctx_discovered ctx)" "q \<in> set (ctx_allowed ctx)" "q \<notin> set (ctx_denied ctx)" for q
  proof (cases "q \<in> set activate")
    case False
    then have "\<not> may_consider ctx suppressed q"
      using n(6) assms(4) q by blast
    moreover have "Some q \<in> set (ctx_active ctx) \<Longrightarrow> Some q \<in> set rest"
      using n(1) outside assms(5) q by (auto simp: unlinked_def)
    ultimately show ?thesis
      using q by (auto simp: may_consider_def is_active_def)
  qed simp
  ultimately show ?thesis
    using clean_next(1) [of ok ctx] by (auto simp: calm_def is_active_def n(2-4))
qed

text \<open>One more prompt is needed when the stack has to be unwound below a layer of its own first.\<close>

lemma calm_after_two:
  assumes "tidy ctx" and "unlinked ctx"
  shows "calm (next_context ok1 ctx) \<or> calm (next_context ok2 (next_context ok1 ctx))"
proof -
  obtain auto_activated suppressed where r: "reconcile ctx = (auto_activated, suppressed)"
    by (metis surj_pair)
  obtain deactivate abandoned auto' where l: "plan_leaving ctx auto_activated = (deactivate, abandoned, auto')"
    by (metis surj_pair)
  show ?thesis
  proof (cases "\<forall>p \<in> set auto'. inside ctx p")
    case True
    then show ?thesis
      using becomes_calm [OF assms(1) r l _ assms(2)] by blast
  next
    case False
    let ?next = "next_context ok1 ctx"
    have pending: "\<not> ctx_pending_deactivations ctx"
      using assms(1) by (simp add: tidy_def)
    obtain activate rest where n: "ctx_active ?next = map Some (rev (filter ok1 activate)) @ rest"
      "ctx_auto_activated ?next = auto' @ activate" "(\<exists>p \<in> set auto'. \<not> inside ctx p) \<longrightarrow> activate = []"
      "leaving_layers (filter (\<lambda>p. \<not> inside ctx p) auto') rest = []"
      by (rule next_context_parts [OF pending r l, where ok = ok1])
    obtain auto2 suppressed2 where r2: "reconcile ?next = (auto2, suppressed2)"
      by (metis surj_pair)
    obtain deactivate2 abandoned2 auto2' where l2: "plan_leaving ?next auto2 = (deactivate2, abandoned2, auto2')"
      by (metis surj_pair)
    have "activate = []"
      using False n(3) by blast
    moreover have "set (filter (\<lambda>p. \<not> inside ctx p) auto2) \<subseteq> set (filter (\<lambda>p. \<not> inside ctx p) (ctx_auto_activated ?next))"
      using reconcile_facts(1) [OF r2] by auto
    ultimately have "leaving_layers (filter (\<lambda>p. \<not> inside ?next p) auto2) (ctx_active ?next) = []"
      using leaving_layers_mono [OF _ n(4)] by (simp add: n(1,2))
    then have "deactivate2 = []"
      using l2 by (auto simp: plan_leaving_def Let_def split: if_splits)
    then have "\<forall>p \<in> set auto2'. inside ?next p"
      using plan_leaving_cases [OF l2] by blast
    then show ?thesis
      using becomes_calm [OF clean_next(1) r2 l2] assms(2) by simp
  qed
qed

lemma ready_stays: "ready ctx \<Longrightarrow> ready (fold next_context oks ctx)"
  by (induction oks) (simp_all add: ready_settled(2))

lemma calm_ready:
  assumes "calm ctx" and "oks \<noteq> [] \<or> clean ctx"
  shows "ready (fold next_context oks ctx)"
  using assms calm_next ready_stays by (cases oks) (auto simp: ready_def)

text \<open>
  C24. The prompt hook settles. Take any stack of activations and any values of the hook's
  variables, whether or not a deactivation was requested. After four prompts at which the working
  directory, the environments above it and their permissions are the same, the deactivations of
  the scripts succeed and no question is answered, the hook neither activates nor deactivates
  anything and leaves its variables alone, whichever of the activations fail; when none fails,
  three prompts are enough. Hypothesis: no environment that may be activated is found through a
  symbolic link out of the directories above the working directory; \<open>hook_flips_linked_environment\<close>
  shows what happens otherwise.
\<close>

theorem hook_settles:
  assumes "\<forall>p \<in> set (ctx_discovered ctx). p \<in> set (ctx_allowed ctx) \<longrightarrow> p \<notin> set (ctx_denied ctx) \<longrightarrow> inside ctx p"
    and "4 \<le> length oks \<or> 3 \<le> length oks \<and> (\<forall>ok \<in> set oks. \<forall>p. ok p)"
  shows "settled (fold next_context oks ctx)"
proof -
  obtain ok1 ok2 ok3 rest where oks: "oks = ok1 # ok2 # ok3 # rest"
    using assms(2) by (auto simp: numeral_3_eq_3 Suc_le_length_iff numeral_eq_Suc)
  let ?c1 = "next_context ok1 ctx"
  let ?c2 = "next_context ok2 ?c1"
  let ?c3 = "next_context ok3 ?c2"
  have unlinked: "unlinked ?c1"
    using assms(1) by (simp add: unlinked_def)
  have "ready (fold next_context (ok3 # rest) ?c2)" if "calm ?c2"
    by (rule calm_ready [OF that]) simp
  moreover have "ready (fold next_context rest ?c3)" if "calm ?c3"
  proof (rule calm_ready [OF that])
    show "rest \<noteq> [] \<or> clean ?c3"
      using assms(2) clean_next(2) [of ok3 ?c2] by (cases rest) (auto simp: oks)
  qed
  ultimately have "ready (fold next_context oks ctx)"
    using calm_after_two [OF clean_next(1) unlinked, of ok2 ok3] by (auto simp: oks)
  then show ?thesis
    by (rule ready_settled(1))
qed

text \<open>
  With a symbolic link in place of \<open>.flox\<close> the hook never settles. The discovered project
  directory is then the one the link points to, outside the working directory: when the user
  allowed it, the hook activates the environment at one prompt and deactivates it at the
  next, forever.
\<close>

theorem hook_flips_linked_environment:
  assumes "ctx_discovered ctx = [p]" and "\<not> inside ctx p"
    and "p \<in> set (ctx_allowed ctx)" "p \<notin> set (ctx_denied ctx)" "\<not> is_active ctx p"
    and "ctx_auto_activated ctx = []" "ctx_suppressed ctx = []" "\<not> ctx_pending_deactivations ctx"
  shows "plan_activate (plan_auto_activation ((next_context (\<lambda>_. True) ^^ (2 * n)) ctx)) = [p] \<and>
    plan_deactivate (plan_auto_activation ((next_context (\<lambda>_. True) ^^ (2 * n + 1)) ctx)) = [p]"
proof -
  have reconcile: "reconcile ctx = ([], [])"
    using assms(6,7) by (simp add: reconcile_def still_suppressed_def)
  have plan: "plan_auto_activation ctx = \<lparr> plan_activate = [p], plan_prompt = [], plan_deactivate = [],
      plan_abandoned = [], plan_auto_activated = [p], plan_suppressed = [] \<rparr>"
    using assms reconcile by (simp add: plan_auto_activation_def plan_leaving_def plan_one_def)
  define flipped where "flipped = next_context (\<lambda>_. True) ctx"
  have flip: "flipped = ctx\<lparr> ctx_active := Some p # ctx_active ctx, ctx_auto_activated := [p] \<rparr>"
    using assms by (simp add: flipped_def next_context_def plan Let_def)
  have layers: "leaving_layers [p] (ctx_active ctx) = []"
    using assms(5) by (cases "ctx_active ctx") (auto simp: is_active_def split: option.splits)
  have reconcile_flipped: "reconcile flipped = ([p], [])"
    using assms(7) by (simp add: flip reconcile_def still_suppressed_def reconcile_one_def is_active_def push_unless_in_def)
  have plan_flipped: "plan_auto_activation flipped = \<lparr> plan_activate = [], plan_prompt = [], plan_deactivate = [p],
      plan_abandoned = [], plan_auto_activated = [], plan_suppressed = [] \<rparr>"
    using assms(1,2,8) reconcile_flipped layers
    by (simp add: plan_auto_activation_def plan_leaving_def plan_one_def flip inside_def is_active_def)
  have returns: "next_context (\<lambda>_. True) flipped = ctx"
    using assms(6-8) by (simp add: next_context_def plan_flipped Let_def) (simp add: flip)
  have "(next_context (\<lambda>_. True) ^^ (2 * n)) ctx = ctx"
    by (induction n) (simp_all add: flipped_def [symmetric] returns)
  then show ?thesis
    using plan plan_flipped by (simp add: flipped_def)
qed

section \<open>Witnesses\<close>

definition demo_context :: AutoActivateContext where
  "demo_context = \<lparr> ctx_cwd = [''proj'', ''sub''], ctx_discovered = [[''proj'']],
     ctx_active = [Some [''gone''], Some [''other''], None, Some [''old'']], ctx_auto_activated = [[''other''], [''old'']],
     ctx_suppressed = [], ctx_allowed = [[''proj'']], ctx_denied = [], ctx_prompt_unregistered = True,
     ctx_pending_deactivations = True \<rparr>"

lemma hook_settles_witness:
  "settled (fold next_context [\<lambda>_. True, \<lambda>_. True, \<lambda>_. True] demo_context) \<and>
   settled (fold next_context [\<lambda>_. False, \<lambda>_. False, \<lambda>_. False, \<lambda>_. False] demo_context) \<and>
   \<not> settled (fold next_context [\<lambda>_. False, \<lambda>_. False, \<lambda>_. False] demo_context)"
proof -
  have "\<forall>p \<in> set (ctx_discovered demo_context). inside demo_context p"
    by (simp add: demo_context_def inside_def starts_with_def)
  then have settles: "settled (fold next_context oks demo_context)"
    if "4 \<le> length oks \<or> 3 \<le> length oks \<and> (\<forall>ok \<in> set oks. \<forall>p. ok p)" for oks
    using that by (intro hook_settles) blast+
  have "settled (fold next_context [\<lambda>_. True, \<lambda>_. True, \<lambda>_. True] demo_context)"
    "settled (fold next_context [\<lambda>_. False, \<lambda>_. False, \<lambda>_. False, \<lambda>_. False] demo_context)"
    by (rule settles, simp)+
  moreover have "\<not> settled (fold next_context [\<lambda>_. False, \<lambda>_. False, \<lambda>_. False] demo_context)"
    by code_simp
  ultimately show ?thesis
    by blast
qed

definition demo_linked :: AutoActivateContext where
  "demo_linked = gather_auto_activate_context (\<lambda>p. p = [''proj'', ''.flox'']) (\<lambda>p. Ok [''shared'', ''.flox''])
     \<lparr> cfg_auto_activate = None, cfg_preferences = [([''shared''], AllowPref)], cfg_feature_auto_activate = True,
       cfg_disable_hook = None \<rparr> [''proj''] [] [] [] False"

lemma hook_flips_linked_environment_witness:
  "plan_activate (plan_auto_activation ((next_context (\<lambda>_. True) ^^ (2 * 5)) demo_linked)) = [[''shared'']] \<and>
   plan_deactivate (plan_auto_activation ((next_context (\<lambda>_. True) ^^ (2 * 5 + 1)) demo_linked)) = [[''shared'']]"
proof (rule hook_flips_linked_environment)
  show "ctx_discovered demo_linked = [[''shared'']]"
    by code_simp
qed (simp_all add: demo_linked_def gather_auto_activate_context_def inside_def starts_with_def preference_def
    is_active_def)

definition demo_settings :: DeactivationSettings where
  "demo_settings = \<lparr> ds_decode = demo_decode, ds_interpreter = ''/interpreter'', ds_activations_bin = ''/bin/fa'',
     ds_tracelevel = 0 \<rparr>"

definition demo_hook_run :: "hook_out" where
  "demo_hook_run = snd (hook_env demo_settings (\<lambda>_. Err ''none'') (\<lambda>_. Ok ()) (Some ''y'') Bash None None []
     (\<lambda>p. p = [''proj'', ''.flox'']) (\<lambda>p. Ok (p @ [''.flox'']))
     \<lparr> cfg_auto_activate = None, cfg_preferences = [], cfg_feature_auto_activate = True, cfg_disable_hook = None \<rparr>
     [''proj'', ''sub''] [] [] (Ok []) \<lparr> out_scripts = [], out_warnings = [], out_preferences = [] \<rparr>)"

lemma hook_activates_with_consent_witness:
  "out_scripts demo_hook_run = [Activate [''proj''], SetPathList FLOX_AUTO_ACTIVATED_ENVIRONMENTS_VAR [[''proj'']]] \<and>
   consent_of_answer ''y'' = ConsentAllow"
proof -
  have run: "out_scripts demo_hook_run = [Activate [''proj''], SetPathList FLOX_AUTO_ACTIVATED_ENVIRONMENTS_VAR [[''proj'']]]"
    by code_simp
  have "\<exists>line. Some ''y'' = Some line \<and> consent_of_answer line = ConsentAllow"
    using hook_activates_with_consent [of "[''proj'']", OF _ , of demo_settings "\<lambda>_. Err ''none''" "\<lambda>_. Ok ()"
        "Some ''y''" Bash None None "[]" "\<lambda>p. p = [''proj'', ''.flox'']" "\<lambda>p. Ok (p @ [''.flox''])"
        "\<lparr> cfg_auto_activate = None, cfg_preferences = [], cfg_feature_auto_activate = True, cfg_disable_hook = None \<rparr>"
        "[''proj'', ''sub'']" "[]" "[]" "Ok []" "\<lparr> out_scripts = [], out_warnings = [], out_preferences = [] \<rparr>"] run
    by (simp add: demo_hook_run_def)
  then show ?thesis
    using run by blast
qed

lemma hook_restores_environment_witness:
  "\<exists>e restores. e ''EDITOR'' = Some ''vi'' \<and> e ''PAGER'' = None \<and>
     deactivate_planned demo_settings (\<lambda>_. Ok \<lparr> dt_activation_state_dir = [''state''], dt_flox_env = [''env''] \<rparr>) Bash
       (e FLOX_HOOK_DIFF_VAR)
       [\<lparr> ae_path = Some [''proj'', ''.flox''], ae_name = ''env'', ae_generation = None, ae_mode = Dev \<rparr>] [[''proj'']]
       \<lparr> out_scripts = [], out_warnings = [], out_preferences = [] \<rparr> =
       (Ok (), \<lparr> out_scripts = map (\<lambda>(ctx, dir). Restore ctx dir) restores, out_warnings = [], out_preferences = [] \<rparr>) \<and>
     map snd restores = [[''state'']] \<and>
     run_restores id ''/bin/rm'' ''/bin/fa'' Bash demo_shell restores e ''EDITOR'' = None \<and>
     run_restores id ''/bin/rm'' ''/bin/fa'' Bash demo_shell restores e ''PAGER'' = Some ''less''"
proof -
  define layer where "layer = \<lparr> ae_path = Some [''proj'', ''.flox''], ae_name = ''env'', ae_generation = None, ae_mode = Dev \<rparr>"
  define target :: DeactivationTarget where "target = \<lparr> dt_activation_state_dir = [''state''], dt_flox_env = [''env''] \<rparr>"
  obtain l e where stack: "activation_stack demo_vars demo_encode (bm_get [(''PAGER'', ''less'')]) [l] e"
    "e ''EDITOR'' = Some ''vi''" "e ''PAGER'' = None"
    by (rule demo_stack)
  have hyps: "\<forall>d. finite (added d) \<longrightarrow> ds_decode demo_settings (demo_encode d) = Ok d"
    "map project_dir [layer] = map Some [[''proj'']]"
    "map (\<lambda>_. Ok target :: string + DeactivationTarget) [layer] = map Ok [target]"
    "length [[''proj'']] = length [l]" "own_vars \<subseteq> demo_vars" "confined demo_vars demo_shell"
    by (simp_all add: demo_settings_def demo_decode_encode layer_def project_dir_def parent_def demo_shell_confined)
  obtain restores where r: "deactivate_planned demo_settings (\<lambda>_. Ok target) Bash (e FLOX_HOOK_DIFF_VAR) ([layer] @ []) [[''proj'']]
      \<lparr> out_scripts = [], out_warnings = [], out_preferences = [] \<rparr> =
      (Ok (), \<lparr> out_scripts = [], out_warnings = [], out_preferences = [] \<rparr>\<lparr> out_scripts :=
        out_scripts \<lparr> out_scripts = [], out_warnings = [], out_preferences = [] \<rparr> @
        map (\<lambda>(ctx, dir). Restore ctx dir) restores \<rparr>)" "map snd restores = map dt_activation_state_dir [target]"
    "(\<forall>v. v \<notin> demo_vars \<longrightarrow> run_restores id ''/bin/rm'' ''/bin/fa'' Bash demo_shell restores e v =
       bm_get [(''PAGER'', ''less'')] v)"
    using hook_restores_environment [OF stack(1) hyps, where shell = Bash and rest = "[]" and esc = id
        and out = "\<lparr> out_scripts = [], out_warnings = [], out_preferences = [] \<rparr>"
        and rm = "''/bin/rm''" and bin = "''/bin/fa''"]
    by blast
  have "''EDITOR'' \<notin> demo_vars" "''PAGER'' \<notin> demo_vars"
    by (simp_all add: demo_vars_def own_vars_def PROMPT_HOOK_VERSION_ENV_def)
  then show ?thesis
    using stack(2,3) r by (intro exI [of _ e] exI [of _ restores]) (simp add: layer_def target_def del: deactivate_planned.simps)
qed

end
