(* ===== verification/Pkg_Args.thy ===== *)
theory Pkg_Args
  imports Path_Vars Manifest_Types
begin

text \<open>
  The package arguments of \<open>flox install\<close> and \<open>flox uninstall\<close> (\<open>flox-manifest/src/raw/mod.rs\<close>:
  \<open>PackageToInstall\<close>, \<open>CatalogPackage\<close>, \<open>FlakePackage\<close>, \<open>StorePath\<close>, \<open>RawSelectedOutputs\<close>). A
  string is the list of its UTF-8 bytes; slicing it inside a character is the error \<open>NotCharBoundary\<close>,
  which is a panic. URLs, percent-encoding and the file system are parameters.
\<close>

section \<open>Outputs\<close>

datatype RawSelectedOutputs = RawAll | RawSpecific "string list"

definition raw_outputs_parse :: "string \<Rightarrow> RawSelectedOutputs" where
  "raw_outputs_parse s = (if s = ''..'' then RawAll else RawSpecific (map trim (split_on (CHR '','') s)))"

fun raw_outputs_display :: "RawSelectedOutputs \<Rightarrow> string" where
  "raw_outputs_display RawAll = ''..''"
| "raw_outputs_display (RawSpecific names) = join '','' names"

fun selected_of_raw :: "RawSelectedOutputs \<Rightarrow> SelectedOutputs" where
  "selected_of_raw RawAll = AllOutputs"
| "selected_of_raw (RawSpecific items) = Specific items"

section \<open>Catalog packages\<close>

datatype RawManifestError =
    MalformedStringDescriptor string string
  | InvalidFlakeRef string
  | NotCharBoundary

record CatalogPackage =
  cpkg_id :: string
  cpkg_pkg_path :: string
  cpkg_version :: "string option"
  cpkg_systems :: "system list option"
  cpkg_outputs :: "RawSelectedOutputs option"

text \<open>\<open>is_custom_package\<close>: a slash, unless the part before the first one has a dot.\<close>

definition is_custom_package :: "string \<Rightarrow> bool" where
  "is_custom_package pkg_path =
     (let parts = split_on (CHR ''/'') pkg_path
      in \<not> (length parts = 1 \<or> CHR ''.'' \<in> set (hd parts)))"

definition is_custom_catalog :: "CatalogPackage \<Rightarrow> bool" where
  "is_custom_catalog pkg = is_custom_package (cpkg_pkg_path pkg)"

text \<open>
  The last component of a path separated by dots and slashes, where quotes protect both. The state
  of the loop is the component that was completed last, the current one and whether a quote is open.
\<close>

fun install_id_loop :: "string option \<Rightarrow> string \<Rightarrow> bool \<Rightarrow> string \<Rightarrow> string option \<times> string \<times> bool" where
  "install_id_loop install_id cur quote_open [] = (install_id, cur, quote_open)"
| "install_id_loop install_id cur quote_open (c # cs) =
     (if (c = CHR ''.'' \<or> c = CHR ''/'') \<and> \<not> quote_open then install_id_loop (Some cur) [] quote_open cs
      else if c = CHR 0x22 then install_id_loop install_id (cur @ [c]) (\<not> quote_open) cs
      else install_id_loop install_id (cur @ [c]) quote_open cs)"

definition install_id_from_attr_path :: "string \<Rightarrow> string \<Rightarrow> RawManifestError + string" where
  "install_id_from_attr_path attr_path descriptor =
     (case install_id_loop None [] False attr_path of
        (install_id, cur, quote_open) \<Rightarrow>
          if quote_open then Err (MalformedStringDescriptor ''unclosed quote'' descriptor)
          else ok_or (MalformedStringDescriptor ''attribute path is empty'' descriptor)
            (if cur \<noteq> [] then Some cur else install_id))"

definition split_outputs :: "string \<Rightarrow> RawManifestError + (string \<times> RawSelectedOutputs option)" where
  "split_outputs raw_str =
     (case split_once (CHR ''^'') raw_str of
        Some (attr_path, outputs_str) \<Rightarrow>
          if outputs_str = [] then Err (MalformedStringDescriptor (''expected output specification after '' @ quoted ''^'') raw_str)
          else Ok (attr_path, Some (raw_outputs_parse outputs_str))
      | None \<Rightarrow> Ok (raw_str, None))"

fun find_char :: "char \<Rightarrow> string \<Rightarrow> nat option" where
  "find_char c [] = None"
| "find_char c (x # xs) = (if x = c then Some 0 else map_option Suc (find_char c xs))"

text \<open>Whether byte \<open>i\<close> starts a character: it is not a continuation byte.\<close>

definition is_char_boundary :: "string \<Rightarrow> nat \<Rightarrow> bool" where
  "is_char_boundary s i \<longleftrightarrow> i = 0 \<or> i = length s \<or> \<not> (128 \<le> (of_char (s ! i) :: nat) \<and> (of_char (s ! i) :: nat) < 192)"

lemma find_char_length: "find_char c s = Some i \<Longrightarrow> i < length s"
  by (induction s arbitrary: i) (auto split: if_splits)

text \<open>Where the version starts: the first \<open>@\<close> that is neither first nor after a dot.\<close>

function version_at_from :: "string \<Rightarrow> nat \<Rightarrow> RawManifestError + nat option" where
  "version_at_from haystack pos =
     (case find_char (CHR ''@'') (drop pos haystack) of
        None \<Rightarrow> Ok None
      | Some next_version_at \<Rightarrow>
          if pos + next_version_at = 0 then version_at_from haystack (pos + 1)
          else if \<not> is_char_boundary haystack (pos + next_version_at - 1) then Err NotCharBoundary
          else if haystack ! (pos + next_version_at - 1) = CHR ''.''
          then version_at_from haystack (pos + next_version_at + 1)
          else Ok (Some (pos + next_version_at)))"
  by pat_completeness auto

termination
  by (relation "measure (\<lambda>(haystack, pos). length haystack - pos)") (auto dest!: find_char_length)

declare version_at_from.simps [simp del]

definition split_version :: "string \<Rightarrow> RawManifestError + (string \<times> string option)" where
  "split_version haystack =
     and_then (version_at_from haystack 0) (\<lambda>version_at.
       let version = map_option (\<lambda>i. drop (i + 1) haystack) version_at;
           attr_path = take (case version_at of Some i \<Rightarrow> i | None \<Rightarrow> length haystack) haystack
       in case version of
            Some v \<Rightarrow>
              if v = [] then Err (MalformedStringDescriptor
                (''Expected version requirement after '' @ quoted ''@'' @ ''.'' @ newline @ ''Try adding quotes around the argument.'') haystack)
              else Ok (attr_path, Some v)
          | None \<Rightarrow> Ok (attr_path, None))"

definition catalog_package_from_str :: "string \<Rightarrow> RawManifestError + CatalogPackage" where
  "catalog_package_from_str descriptor =
     and_then
       (if CHR ''@'' \<in> set descriptor
        then map_ok (\<lambda>(attr_path, version). (attr_path, version, None)) (split_version descriptor)
        else map_ok (\<lambda>(attr_path, outputs). (attr_path, None, outputs)) (split_outputs descriptor))
       (\<lambda>(attr_path, version, outputs).
          map_ok (\<lambda>install_id.
            \<lparr> cpkg_id = install_id, cpkg_pkg_path = attr_path, cpkg_version = version, cpkg_systems = None,
              cpkg_outputs = outputs \<rparr>)
            (install_id_from_attr_path attr_path descriptor))"

section \<open>Flake references\<close>

text \<open>
  What the code uses of the \<open>url\<close> and \<open>url_escape\<close> crates. \<open>url_path\<close> is the path of the URL,
  \<open>url_fragment\<close> what follows the \<open>#\<close>.
\<close>

record 'u url_api =
  url_parse :: "string \<Rightarrow> 'u option"
  url_scheme :: "'u \<Rightarrow> string"
  url_path :: "'u \<Rightarrow> string"
  url_fragment :: "'u \<Rightarrow> string option"
  url_set_fragment :: "string option \<Rightarrow> 'u \<Rightarrow> 'u"
  url_display :: "'u \<Rightarrow> string"
  url_decode :: "string \<Rightarrow> string"

record 'u FlakePackage =
  fpkg_id :: string
  fpkg_url :: 'u
  fpkg_outputs :: "RawSelectedOutputs option"

definition infer_from_path :: "'u url_api \<Rightarrow> 'u \<Rightarrow> RawManifestError + string" where
  "infer_from_path api url =
     (let parts = split_on (CHR ''/'') (url_path api url)
      in if url_scheme api url = ''github''
         then ok_or (InvalidFlakeRef (url_display api url))
           (if length parts > 1 then Some (url_decode api (parts ! 1)) else None)
         else Ok (url_decode api (last parts)))"

definition infer_flake_install_id :: "'u url_api \<Rightarrow> 'u \<Rightarrow> RawManifestError + string" where
  "infer_flake_install_id api url =
     (case url_fragment api url of
        Some encoded \<Rightarrow>
          let fragment = url_decode api encoded;
              attr_path = (case rsplit_once (CHR ''^'') fragment of Some (attr_path, _) \<Rightarrow> attr_path | None \<Rightarrow> fragment)
          in if attr_path \<noteq> [] then install_id_from_attr_path attr_path (url_display api url)
             else infer_from_path api url
      | None \<Rightarrow> infer_from_path api url)"

definition extract_flake_outputs :: "'u url_api \<Rightarrow> 'u \<Rightarrow> RawManifestError + ('u \<times> RawSelectedOutputs option)" where
  "extract_flake_outputs api url =
     (case url_fragment api url of
        None \<Rightarrow> Ok (url, None)
      | Some encoded \<Rightarrow>
          (case rsplit_once (CHR ''^'') (url_decode api encoded) of
             None \<Rightarrow> Ok (url, None)
           | Some (attr_path, outputs_str) \<Rightarrow>
               if outputs_str = []
               then Err (MalformedStringDescriptor (''expected output specification after '' @ quoted ''^'') (url_display api url))
               else Ok (url_set_fragment api (if attr_path = [] then None else Some attr_path) url,
                 Some (raw_outputs_parse outputs_str))))"

definition flake_package_from_url :: "'u url_api \<Rightarrow> 'u \<Rightarrow> RawManifestError + 'u FlakePackage" where
  "flake_package_from_url api url =
     and_then (infer_flake_install_id api url) (\<lambda>iid.
       map_ok (\<lambda>(clean_url, outputs). \<lparr> fpkg_id = iid, fpkg_url = clean_url, fpkg_outputs = outputs \<rparr>)
         (extract_flake_outputs api url))"

section \<open>Store paths\<close>

record StorePath =
  spkg_id :: string
  spkg_store_path :: string
  spkg_system :: system

fun component_text :: "PathComponent \<Rightarrow> string" where
  "component_text RootDir = ''/''"
| "component_text CurDir = ''.''"
| "component_text ParentDir = ''..''"
| "component_text (Normal s) = s"

text \<open>Collecting components into a path.\<close>

definition path_of_components :: "PathComponent list \<Rightarrow> string" where
  "path_of_components cs = foldl (\<lambda>p c. path_join p (component_text c)) [] cs"

definition nix_store :: "PathComponent list" where
  "nix_store = [RootDir, Normal ''nix'', Normal ''store'']"

definition store_path_name :: "string \<Rightarrow> string" where
  "store_path_name hash_and_name =
     join ''-'' (takeWhile (\<lambda>part. case part of [] \<Rightarrow> True | c # _ \<Rightarrow> \<not> is_ascii_digit c)
       (drop 1 (split_on (CHR ''-'') hash_and_name)))"

definition store_path_parse ::
  "(string \<Rightarrow> string + PathComponent list) \<Rightarrow> system \<Rightarrow> string \<Rightarrow> RawManifestError + StorePath" where
  "store_path_parse canonicalize system descriptor =
     and_then
       (if take 3 (path_components descriptor) = nix_store then Ok (path_components descriptor)
        else case canonicalize descriptor of
               Inl e \<Rightarrow> Err (MalformedStringDescriptor (''cannot resolve path: '' @ e) descriptor)
             | Inr path \<Rightarrow> Ok path)
       (\<lambda>path.
          let store_path = take 4 path
          in if take 3 store_path \<noteq> nix_store
             then Err (MalformedStringDescriptor (''store path must be in the '' @ quoted ''/nix/store'' @ '' directory'') descriptor)
             else let iid = store_path_name (path_of_components (drop 3 store_path))
                  in if iid = []
                     then Err (MalformedStringDescriptor ''store path must contain a package name''
                       (path_of_components store_path))
                     else Ok \<lparr> spkg_id = iid, spkg_store_path = path_of_components store_path, spkg_system = system \<rparr>)"

section \<open>Packages to install\<close>

datatype 'u PackageToInstall =
    InstallCatalog CatalogPackage
  | InstallFlake "'u FlakePackage"
  | InstallStorePath StorePath

fun package_id :: "'u PackageToInstall \<Rightarrow> string" where
  "package_id (InstallCatalog pkg) = cpkg_id pkg"
| "package_id (InstallFlake pkg) = fpkg_id pkg"
| "package_id (InstallStorePath pkg) = spkg_id pkg"

fun package_set_id :: "string \<Rightarrow> 'u PackageToInstall \<Rightarrow> 'u PackageToInstall" where
  "package_set_id iid (InstallCatalog pkg) = InstallCatalog (pkg\<lparr> cpkg_id := iid \<rparr>)"
| "package_set_id iid (InstallFlake pkg) = InstallFlake (pkg\<lparr> fpkg_id := iid \<rparr>)"
| "package_set_id iid (InstallStorePath pkg) = InstallStorePath (pkg\<lparr> spkg_id := iid \<rparr>)"

fun package_systems :: "'u PackageToInstall \<Rightarrow> system list option" where
  "package_systems (InstallCatalog pkg) = cpkg_systems pkg"
| "package_systems (InstallFlake _) = None"
| "package_systems (InstallStorePath pkg) = Some [spkg_system pkg]"

fun package_outputs :: "'u PackageToInstall \<Rightarrow> RawSelectedOutputs option" where
  "package_outputs (InstallCatalog pkg) = cpkg_outputs pkg"
| "package_outputs (InstallFlake pkg) = fpkg_outputs pkg"
| "package_outputs (InstallStorePath _) = None"

definition package_parse ::
  "'u url_api \<Rightarrow> (string \<Rightarrow> string + PathComponent list) \<Rightarrow> system \<Rightarrow> string \<Rightarrow> RawManifestError + 'u PackageToInstall" where
  "package_parse api canonicalize system s =
     (if list_ex (\<lambda>prefix. strip_prefix prefix s \<noteq> None) [''../'', ''./'', ''/'']
      then map_ok InstallStorePath (store_path_parse canonicalize system s)
      else case url_parse api s of
             Some url \<Rightarrow> map_ok InstallFlake (flake_package_from_url api url)
           | None \<Rightarrow> map_ok InstallCatalog (catalog_package_from_str s))"

definition catalog_packages_to_install :: "'u PackageToInstall list \<Rightarrow> CatalogPackage list" where
  "catalog_packages_to_install packages =
     List.map_filter (\<lambda>pkg. case pkg of InstallCatalog p \<Rightarrow> Some p | _ \<Rightarrow> None) packages"

text \<open>What \<open>flox uninstall\<close> makes of its arguments.\<close>

record UninstallSpec =
  us_package_ref :: string
  us_outputs :: "RawSelectedOutputs option"
  us_version :: "string option"

definition uninstall_spec_parse :: "'u url_api \<Rightarrow> string \<Rightarrow> RawManifestError + UninstallSpec" where
  "uninstall_spec_parse api s =
     (case url_parse api s of
        Some url \<Rightarrow> Ok \<lparr> us_package_ref = url_display api url, us_outputs = None, us_version = None \<rparr>
      | None \<Rightarrow>
          map_ok (\<lambda>p. \<lparr> us_package_ref = cpkg_pkg_path p, us_outputs = cpkg_outputs p, us_version = cpkg_version p \<rparr>)
            (catalog_package_from_str s))"

section \<open>Facts\<close>

lemma find_char_append: "c \<notin> set xs \<Longrightarrow> find_char c (xs @ c # ys) = Some (length xs)"
  by (induction xs) auto

lemma find_char_None: "find_char c xs = None \<longleftrightarrow> c \<notin> set xs"
  by (induction xs) auto

lemma find_char_Some:
  "find_char c xs = Some i \<Longrightarrow> i < length xs \<and> xs ! i = c \<and> (\<forall>j < i. xs ! j \<noteq> c)"
  by (induction xs arbitrary: i) (auto split: if_splits simp: nth_Cons split: nat.splits)

text \<open>Every \<open>@\<close> is the first character of an attribute, as in \<open>nodePackages.@angular/cli\<close>.\<close>

definition scoped :: "string \<Rightarrow> bool" where
  "scoped p \<longleftrightarrow> list_all (\<lambda>i. p ! i = CHR ''@'' \<longrightarrow> i = 0 \<or> p ! (i - 1) = CHR ''.'') [0..<length p]"

lemma scoped_iff: "scoped p \<longleftrightarrow> (\<forall>i < length p. p ! i = CHR ''@'' \<longrightarrow> i = 0 \<or> p ! (i - 1) = CHR ''.'')"
  by (auto simp: scoped_def list_all_iff)

lemma dot_boundary: "s ! i = CHR ''.'' \<Longrightarrow> is_char_boundary s i"
  by (simp add: is_char_boundary_def)

lemma find_char_prefix: "find_char c xs = Some i \<Longrightarrow> find_char c (xs @ ys) = Some i"
  by (induction xs arbitrary: i) (auto split: if_splits)

text \<open>The loop skips the scopes of a prefix.\<close>

lemma version_at_skips:
  assumes "scoped p" and "pos \<le> length p"
    and "rest = [] \<or> hd rest = CHR ''@'' \<and> p \<noteq> []"
  shows "version_at_from (p @ rest) pos =
    (if rest = [] then Ok None
     else if \<not> is_char_boundary (p @ rest) (length p - 1) then Err NotCharBoundary
     else if last p = CHR ''.'' then version_at_from (p @ rest) (length p + 1)
     else Ok (Some (length p)))"
  using assms(2)
proof (induction "length p - pos" arbitrary: pos rule: less_induct)
  case less
  show ?case
  proof (cases "find_char (CHR ''@'') (drop pos p)")
    case None
    then have none: "CHR ''@'' \<notin> set (drop pos p)"
      by (simp add: find_char_None)
    show ?thesis
    proof (cases rest)
      case Nil
      then show ?thesis
        using None by (simp add: version_at_from.simps [of p pos])
    next
      case (Cons c ys)
      then have "find_char (CHR ''@'') (drop pos (p @ rest)) = Some (length p - pos)" and "p \<noteq> []"
        using find_char_append [OF none] less.prems assms(3) by simp_all
      moreover have "(p @ rest) ! (length p - 1) = last p"
        using \<open>p \<noteq> []\<close> by (simp add: nth_append last_conv_nth)
      ultimately show ?thesis
        using less.prems Cons by (subst version_at_from.simps) (simp add: Suc_le_eq)
    qed
  next
    case (Some i)
    then have i: "pos + i < length p" "p ! (pos + i) = CHR ''@''"
      using find_char_Some [OF Some] less.prems by auto
    have found: "find_char (CHR ''@'') (drop pos (p @ rest)) = Some i"
      using find_char_prefix [OF Some] less.prems by simp
    have next_pos: "version_at_from (p @ rest) pos = version_at_from (p @ rest) (pos + i + 1)"
    proof (cases "pos + i = 0")
      case True
      then show ?thesis
        using found by (subst version_at_from.simps) simp
    next
      case False
      then have "(p @ rest) ! (pos + i - 1) = CHR ''.''"
        using assms(1) i by (auto simp: scoped_iff nth_append)
      then show ?thesis
        using found False by (subst version_at_from.simps) (simp add: dot_boundary)
    qed
    show ?thesis
      unfolding next_pos using i(1) less.prems by (intro less.hyps) auto
  qed
qed

lemma install_id_loop_append:
  "install_id_loop iid cur q (xs @ ys) =
     (case install_id_loop iid cur q xs of (iid', cur', q') \<Rightarrow> install_id_loop iid' cur' q' ys)"
  by (induction iid cur q xs rule: install_id_loop.induct) auto

lemma install_id_loop_unquoted:
  "CHR 0x22 \<notin> set xs \<Longrightarrow> \<exists>iid' cur'. install_id_loop iid cur False xs = (iid', cur', False)"
  by (induction xs arbitrary: iid cur) auto

lemma install_id_loop_part:
  "CHR 0x22 \<notin> set xs \<Longrightarrow> CHR ''.'' \<notin> set xs \<Longrightarrow> CHR ''/'' \<notin> set xs \<Longrightarrow>
     install_id_loop iid cur False xs = (iid, cur @ xs, False)"
  by (induction xs arbitrary: cur) auto

text \<open>The last component of an unquoted attribute path.\<close>

definition names_package :: "string \<Rightarrow> string \<Rightarrow> bool" where
  "names_package p iid \<longleftrightarrow>
     CHR 0x22 \<notin> set p \<and> iid \<noteq> [] \<and> CHR ''.'' \<notin> set iid \<and> CHR ''/'' \<notin> set iid \<and>
     (p = iid \<or> (\<exists>scope sep. p = scope @ sep # iid \<and> (sep = CHR ''.'' \<or> sep = CHR ''/'')))"

lemma install_id_of_path:
  assumes "names_package p iid"
  shows "install_id_from_attr_path p descriptor = Ok iid"
proof (cases "p = iid")
  case True
  then show ?thesis
    using assms by (simp add: names_package_def install_id_from_attr_path_def install_id_loop_part)
next
  case False
  then obtain scope sep where p: "p = scope @ sep # iid" "sep = CHR ''.'' \<or> sep = CHR ''/''"
    using assms by (auto simp: names_package_def)
  obtain i c where "install_id_loop None [] False scope = (i, c, False)"
    using assms p(1) install_id_loop_unquoted [of scope None "[]"] by (auto simp: names_package_def)
  then have "install_id_loop None [] False p = (Some c, iid, False)"
    using assms p by (auto simp: names_package_def install_id_loop_append install_id_loop_part)
  then show ?thesis
    using assms by (simp add: install_id_from_attr_path_def names_package_def)
qed

lemma scoped_plain: "CHR ''@'' \<notin> set p \<Longrightarrow> scoped p"
  unfolding scoped_iff by (metis nth_mem)

lemma split_version_at:
  assumes "scoped p" and "p \<noteq> []" and "last p \<noteq> CHR ''.''" and "is_char_boundary (p @ CHR ''@'' # v) (length p - 1)"
    and "v \<noteq> []"
  shows "split_version (p @ CHR ''@'' # v) = Ok (p, Some v)"
  using version_at_skips [OF assms(1), of 0 "CHR ''@'' # v"] assms by (simp add: split_version_def)

lemma split_version_none: "scoped p \<Longrightarrow> split_version p = Ok (p, None)"
  using version_at_skips [of p 0 "[]"] by (simp add: split_version_def)

text \<open>What is printed of outputs is read back.\<close>

definition output_name :: "string \<Rightarrow> bool" where
  "output_name s \<longleftrightarrow> CHR '','' \<notin> set s \<and> CHR ''@'' \<notin> set s \<and> trim s = s \<and> s \<noteq> []"

definition outputs_wf :: "RawSelectedOutputs \<Rightarrow> bool" where
  "outputs_wf outputs \<longleftrightarrow>
     (case outputs of RawAll \<Rightarrow> True | RawSpecific names \<Rightarrow> names \<noteq> [] \<and> names \<noteq> [''..''] \<and> list_all output_name names)"

lemma join_single_iff:
  assumes "list_all output_name names" and "join '','' names = s" and "CHR '','' \<notin> set s" and "names \<noteq> []"
  shows "names = [s]"
  using assms by (cases "('','', names)" rule: join.cases) auto

lemma raw_outputs_roundtrip:
  assumes "outputs_wf outputs"
  shows "raw_outputs_parse (raw_outputs_display outputs) = outputs"
proof (cases outputs)
  case (RawSpecific names)
  then have names: "names \<noteq> []" "names \<noteq> [''..'']" "list_all output_name names"
    using assms by (simp_all add: outputs_wf_def)
  then have "join '','' names \<noteq> ''..''"
    using join_single_iff [of names "''..''"] by auto
  moreover have "split_on (CHR '','') (join '','' names) = names"
    using names by (intro split_on_join) (auto simp: list_all_iff output_name_def)
  moreover have "map trim names = names"
    using names by (intro map_idI) (auto simp: list_all_iff output_name_def)
  ultimately show ?thesis
    using RawSpecific by (simp add: raw_outputs_parse_def)
qed (simp add: raw_outputs_parse_def)

lemma raw_outputs_display_text:
  assumes "outputs_wf outputs"
  shows "raw_outputs_display outputs \<noteq> []" and "CHR ''@'' \<notin> set (raw_outputs_display outputs)"
proof -
  show "CHR ''@'' \<notin> set (raw_outputs_display outputs)"
    using assms set_join [of "'',''"]
    by (cases outputs) (fastforce simp: outputs_wf_def list_all_iff output_name_def)+
  show "raw_outputs_display outputs \<noteq> []"
  proof (cases outputs)
    case (RawSpecific names)
    then show ?thesis
      using assms by (cases "('','', names)" rule: join.cases) (auto simp: outputs_wf_def output_name_def)
  qed simp
qed

section \<open>Properties\<close>

text \<open>The package arguments that name a catalog package, with a version or with outputs.\<close>

definition descriptor_text :: "CatalogPackage \<Rightarrow> string" where
  "descriptor_text pkg =
     cpkg_pkg_path pkg @ (case cpkg_version pkg of Some v \<Rightarrow> CHR ''@'' # v | None \<Rightarrow> []) @
     (case cpkg_outputs pkg of Some outputs \<Rightarrow> CHR ''^'' # raw_outputs_display outputs | None \<Rightarrow> [])"

definition nameable :: "CatalogPackage \<Rightarrow> bool" where
  "nameable pkg \<longleftrightarrow>
     names_package (cpkg_pkg_path pkg) (cpkg_id pkg) \<and> cpkg_systems pkg = None \<and>
     list_all (\<lambda>c. (of_char c :: nat) < 128) (cpkg_pkg_path pkg) \<and> scoped (cpkg_pkg_path pkg) \<and>
     (case cpkg_outputs pkg of
        None \<Rightarrow>
          (case cpkg_version pkg of
             Some v \<Rightarrow> v \<noteq> []
           | None \<Rightarrow> CHR ''@'' \<in> set (cpkg_pkg_path pkg) \<or> CHR ''^'' \<notin> set (cpkg_pkg_path pkg))
      | Some outputs \<Rightarrow>
          cpkg_version pkg = None \<and> outputs_wf outputs \<and> CHR ''@'' \<notin> set (cpkg_pkg_path pkg) \<and>
          CHR ''^'' \<notin> set (cpkg_pkg_path pkg))"

lemma names_package_last: "names_package p iid \<Longrightarrow> p \<noteq> [] \<and> last p \<noteq> CHR ''.''"
  by (auto simp: names_package_def) (metis last_in_set)+

text \<open>
  C26. A package argument is read as the package it names: parsing an attribute path followed by a
  version or by outputs gives this path, version and outputs, and the last component of the path
  as install id. Scopes such as \<open>@angular\<close> in the path are not taken for versions.
\<close>

theorem catalog_package_roundtrip:
  assumes "nameable pkg"
  shows "catalog_package_from_str (descriptor_text pkg) = Ok pkg"
proof -
  let ?p = "cpkg_pkg_path pkg"
  have wf: "names_package ?p (cpkg_id pkg)" "cpkg_systems pkg = None" "scoped ?p" "?p \<noteq> []" "last ?p \<noteq> CHR ''.''"
    using assms names_package_last by (auto simp: nameable_def)
  have boundary: "is_char_boundary (?p @ rest) (length ?p - 1)" for rest
  proof -
    have "?p ! (length ?p - 1) \<in> set ?p"
      using wf(4) by simp
    then have "(of_char (?p ! (length ?p - 1)) :: nat) < 128"
      using assms by (simp add: nameable_def list_all_iff)
    then show ?thesis
      using wf(4) by (simp add: is_char_boundary_def nth_append)
  qed
  note id_of = install_id_of_path [OF wf(1)]
  show ?thesis
  proof (cases "cpkg_outputs pkg")
    case None
    show ?thesis
    proof (cases "cpkg_version pkg")
      case (Some v)
      then have "split_version (?p @ CHR ''@'' # v) = Ok (?p, Some v)"
        using assms None wf boundary by (intro split_version_at) (auto simp: nameable_def)
      then show ?thesis
        using None Some wf(2) by (simp add: descriptor_text_def catalog_package_from_str_def id_of)
    next
      case vnone: None
      have "split_outputs ?p = Ok (?p, None)" if "CHR ''@'' \<notin> set ?p"
        using that assms None vnone split_once_None_iff [of "CHR ''^''" ?p]
        by (simp add: nameable_def split_outputs_def)
      then show ?thesis
        using None vnone wf(2) split_version_none [OF wf(3)]
        by (simp add: descriptor_text_def catalog_package_from_str_def id_of)
    qed
  next
    case (Some outputs)
    then have o: "cpkg_version pkg = None" "outputs_wf outputs" "CHR ''@'' \<notin> set ?p" "CHR ''^'' \<notin> set ?p"
      using assms by (auto simp: nameable_def)
    have "split_outputs (?p @ CHR ''^'' # raw_outputs_display outputs) = Ok (?p, Some outputs)"
      using o raw_outputs_display_text(1) [OF o(2)]
      by (simp add: split_outputs_def split_once_append raw_outputs_roundtrip)
    then show ?thesis
      using Some o wf(2) raw_outputs_display_text(2) [OF o(2)]
      by (simp add: descriptor_text_def catalog_package_from_str_def id_of)
  qed
qed

definition demo_scoped :: CatalogPackage where
  "demo_scoped = \<lparr> cpkg_id = ''cli'', cpkg_pkg_path = ''nodePackages.@angular/cli'', cpkg_version = Some ''1.2'',
     cpkg_systems = None, cpkg_outputs = None \<rparr>"

lemma catalog_package_roundtrip_witness:
  "catalog_package_from_str ''nodePackages.@angular/cli@1.2'' = Ok demo_scoped"
proof -
  have path: "''nodePackages.@angular/cli'' = ''nodePackages.@angular'' @ CHR ''/'' # ''cli''"
    by simp
  have "names_package ''nodePackages.@angular/cli'' ''cli''"
    unfolding names_package_def using path by auto
  moreover have "scoped ''nodePackages.@angular/cli''"
    by code_simp
  ultimately have "nameable demo_scoped"
    by (simp add: nameable_def demo_scoped_def)
  from catalog_package_roundtrip [OF this] show ?thesis
    by (simp add: descriptor_text_def demo_scoped_def)
qed

text \<open>
  An argument whose first \<open>@\<close> follows a character that is not ASCII makes the parser slice the
  string inside this character, which panics.
\<close>

theorem non_ascii_before_version_panics:
  assumes "CHR ''@'' \<notin> set p" and "1 < length p" and "128 \<le> (of_char (last p) :: nat)" and "(of_char (last p) :: nat) < 192"
  shows "catalog_package_from_str (p @ CHR ''@'' # v) = Err NotCharBoundary"
proof -
  have "\<not> is_char_boundary (p @ CHR ''@'' # v) (length p - 1)"
    using assms(2-) by (cases p rule: rev_cases) (auto simp: is_char_boundary_def nth_append)
  moreover have "last p \<noteq> CHR ''.''"
    using assms(3) by auto
  ultimately have "split_version (p @ CHR ''@'' # v) = Err NotCharBoundary"
    using version_at_skips [OF scoped_plain [OF assms(1)], of 0 "CHR ''@'' # v"] assms(2)
    by (cases p) (simp_all add: split_version_def)
  then show ?thesis
    by (simp add: catalog_package_from_str_def)
qed

lemma non_ascii_before_version_panics_witness:
  "catalog_package_from_str [CHR 0xC3, CHR 0xA9, CHR ''@'', CHR ''1''] = Err NotCharBoundary"
  using non_ascii_before_version_panics [of "[CHR 0xC3, CHR 0xA9]" "''1''"] by simp

text \<open>
  The grammar of the arguments allows outputs after any attribute path, but an argument with an
  \<open>@\<close> is only searched for a version: outputs after a scoped path become part of the path, and
  outputs before a version do too.
\<close>

theorem outputs_of_scoped_package_ignored:
  assumes "CHR ''@'' \<in> set descriptor" and "catalog_package_from_str descriptor = Ok pkg"
  shows "cpkg_outputs pkg = None \<and> (scoped descriptor \<longrightarrow> cpkg_pkg_path pkg = descriptor)"
  using assms split_version_none [of descriptor]
  by (auto simp: catalog_package_from_str_def result_simps)

lemma outputs_of_scoped_package_ignored_witness:
  "\<exists>pkg. catalog_package_from_str ''nodePackages.@angular/cli^out'' = Ok pkg \<and> cpkg_outputs pkg = None \<and>
     cpkg_pkg_path pkg = ''nodePackages.@angular/cli^out''"
proof -
  have scoped: "scoped ''nodePackages.@angular/cli^out''"
    by code_simp
  have "is_ok (catalog_package_from_str ''nodePackages.@angular/cli^out'')"
    using split_version_none [OF scoped]
    by (simp add: catalog_package_from_str_def install_id_from_attr_path_def)
  then obtain pkg where "catalog_package_from_str ''nodePackages.@angular/cli^out'' = Ok pkg"
    by (cases "catalog_package_from_str ''nodePackages.@angular/cli^out''") auto
  with outputs_of_scoped_package_ignored [OF _ this] scoped show ?thesis
    by simp
qed

end
