(* ===== verification/Pkg_Lookup.thy ===== *)
theory Pkg_Lookup
  imports Manifest_Types
begin

text \<open>
  Looking packages up in a manifest
  (\<open>flox-manifest/src/interfaces/pkg_lookup/mod.rs\<close>): by install id, by group, and by the loose
  references a user types. The lookups are those of the latest schema.
\<close>

section \<open>Lookups\<close>

datatype ManifestError =
    PkgOrGroupNotFound string
  | PackageNotFound string
  | MultiplePackagesMatch string "string list"

fun as_catalog_descriptor_ref :: "ManifestPackageDescriptor \<Rightarrow> PackageDescriptorCatalog option" where
  "as_catalog_descriptor_ref (Catalog d) = Some d"
| "as_catalog_descriptor_ref _ = None"

fun as_flake_descriptor_ref :: "ManifestPackageDescriptor \<Rightarrow> PackageDescriptorFlake option" where
  "as_flake_descriptor_ref (FlakeRef d) = Some d"
| "as_flake_descriptor_ref _ = None"

fun as_store_path_descriptor_ref :: "ManifestPackageDescriptor \<Rightarrow> PackageDescriptorStorePath option" where
  "as_store_path_descriptor_ref (StorePathPkg d) = Some d"
| "as_store_path_descriptor_ref _ = None"

definition group_name :: "PackageDescriptorCatalog \<Rightarrow> string" where
  "group_name d = (case pdc_pkg_group d of None \<Rightarrow> DEFAULT_GROUP_NAME | Some g \<Rightarrow> g)"

type_synonym package_groups = "(string, (string, PackageDescriptorCatalog) bmap) bmap"

definition add_to_group :: "package_groups \<Rightarrow> string \<times> ManifestPackageDescriptor \<Rightarrow> package_groups" where
  "add_to_group groups entry =
     (case as_catalog_descriptor_ref (snd entry) of
        None \<Rightarrow> groups
      | Some d \<Rightarrow>
          (let group_map = (case bm_get groups (group_name d) of None \<Rightarrow> [] | Some g \<Rightarrow> g)
           in bm_insert (group_name d) (bm_insert (fst entry) d group_map) groups))"

definition catalog_pkgs_by_group :: "Manifest \<Rightarrow> package_groups" where
  "catalog_pkgs_by_group m = foldl add_to_group [] (mf_install m)"

definition pkg_descriptor_with_id :: "Manifest \<Rightarrow> string \<Rightarrow> ManifestPackageDescriptor option" where
  "pkg_descriptor_with_id m iid = bm_get (mf_install m) iid"

definition catalog_descriptor_with_id :: "Manifest \<Rightarrow> string \<Rightarrow> PackageDescriptorCatalog option" where
  "catalog_descriptor_with_id m iid = Option.bind (bm_get (mf_install m) iid) as_catalog_descriptor_ref"

definition flake_pkg_descriptor_with_id :: "Manifest \<Rightarrow> string \<Rightarrow> ManifestPackageDescriptor option" where
  "flake_pkg_descriptor_with_id m iid = bm_get (mf_install m) iid"

definition in_pkg_group :: "string option \<Rightarrow> ManifestPackageDescriptor \<Rightarrow> bool" where
  "in_pkg_group g desc = (case desc of Catalog d \<Rightarrow> pdc_pkg_group d = g | _ \<Rightarrow> False)"

definition pkg_descriptors_in_toplevel_group :: "Manifest \<Rightarrow> (string \<times> ManifestPackageDescriptor) list" where
  "pkg_descriptors_in_toplevel_group m = filter (\<lambda>(_, desc). in_pkg_group None desc) (mf_install m)"

definition pkg_descriptors_in_named_group ::
  "Manifest \<Rightarrow> string \<Rightarrow> (string \<times> ManifestPackageDescriptor) list" where
  "pkg_descriptors_in_named_group m name = filter (\<lambda>(_, desc). in_pkg_group (Some name) desc) (mf_install m)"

definition pkg_or_group_found_in_manifest :: "Manifest \<Rightarrow> string \<Rightarrow> bool" where
  "pkg_or_group_found_in_manifest m search_term =
     list_ex (\<lambda>(iid, desc). search_term = iid \<or> in_pkg_group (Some search_term) desc) (mf_install m)"

definition pkg_belongs_to_non_empty_named_group ::
  "Manifest \<Rightarrow> string \<Rightarrow> ManifestError + string option" where
  "pkg_belongs_to_non_empty_named_group m pkg =
     (case bm_get (mf_install m) pkg of
        None \<Rightarrow> Err (PkgOrGroupNotFound pkg)
      | Some descriptor \<Rightarrow>
          (case Option.bind (as_catalog_descriptor_ref descriptor) pdc_pkg_group of
             None \<Rightarrow> Ok None
           | Some grp \<Rightarrow>
               Ok (if list_ex (\<lambda>(iid, _). iid \<noteq> pkg) (pkg_descriptors_in_named_group m grp)
                   then Some grp else None)))"

definition pkg_belongs_to_non_empty_toplevel_group :: "Manifest \<Rightarrow> string \<Rightarrow> ManifestError + bool" where
  "pkg_belongs_to_non_empty_toplevel_group m pkg =
     (case bm_get (mf_install m) pkg of
        None \<Rightarrow> Err (PkgOrGroupNotFound pkg)
      | Some _ \<Rightarrow>
          (let pkgs = pkg_descriptors_in_toplevel_group m
           in Ok (list_ex (\<lambda>(iid, _). iid = pkg) pkgs \<and> list_ex (\<lambda>(iid, _). iid \<noteq> pkg) pkgs)))"

definition matches_pkg_path :: "string \<Rightarrow> string option \<Rightarrow> ManifestPackageDescriptor \<Rightarrow> bool" where
  "matches_pkg_path package_ref version descriptor =
     (case descriptor of
        Catalog des \<Rightarrow> pdc_pkg_path des = package_ref \<and> (version = None \<or> pdc_version des = version)
      | _ \<Rightarrow> False)"

definition resolve_install_id :: "Manifest \<Rightarrow> string \<Rightarrow> string option \<Rightarrow> ManifestError + string" where
  "resolve_install_id m package_ref version =
     (if bm_contains (mf_install m) package_ref then Ok package_ref
      else (case map fst (filter (\<lambda>(_, d). matches_pkg_path package_ref version d) (mf_install m)) of
              [] \<Rightarrow> Err (PackageNotFound package_ref)
            | [iid] \<Rightarrow> Ok iid
            | iids \<Rightarrow> Err (MultiplePackagesMatch package_ref iids)))"

section \<open>Facts\<close>

lemma as_catalog_iff [simp]: "as_catalog_descriptor_ref x = Some d \<longleftrightarrow> x = Catalog d"
  by (cases x) simp_all

lemma as_flake_iff [simp]: "as_flake_descriptor_ref x = Some d \<longleftrightarrow> x = FlakeRef d"
  by (cases x) simp_all

lemma as_store_path_iff [simp]: "as_store_path_descriptor_ref x = Some d \<longleftrightarrow> x = StorePathPkg d"
  by (cases x) simp_all

lemma catalog_descriptor_iff:
  "catalog_descriptor_with_id m iid = Some d \<longleftrightarrow> bm_get (mf_install m) iid = Some (Catalog d)"
  by (auto simp: catalog_descriptor_with_id_def bind_eq_Some_conv)

text \<open>A resolved reference names a package of the manifest.\<close>

lemma resolve_install_id_found:
  assumes "resolve_install_id m package_ref version = Ok iid"
  shows "bm_contains (mf_install m) iid"
proof (cases "bm_contains (mf_install m) package_ref")
  case True
  then show ?thesis
    using assms by (simp add: resolve_install_id_def)
next
  case False
  let ?iids = "map fst (filter (\<lambda>(_, d). matches_pkg_path package_ref version d) (mf_install m))"
  have "?iids = [iid]"
    using assms False by (simp add: resolve_install_id_def split: list.splits)
  then have "iid \<in> set ?iids"
    by (simp only: list.set) simp
  then show ?thesis
    by (auto simp: bm_contains_def map_of_eq_None_iff)
qed

text \<open>The groups partition the catalog packages by name.\<close>

definition group_get :: "package_groups \<Rightarrow> string \<Rightarrow> string \<Rightarrow> PackageDescriptorCatalog option" where
  "group_get groups g iid = Option.bind (bm_get groups g) (\<lambda>pkgs. bm_get pkgs iid)"

definition groups_inv :: "package_groups \<Rightarrow> bool" where
  "groups_inv groups \<longleftrightarrow> bm_inv groups \<and> (\<forall>(g, pkgs) \<in> set groups. bm_inv pkgs \<and> pkgs \<noteq> [])"

lemma groups_inv_get: "groups_inv groups \<Longrightarrow> bm_get groups g = Some pkgs \<Longrightarrow> bm_inv pkgs \<and> pkgs \<noteq> []"
  by (auto simp: groups_inv_def dest: map_of_SomeD)

lemma insert_group_inv:
  assumes "groups_inv groups" "bm_inv p" "p \<noteq> []"
  shows "groups_inv (bm_insert g p groups)"
proof -
  have "bm_inv (snd gp) \<and> snd gp \<noteq> []" if gp: "gp \<in> set (bm_insert g p groups)" for gp
  proof -
    have "gp = (g, p) \<or> gp \<in> set groups"
      using gp set_bm_insert [of g p groups] by blast
    then show ?thesis
      using assms by (elim disjE) (auto simp: groups_inv_def)
  qed
  then show ?thesis
    using assms(1) by (simp add: groups_inv_def bm_inv_insert split_def)
qed

lemma add_to_group_inv:
  assumes "groups_inv groups"
  shows "groups_inv (add_to_group groups entry)"
proof (cases "as_catalog_descriptor_ref (snd entry)")
  case (Some d)
  define old where "old = (case bm_get groups (group_name d) of None \<Rightarrow> [] | Some g \<Rightarrow> g)"
  have "bm_inv old"
    using groups_inv_get [OF assms] by (auto simp: old_def bm_inv_def split: option.splits)
  then have "bm_inv (bm_insert (fst entry) d old)"
    by (rule bm_inv_insert)
  moreover have "bm_insert (fst entry) d old \<noteq> []"
    by (cases old) auto
  ultimately have "groups_inv (bm_insert (group_name d) (bm_insert (fst entry) d old) groups)"
    by (rule insert_group_inv [OF assms])
  then show ?thesis
    using Some by (simp add: add_to_group_def Let_def old_def)
qed (use assms in \<open>simp add: add_to_group_def\<close>)

lemma add_to_group_get:
  assumes "groups_inv groups"
  shows "group_get (add_to_group groups (k, Catalog d)) (group_name d) k = Some d"
    and "(\<forall>d. x = Catalog d \<longrightarrow> group_name d \<noteq> g) \<or> k \<noteq> iid \<Longrightarrow>
      group_get (add_to_group groups (k, x)) g iid = group_get groups g iid"
proof -
  have inv: "bm_inv groups"
    using assms by (simp add: groups_inv_def)
  have old: "bm_inv (case bm_get groups h of None \<Rightarrow> [] | Some g \<Rightarrow> g)" for h
    using groups_inv_get [OF assms] by (auto simp: bm_inv_def split: option.splits)
  show "group_get (add_to_group groups (k, Catalog d)) (group_name d) k = Some d"
    using inv old by (simp add: add_to_group_def group_get_def Let_def bm_get_insert)
  show "group_get (add_to_group groups (k, x)) g iid = group_get groups g iid"
    if "(\<forall>d. x = Catalog d \<longrightarrow> group_name d \<noteq> g) \<or> k \<noteq> iid"
  proof (cases "as_catalog_descriptor_ref x")
    case (Some d)
    then have "group_name d \<noteq> g \<or> k \<noteq> iid"
      using that by simp
    then show ?thesis
      using inv old [of "group_name d"] Some
      by (cases "group_name d = g"; cases "bm_get groups g")
        (simp_all add: add_to_group_def group_get_def Let_def bm_get_insert)
  qed (simp add: add_to_group_def)
qed

lemma groups_of_entries:
  assumes "distinct (map fst xs)"
  shows "groups_inv (foldl add_to_group [] xs) \<and>
    (\<forall>g iid d. group_get (foldl add_to_group [] xs) g iid = Some d \<longleftrightarrow> map_of xs iid = Some (Catalog d) \<and> group_name d = g)"
  using assms
proof (induction xs rule: rev_induct)
  case Nil
  then show ?case
    by (simp add: groups_inv_def bm_inv_def group_get_def)
next
  case (snoc kx xs)
  obtain k x where kx: "kx = (k, x)"
    by (cases kx)
  let ?old = "foldl add_to_group [] xs"
  have IH: "groups_inv ?old"
    "group_get ?old g iid = Some d \<longleftrightarrow> map_of xs iid = Some (Catalog d) \<and> group_name d = g" for g iid d
    using snoc by simp_all
  have new: "map_of xs k = None"
    using snoc.prems by (simp add: kx map_of_eq_None_iff)
  have none: "group_get ?old g k = None" for g
    using IH(2) [of g k] new by (metis not_None_eq option.distinct(1))
  have "group_get (add_to_group ?old (k, x)) g iid = Some d \<longleftrightarrow>
      map_of (xs @ [(k, x)]) iid = Some (Catalog d) \<and> group_name d = g" for g iid d
  proof (cases "k = iid \<and> (\<exists>d'. x = Catalog d' \<and> group_name d' = g)")
    case True
    then obtain d' where d': "x = Catalog d'" "group_name d' = g" "k = iid"
      by blast
    then show ?thesis
      using add_to_group_get(1) [OF IH(1), of k d'] new by (auto simp: map_add_def)
  next
    case False
    then have "group_get (add_to_group ?old (k, x)) g iid = group_get ?old g iid"
      using add_to_group_get(2) [OF IH(1)] by blast
    then show ?thesis
      using IH(2) [of g iid d] False new none [of g] by (auto simp: map_add_def split: option.splits)
  qed
  then show ?case
    using add_to_group_inv [OF IH(1)] by (simp add: kx)
qed

lemma catalog_pkgs_by_group_facts:
  assumes "bm_inv (mf_install m)"
  shows "groups_inv (catalog_pkgs_by_group m)"
    and "group_get (catalog_pkgs_by_group m) g iid = Some d \<longleftrightarrow>
      bm_get (mf_install m) iid = Some (Catalog d) \<and> group_name d = g"
proof -
  have "distinct (map fst (mf_install m))"
    using assms by (simp add: bm_inv_def strict_sorted_iff)
  from groups_of_entries [OF this]
  show "groups_inv (catalog_pkgs_by_group m)"
    and "group_get (catalog_pkgs_by_group m) g iid = Some d \<longleftrightarrow>
      bm_get (mf_install m) iid = Some (Catalog d) \<and> group_name d = g"
    by (simp_all add: catalog_pkgs_by_group_def)
qed

text \<open>Membership, as the code that walks the groups sees it.\<close>

lemma group_members:
  assumes "bm_inv (mf_install m)"
  shows "(\<exists>g pkgs. (g, pkgs) \<in> set (catalog_pkgs_by_group m) \<and> (iid, d) \<in> set pkgs) \<longleftrightarrow>
    bm_get (mf_install m) iid = Some (Catalog d)"
proof -
  have inv: "groups_inv (catalog_pkgs_by_group m)"
    by (rule catalog_pkgs_by_group_facts(1) [OF assms])
  then have "(\<exists>g pkgs. (g, pkgs) \<in> set (catalog_pkgs_by_group m) \<and> (iid, d) \<in> set pkgs) \<longleftrightarrow>
      (\<exists>g. group_get (catalog_pkgs_by_group m) g iid = Some d)"
    unfolding group_get_def groups_inv_def bind_eq_Some_conv
    by (metis (no_types, lifting) bm_inv_def case_prodD map_of_SomeD map_of_is_SomeI strict_sorted_iff)
  then show ?thesis
    using catalog_pkgs_by_group_facts(2) [OF assms] by simp
qed

end
