(* ===== verification/Locked_Packages.thy ===== *)
theory Locked_Packages
  imports Pkg_Lookup Compose
begin

text \<open>
  The lockfile (\<open>flox-manifest/src/lockfile/\<close>) and the messages of the catalog
  (\<open>floxhub-client/src/types.rs\<close>). The manifests in a lockfile are of the latest schema here,
  so that migrating them is the identity. Times are carried as numbers.
\<close>

section \<open>What the catalog answers\<close>

datatype PackageSystem = Aarch64Darwin | Aarch64Linux | X8664Darwin | X8664Linux | InvalidSystem

fun show_system :: "PackageSystem \<Rightarrow> system" where
  "show_system Aarch64Darwin = ''aarch64-darwin''"
| "show_system Aarch64Linux = ''aarch64-linux''"
| "show_system X8664Darwin = ''x86_64-darwin''"
| "show_system X8664Linux = ''x86_64-linux''"
| "show_system InvalidSystem = ''invalid''"

definition system_from_str :: "string \<Rightarrow> PackageSystem option" where
  "system_from_str s =
     (if s = ''aarch64-darwin'' then Some Aarch64Darwin
      else if s = ''aarch64-linux'' then Some Aarch64Linux
      else if s = ''x86_64-darwin'' then Some X8664Darwin
      else if s = ''x86_64-linux'' then Some X8664Linux
      else if s = ''invalid'' then Some InvalidSystem
      else None)"

definition DEFAULT_SYSTEMS_STR :: "system list" where
  "DEFAULT_SYSTEMS_STR = [''aarch64-darwin'', ''aarch64-linux'', ''x86_64-darwin'', ''x86_64-linux'']"

record ResolvedPackageDescriptor =
  rpd_attr_path :: string
  rpd_broken :: "bool option"
  rpd_cache_uri :: "string option"
  rpd_catalog :: "string option"
  rpd_derivation :: string
  rpd_description :: "string option"
  rpd_insecure :: "bool option"
  rpd_install_id :: string
  rpd_license :: "string option"
  rpd_locked_url :: string
  rpd_missing_builds :: "bool option"
  rpd_name :: string
  rpd_outputs :: "(string \<times> string) list"
  rpd_outputs_to_install :: "string list option"
  rpd_pkg_path :: string
  rpd_pname :: string
  rpd_rev :: string
  rpd_rev_count :: int
  rpd_rev_date :: int
  rpd_scrape_date :: "int option"
  rpd_stabilities :: "string list option"
  rpd_system :: PackageSystem
  rpd_unfree :: "bool option"
  rpd_version :: string

datatype MessageLevel = LevelTrace | LevelInfo | LevelWarning | LevelError

datatype MessageType =
    TypeGeneral
  | TypeResolutionTrace
  | TypeConstraintsTooTight
  | TypeNotInCatalog
  | TypeSystemsNotOnSamePage
  | TypeNotFoundForAllSystems
  | TypeUnknown string

record ResolutionMessageGeneral =
  rmg_context :: "(string, string) bmap"
  rmg_level :: MessageLevel
  rmg_message :: string
  rmg_type :: MessageType

record MsgNotFoundForAllSystems =
  mfs_level :: MessageLevel
  mfs_msg :: string
  mfs_attr_path :: string
  mfs_install_id :: string
  mfs_valid_systems :: "string list"

datatype ResolutionMessage =
    General (msg_level: MessageLevel) (msg_text: string)
  | NotInCatalog (msg_level: MessageLevel) (msg_text: string) (msg_attr_path: string) (msg_install_id: string)
  | SystemsNotOnSamePage (msg_level: MessageLevel) (msg_text: string) (msg_attr_path: string) (msg_install_id: string)
      (msg_system_groupings: string)
  | NotFoundForAllSystems MsgNotFoundForAllSystems
  | ConstraintsTooTight (msg_level: MessageLevel) (msg_text: string)
  | UnknownMessage string (msg_level: MessageLevel) (msg_text: string) "(string, string) bmap"

definition message_level :: "ResolutionMessage \<Rightarrow> MessageLevel" where
  "message_level m = (case m of NotFoundForAllSystems i \<Rightarrow> mfs_level i | _ \<Rightarrow> msg_level m)"

definition message_text :: "ResolutionMessage \<Rightarrow> string" where
  "message_text m = (case m of NotFoundForAllSystems i \<Rightarrow> mfs_msg i | _ \<Rightarrow> msg_text m)"

definition context_or :: "string \<Rightarrow> string \<Rightarrow> (string, string) bmap \<Rightarrow> string" where
  "context_or key fallback ctxt = (case bm_get ctxt key of Some v \<Rightarrow> v | None \<Rightarrow> fallback)"

definition valid_systems_from_context :: "(string, string) bmap \<Rightarrow> string list" where
  "valid_systems_from_context ctxt =
     (case bm_get ctxt ''valid_systems'' of
        None \<Rightarrow> []
      | Some s \<Rightarrow> filter (\<lambda>x. x \<noteq> []) (split_on (CHR '','') s))"

definition resolution_message :: "ResolutionMessageGeneral \<Rightarrow> ResolutionMessage" where
  "resolution_message r =
     (let attr_path = context_or ''attr_path'' ''default_attr_path'' (rmg_context r);
          install_id = context_or ''install_id'' ''default_install_id'' (rmg_context r)
      in case rmg_type r of
           TypeGeneral \<Rightarrow> General (rmg_level r) (rmg_message r)
         | TypeResolutionTrace \<Rightarrow> General LevelTrace (rmg_message r)
         | TypeNotInCatalog \<Rightarrow> NotInCatalog (rmg_level r) (rmg_message r) attr_path install_id
         | TypeSystemsNotOnSamePage \<Rightarrow>
             SystemsNotOnSamePage (rmg_level r) (rmg_message r) attr_path install_id
               (context_or ''system_groupings'' ''default_system_groupings'' (rmg_context r))
         | TypeNotFoundForAllSystems \<Rightarrow>
             NotFoundForAllSystems \<lparr> mfs_level = rmg_level r, mfs_msg = rmg_message r, mfs_attr_path = attr_path,
               mfs_install_id = install_id, mfs_valid_systems = valid_systems_from_context (rmg_context r) \<rparr>
         | TypeConstraintsTooTight \<Rightarrow> ConstraintsTooTight (rmg_level r) (rmg_message r)
         | TypeUnknown t \<Rightarrow> UnknownMessage t (rmg_level r) (rmg_message r) (rmg_context r))"

record CatalogPage =
  cp_complete :: bool
  cp_packages :: "ResolvedPackageDescriptor list option"
  cp_page :: int
  cp_url :: string
  cp_msgs :: "ResolutionMessage list"

record ResolvedPackageGroup =
  rpg_msgs :: "ResolutionMessage list"
  rpg_name :: string
  rpg_page :: "CatalogPage option"

section \<open>Locked packages\<close>

record LockedPackageCatalog =
  lpc_attr_path :: string
  lpc_broken :: "bool option"
  lpc_derivation :: string
  lpc_description :: "string option"
  lpc_install_id :: string
  lpc_license :: "string option"
  lpc_locked_url :: string
  lpc_name :: string
  lpc_pname :: string
  lpc_rev :: string
  lpc_rev_count :: int
  lpc_rev_date :: int
  lpc_scrape_date :: int
  lpc_stabilities :: "string list option"
  lpc_unfree :: "bool option"
  lpc_version :: string
  lpc_outputs_to_install :: "string list option"
  lpc_outputs :: "(string, string) bmap"
  lpc_system :: system
  lpc_group :: string
  lpc_priority :: nat

record LockedInstallable =
  li_locked_url :: string
  li_flake_description :: "string option"
  li_locked_flake_attr_path :: string
  li_derivation :: string
  li_outputs :: "(string, string) bmap"
  li_output_names :: "string list"
  li_outputs_to_install :: "string list option"
  li_requested_outputs_to_install :: "string list option"
  li_package_system :: string
  li_system :: string
  li_name :: string
  li_pname :: "string option"
  li_version :: "string option"
  li_description :: "string option"
  li_licenses :: "string list option"
  li_broken :: "bool option"
  li_unfree :: "bool option"
  li_priority :: nat

record LockedPackageFlake =
  lpf_install_id :: string
  lpf_locked_installable :: LockedInstallable

record LockedPackageStorePath =
  lps_install_id :: string
  lps_store_path :: string
  lps_system :: system
  lps_priority :: nat

datatype LockedPackage =
    LockedCatalog LockedPackageCatalog
  | LockedFlake LockedPackageFlake
  | LockedStorePath LockedPackageStorePath

text \<open>The clock is read only for a missing scrape date.\<close>

definition catalog_from_parts ::
  "int \<Rightarrow> ResolvedPackageDescriptor \<Rightarrow> PackageDescriptorCatalog \<Rightarrow> LockedPackageCatalog" where
  "catalog_from_parts now package descriptor =
     \<lparr> lpc_attr_path = rpd_attr_path package, lpc_broken = rpd_broken package,
       lpc_derivation = rpd_derivation package, lpc_description = rpd_description package,
       lpc_install_id = rpd_install_id package, lpc_license = rpd_license package,
       lpc_locked_url = rpd_locked_url package, lpc_name = rpd_name package, lpc_pname = rpd_pname package,
       lpc_rev = rpd_rev package, lpc_rev_count = rpd_rev_count package, lpc_rev_date = rpd_rev_date package,
       lpc_scrape_date = (case rpd_scrape_date package of Some t \<Rightarrow> t | None \<Rightarrow> now),
       lpc_stabilities = rpd_stabilities package, lpc_unfree = rpd_unfree package,
       lpc_version = rpd_version package, lpc_outputs_to_install = rpd_outputs_to_install package,
       lpc_outputs = bm_extend [] (rpd_outputs package), lpc_system = show_system (rpd_system package),
       lpc_group = group_name descriptor,
       lpc_priority = (case pdc_priority descriptor of Some p \<Rightarrow> p | None \<Rightarrow> DEFAULT_PRIORITY) \<rparr>"

fun as_catalog_package_ref :: "LockedPackage \<Rightarrow> LockedPackageCatalog option" where
  "as_catalog_package_ref (LockedCatalog p) = Some p"
| "as_catalog_package_ref _ = None"

fun locked_install_id :: "LockedPackage \<Rightarrow> string" where
  "locked_install_id (LockedCatalog p) = lpc_install_id p"
| "locked_install_id (LockedFlake p) = lpf_install_id p"
| "locked_install_id (LockedStorePath p) = lps_install_id p"

fun locked_system :: "LockedPackage \<Rightarrow> system" where
  "locked_system (LockedCatalog p) = lpc_system p"
| "locked_system (LockedFlake p) = li_system (lpf_locked_installable p)"
| "locked_system (LockedStorePath p) = lps_system p"

fun locked_derivation :: "LockedPackage \<Rightarrow> string option" where
  "locked_derivation (LockedCatalog p) = Some (lpc_derivation p)"
| "locked_derivation (LockedFlake p) = Some (li_derivation (lpf_locked_installable p))"
| "locked_derivation (LockedStorePath p) = None"

section \<open>The outputs of a package\<close>

text \<open>The runs of equal outputs that \<open>dedup\<close> removes.\<close>

definition deduped_outputs_to_install :: "string list option \<Rightarrow> string list option" where
  "deduped_outputs_to_install outputs_to_install = map_option remdups_adj outputs_to_install"

definition outputs_match_outputs_to_install :: "(string, string) bmap \<Rightarrow> string list option \<Rightarrow> bool option" where
  "outputs_match_outputs_to_install outputs outputs_to_install =
     map_option (\<lambda>to_install. sort to_install = sort (bm_keys outputs)) (deduped_outputs_to_install outputs_to_install)"

section \<open>The lockfile\<close>

record LockedInclude =
  linc_manifest :: Manifest
  linc_name :: string
  linc_descriptor :: IncludeDescriptor

record ComposeInfo =
  comp_composer :: Manifest
  comp_include :: "LockedInclude list"
  comp_warnings :: "WarningWithContext list"

record Lockfile =
  lf_manifest :: Manifest
  lf_packages :: "LockedPackage list"
  lf_compose :: "ComposeInfo option"

datatype PackageToList =
    ListCatalog PackageDescriptorCatalog LockedPackageCatalog
  | ListFlake PackageDescriptorFlake LockedPackageFlake
  | ListStorePath LockedPackageStorePath

datatype LockfileError = MissingPackageDescriptor string

definition package_to_list :: "Manifest \<Rightarrow> LockedPackage \<Rightarrow> LockfileError + PackageToList" where
  "package_to_list manifest package =
     (let missing = MissingPackageDescriptor (locked_install_id package)
      in case package of
           LockedCatalog pkg \<Rightarrow>
             and_then (ok_or missing (pkg_descriptor_with_id manifest (lpc_install_id pkg))) (\<lambda>descriptor.
             and_then (ok_or missing (as_catalog_descriptor_ref descriptor)) (\<lambda>d. Ok (ListCatalog d pkg)))
         | LockedFlake pkg \<Rightarrow>
             and_then (ok_or missing (pkg_descriptor_with_id manifest (lpf_install_id pkg))) (\<lambda>descriptor.
             and_then (ok_or missing (as_flake_descriptor_ref descriptor)) (\<lambda>d. Ok (ListFlake d pkg)))
         | LockedStorePath pkg \<Rightarrow> Ok (ListStorePath pkg))"

definition list_packages :: "Lockfile \<Rightarrow> system \<Rightarrow> LockfileError + PackageToList list" where
  "list_packages lockfile system =
     collect_results (package_to_list (lf_manifest lockfile))
       (filter (\<lambda>p. locked_system p = system) (lf_packages lockfile))"

definition user_manifest :: "Lockfile \<Rightarrow> Manifest" where
  "user_manifest lockfile = (case lf_compose lockfile of Some c \<Rightarrow> comp_composer c | None \<Rightarrow> lf_manifest lockfile)"

definition is_up_to_date_with_serialized_manifest :: "Lockfile \<Rightarrow> Manifest \<Rightarrow> bool" where
  "is_up_to_date_with_serialized_manifest lockfile manifest \<longleftrightarrow> manifest = user_manifest lockfile"

definition locked_package_with_id :: "Lockfile \<Rightarrow> string \<Rightarrow> LockedPackage option" where
  "locked_package_with_id lockfile iid = find (\<lambda>p. locked_install_id p = iid) (lf_packages lockfile)"

text \<open>The highest-priority include that provides a package: the last one.\<close>

fun include_for_package_loop ::
  "string \<Rightarrow> string option \<Rightarrow> LockedInclude list \<Rightarrow> ManifestError + LockedInclude option" where
  "include_for_package_loop package version [] = Ok None"
| "include_for_package_loop package version (i # is) =
     (case resolve_install_id (linc_manifest i) package version of
        Inr _ \<Rightarrow> Ok (Some i)
      | Inl (PackageNotFound _) \<Rightarrow> include_for_package_loop package version is
      | Inl (MultiplePackagesMatch _ _) \<Rightarrow> include_for_package_loop package version is
      | Inl err \<Rightarrow> Err err)"

definition get_include_for_package ::
  "ComposeInfo \<Rightarrow> string \<Rightarrow> string option \<Rightarrow> ManifestError + LockedInclude option" where
  "get_include_for_package c package version = include_for_package_loop package version (rev (comp_include c))"

section \<open>Facts\<close>

lemma as_catalog_package_iff [simp]: "as_catalog_package_ref p = Some c \<longleftrightarrow> p = LockedCatalog c"
  by (cases p) simp_all

lemma system_from_show [simp]: "system_from_str (show_system s) = Some s"
  by (cases s) (simp_all add: system_from_str_def)

lemma show_from_system: "system_from_str s = Some p \<Longrightarrow> show_system p = s"
  by (auto simp: system_from_str_def split: if_splits)

text \<open>A package whose descriptor has its kind can be listed.\<close>

definition locked_for :: "Manifest \<Rightarrow> LockedPackage \<Rightarrow> bool" where
  "locked_for manifest package \<longleftrightarrow>
     (case package of
        LockedCatalog p \<Rightarrow> (\<exists>d. bm_get (mf_install manifest) (lpc_install_id p) = Some (Catalog d))
      | LockedFlake p \<Rightarrow> (\<exists>d. bm_get (mf_install manifest) (lpf_install_id p) = Some (FlakeRef d))
      | LockedStorePath p \<Rightarrow> (\<exists>d. bm_get (mf_install manifest) (lps_install_id p) = Some (StorePathPkg d)))"

lemma collect_results_all_ok:
  "(\<And>x. x \<in> set xs \<Longrightarrow> \<exists>y. f x = Ok y) \<Longrightarrow> \<exists>ys. collect_results f xs = Ok ys \<and> length ys = length xs"
proof (induction xs)
  case (Cons x xs)
  then obtain y ys where "f x = Ok y" "collect_results f xs = Ok ys" "length ys = length xs"
    by fastforce
  then show ?case
    by simp
qed simp

lemma list_packages_ok:
  assumes "\<forall>p \<in> set (lf_packages lockfile). locked_for (lf_manifest lockfile) p"
  shows "\<exists>ps. list_packages lockfile system = Ok ps"
proof -
  have "\<exists>y. package_to_list (lf_manifest lockfile) p = Ok y" if "p \<in> set (lf_packages lockfile)" for p
    using assms that
    by (cases p) (force simp: package_to_list_def locked_for_def pkg_descriptor_with_id_def Let_def)+
  then show ?thesis
    unfolding list_packages_def by (meson collect_results_all_ok filter_is_subset subsetD)
qed

text \<open>An include is found by the last one that resolves the package.\<close>

lemma get_include_is_last:
  "get_include_for_package c package version = Ok (find (\<lambda>i. is_ok (resolve_install_id (linc_manifest i) package version))
     (rev (comp_include c)))"
proof -
  have "include_for_package_loop package version is =
      Ok (find (\<lambda>i. is_ok (resolve_install_id (linc_manifest i) package version)) is)" for "is"
  proof (induction "is")
    case (Cons i "is")
    have "resolve_install_id (linc_manifest i) package version \<noteq> Err (PkgOrGroupNotFound x)" for x
      by (simp add: resolve_install_id_def split: list.splits)
    then show ?case
      using Cons by (auto split: sum.splits ManifestError.splits)
  qed simp
  then show ?thesis
    by (simp add: get_include_for_package_def)
qed

end
