(* ===== verification/Migrate.thy ===== *)
theory Migrate
  imports Locked_Packages
begin

text \<open>
  The older schemas of the manifest and the migrations between schemas
  (\<open>flox-manifest/src/parsed/\<close>, \<open>src/migrate/\<close>, the end of \<open>parsed/latest.rs\<close>), and the outputs
  that a build installs (\<open>get_installed_outputs\<close> of \<open>flox-rust-sdk/src/providers/buildenv.rs\<close> and
  the selection of outputs in \<open>buildenv/buildenv.nix\<close>). Parsing and printing semantic versions is
  the parameter \<open>semver\<close>: the text of the parsed version, when there is one.
\<close>

section \<open>The older schemas\<close>

record PackageDescriptorCatalogV1 =
  pdc1_pkg_path :: string
  pdc1_pkg_group :: "string option"
  pdc1_priority :: "nat option"
  pdc1_version :: "string option"
  pdc1_systems :: "system list option"

record PackageDescriptorFlakeV1 =
  pdf1_flake :: string
  pdf1_priority :: "nat option"
  pdf1_systems :: "system list option"

datatype ManifestPackageDescriptorV1 =
    CatalogV1 PackageDescriptorCatalogV1
  | FlakeRefV1 PackageDescriptorFlakeV1
  | StorePathV1 PackageDescriptorStorePath

record CommonProfile =
  cprof_common :: "string option"
  cprof_bash :: "string option"
  cprof_zsh :: "string option"
  cprof_fish :: "string option"
  cprof_tcsh :: "string option"

datatype CommonBuildSandbox = CommonOff | CommonPure

record CommonBuildDescriptor =
  cbd_command :: string
  cbd_runtime_packages :: "string list option"
  cbd_sandbox :: "CommonBuildSandbox option"
  cbd_version :: "BuildVersion option"
  cbd_description :: "string option"
  cbd_license :: "string list option"

record ManifestV1 =
  m1_version :: nat
  m1_install :: "(string, ManifestPackageDescriptorV1) bmap"
  m1_vars :: "(string, string) bmap"
  m1_hook :: "Hook option"
  m1_profile :: "CommonProfile option"
  m1_options :: Options
  m1_services :: "(string, ServiceDescriptor) bmap"
  m1_build :: "(string, CommonBuildDescriptor) bmap"
  m1_containerize :: "Containerize option"
  m1_include :: "IncludeDescriptor list"

record ManifestV1_10_0 =
  m10_schema_version :: string
  m10_minimum_cli_version :: "string option"
  m10_install :: "(string, ManifestPackageDescriptor) bmap"
  m10_vars :: "(string, string) bmap"
  m10_hook :: "Hook option"
  m10_profile :: "CommonProfile option"
  m10_options :: Options
  m10_services :: "(string, ServiceDescriptor) bmap"
  m10_build :: "(string, CommonBuildDescriptor) bmap"
  m10_containerize :: "Containerize option"
  m10_include :: "IncludeDescriptor list"

record ManifestV1_11_0 =
  m11_schema_version :: string
  m11_minimum_cli_version :: "MinimumCliVersion option"
  m11_install :: "(string, ManifestPackageDescriptor) bmap"
  m11_vars :: "(string, string) bmap"
  m11_hook :: "Hook option"
  m11_profile :: "CommonProfile option"
  m11_options :: Options
  m11_services :: "(string, ServiceDescriptor) bmap"
  m11_build :: "(string, CommonBuildDescriptor) bmap"
  m11_containerize :: "Containerize option"
  m11_include :: "IncludeDescriptor list"

record ManifestV1_12_0 =
  m12_schema_version :: string
  m12_minimum_cli_version :: "MinimumCliVersion option"
  m12_install :: "(string, ManifestPackageDescriptor) bmap"
  m12_vars :: "(string, string) bmap"
  m12_hook :: "Hook option"
  m12_profile :: "CommonProfile option"
  m12_options :: Options
  m12_services :: Services
  m12_build :: "(string, CommonBuildDescriptor) bmap"
  m12_containerize :: "Containerize option"
  m12_include :: "IncludeDescriptor list"

datatype Parsed =
    ParsedV1 ManifestV1
  | ParsedV1_10_0 ManifestV1_10_0
  | ParsedV1_11_0 ManifestV1_11_0
  | ParsedV1_12_0 ManifestV1_12_0
  | ParsedV1_13_0 Manifest

fun parsed_schema_version :: "Parsed \<Rightarrow> KnownSchemaVersion" where
  "parsed_schema_version (ParsedV1 _) = V1"
| "parsed_schema_version (ParsedV1_10_0 _) = V1_10_0"
| "parsed_schema_version (ParsedV1_11_0 _) = V1_11_0"
| "parsed_schema_version (ParsedV1_12_0 _) = V1_12_0"
| "parsed_schema_version (ParsedV1_13_0 _) = V1_13_0"

section \<open>Output selection\<close>

definition set_outputs_to_all :: "ManifestPackageDescriptor \<Rightarrow> ManifestPackageDescriptor" where
  "set_outputs_to_all d =
     (case d of
        Catalog c \<Rightarrow> Catalog (c\<lparr> pdc_outputs := Some AllOutputs \<rparr>)
      | FlakeRef f \<Rightarrow> FlakeRef (f\<lparr> pdf_outputs := Some AllOutputs \<rparr>)
      | StorePathPkg _ \<Rightarrow> d)"

definition set_outputs :: "SelectedOutputs option \<Rightarrow> ManifestPackageDescriptor \<Rightarrow> ManifestPackageDescriptor" where
  "set_outputs outputs d =
     (case d of
        Catalog c \<Rightarrow> Catalog (c\<lparr> pdc_outputs := outputs \<rparr>)
      | FlakeRef f \<Rightarrow> FlakeRef (f\<lparr> pdf_outputs := outputs \<rparr>)
      | StorePathPkg _ \<Rightarrow> d)"

definition get_outputs :: "ManifestPackageDescriptor \<Rightarrow> SelectedOutputs option" where
  "get_outputs d = (case d of Catalog c \<Rightarrow> pdc_outputs c | FlakeRef f \<Rightarrow> pdf_outputs f | StorePathPkg _ \<Rightarrow> None)"

fun descriptor_from_v1 :: "ManifestPackageDescriptorV1 \<Rightarrow> ManifestPackageDescriptor" where
  "descriptor_from_v1 (CatalogV1 old) =
     Catalog \<lparr> pdc_pkg_path = pdc1_pkg_path old, pdc_pkg_group = pdc1_pkg_group old,
       pdc_priority = pdc1_priority old, pdc_version = pdc1_version old, pdc_systems = pdc1_systems old,
       pdc_outputs = None \<rparr>"
| "descriptor_from_v1 (FlakeRefV1 old) =
     FlakeRef \<lparr> pdf_flake = pdf1_flake old, pdf_priority = pdf1_priority old, pdf_systems = pdf1_systems old,
       pdf_outputs = None \<rparr>"
| "descriptor_from_v1 (StorePathV1 old) = StorePathPkg old"

section \<open>From version 1 to 1.10.0\<close>

datatype MigrationError = MigrationOther string

text \<open>
  A descriptor with the locked packages of its install id, by system. The code is generic over the
  kind of package; \<open>outputs\<close> and \<open>to_install\<close> are the methods of the trait for that kind.
  Intersections do not depend on the order of the hash map.
\<close>

record ('d, 'l) LockedDescriptor =
  ld_install_id :: string
  ld_pd :: 'd
  ld_locked :: "(system, 'l) bmap"

definition intersect_all :: "('l \<Rightarrow> string set) \<Rightarrow> 'l list \<Rightarrow> string set" where
  "intersect_all f locked =
     (case locked of [] \<Rightarrow> {} | first # _ \<Rightarrow> foldl (\<lambda>acc l. acc \<inter> f l) (f first) locked)"

definition output_intersection :: "('l \<Rightarrow> (string, string) bmap) \<Rightarrow> ('d, 'l) LockedDescriptor \<Rightarrow> string set" where
  "output_intersection outputs ld = intersect_all (\<lambda>l. set (bm_keys (outputs l))) (bm_values (ld_locked ld))"

definition outputs_to_install_intersection ::
  "('l \<Rightarrow> string list option) \<Rightarrow> ('d, 'l) LockedDescriptor \<Rightarrow> string set" where
  "outputs_to_install_intersection to_install ld =
     intersect_all (\<lambda>l. set (case to_install l of Some os \<Rightarrow> os | None \<Rightarrow> [])) (bm_values (ld_locked ld))"

definition needs_migration ::
  "('l \<Rightarrow> (string, string) bmap) \<Rightarrow> ('l \<Rightarrow> string list option) \<Rightarrow> ('d, 'l) LockedDescriptor \<Rightarrow> bool" where
  "needs_migration outputs to_install ld \<longleftrightarrow>
     output_intersection outputs ld \<noteq> outputs_to_install_intersection to_install ld"

definition migrated ::
  "('d \<Rightarrow> ManifestPackageDescriptorV1) \<Rightarrow> ('l \<Rightarrow> (string, string) bmap) \<Rightarrow> ('l \<Rightarrow> string list option)
     \<Rightarrow> ('d, 'l) LockedDescriptor \<Rightarrow> ManifestPackageDescriptor" where
  "migrated into outputs to_install ld =
     (let pd = descriptor_from_v1 (into (ld_pd ld))
      in if ld_locked ld = [] \<or> needs_migration outputs to_install ld then set_outputs_to_all pd else pd)"

definition migrated_catalog :: "(PackageDescriptorCatalogV1, LockedPackageCatalog) LockedDescriptor \<Rightarrow> ManifestPackageDescriptor" where
  "migrated_catalog = migrated CatalogV1 lpc_outputs lpc_outputs_to_install"

definition migrated_flake :: "(PackageDescriptorFlakeV1, LockedPackageFlake) LockedDescriptor \<Rightarrow> ManifestPackageDescriptor" where
  "migrated_flake = migrated FlakeRefV1 (\<lambda>l. li_outputs (lpf_locked_installable l))
     (\<lambda>l. li_outputs_to_install (lpf_locked_installable l))"

definition get_locked_packages_by_install_id :: "string \<Rightarrow> Lockfile \<Rightarrow> LockedPackage list option" where
  "get_locked_packages_by_install_id iid lockfile =
     (let pkgs = filter (\<lambda>p. locked_install_id p = iid) (lf_packages lockfile)
      in if pkgs = [] then None else Some pkgs)"

definition kind_mismatch :: "string \<Rightarrow> string \<Rightarrow> MigrationError" where
  "kind_mismatch kind iid = MigrationOther
     (''package '' @ [CHR 0x27] @ iid @ [CHR 0x27] @ '' was a '' @ kind @ '' package in the manifest, but not in the lockfile'')"

definition catalog_of_locked :: "string \<Rightarrow> LockedPackage \<Rightarrow> MigrationError + (system \<times> LockedPackageCatalog)" where
  "catalog_of_locked iid p =
     (case p of LockedCatalog pkg \<Rightarrow> Ok (locked_system p, pkg) | _ \<Rightarrow> Err (kind_mismatch ''catalog'' iid))"

definition flake_of_locked :: "string \<Rightarrow> LockedPackage \<Rightarrow> MigrationError + (system \<times> LockedPackageFlake)" where
  "flake_of_locked iid p =
     (case p of LockedFlake pkg \<Rightarrow> Ok (locked_system p, pkg) | _ \<Rightarrow> Err (kind_mismatch ''flake'' iid))"

definition locked_descriptor ::
  "(string \<Rightarrow> LockedPackage \<Rightarrow> MigrationError + (system \<times> 'l)) \<Rightarrow> Lockfile option \<Rightarrow> string \<Rightarrow> 'd
     \<Rightarrow> MigrationError + ('d, 'l) LockedDescriptor" where
  "locked_descriptor of_locked lockfile iid pd =
     (case Option.bind lockfile (get_locked_packages_by_install_id iid) of
        None \<Rightarrow> Ok \<lparr> ld_install_id = iid, ld_pd = pd, ld_locked = [] \<rparr>
      | Some pkgs \<Rightarrow>
          map_ok (\<lambda>kvs. \<lparr> ld_install_id = iid, ld_pd = pd, ld_locked = bm_extend [] kvs \<rparr>)
            (collect_results (of_locked iid) pkgs))"

record CollectedPackages =
  coll_catalog :: "(PackageDescriptorCatalogV1, LockedPackageCatalog) LockedDescriptor list"
  coll_flake :: "(PackageDescriptorFlakeV1, LockedPackageFlake) LockedDescriptor list"

definition collect_one ::
  "Lockfile option \<Rightarrow> CollectedPackages \<Rightarrow> string \<times> ManifestPackageDescriptorV1 \<Rightarrow> MigrationError + CollectedPackages" where
  "collect_one lockfile c entry =
     (case entry of (iid, descriptor) \<Rightarrow>
        (case descriptor of
           CatalogV1 pd \<Rightarrow>
             map_ok (\<lambda>ld. c\<lparr> coll_catalog := coll_catalog c @ [ld] \<rparr>) (locked_descriptor catalog_of_locked lockfile iid pd)
         | FlakeRefV1 pd \<Rightarrow>
             map_ok (\<lambda>ld. c\<lparr> coll_flake := coll_flake c @ [ld] \<rparr>) (locked_descriptor flake_of_locked lockfile iid pd)
         | StorePathV1 _ \<Rightarrow> Ok c))"

fun collect_packages ::
  "Lockfile option \<Rightarrow> CollectedPackages \<Rightarrow> (string \<times> ManifestPackageDescriptorV1) list \<Rightarrow> MigrationError + CollectedPackages" where
  "collect_packages lockfile c [] = Ok c"
| "collect_packages lockfile c (entry # entries) =
     and_then (collect_one lockfile c entry) (\<lambda>c'. collect_packages lockfile c' entries)"

definition collect_locked_packages_by_kind ::
  "(string, ManifestPackageDescriptorV1) bmap \<Rightarrow> Lockfile option \<Rightarrow> MigrationError + CollectedPackages" where
  "collect_locked_packages_by_kind install lockfile =
     collect_packages lockfile \<lparr> coll_catalog = [], coll_flake = [] \<rparr> install"

definition migrate_install ::
  "(string, ManifestPackageDescriptorV1) bmap \<Rightarrow> Lockfile option
     \<Rightarrow> MigrationError + (string, ManifestPackageDescriptor) bmap" where
  "migrate_install install lockfile =
     map_ok (\<lambda>collected.
       bm_extend (bm_extend (bm_extend []
           (map (\<lambda>ld. (ld_install_id ld, migrated_catalog ld)) (coll_catalog collected)))
           (map (\<lambda>ld. (ld_install_id ld, migrated_flake ld)) (coll_flake collected)))
           (List.map_filter (\<lambda>(iid, d). case d of StorePathV1 s \<Rightarrow> Some (iid, StorePathPkg s) | _ \<Rightarrow> None) install))
       (collect_locked_packages_by_kind install lockfile)"

definition migrate_manifest_v1_to_v1_10_0 :: "ManifestV1 \<Rightarrow> Lockfile option \<Rightarrow> MigrationError + ManifestV1_10_0" where
  "migrate_manifest_v1_to_v1_10_0 m lockfile =
     map_ok (\<lambda>install.
       \<lparr> m10_schema_version = ''1.10.0'', m10_minimum_cli_version = None, m10_install = install,
         m10_vars = m1_vars m, m10_hook = m1_hook m, m10_profile = m1_profile m, m10_options = m1_options m,
         m10_services = m1_services m, m10_build = m1_build m, m10_containerize = m1_containerize m,
         m10_include = m1_include m \<rparr>)
       (migrate_install (m1_install m) lockfile)"

section \<open>The other migrations\<close>

definition migrate_manifest_v1_10_0_to_v1_11_0 ::
  "(string \<Rightarrow> string + string) \<Rightarrow> ManifestV1_10_0 \<Rightarrow> MigrationError + ManifestV1_11_0" where
  "migrate_manifest_v1_10_0_to_v1_11_0 semver m =
     (case map_option semver (m10_minimum_cli_version m) of
        Some (Inl e) \<Rightarrow> Err (MigrationOther (''invalid minimum-cli-version: '' @ e))
      | version \<Rightarrow> Ok
          \<lparr> m11_schema_version = ''1.11.0'',
            m11_minimum_cli_version = (case version of Some (Inr v) \<Rightarrow> Some (MinVersion v) | _ \<Rightarrow> None),
            m11_install = m10_install m, m11_vars = m10_vars m, m11_hook = m10_hook m, m11_profile = m10_profile m,
            m11_options = m10_options m, m11_services = m10_services m, m11_build = m10_build m,
            m11_containerize = m10_containerize m, m11_include = m10_include m \<rparr>)"

definition migrate_manifest_v1_11_0_to_v1_12_0 :: "ManifestV1_11_0 \<Rightarrow> MigrationError + ManifestV1_12_0" where
  "migrate_manifest_v1_11_0_to_v1_12_0 m = Ok
     \<lparr> m12_schema_version = ''1.12.0'', m12_minimum_cli_version = m11_minimum_cli_version m,
       m12_install = m11_install m, m12_vars = m11_vars m, m12_hook = m11_hook m, m12_profile = m11_profile m,
       m12_options = m11_options m, m12_services = \<lparr> svcs_auto_start = None, svcs_map = m11_services m \<rparr>,
       m12_build = m11_build m, m12_containerize = m11_containerize m, m12_include = m11_include m \<rparr>"

fun sandbox_from_common :: "CommonBuildSandbox \<Rightarrow> BuildSandbox" where
  "sandbox_from_common CommonOff = SandboxOff"
| "sandbox_from_common CommonPure = SandboxPure"

definition build_from_common :: "CommonBuildDescriptor \<Rightarrow> BuildDescriptor" where
  "build_from_common d =
     \<lparr> bd_command = cbd_command d, bd_runtime_packages = cbd_runtime_packages d,
       bd_sandbox = map_option sandbox_from_common (cbd_sandbox d), bd_sandbox_allow = None,
       bd_version = cbd_version d, bd_description = cbd_description d, bd_license = cbd_license d \<rparr>"

definition profile_from_common :: "CommonProfile \<Rightarrow> Profile" where
  "profile_from_common p =
     \<lparr> prof_common = cprof_common p, prof_bash = cprof_bash p, prof_zsh = cprof_zsh p, prof_fish = cprof_fish p,
       prof_tcsh = cprof_tcsh p, prof_deactivate = None \<rparr>"

definition migrate_manifest_v1_12_0_to_v1_13_0 :: "ManifestV1_12_0 \<Rightarrow> MigrationError + Manifest" where
  "migrate_manifest_v1_12_0_to_v1_13_0 m = Ok
     \<lparr> mf_schema_version = ''1.13.0'', mf_minimum_cli_version = m12_minimum_cli_version m,
       mf_install = m12_install m, mf_vars = m12_vars m, mf_hook = m12_hook m,
       mf_profile = map_option profile_from_common (m12_profile m), mf_options = m12_options m,
       mf_services = m12_services m, mf_build = map (\<lambda>(iid, d). (iid, build_from_common d)) (m12_build m),
       mf_containerize = m12_containerize m, mf_include = m12_include m \<rparr>"

fun schema_age :: "Parsed \<Rightarrow> nat" where
  "schema_age (ParsedV1 _) = 4"
| "schema_age (ParsedV1_10_0 _) = 3"
| "schema_age (ParsedV1_11_0 _) = 2"
| "schema_age (ParsedV1_12_0 _) = 1"
| "schema_age (ParsedV1_13_0 _) = 0"

function migrate_loop :: "(string \<Rightarrow> string + string) \<Rightarrow> Lockfile option \<Rightarrow> Parsed \<Rightarrow> MigrationError + Manifest" where
  "migrate_loop semver lockfile (ParsedV1 m) =
     (case migrate_manifest_v1_to_v1_10_0 m lockfile of
        Inl e \<Rightarrow> Err e | Inr m' \<Rightarrow> migrate_loop semver lockfile (ParsedV1_10_0 m'))"
| "migrate_loop semver lockfile (ParsedV1_10_0 m) =
     (case migrate_manifest_v1_10_0_to_v1_11_0 semver m of
        Inl e \<Rightarrow> Err e | Inr m' \<Rightarrow> migrate_loop semver lockfile (ParsedV1_11_0 m'))"
| "migrate_loop semver lockfile (ParsedV1_11_0 m) =
     (case migrate_manifest_v1_11_0_to_v1_12_0 m of
        Inl e \<Rightarrow> Err e | Inr m' \<Rightarrow> migrate_loop semver lockfile (ParsedV1_12_0 m'))"
| "migrate_loop semver lockfile (ParsedV1_12_0 m) =
     (case migrate_manifest_v1_12_0_to_v1_13_0 m of
        Inl e \<Rightarrow> Err e | Inr m' \<Rightarrow> migrate_loop semver lockfile (ParsedV1_13_0 m'))"
| "migrate_loop semver lockfile (ParsedV1_13_0 m) = Ok m"
  by pat_completeness auto

termination
  by (relation "measure (\<lambda>(_, _, p). schema_age p)") auto

definition migrate_typed_only ::
  "(string \<Rightarrow> string + string) \<Rightarrow> Parsed \<Rightarrow> Lockfile option \<Rightarrow> MigrationError + Manifest" where
  "migrate_typed_only semver p lockfile = migrate_loop semver lockfile p"

section \<open>Back to the original schema\<close>

text \<open>
  The code serializes the manifest, replaces the schema version and lets the parser of the older
  schema decide. That parser rejects unknown fields and absent values are not written, so what it
  accepts are the manifests without the newer fields; the functions below give what it reads.
  \<open>auto-start\<close> shares the table of the services: a service of that name replaces it in the
  serialized table, and the schemas that know the field reject it.
\<close>

fun descriptor_as_v1 :: "ManifestPackageDescriptor \<Rightarrow> ManifestPackageDescriptorV1 option" where
  "descriptor_as_v1 (Catalog c) =
     (if pdc_outputs c = None then Some (CatalogV1
        \<lparr> pdc1_pkg_path = pdc_pkg_path c, pdc1_pkg_group = pdc_pkg_group c, pdc1_priority = pdc_priority c,
          pdc1_version = pdc_version c, pdc1_systems = pdc_systems c \<rparr>) else None)"
| "descriptor_as_v1 (FlakeRef f) =
     (if pdf_outputs f = None then Some (FlakeRefV1
        \<lparr> pdf1_flake = pdf_flake f, pdf1_priority = pdf_priority f, pdf1_systems = pdf_systems f \<rparr>) else None)"
| "descriptor_as_v1 (StorePathPkg s) = Some (StorePathV1 s)"

definition entries_as :: "('a \<Rightarrow> 'b option) \<Rightarrow> (string, 'a) bmap \<Rightarrow> (string, 'b) bmap option" where
  "entries_as f m = those (map (\<lambda>(k, v). map_option (Pair k) (f v)) m)"

definition profile_as_common :: "Profile \<Rightarrow> CommonProfile option" where
  "profile_as_common p =
     (if prof_deactivate p = None then Some
        \<lparr> cprof_common = prof_common p, cprof_bash = prof_bash p, cprof_zsh = prof_zsh p, cprof_fish = prof_fish p,
          cprof_tcsh = prof_tcsh p \<rparr> else None)"

definition optionally :: "('a \<Rightarrow> 'b option) \<Rightarrow> 'a option \<Rightarrow> 'b option option" where
  "optionally f x = (case x of None \<Rightarrow> Some None | Some a \<Rightarrow> map_option Some (f a))"

fun sandbox_as_common :: "BuildSandbox \<Rightarrow> CommonBuildSandbox option" where
  "sandbox_as_common SandboxOff = Some CommonOff"
| "sandbox_as_common SandboxPure = Some CommonPure"
| "sandbox_as_common _ = None"

definition build_as_common :: "BuildDescriptor \<Rightarrow> CommonBuildDescriptor option" where
  "build_as_common d =
     (if bd_sandbox_allow d \<noteq> None then None
      else map_option (\<lambda>sandbox.
        \<lparr> cbd_command = bd_command d, cbd_runtime_packages = bd_runtime_packages d, cbd_sandbox = sandbox,
          cbd_version = bd_version d, cbd_description = bd_description d, cbd_license = bd_license d \<rparr>)
        (optionally sandbox_as_common (bd_sandbox d)))"

definition services_as_map :: "Services \<Rightarrow> (string, ServiceDescriptor) bmap option" where
  "services_as_map s =
     (if svcs_auto_start s = None \<or> bm_contains (svcs_map s) ''auto-start'' then Some (svcs_map s) else None)"

definition services_as_services :: "Services \<Rightarrow> Services option" where
  "services_as_services s = (if bm_contains (svcs_map s) ''auto-start'' then None else Some s)"

definition minimum_as_string :: "MinimumCliVersion \<Rightarrow> string option" where
  "minimum_as_string v = (case v of MinVersion s \<Rightarrow> Some s | MinVersionWithReason _ _ \<Rightarrow> None)"

definition as_v1 :: "Manifest \<Rightarrow> ManifestV1 option" where
  "as_v1 m =
     (if mf_minimum_cli_version m \<noteq> None then None else
      Option.bind (entries_as descriptor_as_v1 (mf_install m)) (\<lambda>install.
      Option.bind (optionally profile_as_common (mf_profile m)) (\<lambda>profile.
      Option.bind (services_as_map (mf_services m)) (\<lambda>services.
      Option.bind (entries_as build_as_common (mf_build m)) (\<lambda>build.
      Some \<lparr> m1_version = 1, m1_install = install, m1_vars = mf_vars m, m1_hook = mf_hook m, m1_profile = profile,
        m1_options = mf_options m, m1_services = services, m1_build = build,
        m1_containerize = mf_containerize m, m1_include = mf_include m \<rparr>)))))"

definition as_v1_10_0 :: "Manifest \<Rightarrow> ManifestV1_10_0 option" where
  "as_v1_10_0 m =
     (Option.bind (optionally minimum_as_string (mf_minimum_cli_version m)) (\<lambda>minimum.
      Option.bind (optionally profile_as_common (mf_profile m)) (\<lambda>profile.
      Option.bind (services_as_map (mf_services m)) (\<lambda>services.
      Option.bind (entries_as build_as_common (mf_build m)) (\<lambda>build.
      Some \<lparr> m10_schema_version = ''1.10.0'', m10_minimum_cli_version = minimum, m10_install = mf_install m,
        m10_vars = mf_vars m, m10_hook = mf_hook m, m10_profile = profile, m10_options = mf_options m,
        m10_services = services, m10_build = build, m10_containerize = mf_containerize m,
        m10_include = mf_include m \<rparr>)))))"

definition as_v1_11_0 :: "Manifest \<Rightarrow> ManifestV1_11_0 option" where
  "as_v1_11_0 m =
     (Option.bind (optionally profile_as_common (mf_profile m)) (\<lambda>profile.
      Option.bind (services_as_map (mf_services m)) (\<lambda>services.
      Option.bind (entries_as build_as_common (mf_build m)) (\<lambda>build.
      Some \<lparr> m11_schema_version = ''1.11.0'', m11_minimum_cli_version = mf_minimum_cli_version m,
        m11_install = mf_install m, m11_vars = mf_vars m, m11_hook = mf_hook m, m11_profile = profile,
        m11_options = mf_options m, m11_services = services, m11_build = build,
        m11_containerize = mf_containerize m, m11_include = mf_include m \<rparr>))))"

definition as_v1_12_0 :: "Manifest \<Rightarrow> ManifestV1_12_0 option" where
  "as_v1_12_0 m =
     (Option.bind (optionally profile_as_common (mf_profile m)) (\<lambda>profile.
      Option.bind (services_as_services (mf_services m)) (\<lambda>services.
      Option.bind (entries_as build_as_common (mf_build m)) (\<lambda>build.
      Some \<lparr> m12_schema_version = ''1.12.0'', m12_minimum_cli_version = mf_minimum_cli_version m,
        m12_install = mf_install m, m12_vars = mf_vars m, m12_hook = mf_hook m, m12_profile = profile,
        m12_options = mf_options m, m12_services = services, m12_build = build,
        m12_containerize = mf_containerize m, m12_include = mf_include m \<rparr>))))"

fun as_original_schema :: "Manifest \<Rightarrow> KnownSchemaVersion \<Rightarrow> Parsed option" where
  "as_original_schema m V1 = map_option ParsedV1 (as_v1 m)"
| "as_original_schema m V1_10_0 = map_option ParsedV1_10_0 (as_v1_10_0 m)"
| "as_original_schema m V1_11_0 = map_option ParsedV1_11_0 (as_v1_11_0 m)"
| "as_original_schema m V1_12_0 = map_option ParsedV1_12_0 (as_v1_12_0 m)"
| "as_original_schema m V1_13_0 = Some (ParsedV1_13_0 m)"

definition as_maybe_backwards_compatible ::
  "(string \<Rightarrow> string + string) \<Rightarrow> Manifest \<Rightarrow> KnownSchemaVersion \<Rightarrow> Lockfile option \<Rightarrow> MigrationError + Parsed" where
  "as_maybe_backwards_compatible semver m original_schema lockfile =
     (case as_original_schema m original_schema of
        None \<Rightarrow> Ok (ParsedV1_13_0 m)
      | Some backwards_compatible \<Rightarrow>
          map_ok (\<lambda>migrated_again. if migrated_again = m then backwards_compatible else ParsedV1_13_0 m)
            (migrate_typed_only semver backwards_compatible lockfile))"

section \<open>The outputs that are installed\<close>

datatype InstalledOutputsError = InvalidOutputs "string list" string

definition select_outputs ::
  "string \<Rightarrow> (string, string) bmap \<Rightarrow> SelectedOutputs option \<Rightarrow> string list option \<Rightarrow> InstalledOutputsError + string list" where
  "select_outputs package_name outputs descriptor_outputs to_install =
     (case descriptor_outputs of
        Some AllOutputs \<Rightarrow> Ok (bm_keys outputs)
      | Some (Specific selected) \<Rightarrow>
          (let invalid = filter (\<lambda>o'. \<not> bm_contains outputs o') selected
           in if invalid = [] then Ok selected else Err (InvalidOutputs invalid package_name))
      | None \<Rightarrow> Ok (case to_install of Some os \<Rightarrow> os | None \<Rightarrow> bm_keys outputs))"

definition get_installed_outputs :: "PackageToList \<Rightarrow> InstalledOutputsError + string list" where
  "get_installed_outputs package =
     (case package of
        ListStorePath _ \<Rightarrow> Ok []
      | ListCatalog d l \<Rightarrow> select_outputs (lpc_install_id l) (lpc_outputs l) (pdc_outputs d) (lpc_outputs_to_install l)
      | ListFlake d l \<Rightarrow> select_outputs (lpf_install_id l) (li_outputs (lpf_locked_installable l)) (pdf_outputs d)
          (li_outputs_to_install (lpf_locked_installable l)))"

text \<open>What a build installs for a manifest of version 1 (\<open>getV1Outputs\<close> of \<open>buildenv.nix\<close>).\<close>

fun locked_outputs :: "LockedPackage \<Rightarrow> (string, string) bmap" where
  "locked_outputs (LockedCatalog p) = lpc_outputs p"
| "locked_outputs (LockedFlake p) = li_outputs (lpf_locked_installable p)"
| "locked_outputs (LockedStorePath p) = []"

fun locked_outputs_to_install :: "LockedPackage \<Rightarrow> string list option" where
  "locked_outputs_to_install (LockedCatalog p) = lpc_outputs_to_install p"
| "locked_outputs_to_install (LockedFlake p) = li_outputs_to_install (lpf_locked_installable p)"
| "locked_outputs_to_install (LockedStorePath p) = None"

definition v1_outputs :: "LockedPackage \<Rightarrow> string list" where
  "v1_outputs p = filter (\<lambda>o'. o' \<noteq> ''stubs'') (bm_keys (locked_outputs p))"

section \<open>Entry by entry\<close>

text \<open>
  The code sorts the descriptors by kind and then inserts the migrated ones kind by kind; the
  result is that of migrating every entry on its own.
\<close>

fun migrate_entry :: "Lockfile option \<Rightarrow> string \<Rightarrow> ManifestPackageDescriptorV1 \<Rightarrow> MigrationError + ManifestPackageDescriptor" where
  "migrate_entry lockfile iid (CatalogV1 pd) = map_ok migrated_catalog (locked_descriptor catalog_of_locked lockfile iid pd)"
| "migrate_entry lockfile iid (FlakeRefV1 pd) = map_ok migrated_flake (locked_descriptor flake_of_locked lockfile iid pd)"
| "migrate_entry lockfile iid (StorePathV1 s) = Ok (StorePathPkg s)"

lemma map_of_map_filter:
  assumes "distinct (map fst es)"
  shows "map_of (List.map_filter (\<lambda>(k, d). map_option (Pair k) (h k d)) es) k = Option.bind (map_of es k) (h k)"
  using assms
proof (induction es)
  case (Cons e es)
  obtain k' d where e: "e = (k', d)"
    by (cases e)
  have "map_of es k' = None"
    using Cons.prems e by (simp add: map_of_eq_None_iff)
  then show ?case
    using Cons e by (auto split: option.splits)
qed simp

lemma map_filter_keys: "set (map fst (List.map_filter (\<lambda>(k, d). map_option (Pair k) (h k d)) es)) \<subseteq> set (map fst es)"
  by (induction es) (auto split: option.splits)

lemma map_filter_distinct:
  "distinct (map fst es) \<Longrightarrow> distinct (map fst (List.map_filter (\<lambda>(k, d). map_option (Pair k) (h k d)) es))"
proof (induction es)
  case (Cons e es)
  then show ?case
    using map_filter_keys [of h es] by (cases e) (auto split: option.splits)
qed simp

lemma map_of_rev: "distinct (map fst es) \<Longrightarrow> map_of (rev es) = map_of es"
  by (rule map_of_eqI) (auto simp: distinct_rev rev_map [symmetric] simp del: distinct_map)

text \<open>Extending a map by the images of some of the entries of another.\<close>

lemma bm_extend_map_filter:
  assumes "bm_inv m" and "distinct (map fst es)"
  shows "bm_get (bm_extend m (List.map_filter (\<lambda>(k, d). map_option (Pair k) (h k d)) es)) k =
           (case Option.bind (bm_get es k) (h k) of None \<Rightarrow> bm_get m k | Some v \<Rightarrow> Some v)"
  using assms by (simp add: bm_extend_get map_of_rev map_filter_distinct map_of_map_filter)

fun ok_value :: "'e + 'a \<Rightarrow> 'a option" where
  "ok_value (Inr x) = Some x"
| "ok_value (Inl e) = None"

fun catalog_entry :: "Lockfile option \<Rightarrow> string \<Rightarrow> ManifestPackageDescriptorV1 \<Rightarrow> ManifestPackageDescriptor option" where
  "catalog_entry lockfile iid (CatalogV1 pd) = ok_value (migrate_entry lockfile iid (CatalogV1 pd))"
| "catalog_entry lockfile iid _ = None"

fun flake_entry :: "Lockfile option \<Rightarrow> string \<Rightarrow> ManifestPackageDescriptorV1 \<Rightarrow> ManifestPackageDescriptor option" where
  "flake_entry lockfile iid (FlakeRefV1 pd) = ok_value (migrate_entry lockfile iid (FlakeRefV1 pd))"
| "flake_entry lockfile iid _ = None"

fun store_entry :: "string \<Rightarrow> ManifestPackageDescriptorV1 \<Rightarrow> ManifestPackageDescriptor option" where
  "store_entry iid (StorePathV1 s) = Some (StorePathPkg s)"
| "store_entry iid _ = None"

lemma collect_packages_err:
  "collect_packages lockfile c es = Err e \<longleftrightarrow>
     collect_results (\<lambda>(iid, d). map_ok (Pair iid) (migrate_entry lockfile iid d)) es = Err e"
proof (induction es arbitrary: c)
  case (Cons entry es)
  obtain iid d where entry: "entry = (iid, d)"
    by (cases entry)
  show ?case
    by (cases d; simp add: entry collect_one_def)
      (auto simp: result_simps Cons.IH)
qed simp

lemma locked_descriptor_id:
  "locked_descriptor of_locked lockfile iid pd = Ok ld \<Longrightarrow> ld_install_id ld = iid \<and> ld_pd ld = pd"
  by (auto simp: locked_descriptor_def result_simps split: option.splits)

lemma collect_packages_ok:
  assumes "collect_packages lockfile c es = Ok c'"
  shows "map (\<lambda>ld. (ld_install_id ld, migrated_catalog ld)) (coll_catalog c') =
           map (\<lambda>ld. (ld_install_id ld, migrated_catalog ld)) (coll_catalog c) @
           List.map_filter (\<lambda>(k, d). map_option (Pair k) (catalog_entry lockfile k d)) es \<and>
         map (\<lambda>ld. (ld_install_id ld, migrated_flake ld)) (coll_flake c') =
           map (\<lambda>ld. (ld_install_id ld, migrated_flake ld)) (coll_flake c) @
           List.map_filter (\<lambda>(k, d). map_option (Pair k) (flake_entry lockfile k d)) es"
  using assms
proof (induction es arbitrary: c)
  case (Cons entry es)
  obtain iid d where entry: "entry = (iid, d)"
    by (cases entry)
  from Cons.prems obtain c1 where one: "collect_one lockfile c entry = Ok c1"
    and rest: "collect_packages lockfile c1 es = Ok c'"
    by (auto simp: result_simps)
  show ?case
    using one Cons.IH [OF rest]
    by (cases d) (auto simp: entry collect_one_def result_simps dest: locked_descriptor_id)
qed simp

lemma store_entries:
  "List.map_filter (\<lambda>(iid, d). case d of StorePathV1 s \<Rightarrow> Some (iid, StorePathPkg s) | _ \<Rightarrow> None) es =
     List.map_filter (\<lambda>(k, d). map_option (Pair k) (store_entry k d)) es"
  by (rule arg_cong [where f = "\<lambda>f. List.map_filter f es"])
    (auto simp: fun_eq_iff split: ManifestPackageDescriptorV1.splits)

lemma entrywise_keys:
  "collect_results (\<lambda>(k, d). map_ok (Pair k) (f k d)) es = Ok ys \<Longrightarrow> map fst ys = map fst es"
  by (induction es arbitrary: ys) (auto simp: result_simps)

lemma entrywise_get:
  "collect_results (\<lambda>(k, d). map_ok (Pair k) (f k d)) es = Ok ys \<Longrightarrow>
     bm_get ys k = Option.bind (bm_get es k) (\<lambda>d. ok_value (f k d))"
  by (induction es arbitrary: ys) (auto simp: result_simps)

lemma migrate_install_entrywise:
  assumes inv: "bm_inv install"
  shows "migrate_install install lockfile =
           collect_results (\<lambda>(iid, d). map_ok (Pair iid) (migrate_entry lockfile iid d)) install"
    (is "_ = ?entrywise")
proof (cases ?entrywise)
  case (Inl e)
  then show ?thesis
    by (simp add: migrate_install_def collect_locked_packages_by_kind_def collect_packages_err [THEN iffD2])
next
  case (Inr ys)
  then obtain c where c: "collect_packages lockfile \<lparr> coll_catalog = [], coll_flake = [] \<rparr> install = Ok c"
    using collect_packages_err [of lockfile "\<lparr> coll_catalog = [], coll_flake = [] \<rparr>" install]
    by (cases "collect_packages lockfile \<lparr> coll_catalog = [], coll_flake = [] \<rparr> install") auto
  have dist: "distinct (map fst install)"
    using inv by (simp add: bm_inv_def strict_sorted_iff)
  let ?result = "bm_extend (bm_extend (bm_extend []
       (List.map_filter (\<lambda>(k, d). map_option (Pair k) (catalog_entry lockfile k d)) install))
       (List.map_filter (\<lambda>(k, d). map_option (Pair k) (flake_entry lockfile k d)) install))
       (List.map_filter (\<lambda>(k, d). map_option (Pair k) (store_entry k d)) install)"
  have result: "migrate_install install lockfile = Ok ?result"
    using collect_packages_ok [OF c]
    by (simp add: migrate_install_def collect_locked_packages_by_kind_def c store_entries)
  have "bm_get ?result k = bm_get ys k" for k
    using entrywise_get [OF Inr, of k]
    by (cases "bm_get install k"; (cases "the (bm_get install k)")?)
      (simp_all add: bm_extend_map_filter dist split: option.splits)
  moreover have "bm_inv ys"
    using inv entrywise_keys [OF Inr] by (simp add: bm_inv_def)
  ultimately have "?result = ys"
    by (intro bm_eqI) auto
  then show ?thesis
    using result Inr by simp
qed

section \<open>Migrating and going back\<close>

text \<open>
  The manifests a parser returns: the fields that fix the schema have its version, maps are
  sorted, and where the schema has \<open>auto-start\<close>, no service has this name.
\<close>

fun parsed_wf :: "Parsed \<Rightarrow> bool" where
  "parsed_wf (ParsedV1 m) \<longleftrightarrow> m1_version m = 1 \<and> bm_inv (m1_install m)"
| "parsed_wf (ParsedV1_10_0 m) \<longleftrightarrow> m10_schema_version m = ''1.10.0''"
| "parsed_wf (ParsedV1_11_0 m) \<longleftrightarrow> m11_schema_version m = ''1.11.0''"
| "parsed_wf (ParsedV1_12_0 m) \<longleftrightarrow>
     m12_schema_version m = ''1.12.0'' \<and> \<not> bm_contains (svcs_map (m12_services m)) ''auto-start''"
| "parsed_wf (ParsedV1_13_0 m) \<longleftrightarrow> mf_schema_version m = ''1.13.0''"

definition selects_outputs :: "(string, ManifestPackageDescriptor) bmap \<Rightarrow> bool" where
  "selects_outputs install \<longleftrightarrow> (\<exists>e \<in> set install. get_outputs (snd e) \<noteq> None)"

lemma selects_outputs_simps [simp]:
  "\<not> selects_outputs []"
  "selects_outputs (e # install) \<longleftrightarrow> get_outputs (snd e) \<noteq> None \<or> selects_outputs install"
  by (simp_all add: selects_outputs_def)

named_theorems backwards_simps \<open>reading a migrated field with the older schema\<close>

lemma those_map_Some: "(\<And>x. x \<in> set xs \<Longrightarrow> f x = Some (g x)) \<Longrightarrow> those (map f xs) = Some (map g xs)"
  by (induction xs) auto

lemma those_map_None: "x \<in> set xs \<Longrightarrow> f x = None \<Longrightarrow> those (map f xs) = None"
  by (induction xs) (auto split: option.splits)

lemma build_back [backwards_simps]: "entries_as build_as_common (map (\<lambda>(iid, d). (iid, build_from_common d)) b) = Some b"
proof -
  have sandbox: "sandbox_as_common (sandbox_from_common x) = Some x" for x
    by (cases x) simp_all
  have "build_as_common (build_from_common d) = Some d" for d
    by (cases "cbd_sandbox d") (simp_all add: build_as_common_def build_from_common_def optionally_def sandbox)
  then show ?thesis
    unfolding entries_as_def by (subst map_map, subst those_map_Some [where g = "\<lambda>x. x"]) auto
qed

lemma profile_back [backwards_simps]: "optionally profile_as_common (map_option profile_from_common p) = Some p"
  by (cases p) (simp_all add: optionally_def profile_as_common_def profile_from_common_def)

lemma services_back [backwards_simps]: "services_as_map \<lparr> svcs_auto_start = None, svcs_map = s \<rparr> = Some s"
  by (simp add: services_as_map_def)

lemma minimum_back [backwards_simps]:
  "optionally minimum_as_string None = Some None"
  "optionally minimum_as_string (Some (MinVersion v)) = Some (Some v)"
  by (simp_all add: optionally_def minimum_as_string_def)

text \<open>Every schema is read back, but that of version 1 only while no outputs are selected.\<close>

lemma migrated_entry_back:
  assumes "migrate_entry lockfile iid d = Ok d'"
  shows "descriptor_as_v1 d' = (if get_outputs d' = None then Some d else None)"
  using assms
  by (cases d)
    (auto simp: result_simps migrated_catalog_def migrated_flake_def migrated_def Let_def get_outputs_def
      set_outputs_to_all_def split: if_splits dest!: locked_descriptor_id)

lemma entrywise_back:
  assumes "collect_results (\<lambda>(iid, d). map_ok (Pair iid) (migrate_entry lockfile iid d)) es = Ok ys"
  shows "entries_as descriptor_as_v1 ys =
           (if selects_outputs ys then None else Some es)"
  using assms
proof (induction es arbitrary: ys)
  case (Cons e es)
  then show ?case
    by (cases e) (auto simp: result_simps entries_as_def migrated_entry_back split: if_splits)
qed (simp add: entries_as_def)

lemma v1_12_back:
  assumes "migrate_loop semver lockfile (ParsedV1_12_0 m) = Ok m'" and "parsed_wf (ParsedV1_12_0 m)"
  shows "as_v1_12_0 m' = Some m"
  using assms
  by (auto simp: migrate_manifest_v1_12_0_to_v1_13_0_def as_v1_12_0_def backwards_simps services_as_services_def)

lemma v1_11_back:
  assumes "migrate_loop semver lockfile (ParsedV1_11_0 m) = Ok m'" and "parsed_wf (ParsedV1_11_0 m)"
  shows "as_v1_11_0 m' = Some m"
  using assms
  by (auto simp: migrate_manifest_v1_12_0_to_v1_13_0_def migrate_manifest_v1_11_0_to_v1_12_0_def as_v1_11_0_def
      backwards_simps)

lemma v1_10_back:
  assumes "migrate_loop semver lockfile (ParsedV1_10_0 m) = Ok m'" and "parsed_wf (ParsedV1_10_0 m)"
    and "\<forall>s t. semver s = Ok t \<longrightarrow> t = s"
  shows "as_v1_10_0 m' = Some m"
  using assms
  by (auto simp: migrate_manifest_v1_12_0_to_v1_13_0_def migrate_manifest_v1_11_0_to_v1_12_0_def
      migrate_manifest_v1_10_0_to_v1_11_0_def as_v1_10_0_def backwards_simps
      split: option.splits sum.splits)

lemma v1_back:
  assumes "migrate_loop semver lockfile (ParsedV1 m) = Ok m'" and "parsed_wf (ParsedV1 m)"
  shows "as_v1 m' = (if selects_outputs (mf_install m') then None else Some m)"
proof -
  obtain install where "migrate_install (m1_install m) lockfile = Ok install"
    using assms(1) by (auto simp: migrate_manifest_v1_to_v1_10_0_def result_simps split: sum.splits)
  moreover from this have "entries_as descriptor_as_v1 install =
      (if selects_outputs install then None else Some (m1_install m))"
    using assms(2) by (simp add: migrate_install_entrywise entrywise_back)
  ultimately show ?thesis
    using assms
    by (simp add: migrate_manifest_v1_to_v1_10_0_def migrate_manifest_v1_10_0_to_v1_11_0_def
        migrate_manifest_v1_11_0_to_v1_12_0_def migrate_manifest_v1_12_0_to_v1_13_0_def as_v1_def)
      (auto simp: backwards_simps)
qed

section \<open>Installed outputs after a migration\<close>

text \<open>The locked catalog packages of an install id, one per system.\<close>

fun catalog_with_id :: "string \<Rightarrow> LockedPackage \<Rightarrow> LockedPackageCatalog option" where
  "catalog_with_id iid (LockedCatalog l) = (if lpc_install_id l = iid then Some l else None)"
| "catalog_with_id iid _ = None"

lemma catalog_with_id_Some: "catalog_with_id iid p = Some l \<longleftrightarrow> p = LockedCatalog l \<and> lpc_install_id l = iid"
  by (cases p) auto

definition catalog_locked :: "Lockfile \<Rightarrow> string \<Rightarrow> LockedPackageCatalog list" where
  "catalog_locked lockfile iid = List.map_filter (catalog_with_id iid) (lf_packages lockfile)"

lemma in_catalog_locked:
  "l \<in> set (catalog_locked lockfile iid) \<longleftrightarrow> LockedCatalog l \<in> set (lf_packages lockfile) \<and> lpc_install_id l = iid"
  by (auto simp: catalog_locked_def in_map_filter catalog_with_id_Some)

lemma intersect_all_INT: "xs \<noteq> [] \<Longrightarrow> intersect_all f xs = (\<Inter>x \<in> set xs. f x)"
proof -
  have "foldl (\<lambda>acc x. acc \<inter> f x) A ys = A \<inter> (\<Inter>x \<in> set ys. f x)" for A ys
    by (induction ys arbitrary: A) auto
  then show "xs \<noteq> [] \<Longrightarrow> ?thesis"
    by (cases xs) (simp_all add: intersect_all_def)
qed

lemma bm_extend_set: "distinct (map fst kvs) \<Longrightarrow> set (bm_extend [] kvs) = set kvs"
proof -
  assume dist: "distinct (map fst kvs)"
  have "distinct (map fst (bm_extend [] kvs))"
    by (rule bm.entries_distinct) simp
  moreover have "bm_get (bm_extend [] kvs) k = bm_get kvs k" for k
    by (simp add: bm_extend_get map_of_rev [OF dist] split: option.splits)
  ultimately have "(k, v) \<in> set (bm_extend [] kvs) \<longleftrightarrow> (k, v) \<in> set kvs" for k v
    using dist by (metis map_of_eq_Some_iff)
  then show ?thesis
    by auto
qed

lemma collect_catalog:
  "collect_results (catalog_of_locked iid) (filter (\<lambda>p. locked_install_id p = iid) ps) = Ok kvs \<Longrightarrow>
     kvs = map (\<lambda>l. (lpc_system l, l)) (List.map_filter (catalog_with_id iid) ps)"
proof (induction ps arbitrary: kvs)
  case (Cons p ps)
  then show ?case
    by (cases p) (auto simp: catalog_of_locked_def result_simps split: if_splits)
qed simp

lemma locked_descriptor_catalog:
  assumes "locked_descriptor catalog_of_locked (Some lockfile) iid pd = Ok ld" and "l \<in> set (catalog_locked lockfile iid)"
    and "distinct (map lpc_system (catalog_locked lockfile iid))"
  shows "set (bm_values (ld_locked ld)) = set (catalog_locked lockfile iid)"
proof -
  have "filter (\<lambda>p. locked_install_id p = iid) (lf_packages lockfile) \<noteq> []"
    using assms(2) by (force simp: in_catalog_locked filter_empty_conv)
  then have "ld_locked ld = bm_extend [] (map (\<lambda>l. (lpc_system l, l)) (catalog_locked lockfile iid))"
    using assms(1) unfolding catalog_locked_def
    by (auto simp: locked_descriptor_def get_locked_packages_by_install_id_def result_simps Let_def dest!: collect_catalog)
  then show ?thesis
    using assms(3) by (simp add: bm_values_def bm_extend_set comp_def) force
qed

text \<open>What is installed of a catalog package after the migration.\<close>

lemma migrated_installs:
  assumes "migrate_typed_only semver (ParsedV1 m1) (Some lockfile) = Ok m" and "bm_inv (m1_install m1)"
    and "bm_get (m1_install m1) (lpc_install_id l) = Some (CatalogV1 pd)"
    and "LockedCatalog l \<in> set (lf_packages lockfile)"
    and "distinct (map lpc_system (catalog_locked lockfile (lpc_install_id l)))"
  shows "\<exists>entry. package_to_list m (LockedCatalog l) = Ok entry \<and>
           get_installed_outputs entry =
             Ok (if (\<Inter>l' \<in> set (catalog_locked lockfile (lpc_install_id l)). set (bm_keys (lpc_outputs l'))) =
                    (\<Inter>l' \<in> set (catalog_locked lockfile (lpc_install_id l)).
                       set (case lpc_outputs_to_install l' of Some os \<Rightarrow> os | None \<Rightarrow> []))
                 then (case lpc_outputs_to_install l of Some os \<Rightarrow> os | None \<Rightarrow> bm_keys (lpc_outputs l))
                 else bm_keys (lpc_outputs l))"
proof -
  let ?iid = "lpc_install_id l"
  have l: "l \<in> set (catalog_locked lockfile ?iid)"
    using assms(4) by (simp add: in_catalog_locked)
  obtain install where install: "migrate_install (m1_install m1) (Some lockfile) = Ok install" "mf_install m = install"
    using assms(1)
    by (auto simp: migrate_typed_only_def migrate_manifest_v1_to_v1_10_0_def migrate_manifest_v1_10_0_to_v1_11_0_def
        migrate_manifest_v1_11_0_to_v1_12_0_def migrate_manifest_v1_12_0_to_v1_13_0_def result_simps split: sum.splits)
  have "bm_get install ?iid = ok_value (migrate_entry (Some lockfile) ?iid (CatalogV1 pd))"
    using entrywise_get [of "migrate_entry (Some lockfile)" "m1_install m1" install ?iid] install(1) assms(2,3)
    by (simp add: migrate_install_entrywise)
  moreover have "bm_get install ?iid \<noteq> None"
  proof -
    have "map fst install = map fst (m1_install m1)"
      using install(1) assms(2) by (simp add: migrate_install_entrywise entrywise_keys)
    then show ?thesis
      using assms(3) by (simp add: map_of_eq_None_iff) (metis image_eqI fst_conv map_of_SomeD set_map)
  qed
  ultimately obtain ld where ld: "locked_descriptor catalog_of_locked (Some lockfile) ?iid pd = Ok ld"
      "bm_get install ?iid = Some (migrated_catalog ld)"
    by (cases "locked_descriptor catalog_of_locked (Some lockfile) ?iid pd") auto
  have "set (bm_values (ld_locked ld)) = set (catalog_locked lockfile ?iid)"
    using locked_descriptor_catalog [OF ld(1) l assms(5)] .
  moreover have "bm_values (ld_locked ld) \<noteq> []"
    using calculation l by force
  moreover have "ld_locked ld \<noteq> []"
    using calculation(2) by (auto simp: bm_values_def)
  ultimately show ?thesis
    by (simp add: package_to_list_def pkg_descriptor_with_id_def install(2) ld(2) migrated_catalog_def migrated_def
        needs_migration_def output_intersection_def outputs_to_install_intersection_def intersect_all_INT
        set_outputs_to_all_def get_installed_outputs_def select_outputs_def Let_def)
qed

section \<open>A manifest of version 1\<close>

definition demo_v1_manifest :: ManifestV1 where
  "demo_v1_manifest =
     \<lparr> m1_version = 1,
       m1_install = [(''python3'', CatalogV1 \<lparr> pdc1_pkg_path = ''python3'', pdc1_pkg_group = None, pdc1_priority = None,
         pdc1_version = None, pdc1_systems = None \<rparr>)],
       m1_vars = [(''K'', ''v'')], m1_hook = None,
       m1_profile = Some \<lparr> cprof_common = Some ''c'', cprof_bash = None, cprof_zsh = None, cprof_fish = None,
         cprof_tcsh = None \<rparr>,
       m1_options = default_options, m1_services = [],
       m1_build = [(''b'', \<lparr> cbd_command = ''make'', cbd_runtime_packages = None, cbd_sandbox = Some CommonPure,
         cbd_version = None, cbd_description = None, cbd_license = None \<rparr>)],
       m1_containerize = None, m1_include = [] \<rparr>"

definition demo_python :: "system \<Rightarrow> string list \<Rightarrow> LockedPackageCatalog" where
  "demo_python system outputs =
     \<lparr> lpc_attr_path = ''python3'', lpc_broken = None, lpc_derivation = ''drv'', lpc_description = None,
       lpc_install_id = ''python3'', lpc_license = None, lpc_locked_url = ''url'', lpc_name = ''python3'',
       lpc_pname = ''python3'', lpc_rev = ''rev'', lpc_rev_count = 1, lpc_rev_date = 1, lpc_scrape_date = 1,
       lpc_stabilities = None, lpc_unfree = None, lpc_version = ''3'', lpc_outputs_to_install = Some [''out''],
       lpc_outputs = map (\<lambda>output. (output, ''/nix/store/'' @ output)) outputs, lpc_system = system,
       lpc_group = ''toplevel'', lpc_priority = 5 \<rparr>"

definition demo_v1_lockfile :: "string list \<Rightarrow> string list \<Rightarrow> Lockfile" where
  "demo_v1_lockfile linux darwin =
     \<lparr> lf_manifest = default_manifest,
       lf_packages = [LockedCatalog (demo_python ''x86_64-linux'' linux), LockedCatalog (demo_python ''aarch64-darwin'' darwin)],
       lf_compose = None \<rparr>"

lemmas demo_v1_defs = demo_v1_manifest_def demo_v1_lockfile_def demo_python_def

lemma demo_python_simps [simp]:
  "lpc_install_id (demo_python system outputs) = ''python3''"
  "lpc_system (demo_python system outputs) = system"
  "lpc_outputs_to_install (demo_python system outputs) = Some [''out'']"
  "bm_keys (lpc_outputs (demo_python system outputs)) = outputs"
  by (simp_all add: demo_python_def bm_keys_def comp_def)

lemma demo_v1_locked [simp]:
  "catalog_locked (demo_v1_lockfile linux darwin) ''python3'' =
     [demo_python ''x86_64-linux'' linux, demo_python ''aarch64-darwin'' darwin]"
  "lf_packages (demo_v1_lockfile linux darwin) =
     [LockedCatalog (demo_python ''x86_64-linux'' linux), LockedCatalog (demo_python ''aarch64-darwin'' darwin)]"
  by (simp_all add: demo_v1_lockfile_def catalog_locked_def)

lemma demo_v1_install [simp]:
  "bm_get (m1_install demo_v1_manifest) ''python3'' =
     Some (CatalogV1 \<lparr> pdc1_pkg_path = ''python3'', pdc1_pkg_group = None, pdc1_priority = None,
       pdc1_version = None, pdc1_systems = None \<rparr>)"
  "bm_inv (m1_install demo_v1_manifest)"
  by (simp_all add: demo_v1_manifest_def bm_inv_def)

lemma demo_v1_migrates:
  "is_ok (migrate_typed_only Ok (ParsedV1 demo_v1_manifest) (Some (demo_v1_lockfile linux darwin)))"
proof -
  have "bm_inv (m1_install demo_v1_manifest)"
    by (simp add: bm_inv_def demo_v1_manifest_def)
  then have "is_ok (migrate_install (m1_install demo_v1_manifest) (Some (demo_v1_lockfile linux darwin)))"
    by (simp add: migrate_install_entrywise)
      (simp add: demo_v1_defs locked_descriptor_def get_locked_packages_by_install_id_def catalog_of_locked_def)
  then show ?thesis
    by (cases "migrate_install (m1_install demo_v1_manifest) (Some (demo_v1_lockfile linux darwin))")
      (simp_all add: migrate_typed_only_def migrate_manifest_v1_to_v1_10_0_def
        migrate_manifest_v1_10_0_to_v1_11_0_def migrate_manifest_v1_11_0_to_v1_12_0_def
        migrate_manifest_v1_12_0_to_v1_13_0_def demo_v1_manifest_def)
qed

section \<open>Properties\<close>

text \<open>
  C25. Migrating a manifest to the latest schema and writing it back gives the manifest that was
  read: whatever its schema, it is written in that schema as it was, unless the migration had to
  select outputs for a package of a manifest of version 1; only then is it written in the latest
  schema. Parsing a version is assumed to return the text it accepts.
\<close>

theorem migration_is_reversible:
  assumes "parsed_wf p" and "\<forall>s t. semver s = Ok t \<longrightarrow> t = s"
    and "migrate_typed_only semver p lockfile = Ok m"
  shows "as_maybe_backwards_compatible semver m (parsed_schema_version p) lockfile =
           Ok (if parsed_schema_version p = V1 \<and> selects_outputs (mf_install m) then ParsedV1_13_0 m else p)"
proof (cases p)
  case (ParsedV1 x)
  with assms v1_back [of semver lockfile x m] show ?thesis
    by (cases "selects_outputs (mf_install m)")
      (simp_all add: as_maybe_backwards_compatible_def migrate_typed_only_def del: migrate_loop.simps)
next
  case (ParsedV1_10_0 x)
  with assms v1_10_back [of semver lockfile x m] show ?thesis
    by (simp add: as_maybe_backwards_compatible_def migrate_typed_only_def del: migrate_loop.simps)
next
  case (ParsedV1_11_0 x)
  with assms v1_11_back [of semver lockfile x m] show ?thesis
    by (simp add: as_maybe_backwards_compatible_def migrate_typed_only_def del: migrate_loop.simps)
next
  case (ParsedV1_12_0 x)
  with assms v1_12_back [of semver lockfile x m] show ?thesis
    by (simp add: as_maybe_backwards_compatible_def migrate_typed_only_def del: migrate_loop.simps)
next
  case (ParsedV1_13_0 x)
  with assms show ?thesis
    by (simp add: as_maybe_backwards_compatible_def migrate_typed_only_def)
qed

lemma migration_is_reversible_witness:
  "\<exists>m. migrate_typed_only Ok (ParsedV1 demo_v1_manifest) (Some (demo_v1_lockfile [''out''] [''out''])) = Ok m \<and>
     as_maybe_backwards_compatible Ok m V1 (Some (demo_v1_lockfile [''out''] [''out''])) =
       Ok (if selects_outputs (mf_install m) then ParsedV1_13_0 m else ParsedV1 demo_v1_manifest)"
proof -
  obtain m where m: "migrate_typed_only Ok (ParsedV1 demo_v1_manifest) (Some (demo_v1_lockfile [''out''] [''out''])) = Ok m"
    using demo_v1_migrates [of "[''out'']" "[''out'']"]
    by (cases "migrate_typed_only Ok (ParsedV1 demo_v1_manifest) (Some (demo_v1_lockfile [''out''] [''out'']))") auto
  have wf: "parsed_wf (ParsedV1 demo_v1_manifest)"
    by (simp add: demo_v1_manifest_def bm_inv_def)
  show ?thesis
    using migration_is_reversible [OF wf _ m] m by auto
qed

text \<open>
  A manifest of version 1 installs every output of its packages except \<open>stubs\<close>. The migrated
  manifest installs the same outputs of a catalog package that has the same outputs and the same
  default outputs on every system it is locked for.
\<close>

theorem migration_keeps_outputs:
  assumes "migrate_typed_only semver (ParsedV1 m1) (Some lockfile) = Ok m" and "bm_inv (m1_install m1)"
    and "bm_get (m1_install m1) (lpc_install_id l) = Some (CatalogV1 pd)"
    and "LockedCatalog l \<in> set (lf_packages lockfile)"
    and "distinct (map lpc_system (catalog_locked lockfile (lpc_install_id l)))"
    and "\<forall>l' \<in> set (catalog_locked lockfile (lpc_install_id l)).
           bm_keys (lpc_outputs l') = bm_keys (lpc_outputs l) \<and> lpc_outputs_to_install l' = lpc_outputs_to_install l"
    and "''stubs'' \<notin> set (bm_keys (lpc_outputs l))"
  shows "\<exists>entry outputs. package_to_list m (LockedCatalog l) = Ok entry \<and> get_installed_outputs entry = Ok outputs \<and>
           set outputs = set (v1_outputs (LockedCatalog l))"
proof -
  let ?all = "set (catalog_locked lockfile (lpc_install_id l))"
  have "l \<in> ?all"
    using assms(4) by (simp add: in_catalog_locked)
  then have meet: "(\<Inter>l' \<in> ?all. f l') = f l" if "\<forall>l' \<in> ?all. f l' = f l" for f :: "LockedPackageCatalog \<Rightarrow> string set"
    using that by blast
  have "(\<Inter>l' \<in> ?all. set (bm_keys (lpc_outputs l'))) = set (bm_keys (lpc_outputs l))"
    by (rule meet) (metis assms(6))
  moreover have "(\<Inter>l' \<in> ?all. set (case lpc_outputs_to_install l' of Some os \<Rightarrow> os | None \<Rightarrow> [])) =
           set (case lpc_outputs_to_install l of Some os \<Rightarrow> os | None \<Rightarrow> [])"
    by (rule meet) (metis assms(6))
  moreover have "set (v1_outputs (LockedCatalog l)) = set (bm_keys (lpc_outputs l))"
    using assms(7) by (auto simp: v1_outputs_def)
  ultimately show ?thesis
    using migrated_installs [OF assms(1-5)] by (auto split: option.splits if_splits)
qed

lemma migration_keeps_outputs_witness:
  "\<exists>m entry outputs.
     migrate_typed_only Ok (ParsedV1 demo_v1_manifest) (Some (demo_v1_lockfile [''debug'', ''out''] [''debug'', ''out''])) = Ok m \<and>
     package_to_list m (LockedCatalog (demo_python ''x86_64-linux'' [''debug'', ''out''])) = Ok entry \<and>
     get_installed_outputs entry = Ok outputs \<and> set outputs = {''debug'', ''out''}"
proof -
  let ?lock = "demo_v1_lockfile [''debug'', ''out''] [''debug'', ''out'']"
  obtain m where m: "migrate_typed_only Ok (ParsedV1 demo_v1_manifest) (Some ?lock) = Ok m"
    using demo_v1_migrates [of "[''debug'', ''out'']" "[''debug'', ''out'']"]
    by (cases "migrate_typed_only Ok (ParsedV1 demo_v1_manifest) (Some ?lock)") auto
  have "\<exists>entry outputs. package_to_list m (LockedCatalog (demo_python ''x86_64-linux'' [''debug'', ''out''])) = Ok entry \<and>
      get_installed_outputs entry = Ok outputs \<and>
      set outputs = set (v1_outputs (LockedCatalog (demo_python ''x86_64-linux'' [''debug'', ''out''])))"
    by (rule migration_keeps_outputs [where l = "demo_python ''x86_64-linux'' [''debug'', ''out'']", OF m])
      simp_all
  moreover have "set (v1_outputs (LockedCatalog (demo_python ''x86_64-linux'' [''debug'', ''out'']))) = {''debug'', ''out''}"
    by (auto simp: v1_outputs_def demo_python_def bm_keys_def)
  ultimately show ?thesis
    using m by auto
qed

text \<open>
  The migration compares what all systems have in common. When the outputs common to all systems
  are the default outputs common to all systems, an output that only some system has, and that is not
  installed by default, is installed for a manifest of version 1 and is lost by the migration.
\<close>

theorem migration_loses_outputs:
  assumes "migrate_typed_only semver (ParsedV1 m1) (Some lockfile) = Ok m" and "bm_inv (m1_install m1)"
    and "bm_get (m1_install m1) (lpc_install_id l) = Some (CatalogV1 pd)"
    and "LockedCatalog l \<in> set (lf_packages lockfile)"
    and "distinct (map lpc_system (catalog_locked lockfile (lpc_install_id l)))"
    and "(\<Inter>l' \<in> set (catalog_locked lockfile (lpc_install_id l)). set (bm_keys (lpc_outputs l'))) =
         (\<Inter>l' \<in> set (catalog_locked lockfile (lpc_install_id l)).
            set (case lpc_outputs_to_install l' of Some os \<Rightarrow> os | None \<Rightarrow> []))"
    and "lpc_outputs_to_install l = Some defaults"
    and "output \<in> set (bm_keys (lpc_outputs l))" and "output \<notin> set defaults" and "output \<noteq> ''stubs''"
  shows "output \<in> set (v1_outputs (LockedCatalog l)) \<and>
         (\<exists>entry outputs. package_to_list m (LockedCatalog l) = Ok entry \<and> get_installed_outputs entry = Ok outputs \<and>
            output \<notin> set outputs)"
proof
  show "output \<in> set (v1_outputs (LockedCatalog l))"
    using assms(8,10) by (simp add: v1_outputs_def)
  show "\<exists>entry outputs. package_to_list m (LockedCatalog l) = Ok entry \<and> get_installed_outputs entry = Ok outputs \<and>
      output \<notin> set outputs"
    using migrated_installs [OF assms(1-5), unfolded if_P [OF assms(6)]] assms(7,9) by auto
qed

lemma migration_loses_outputs_witness:
  "\<exists>m entry outputs.
     migrate_typed_only Ok (ParsedV1 demo_v1_manifest) (Some (demo_v1_lockfile [''debug'', ''out''] [''out''])) = Ok m \<and>
     ''debug'' \<in> set (v1_outputs (LockedCatalog (demo_python ''x86_64-linux'' [''debug'', ''out'']))) \<and>
     package_to_list m (LockedCatalog (demo_python ''x86_64-linux'' [''debug'', ''out''])) = Ok entry \<and>
     get_installed_outputs entry = Ok outputs \<and> ''debug'' \<notin> set outputs"
proof -
  let ?lock = "demo_v1_lockfile [''debug'', ''out''] [''out'']"
  obtain m where m: "migrate_typed_only Ok (ParsedV1 demo_v1_manifest) (Some ?lock) = Ok m"
    using demo_v1_migrates [of "[''debug'', ''out'']" "[''out'']"]
    by (cases "migrate_typed_only Ok (ParsedV1 demo_v1_manifest) (Some ?lock)") auto
  have "''debug'' \<in> set (v1_outputs (LockedCatalog (demo_python ''x86_64-linux'' [''debug'', ''out'']))) \<and>
      (\<exists>entry outputs. package_to_list m (LockedCatalog (demo_python ''x86_64-linux'' [''debug'', ''out''])) = Ok entry \<and>
        get_installed_outputs entry = Ok outputs \<and> ''debug'' \<notin> set outputs)"
    by (rule migration_loses_outputs [where l = "demo_python ''x86_64-linux'' [''debug'', ''out'']"
          and defaults = "[''out'']", OF m])
      simp_all
  then show ?thesis
    using m by auto
qed

end
