(* ===== verification/Install.thy ===== *)
theory Install
  imports Pkg_Args Migrate "HOL-Library.Multiset"
begin

text \<open>
  Which changes to the manifest \<open>flox install\<close> and \<open>flox uninstall\<close> make
  (\<open>flox-rust-sdk/src/models/environment/install.rs\<close>, \<open>uninstall.rs\<close>) and how they are applied
  (\<open>add_package\<close> and \<open>modify_packages\<close> of \<open>flox-manifest/src/raw/mod.rs\<close>). The typed manifest is
  modelled; bringing the TOML text in line with it is not. The order in which a hash map is walked
  is the parameter \<open>walk\<close>.
\<close>

section \<open>Modifications\<close>

datatype 'u PackageModification =
    Remove
  | UpdateOutputs SelectedOutputs
  | AddPackage "'u PackageToInstall"

record 'u PackageToModify =
  ptm_install_id :: string
  ptm_modification :: "'u PackageModification"

datatype InstallOrUninstallError =
    PackageInManifestNotInLockfile string
  | InvalidOutputForPackage string string
  | PackageOnlyIncluded string string
  | InstallManifestError ManifestError

definition all_outputs :: "LockedPackage \<Rightarrow> string list" where
  "all_outputs p = bm_keys (locked_outputs p)"

section \<open>Installing\<close>

fun merge_requested ::
  "string \<Rightarrow> string list \<Rightarrow> string list \<Rightarrow> bool \<Rightarrow> string list \<Rightarrow> InstallOrUninstallError + (string list \<times> bool)" where
  "merge_requested iid all merged added [] = Ok (merged, added)"
| "merge_requested iid all merged added (output # requested) =
     (if output \<notin> set merged
      then if output \<notin> set all then Err (InvalidOutputForPackage output iid)
           else merge_requested iid all (merged @ [output]) True requested
      else merge_requested iid all merged added requested)"

definition merge_outputs ::
  "string \<Rightarrow> LockedPackage \<Rightarrow> SelectedOutputs option \<Rightarrow> string list
     \<Rightarrow> InstallOrUninstallError + 'u PackageToModify option" where
  "merge_outputs iid locked_pkg current requested =
     (let effective_current =
            (case current of
               Some (Specific os) \<Rightarrow> os
             | _ \<Rightarrow> (case locked_outputs_to_install locked_pkg of Some os \<Rightarrow> os | None \<Rightarrow> []))
      in map_ok (\<lambda>(merged, added).
           if added then Some \<lparr> ptm_install_id = iid, ptm_modification = UpdateOutputs (Specific merged) \<rparr> else None)
           (merge_requested iid (all_outputs locked_pkg) effective_current False requested))"

definition compute_install_modification ::
  "'u PackageToInstall \<Rightarrow> Manifest \<Rightarrow> Lockfile \<Rightarrow> InstallOrUninstallError + 'u PackageToModify option" where
  "compute_install_modification pkg manifest lockfile =
     (let iid = package_id pkg
      in case pkg_descriptor_with_id manifest iid of
           None \<Rightarrow> Ok (Some \<lparr> ptm_install_id = iid, ptm_modification = AddPackage pkg \<rparr>)
         | Some descriptor \<Rightarrow>
             (case package_outputs pkg of
                None \<Rightarrow> Ok None
              | Some requested \<Rightarrow>
                  if get_outputs descriptor = Some AllOutputs then Ok None
                  else (case requested of
                          RawAll \<Rightarrow> Ok (Some \<lparr> ptm_install_id = iid, ptm_modification = UpdateOutputs AllOutputs \<rparr>)
                        | RawSpecific os \<Rightarrow>
                            and_then (ok_or (PackageInManifestNotInLockfile iid) (locked_package_with_id lockfile iid))
                              (\<lambda>locked_pkg. merge_outputs iid locked_pkg (get_outputs descriptor) os))))"

text \<open>\<open>filter_map\<close> with \<open>transpose\<close>: the modifications there are, or the first error.\<close>

definition compute_install_modifications ::
  "'u PackageToInstall list \<Rightarrow> Manifest \<Rightarrow> Lockfile \<Rightarrow> InstallOrUninstallError + 'u PackageToModify list" where
  "compute_install_modifications packages manifest lockfile =
     map_ok (List.map_filter (\<lambda>m. m))
       (collect_results (\<lambda>pkg. compute_install_modification pkg manifest lockfile) packages)"

section \<open>Applying modifications\<close>

definition descriptor_to_add :: "'u url_api \<Rightarrow> 'u PackageToInstall \<Rightarrow> ManifestPackageDescriptor" where
  "descriptor_to_add api pkg =
     (case pkg of
        InstallCatalog raw \<Rightarrow> Catalog
          \<lparr> pdc_pkg_path = cpkg_pkg_path raw,
            pdc_pkg_group = (if is_custom_catalog raw then Some (package_id pkg) else None),
            pdc_priority = None, pdc_version = cpkg_version raw, pdc_systems = cpkg_systems raw,
            pdc_outputs = map_option selected_of_raw (cpkg_outputs raw) \<rparr>
      | InstallFlake raw \<Rightarrow> FlakeRef
          \<lparr> pdf_flake = url_display api (fpkg_url raw), pdf_priority = None, pdf_systems = package_systems pkg,
            pdf_outputs = map_option selected_of_raw (fpkg_outputs raw) \<rparr>
      | InstallStorePath raw \<Rightarrow> StorePathPkg
          \<lparr> pds_store_path = spkg_store_path raw, pds_systems = None, pds_priority = None \<rparr>)"

definition add_package ::
  "'u url_api \<Rightarrow> 'u PackageToInstall \<Rightarrow> (string, ManifestPackageDescriptor) bmap
     \<Rightarrow> (string, ManifestPackageDescriptor) bmap" where
  "add_package api pkg pkg_map = bm_insert (package_id pkg) (descriptor_to_add api pkg) pkg_map"

definition modify_package ::
  "'u url_api \<Rightarrow> 'u PackageToModify \<Rightarrow> (string, ManifestPackageDescriptor) bmap
     \<Rightarrow> ManifestError + (string, ManifestPackageDescriptor) bmap" where
  "modify_package api modification pkg_map =
     (let iid = ptm_install_id modification
      in case ptm_modification modification of
           AddPackage pkg \<Rightarrow> Ok (add_package api pkg pkg_map)
         | Remove \<Rightarrow>
             if bm_contains pkg_map iid then Ok (bm_remove iid pkg_map) else Err (PackageNotFound iid)
         | UpdateOutputs outputs \<Rightarrow>
             map_ok (\<lambda>descriptor. bm_insert iid (set_outputs (Some outputs) descriptor) pkg_map)
               (ok_or (PackageNotFound iid) (bm_get pkg_map iid)))"

fun modify_all ::
  "'u url_api \<Rightarrow> 'u PackageToModify list \<Rightarrow> (string, ManifestPackageDescriptor) bmap
     \<Rightarrow> ManifestError + (string, ManifestPackageDescriptor) bmap" where
  "modify_all api [] pkg_map = Ok pkg_map"
| "modify_all api (m # ms) pkg_map = and_then (modify_package api m pkg_map) (modify_all api ms)"

definition modify_packages :: "'u url_api \<Rightarrow> Manifest \<Rightarrow> 'u PackageToModify list \<Rightarrow> ManifestError + Manifest" where
  "modify_packages api manifest modifications =
     map_ok (\<lambda>install. manifest\<lparr> mf_install := install \<rparr>) (modify_all api modifications (mf_install manifest))"

section \<open>Uninstalling\<close>

fun accumulate_outputs :: "RawSelectedOutputs \<Rightarrow> RawSelectedOutputs \<Rightarrow> RawSelectedOutputs" where
  "accumulate_outputs (RawSpecific items_acc) (RawSpecific items) = RawSpecific (items_acc @ items)"
| "accumulate_outputs _ _ = RawAll"

type_synonym removals = "(string, RawSelectedOutputs) bmap"

definition resolve_spec :: "Manifest \<Rightarrow> Lockfile \<Rightarrow> UninstallSpec \<Rightarrow> InstallOrUninstallError + string" where
  "resolve_spec manifest lockfile spec =
     (case resolve_install_id manifest (us_package_ref spec) (us_version spec) of
        Inr iid \<Rightarrow> Ok iid
      | Inl (PackageNotFound pkg) \<Rightarrow>
          (case lf_compose lockfile of
             None \<Rightarrow> Err (InstallManifestError (PackageNotFound pkg))
           | Some c \<Rightarrow>
               (case get_include_for_package c pkg (us_version spec) of
                  Inl e \<Rightarrow> Err (InstallManifestError e)
                | Inr (Some i) \<Rightarrow> Err (PackageOnlyIncluded pkg (linc_name i))
                | Inr None \<Rightarrow> Err (InstallManifestError (PackageNotFound pkg))))
      | Inl e \<Rightarrow> Err (InstallManifestError e))"

definition record_removal_of :: "UninstallSpec \<Rightarrow> string \<Rightarrow> removals \<Rightarrow> removals" where
  "record_removal_of spec iid removals =
     (let outputs = (case us_outputs spec of Some os \<Rightarrow> os | None \<Rightarrow> RawAll)
      in bm_insert iid (case bm_get removals iid of Some acc \<Rightarrow> accumulate_outputs acc outputs | None \<Rightarrow> outputs) removals)"

fun collect_removals ::
  "Manifest \<Rightarrow> Lockfile \<Rightarrow> removals \<Rightarrow> UninstallSpec list \<Rightarrow> InstallOrUninstallError + removals" where
  "collect_removals manifest lockfile removals [] = Ok removals"
| "collect_removals manifest lockfile removals (spec # specs) =
     and_then (resolve_spec manifest lockfile spec) (\<lambda>iid.
       collect_removals manifest lockfile (record_removal_of spec iid removals) specs)"

definition modification_for_outputs ::
  "RawSelectedOutputs \<Rightarrow> SelectedOutputs option \<Rightarrow> string list \<Rightarrow> string list \<Rightarrow> 'u PackageModification" where
  "modification_for_outputs outputs_to_remove current_outputs to_install all =
     (let manifest_outputs =
            (case current_outputs of Some AllOutputs \<Rightarrow> all | Some (Specific os) \<Rightarrow> os | None \<Rightarrow> to_install);
          remaining_outputs =
            (case outputs_to_remove of
               RawAll \<Rightarrow> [] | RawSpecific to_remove \<Rightarrow> filter (\<lambda>o'. o' \<notin> set to_remove) manifest_outputs)
      in if remaining_outputs = [] then Remove else UpdateOutputs (Specific remaining_outputs))"

definition compute_uninstall_modification ::
  "Manifest \<Rightarrow> Lockfile \<Rightarrow> string \<times> RawSelectedOutputs \<Rightarrow> InstallOrUninstallError + 'u PackageToModify" where
  "compute_uninstall_modification manifest lockfile removal =
     (case removal of (iid, outputs_to_uninstall) \<Rightarrow>
        let current_outputs = Option.bind (pkg_descriptor_with_id manifest iid) get_outputs
        in and_then (ok_or (PackageInManifestNotInLockfile iid) (locked_package_with_id lockfile iid)) (\<lambda>locked_pkg.
             let all = all_outputs locked_pkg;
                 invalid = (case outputs_to_uninstall of
                              RawSpecific outputs \<Rightarrow> find (\<lambda>output. output \<notin> set all) outputs | RawAll \<Rightarrow> None);
                 to_install = (case locked_outputs_to_install locked_pkg of Some os \<Rightarrow> os | None \<Rightarrow> all)
             in case invalid of
                  Some output \<Rightarrow> Err (InvalidOutputForPackage output iid)
                | None \<Rightarrow> Ok \<lparr> ptm_install_id = iid,
                    ptm_modification = modification_for_outputs outputs_to_uninstall current_outputs to_install all \<rparr>))"

definition compute_uninstall_modifications ::
  "(string \<times> RawSelectedOutputs) list \<Rightarrow> Manifest \<Rightarrow> Lockfile \<Rightarrow> InstallOrUninstallError + 'u PackageToModify list" where
  "compute_uninstall_modifications removals manifest lockfile =
     collect_results (compute_uninstall_modification manifest lockfile) removals"

definition resolve_specs_to_modifications ::
  "(removals \<Rightarrow> (string \<times> RawSelectedOutputs) list) \<Rightarrow> UninstallSpec list \<Rightarrow> Manifest \<Rightarrow> Lockfile
     \<Rightarrow> InstallOrUninstallError + 'u PackageToModify list" where
  "resolve_specs_to_modifications walk specs manifest lockfile =
     and_then (collect_removals manifest lockfile [] specs) (\<lambda>removals.
       compute_uninstall_modifications (walk removals) manifest lockfile)"

section \<open>The effect of modifications\<close>

fun modification_effect ::
  "'u url_api \<Rightarrow> 'u PackageModification \<Rightarrow> ManifestPackageDescriptor option \<Rightarrow> ManifestPackageDescriptor option" where
  "modification_effect api (AddPackage pkg) d = Some (descriptor_to_add api pkg)"
| "modification_effect api Remove d = None"
| "modification_effect api (UpdateOutputs outputs) d = map_option (set_outputs (Some outputs)) d"

text \<open>An addition is for its own id, anything else for an id of the manifest.\<close>

definition applicable :: "(string, ManifestPackageDescriptor) bmap \<Rightarrow> 'u PackageToModify \<Rightarrow> bool" where
  "applicable pkg_map m \<longleftrightarrow>
     (case ptm_modification m of
        AddPackage pkg \<Rightarrow> package_id pkg = ptm_install_id m
      | _ \<Rightarrow> bm_contains pkg_map (ptm_install_id m))"

lemma modify_package_effect:
  assumes "bm_inv pkg_map" and "applicable pkg_map m"
  shows "\<exists>pkg_map'. modify_package api m pkg_map = Ok pkg_map' \<and> bm_inv pkg_map' \<and>
    (\<forall>k. bm_get pkg_map' k = (if k = ptm_install_id m then modification_effect api (ptm_modification m) (bm_get pkg_map k)
       else bm_get pkg_map k))"
  using assms
  by (auto simp: modify_package_def applicable_def add_package_def bm_contains_def Let_def bm_inv_insert bm_inv_remove
      bm_get_insert bm_get_remove split: PackageModification.splits)

lemma modify_all_effects:
  assumes "bm_inv pkg_map" and "distinct (map ptm_install_id ms)" and "\<forall>m \<in> set ms. applicable pkg_map m"
  shows "\<exists>pkg_map'. modify_all api ms pkg_map = Ok pkg_map' \<and> bm_inv pkg_map' \<and>
    (\<forall>m \<in> set ms. bm_get pkg_map' (ptm_install_id m) =
       modification_effect api (ptm_modification m) (bm_get pkg_map (ptm_install_id m))) \<and>
    (\<forall>k. k \<notin> ptm_install_id ` set ms \<longrightarrow> bm_get pkg_map' k = bm_get pkg_map k)"
  using assms
proof (induction ms arbitrary: pkg_map)
  case (Cons m ms)
  obtain pm where pm: "modify_package api m pkg_map = Ok pm" "bm_inv pm"
    "\<forall>k. bm_get pm k = (if k = ptm_install_id m then modification_effect api (ptm_modification m) (bm_get pkg_map k)
       else bm_get pkg_map k)"
    using modify_package_effect [of pkg_map m api] Cons.prems by auto
  have new: "ptm_install_id m \<notin> ptm_install_id ` set ms"
    using Cons.prems(2) by simp
  have "applicable pm x" if "x \<in> set ms" for x
  proof -
    have "ptm_install_id x \<noteq> ptm_install_id m"
      using that new by (metis imageI)
    then show ?thesis
      using pm(3) that Cons.prems(3)
      by (auto simp: applicable_def bm_contains_def split: PackageModification.splits)
  qed
  then obtain pm' where pm': "modify_all api ms pm = Ok pm'" "bm_inv pm'"
    "\<forall>x \<in> set ms. bm_get pm' (ptm_install_id x) = modification_effect api (ptm_modification x) (bm_get pm (ptm_install_id x))"
    "\<forall>k. k \<notin> ptm_install_id ` set ms \<longrightarrow> bm_get pm' k = bm_get pm k"
    using Cons.IH [OF pm(2)] Cons.prems(2) by auto
  have "bm_get pm' (ptm_install_id x) = modification_effect api (ptm_modification x) (bm_get pkg_map (ptm_install_id x))"
    if "x \<in> set (m # ms)" for x
    using that new pm(3) pm'(3,4) by (metis imageI set_ConsD)
  moreover have "bm_get pm' k = bm_get pkg_map k" if "k \<notin> ptm_install_id ` set (m # ms)" for k
    using that pm(3) pm'(4) by simp
  ultimately show ?case
    using pm(1) pm'(1,2) by simp
qed simp

section \<open>What is installed\<close>

text \<open>The outputs of a locked package that a selection in the manifest stands for.\<close>

definition effective_outputs :: "SelectedOutputs option \<Rightarrow> LockedPackage \<Rightarrow> string list" where
  "effective_outputs selected locked =
     (case selected of
        Some AllOutputs \<Rightarrow> all_outputs locked
      | Some (Specific os) \<Rightarrow> os
      | None \<Rightarrow> (case locked_outputs_to_install locked of Some os \<Rightarrow> os | None \<Rightarrow> all_outputs locked))"

definition requested_outputs :: "'u PackageToInstall \<Rightarrow> LockedPackage \<Rightarrow> string list" where
  "requested_outputs pkg locked =
     (case package_outputs pkg of
        None \<Rightarrow> [] | Some RawAll \<Rightarrow> all_outputs locked | Some (RawSpecific os) \<Rightarrow> os)"

text \<open>A selection that a build accepts is a selection of these outputs.\<close>

lemma effective_outputs_installed:
  assumes "get_installed_outputs entry = Ok os"
  shows "(\<forall>d l. entry = ListCatalog d l \<longrightarrow> os = effective_outputs (pdc_outputs d) (LockedCatalog l)) \<and>
    (\<forall>d l. entry = ListFlake d l \<longrightarrow> os = effective_outputs (pdf_outputs d) (LockedFlake l))"
  using assms
  by (auto simp: get_installed_outputs_def select_outputs_def effective_outputs_def all_outputs_def Let_def
      split: option.splits SelectedOutputs.splits if_splits)

lemma merge_requested_result:
  "merge_requested iid all merged added os = Ok (merged', added') \<Longrightarrow>
     set merged' = set merged \<union> set os \<and> (added' \<longleftrightarrow> added \<or> \<not> set os \<subseteq> set merged)"
  by (induction iid all merged added os rule: merge_requested.induct) (auto split: if_splits)

lemma merge_requested_valid:
  "merge_requested iid all merged added os = Ok r \<Longrightarrow> set os \<subseteq> set merged \<union> set all"
  by (induction iid all merged added os rule: merge_requested.induct) (auto split: if_splits)

lemma merge_requested_covered:
  "set os \<subseteq> set merged \<Longrightarrow> merge_requested iid all merged added os = Ok (merged, added)"
  by (induction iid all merged added os rule: merge_requested.induct) auto

text \<open>Every modification of an installation is for the id of its package.\<close>

lemma install_modification_id:
  "compute_install_modification pkg manifest lockfile = Ok (Some m) \<Longrightarrow> ptm_install_id m = package_id pkg"
  by (auto simp: compute_install_modification_def merge_outputs_def Let_def result_simps
      split: option.splits RawSelectedOutputs.splits if_splits)

lemma install_modification_applicable:
  "compute_install_modification pkg manifest lockfile = Ok (Some m) \<Longrightarrow> applicable (mf_install manifest) m"
  by (auto simp: compute_install_modification_def merge_outputs_def applicable_def pkg_descriptor_with_id_def
      bm_contains_def Let_def result_simps split: option.splits RawSelectedOutputs.splits if_splits)

lemma install_modifications_ids:
  assumes "collect_results (\<lambda>pkg. compute_install_modification pkg manifest lockfile) packages = Ok os"
    and "distinct (map package_id packages)"
  shows "distinct (map ptm_install_id (List.map_filter (\<lambda>m. m) os)) \<and>
    set (List.map_filter (\<lambda>m. m) os) =
      {m. \<exists>pkg \<in> set packages. compute_install_modification pkg manifest lockfile = Ok (Some m)}"
  using assms
proof (induction packages arbitrary: os)
  case (Cons pkg packages)
  then obtain r os' where r: "compute_install_modification pkg manifest lockfile = Ok r" "os = r # os'"
      "collect_results (\<lambda>pkg. compute_install_modification pkg manifest lockfile) packages = Ok os'"
    by (auto simp: result_simps)
  have IH: "distinct (map ptm_install_id (List.map_filter (\<lambda>m. m) os'))"
    "set (List.map_filter (\<lambda>m. m) os') =
       {m. \<exists>pkg \<in> set packages. compute_install_modification pkg manifest lockfile = Ok (Some m)}"
    using Cons.IH [OF r(3)] Cons.prems(2) by simp_all
  show ?case
  proof (cases r)
    case (Some m)
    then have "ptm_install_id m \<notin> ptm_install_id ` set (List.map_filter (\<lambda>m. m) os')"
    proof -
      have "package_id pkg \<noteq> ptm_install_id m'" if "m' \<in> set (List.map_filter (\<lambda>m. m) os')" for m'
      proof -
        obtain pkg' where "pkg' \<in> set packages" "compute_install_modification pkg' manifest lockfile = Ok (Some m')"
          using \<open>m' \<in> _\<close> unfolding IH(2) by blast
        then show ?thesis
          using Cons.prems(2) install_modification_id [of pkg' manifest lockfile m'] by (metis distinct.simps(2) image_eqI list.set_map
              list.simps(9))
      qed
      then show ?thesis
        using Some r(1) install_modification_id [of pkg manifest lockfile m] by fastforce
    qed
    then show ?thesis
      using Some r IH by auto
  qed (use r IH in auto)
qed simp

lemma get_set_outputs: "(\<forall>s. d \<noteq> StorePathPkg s) \<Longrightarrow> get_outputs (set_outputs outputs d) = outputs"
  by (cases d) (simp_all add: get_outputs_def set_outputs_def)

lemma set_outputs_store_path: "(\<forall>s. set_outputs outputs d \<noteq> StorePathPkg s) \<longleftrightarrow> (\<forall>s. d \<noteq> StorePathPkg s)"
  by (cases d) (simp_all add: set_outputs_def)

text \<open>The descriptor an installation leaves for a package of the manifest.\<close>

definition descriptor_after :: "ManifestPackageDescriptor \<Rightarrow> 'u PackageToModify option \<Rightarrow> ManifestPackageDescriptor" where
  "descriptor_after d m =
     (case Option.bind m (\<lambda>x. case ptm_modification x of UpdateOutputs os \<Rightarrow> Some os | _ \<Rightarrow> None) of
        Some outputs \<Rightarrow> set_outputs (Some outputs) d | None \<Rightarrow> d)"

lemma install_modification_updates:
  assumes "compute_install_modification pkg manifest lockfile = Ok (Some m)"
    and "bm_get (mf_install manifest) (package_id pkg) = Some d"
  shows "modification_effect api (ptm_modification m) (Some d) = Some (descriptor_after d (Some m))"
  using assms
  by (auto simp: compute_install_modification_def merge_outputs_def pkg_descriptor_with_id_def descriptor_after_def
      Let_def result_simps split: option.splits RawSelectedOutputs.splits if_splits)

lemma install_one_outputs:
  assumes "compute_install_modification pkg manifest lockfile = Ok r"
    and "bm_get (mf_install manifest) (package_id pkg) = Some d" and "\<forall>s. d \<noteq> StorePathPkg s"
    and "locked_package_with_id lockfile (package_id pkg) = Some locked"
    and "locked_outputs_to_install locked \<noteq> None"
    and "set (effective_outputs (get_outputs d) locked) \<subseteq> set (all_outputs locked)"
  shows "set (effective_outputs (get_outputs (descriptor_after d r)) locked) =
           set (effective_outputs (get_outputs d) locked) \<union> (set (requested_outputs pkg locked) \<inter> set (all_outputs locked))"
proof (cases "package_outputs pkg")
  case None
  then have "r = None"
    using assms(1,2) by (simp add: compute_install_modification_def pkg_descriptor_with_id_def)
  then show ?thesis
    using None by (simp add: descriptor_after_def requested_outputs_def)
next
  case (Some requested)
  show ?thesis
  proof (cases "get_outputs d = Some AllOutputs")
    case True
    then have "r = None"
      using assms(1,2) Some by (simp add: compute_install_modification_def pkg_descriptor_with_id_def)
    then show ?thesis
      using True by (auto simp: descriptor_after_def effective_outputs_def)
  next
    case False
    show ?thesis
    proof (cases requested)
      case RawAll
      then show ?thesis
        using assms(1-3,6) Some False
        by (auto simp: compute_install_modification_def pkg_descriptor_with_id_def descriptor_after_def get_set_outputs
            requested_outputs_def effective_outputs_def [of "Some AllOutputs"])
    next
      case (RawSpecific os)
      let ?current = "effective_outputs (get_outputs d) locked"
      have current: "?current = (case get_outputs d of Some (Specific os) \<Rightarrow> os
          | _ \<Rightarrow> (case locked_outputs_to_install locked of Some os \<Rightarrow> os | None \<Rightarrow> []))"
        using False assms(5) by (auto simp: effective_outputs_def split: option.splits SelectedOutputs.splits)
      obtain merged added where m: "merge_requested (package_id pkg) (all_outputs locked) ?current False os = Ok (merged, added)"
        "r = (if added then Some \<lparr> ptm_install_id = package_id pkg, ptm_modification = UpdateOutputs (Specific merged) \<rparr> else None)"
        using assms(1,2,4) Some False RawSpecific
        by (auto simp: compute_install_modification_def pkg_descriptor_with_id_def merge_outputs_def Let_def current
            result_simps)
      have valid: "set os \<inter> set (all_outputs locked) = set os"
        using merge_requested_valid [OF m(1)] assms(6) by auto
      show ?thesis
      proof (cases added)
        case True
        then have "get_outputs (descriptor_after d r) = Some (Specific merged)"
          using m(2) assms(3) by (simp add: descriptor_after_def get_set_outputs)
        then show ?thesis
          using merge_requested_result [OF m(1)] Some RawSpecific
          by (simp add: effective_outputs_def [of "Some (Specific _)"] requested_outputs_def valid)
      next
        case False
        then show ?thesis
          using merge_requested_result [OF m(1)] m(2) Some RawSpecific valid
          by (auto simp: descriptor_after_def requested_outputs_def)
      qed
    qed
  qed
qed

text \<open>The install table an installation leaves.\<close>

lemma install_result:
  assumes "bm_inv (mf_install manifest)" and "distinct (map package_id packages)"
    and "compute_install_modifications packages manifest lockfile = Ok modifications"
  shows "\<exists>install'. modify_all api modifications (mf_install manifest) = Ok install' \<and> bm_inv install' \<and>
    (\<forall>pkg \<in> set packages. \<exists>r. compute_install_modification pkg manifest lockfile = Ok r \<and>
       bm_get install' (package_id pkg) =
         (case bm_get (mf_install manifest) (package_id pkg) of
            None \<Rightarrow> Some (descriptor_to_add api pkg) | Some d \<Rightarrow> Some (descriptor_after d r))) \<and>
    (\<forall>k. k \<notin> package_id ` set packages \<longrightarrow> bm_get install' k = bm_get (mf_install manifest) k)"
proof -
  let ?compute = "\<lambda>pkg. compute_install_modification pkg manifest lockfile"
  obtain rs where rs: "collect_results ?compute packages = Ok rs" "modifications = List.map_filter (\<lambda>m. m) rs"
    using assms(3) by (auto simp: compute_install_modifications_def result_simps)
  note ids = install_modifications_ids [OF rs(1) assms(2), folded rs(2)]
  have in_mods: "m \<in> set modifications \<longleftrightarrow> (\<exists>pkg \<in> set packages. ?compute pkg = Ok (Some m))" for m
    using ids by auto
  have "\<forall>m \<in> set modifications. applicable (mf_install manifest) m"
    using in_mods install_modification_applicable by blast
  then obtain install' where install': "modify_all api modifications (mf_install manifest) = Ok install'" "bm_inv install'"
    "\<forall>m \<in> set modifications. bm_get install' (ptm_install_id m) =
       modification_effect api (ptm_modification m) (bm_get (mf_install manifest) (ptm_install_id m))"
    "\<forall>k. k \<notin> ptm_install_id ` set modifications \<longrightarrow> bm_get install' k = bm_get (mf_install manifest) k"
    using modify_all_effects [OF assms(1)] ids by blast
  have unmodified: "package_id pkg \<notin> ptm_install_id ` set modifications"
    if "pkg \<in> set packages" "?compute pkg = Ok None" for pkg
  proof
    assume "package_id pkg \<in> ptm_install_id ` set modifications"
    then obtain pkg' m where pkg': "pkg' \<in> set packages" "?compute pkg' = Ok (Some m)" "package_id pkg = ptm_install_id m"
      using in_mods by auto
    moreover have "package_id pkg' = package_id pkg"
      using pkg'(2,3) install_modification_id [of pkg'] by simp
    then have "pkg' = pkg"
      using assms(2) that(1) pkg'(1) by (simp add: distinct_map inj_on_def)
    ultimately show False
      using that(2) by simp
  qed
  have "\<exists>r. ?compute pkg = Ok r \<and> bm_get install' (package_id pkg) =
      (case bm_get (mf_install manifest) (package_id pkg) of
         None \<Rightarrow> Some (descriptor_to_add api pkg) | Some d \<Rightarrow> Some (descriptor_after d r))"
    if pkg: "pkg \<in> set packages" for pkg
  proof -
    obtain r where r: "?compute pkg = Ok r"
      using collect_results_each [OF rs(1) pkg] by blast
    have new: "r = Some \<lparr> ptm_install_id = package_id pkg, ptm_modification = AddPackage pkg \<rparr>"
      if "bm_get (mf_install manifest) (package_id pkg) = None"
      using r that by (simp add: compute_install_modification_def pkg_descriptor_with_id_def Let_def)
    show ?thesis
    proof (cases r)
      case None
      then show ?thesis
        using r install'(4) unmodified [OF pkg] new by (auto simp: descriptor_after_def split: option.splits)
    next
      case (Some m)
      then have "m \<in> set modifications" and "ptm_install_id m = package_id pkg"
        using r pkg in_mods install_modification_id [of pkg manifest lockfile m] by blast+
      then have "bm_get install' (package_id pkg) =
          modification_effect api (ptm_modification m) (bm_get (mf_install manifest) (package_id pkg))"
        using install'(3) by metis
      then show ?thesis
        using r Some new install_modification_updates [of pkg manifest lockfile m _ api]
        by (auto split: option.splits)
    qed
  qed
  moreover have "bm_get install' k = bm_get (mf_install manifest) k" if "k \<notin> package_id ` set packages" for k
  proof -
    have "k \<notin> ptm_install_id ` set modifications"
      using that in_mods install_modification_id by blast
    then show ?thesis
      using install'(4) by blast
  qed
  ultimately show ?thesis
    using install'(1,2) by blast
qed

text \<open>A package whose requested outputs are selected needs no modification.\<close>

definition selects_requested :: "'u PackageToInstall \<Rightarrow> SelectedOutputs option \<Rightarrow> bool" where
  "selects_requested pkg selected \<longleftrightarrow>
     (case package_outputs pkg of
        None \<Rightarrow> True
      | Some RawAll \<Rightarrow> selected = Some AllOutputs
      | Some (RawSpecific os) \<Rightarrow> selected = Some AllOutputs \<or> (\<exists>cur. selected = Some (Specific cur) \<and> set os \<subseteq> set cur))"

lemma no_modification_needed:
  assumes "bm_get (mf_install manifest) (package_id pkg) = Some d" and "selects_requested pkg (get_outputs d)"
    and "locked_package_with_id lockfile (package_id pkg) \<noteq> None"
  shows "compute_install_modification pkg manifest lockfile = Ok None"
  using assms
  by (auto simp: compute_install_modification_def pkg_descriptor_with_id_def selects_requested_def merge_outputs_def
      merge_requested_covered Let_def split: option.splits RawSelectedOutputs.splits)

lemma added_selects_requested: "selects_requested pkg (get_outputs (descriptor_to_add api pkg))"
  by (cases pkg) (auto simp: selects_requested_def get_outputs_def descriptor_to_add_def split: option.splits
      RawSelectedOutputs.splits)

lemma updated_selects_requested:
  assumes "compute_install_modification pkg manifest lockfile = Ok (Some m)"
    and "bm_get (mf_install manifest) (package_id pkg) = Some d" and "\<forall>s. d \<noteq> StorePathPkg s"
  shows "selects_requested pkg (get_outputs (descriptor_after d (Some m)))"
proof -
  obtain requested where requested: "package_outputs pkg = Some requested"
    using assms(1,2) by (cases "package_outputs pkg") (simp_all add: compute_install_modification_def pkg_descriptor_with_id_def)
  show ?thesis
  proof (cases requested)
    case RawAll
    then show ?thesis
      using assms requested
      by (auto simp: compute_install_modification_def pkg_descriptor_with_id_def descriptor_after_def get_set_outputs
          selects_requested_def Let_def split: if_splits)
  next
    case (RawSpecific os)
    then obtain all cur merged where "merge_requested (package_id pkg) all cur False os = Ok (merged, True)"
      "m = \<lparr> ptm_install_id = package_id pkg, ptm_modification = UpdateOutputs (Specific merged) \<rparr>"
      using assms(1,2) requested
      by (auto simp: compute_install_modification_def pkg_descriptor_with_id_def merge_outputs_def Let_def result_simps
          split: if_splits)
    then show ?thesis
      using merge_requested_result requested RawSpecific assms(3)
      by (fastforce simp: descriptor_after_def get_set_outputs selects_requested_def)
  qed
qed

text \<open>The result depends on the entry and the locked package of the id only.\<close>

lemma install_modification_cong:
  assumes "compute_install_modification pkg manifest lockfile = Ok r"
    and "bm_get (mf_install manifest) (package_id pkg) = Some d"
    and "bm_get (mf_install manifest') (package_id pkg) = Some d"
    and "locked_package_with_id lockfile (package_id pkg) = None \<or>
      locked_package_with_id lockfile' (package_id pkg) = locked_package_with_id lockfile (package_id pkg)"
  shows "compute_install_modification pkg manifest' lockfile' = Ok r"
  using assms
  by (auto simp: compute_install_modification_def pkg_descriptor_with_id_def Let_def result_simps
      split: option.splits RawSelectedOutputs.splits)

section \<open>What is uninstalled\<close>

lemma list_all2_each:
  "list_all2 R xs ys \<Longrightarrow> (\<And>x y. x \<in> set xs \<Longrightarrow> R x y \<Longrightarrow> f y = g x \<and> P y) \<Longrightarrow>
     map f ys = map g xs \<and> (\<forall>y \<in> set ys. P y)"
  by (induction rule: list_all2_induct) auto

text \<open>All outputs that the specifications of a package ask to remove.\<close>

definition removed_outputs :: "Manifest \<Rightarrow> UninstallSpec list \<Rightarrow> string \<Rightarrow> RawSelectedOutputs" where
  "removed_outputs manifest specs iid =
     (let mine = filter (\<lambda>spec. resolve_install_id manifest (us_package_ref spec) (us_version spec) = Ok iid) specs
      in if \<exists>spec \<in> set mine. us_outputs spec = None \<or> us_outputs spec = Some RawAll then RawAll
         else RawSpecific (concat (map (\<lambda>spec. case us_outputs spec of Some (RawSpecific os) \<Rightarrow> os | _ \<Rightarrow> []) mine)))"

lemma resolve_spec_Ok:
  "resolve_spec manifest lockfile spec = Ok iid \<longleftrightarrow>
     resolve_install_id manifest (us_package_ref spec) (us_version spec) = Ok iid"
  by (auto simp: resolve_spec_def split: sum.splits ManifestError.splits option.splits)

lemma collect_removals_append:
  "collect_removals manifest lockfile removals (xs @ ys) =
     and_then (collect_removals manifest lockfile removals xs) (\<lambda>r. collect_removals manifest lockfile r ys)"
  by (induction xs arbitrary: removals) (simp_all add: and_then_assoc)

lemma collect_removals_get:
  assumes "collect_removals manifest lockfile [] specs = Ok removals"
  shows "bm_inv removals \<and>
    (\<forall>iid. bm_get removals iid =
       (if \<exists>spec \<in> set specs. resolve_install_id manifest (us_package_ref spec) (us_version spec) = Ok iid
        then Some (removed_outputs manifest specs iid) else None))"
  using assms
proof (induction specs arbitrary: removals rule: rev_induct)
  case (snoc spec specs)
  then obtain removals0 iid0 where r0: "collect_removals manifest lockfile [] specs = Ok removals0"
      "resolve_install_id manifest (us_package_ref spec) (us_version spec) = Ok iid0"
      "removals = record_removal_of spec iid0 removals0"
    by (auto simp: collect_removals_append result_simps resolve_spec_Ok)
  note IH = snoc.IH [OF r0(1)]
  have inv: "bm_inv removals"
    using IH r0(3) by (simp add: record_removal_of_def Let_def bm_inv_insert)
  have other: "removed_outputs manifest (specs @ [spec]) iid = removed_outputs manifest specs iid" if "iid \<noteq> iid0" for iid
    using that r0(2) by (simp add: removed_outputs_def)
  let ?outputs = "case us_outputs spec of Some os \<Rightarrow> os | None \<Rightarrow> RawAll"
  have same: "removed_outputs manifest (specs @ [spec]) iid0 = accumulate_outputs (removed_outputs manifest specs iid0) ?outputs"
    using r0(2) by (auto simp: removed_outputs_def Let_def split: option.splits RawSelectedOutputs.splits)
  have first: "accumulate_outputs (removed_outputs manifest specs iid0) ?outputs = ?outputs"
    if "\<not> (\<exists>spec \<in> set specs. resolve_install_id manifest (us_package_ref spec) (us_version spec) = Ok iid0)"
  proof -
    have "filter (\<lambda>spec. resolve_install_id manifest (us_package_ref spec) (us_version spec) = Ok iid0) specs = []"
      using that by (simp add: filter_empty_conv)
    then show ?thesis
      by (auto simp: removed_outputs_def split: option.splits) (metis RawSelectedOutputs.exhaust accumulate_outputs.simps append_Nil)
  qed
  have "bm_get removals iid =
      (if \<exists>s \<in> set (specs @ [spec]). resolve_install_id manifest (us_package_ref s) (us_version s) = Ok iid
       then Some (removed_outputs manifest (specs @ [spec]) iid) else None)" for iid
  proof (cases "iid = iid0")
    case True
    then show ?thesis
      using IH r0(2,3) same first by (auto simp: record_removal_of_def Let_def bm_get_insert)
  next
    case False
    then show ?thesis
      using IH r0(2,3) other by (auto simp: record_removal_of_def Let_def bm_get_insert)
  qed
  then show ?case
    using inv by blast
qed (simp add: bm_inv_def)

text \<open>The entry that an uninstallation leaves.\<close>

definition descriptor_without :: "RawSelectedOutputs \<Rightarrow> ManifestPackageDescriptor \<Rightarrow> LockedPackage \<Rightarrow> ManifestPackageDescriptor option" where
  "descriptor_without removed d locked =
     (case removed of
        RawAll \<Rightarrow> None
      | RawSpecific os \<Rightarrow>
          (let kept = filter (\<lambda>o'. o' \<notin> set os) (effective_outputs (get_outputs d) locked)
           in if kept = [] then None else Some (set_outputs (Some (Specific kept)) d)))"

lemma modification_for_outputs_effect:
  "modification_effect api (modification_for_outputs removed (get_outputs d)
       (case locked_outputs_to_install locked of Some os \<Rightarrow> os | None \<Rightarrow> all_outputs locked) (all_outputs locked)) (Some d) =
     descriptor_without removed d locked"
  unfolding modification_for_outputs_def effective_outputs_def [symmetric] descriptor_without_def Let_def
  by (cases removed) simp_all

lemma modification_for_outputs_not_add: "modification_for_outputs removed cur os all \<noteq> AddPackage pkg"
  by (simp add: modification_for_outputs_def Let_def)

lemma compute_uninstall_effect:
  assumes "compute_uninstall_modification manifest lockfile (iid, removed) = Ok m"
    and "bm_get (mf_install manifest) iid = Some d"
  shows "ptm_install_id m = iid \<and> applicable (mf_install manifest) m \<and>
    (\<exists>locked. locked_package_with_id lockfile iid = Some locked \<and>
       modification_effect api (ptm_modification m) (Some d) = descriptor_without removed d locked)"
proof -
  obtain locked where locked: "locked_package_with_id lockfile iid = Some locked"
    and m: "m = \<lparr> ptm_install_id = iid, ptm_modification = modification_for_outputs removed (get_outputs d)
       (case locked_outputs_to_install locked of Some os \<Rightarrow> os | None \<Rightarrow> all_outputs locked) (all_outputs locked) \<rparr>"
    using assms
    by (auto simp: compute_uninstall_modification_def pkg_descriptor_with_id_def Let_def result_simps
        simp del: not_None_eq split: option.splits RawSelectedOutputs.splits)
  have "applicable (mf_install manifest) m"
    using assms(2) by (cases "ptm_modification m") (simp_all add: applicable_def bm_contains_def m modification_for_outputs_not_add)
  then show ?thesis
    using locked by (simp add: m modification_for_outputs_effect)
qed

section \<open>A small environment\<close>

definition demo_url :: "string url_api" where
  "demo_url = \<lparr> url_parse = (\<lambda>_. None), url_scheme = (\<lambda>u. u), url_path = (\<lambda>u. u), url_fragment = (\<lambda>_. None),
     url_set_fragment = (\<lambda>_ u. u), url_display = (\<lambda>u. u), url_decode = (\<lambda>s. s) \<rparr>"

definition demo_entry :: ManifestPackageDescriptor where
  "demo_entry = Catalog \<lparr> pdc_pkg_path = ''python3'', pdc_pkg_group = None, pdc_priority = None, pdc_version = None,
     pdc_systems = None, pdc_outputs = None \<rparr>"

definition demo_environment :: Manifest where
  "demo_environment = default_manifest\<lparr> mf_install := [(''python3'', demo_entry)] \<rparr>"

definition demo_outputs :: "string list" where
  "demo_outputs = [''doc'', ''man'', ''out'']"

definition demo_lock_of :: Lockfile where
  "demo_lock_of = demo_v1_lockfile demo_outputs demo_outputs"

definition demo_request :: "string \<Rightarrow> string \<Rightarrow> string PackageToInstall" where
  "demo_request iid output = InstallCatalog \<lparr> cpkg_id = iid, cpkg_pkg_path = iid, cpkg_version = None,
     cpkg_systems = None, cpkg_outputs = Some (RawSpecific [output]) \<rparr>"

definition demo_spec :: "string \<Rightarrow> UninstallSpec" where
  "demo_spec output = \<lparr> us_package_ref = ''python3'', us_outputs = Some (RawSpecific [output]), us_version = None \<rparr>"

abbreviation demo_locked_python :: LockedPackage where
  "demo_locked_python \<equiv> LockedCatalog (demo_python ''x86_64-linux'' demo_outputs)"

lemma demo_environment_simps [simp]:
  "bm_inv (mf_install demo_environment)"
  "bm_get (mf_install demo_environment) iid = (if iid = ''python3'' then Some demo_entry else None)"
  "demo_entry \<noteq> StorePathPkg s"
  "get_outputs demo_entry = None"
  "locked_package_with_id demo_lock_of ''python3'' = Some demo_locked_python"
  "locked_outputs_to_install demo_locked_python = Some [''out'']"
  "all_outputs (LockedCatalog (demo_python system outputs)) = outputs"
  by (simp_all add: demo_environment_def demo_entry_def bm_inv_def get_outputs_def demo_lock_of_def
      locked_package_with_id_def all_outputs_def)

lemma demo_request_simps [simp]:
  "package_id (demo_request iid output) = iid"
  "package_outputs (demo_request iid output) = Some (RawSpecific [output])"
  by (simp_all add: demo_request_def)

lemma demo_install:
  "compute_install_modifications [demo_request ''python3'' ''man'', demo_request ''hello'' ''out''] demo_environment demo_lock_of =
     Ok [\<lparr> ptm_install_id = ''python3'', ptm_modification = UpdateOutputs (Specific [''out'', ''man'']) \<rparr>,
         \<lparr> ptm_install_id = ''hello'', ptm_modification = AddPackage (demo_request ''hello'' ''out'') \<rparr>]"
  by (simp add: compute_install_modifications_def compute_install_modification_def pkg_descriptor_with_id_def
      merge_outputs_def demo_outputs_def Let_def)

section \<open>Properties\<close>

text \<open>The package of the lock that tells the outputs of an entry, with a default selection.\<close>

definition outputs_known :: "Lockfile \<Rightarrow> string \<Rightarrow> ManifestPackageDescriptor \<Rightarrow> LockedPackage \<Rightarrow> bool" where
  "outputs_known lockfile iid d locked \<longleftrightarrow>
     locked_package_with_id lockfile iid = Some locked \<and> locked_outputs_to_install locked \<noteq> None \<and>
     set (effective_outputs (get_outputs d) locked) \<subseteq> set (all_outputs locked) \<and> (\<forall>s. d \<noteq> StorePathPkg s)"

text \<open>
  C27. When the packages have different install ids, the modifications of an installation apply
  without error: a new package gets its entry, an installed one has the outputs it had and the
  requested outputs it provides, and every other package stays as it is.
\<close>

theorem install_adds_requested:
  assumes "bm_inv (mf_install manifest)" and "distinct (map package_id packages)"
    and "compute_install_modifications packages manifest lockfile = Ok modifications"
  shows "\<exists>manifest'. modify_packages api manifest modifications = Ok manifest' \<and>
    (\<forall>pkg \<in> set packages.
       case bm_get (mf_install manifest) (package_id pkg) of
         None \<Rightarrow> bm_get (mf_install manifest') (package_id pkg) = Some (descriptor_to_add api pkg)
       | Some d \<Rightarrow> (\<exists>d'. bm_get (mf_install manifest') (package_id pkg) = Some d' \<and>
           (\<forall>locked. outputs_known lockfile (package_id pkg) d locked \<longrightarrow>
              set (effective_outputs (get_outputs d') locked) =
                set (effective_outputs (get_outputs d) locked) \<union>
                (set (requested_outputs pkg locked) \<inter> set (all_outputs locked))))) \<and>
    (\<forall>k. k \<notin> package_id ` set packages \<longrightarrow> bm_get (mf_install manifest') k = bm_get (mf_install manifest) k)"
proof -
  obtain install' where install': "modify_all api modifications (mf_install manifest) = Ok install'"
    and entry: "\<forall>pkg \<in> set packages. \<exists>r. compute_install_modification pkg manifest lockfile = Ok r \<and>
       bm_get install' (package_id pkg) =
         (case bm_get (mf_install manifest) (package_id pkg) of
            None \<Rightarrow> Some (descriptor_to_add api pkg) | Some d \<Rightarrow> Some (descriptor_after d r))"
    and other: "\<forall>k. k \<notin> package_id ` set packages \<longrightarrow> bm_get install' k = bm_get (mf_install manifest) k"
    using install_result [OF assms, of api] by blast
  obtain manifest' where manifest': "modify_packages api manifest modifications = Ok manifest'" "mf_install manifest' = install'"
    using install' by (simp add: modify_packages_def)
  have "case bm_get (mf_install manifest) (package_id pkg) of
         None \<Rightarrow> bm_get install' (package_id pkg) = Some (descriptor_to_add api pkg)
       | Some d \<Rightarrow> (\<exists>d'. bm_get install' (package_id pkg) = Some d' \<and>
           (\<forall>locked. outputs_known lockfile (package_id pkg) d locked \<longrightarrow>
              set (effective_outputs (get_outputs d') locked) =
                set (effective_outputs (get_outputs d) locked) \<union>
                (set (requested_outputs pkg locked) \<inter> set (all_outputs locked))))"
    if "pkg \<in> set packages" for pkg
    using that entry install_one_outputs [of pkg manifest lockfile]
    by (auto simp: outputs_known_def split: option.splits)
  then show ?thesis
    using manifest'(1) other unfolding manifest'(2) [symmetric] by blast
qed

lemma install_adds_requested_witness:
  "\<exists>modifications manifest'.
     compute_install_modifications [demo_request ''python3'' ''man'', demo_request ''hello'' ''out''] demo_environment demo_lock_of =
       Ok modifications \<and>
     modify_packages demo_url demo_environment modifications = Ok manifest' \<and>
     bm_get (mf_install manifest') ''hello'' = Some (descriptor_to_add demo_url (demo_request ''hello'' ''out'')) \<and>
     (\<exists>d'. bm_get (mf_install manifest') ''python3'' = Some d' \<and>
        set (effective_outputs (get_outputs d') demo_locked_python) = {''out'', ''man''})"
proof -
  have "distinct (map package_id [demo_request ''python3'' ''man'', demo_request ''hello'' ''out''])"
    by simp
  note applied = install_adds_requested [OF demo_environment_simps(1) this demo_install, of demo_url]
  have "outputs_known demo_lock_of ''python3'' demo_entry demo_locked_python"
    by (simp add: outputs_known_def effective_outputs_def demo_outputs_def)
  moreover have "set (effective_outputs (get_outputs demo_entry) demo_locked_python) \<union>
      (set (requested_outputs (demo_request ''python3'' ''man'') demo_locked_python) \<inter> set (all_outputs demo_locked_python)) =
      {''out'', ''man''}"
    by (auto simp: effective_outputs_def requested_outputs_def demo_outputs_def)
  ultimately show ?thesis
    using applied demo_install by fastforce
qed

text \<open>
  C28. Installing is idempotent for a request whose packages have pairwise different install ids,
  none of which the manifest has as a store path: computed again on the modified manifest and its
  new lock, the same request has nothing to modify. The new lock has every requested package, and
  the ones that were locked before as they were. A request that names an install id twice is not
  idempotent (\<open>install_loses_earlier_request\<close>), and store paths have no outputs to compare.
\<close>

theorem install_idempotent:
  assumes "bm_inv (mf_install manifest)" and "distinct (map package_id packages)"
    and "compute_install_modifications packages manifest lockfile = Ok modifications"
    and "modify_packages api manifest modifications = Ok manifest'"
    and "\<forall>pkg \<in> set packages. locked_package_with_id lockfile' (package_id pkg) \<noteq> None \<and>
      (locked_package_with_id lockfile (package_id pkg) = None \<or>
       locked_package_with_id lockfile' (package_id pkg) = locked_package_with_id lockfile (package_id pkg))"
    and "\<forall>pkg \<in> set packages. \<forall>s. bm_get (mf_install manifest) (package_id pkg) \<noteq> Some (StorePathPkg s)"
  shows "compute_install_modifications packages manifest' lockfile' = Ok []"
proof -
  have entry: "\<exists>r. compute_install_modification pkg manifest lockfile = Ok r \<and>
       bm_get (mf_install manifest') (package_id pkg) =
         (case bm_get (mf_install manifest) (package_id pkg) of
            None \<Rightarrow> Some (descriptor_to_add api pkg) | Some d \<Rightarrow> Some (descriptor_after d r))"
    if "pkg \<in> set packages" for pkg
    using that install_result [OF assms(1-3), of api] assms(4) by (auto simp: modify_packages_def result_simps)
  have "compute_install_modification pkg manifest' lockfile' = Ok None" if pkg: "pkg \<in> set packages" for pkg
  proof (cases "bm_get (mf_install manifest) (package_id pkg)")
    case None
    then have "bm_get (mf_install manifest') (package_id pkg) = Some (descriptor_to_add api pkg)"
      using entry [OF pkg] by auto
    then show ?thesis
      using no_modification_needed [OF _ added_selects_requested] assms(5) pkg by blast
  next
    case (Some d)
    then obtain r where r: "compute_install_modification pkg manifest lockfile = Ok r"
        "bm_get (mf_install manifest') (package_id pkg) = Some (descriptor_after d r)"
      using entry [OF pkg] by auto
    show ?thesis
    proof (cases r)
      case None
      then show ?thesis
        using r Some install_modification_cong [OF r(1) Some, of manifest' lockfile'] assms(5) pkg
        by (auto simp: descriptor_after_def)
    next
      case (Some m)
      have "\<forall>s. d \<noteq> StorePathPkg s"
        using assms(6) pkg \<open>bm_get (mf_install manifest) (package_id pkg) = Some d\<close> by auto
      then have "selects_requested pkg (get_outputs (descriptor_after d r))"
        using updated_selects_requested r(1) Some \<open>bm_get (mf_install manifest) (package_id pkg) = Some d\<close> by blast
      then show ?thesis
        using no_modification_needed [OF r(2)] assms(5) pkg by blast
    qed
  qed
  then have "collect_results (\<lambda>pkg. compute_install_modification pkg manifest' lockfile') packages =
      Ok (map (\<lambda>_. None) packages)"
    by (induction packages) simp_all
  moreover have "List.map_filter (\<lambda>m. m) (map (\<lambda>_. None) packages) = []"
    by (induction packages) simp_all
  ultimately show ?thesis
    by (simp add: compute_install_modifications_def)
qed

lemma install_idempotent_witness:
  "\<exists>modifications manifest'.
     compute_install_modifications [demo_request ''python3'' ''man''] demo_environment demo_lock_of = Ok modifications \<and>
     modify_packages demo_url demo_environment modifications = Ok manifest' \<and> modifications \<noteq> [] \<and>
     compute_install_modifications [demo_request ''python3'' ''man''] manifest' demo_lock_of = Ok []"
proof -
  let ?mods = "[\<lparr> ptm_install_id = ''python3'', ptm_modification = UpdateOutputs (Specific [''out'', ''man'']) \<rparr>]"
  have mods: "compute_install_modifications [demo_request ''python3'' ''man''] demo_environment demo_lock_of = Ok ?mods"
    by (simp add: compute_install_modifications_def compute_install_modification_def pkg_descriptor_with_id_def
        merge_outputs_def demo_outputs_def Let_def)
  obtain manifest' where manifest': "modify_packages demo_url demo_environment ?mods = Ok manifest'"
    by (simp add: modify_packages_def modify_package_def)
  have "compute_install_modifications [demo_request ''python3'' ''man''] manifest' demo_lock_of = Ok []"
    by (rule install_idempotent [OF demo_environment_simps(1) _ mods manifest']) simp_all
  then show ?thesis
    using mods manifest' by blast
qed

text \<open>
  Two packages of one request with the same install id, as in \<open>hello^man hello^doc\<close>, are each
  merged with the outputs of the manifest as it was; the last modification wins, and an output that
  only the first one asked for is not installed, although it is reported as an update.
\<close>

theorem install_loses_earlier_request:
  assumes "bm_inv (mf_install manifest)" and "bm_get (mf_install manifest) iid = Some d"
    and "\<forall>s. d \<noteq> StorePathPkg s" and "package_id p = iid" and "package_id q = iid"
    and "package_outputs p = Some (RawSpecific [a])" and "package_outputs q = Some (RawSpecific [b])" and "a \<noteq> b"
    and "locked_package_with_id lockfile iid = Some locked" and "locked_outputs_to_install locked \<noteq> None"
    and "{a, b} \<subseteq> set (all_outputs locked) - set (effective_outputs (get_outputs d) locked)"
  shows "\<exists>modifications manifest' d'. compute_install_modifications [p, q] manifest lockfile = Ok modifications \<and>
    modify_packages api manifest modifications = Ok manifest' \<and> bm_get (mf_install manifest') iid = Some d' \<and>
    b \<in> set (effective_outputs (get_outputs d') locked) \<and> a \<notin> set (effective_outputs (get_outputs d') locked)"
proof -
  let ?cur = "effective_outputs (get_outputs d) locked"
  let ?update = "\<lambda>x. \<lparr> ptm_install_id = iid, ptm_modification = UpdateOutputs (Specific (?cur @ [x])) \<rparr>"
  have not_all: "get_outputs d \<noteq> Some AllOutputs"
    using assms(11) by (auto simp: effective_outputs_def)
  then have current: "(case get_outputs d of Some (Specific os) \<Rightarrow> os
      | _ \<Rightarrow> (case locked_outputs_to_install locked of Some os \<Rightarrow> os | None \<Rightarrow> [])) = ?cur"
    using assms(10) by (auto simp: effective_outputs_def split: option.splits SelectedOutputs.splits)
  have "compute_install_modification p manifest lockfile = Ok (Some (?update a))"
    and "compute_install_modification q manifest lockfile = Ok (Some (?update b))"
    using assms not_all
    by (simp_all add: compute_install_modification_def pkg_descriptor_with_id_def merge_outputs_def current Let_def)
  then have mods: "compute_install_modifications [p, q] manifest lockfile = Ok [?update a, ?update b]"
    by (simp add: compute_install_modifications_def)
  have "modify_packages api manifest [?update a, ?update b] =
      Ok (manifest\<lparr> mf_install := bm_insert iid (set_outputs (Some (Specific (?cur @ [b])))
        (set_outputs (Some (Specific (?cur @ [a]))) d))
        (bm_insert iid (set_outputs (Some (Specific (?cur @ [a]))) d) (mf_install manifest)) \<rparr>)"
    using assms(1,2) by (simp add: modify_packages_def modify_package_def bm_get_insert Let_def)
  moreover have "get_outputs (set_outputs (Some (Specific (?cur @ [b]))) (set_outputs (Some (Specific (?cur @ [a]))) d)) =
      Some (Specific (?cur @ [b]))"
    using assms(3) by (intro get_set_outputs) (simp add: set_outputs_store_path)
  ultimately show ?thesis
    using mods assms(1,8,11)
    by (auto simp: bm_get_insert bm_inv_insert effective_outputs_def [of "Some (Specific _)"])
qed

lemma install_loses_earlier_request_witness:
  "\<exists>modifications manifest' d'.
     compute_install_modifications [demo_request ''python3'' ''man'', demo_request ''python3'' ''doc''] demo_environment
       demo_lock_of = Ok modifications \<and>
     modify_packages demo_url demo_environment modifications = Ok manifest' \<and>
     bm_get (mf_install manifest') ''python3'' = Some d' \<and>
     ''doc'' \<in> set (effective_outputs (get_outputs d') demo_locked_python) \<and>
     ''man'' \<notin> set (effective_outputs (get_outputs d') demo_locked_python)"
  by (rule install_loses_earlier_request [where d = demo_entry])
    (simp_all add: demo_outputs_def effective_outputs_def)

text \<open>
  C29. Uninstalling applies without error: a package loses the outputs that all the specifications
  for it name together, and goes when none is left or when one of them names no outputs or all;
  every other package stays as it is.
\<close>

theorem uninstall_removes_requested:
  assumes "bm_inv (mf_install manifest)" and "\<forall>r. mset (walk r) = mset r"
    and "resolve_specs_to_modifications walk specs manifest lockfile = Ok modifications"
  shows "\<exists>manifest'. modify_packages api manifest modifications = Ok manifest' \<and>
    (\<forall>iid. if \<exists>spec \<in> set specs. resolve_install_id manifest (us_package_ref spec) (us_version spec) = Ok iid
       then \<exists>d locked. bm_get (mf_install manifest) iid = Some d \<and> locked_package_with_id lockfile iid = Some locked \<and>
         bm_get (mf_install manifest') iid = descriptor_without (removed_outputs manifest specs iid) d locked
       else bm_get (mf_install manifest') iid = bm_get (mf_install manifest) iid)"
proof -
  let ?targets = "\<lambda>iid. \<exists>spec \<in> set specs. resolve_install_id manifest (us_package_ref spec) (us_version spec) = Ok iid"
  obtain removals where removals: "collect_removals manifest lockfile [] specs = Ok removals"
    and mods: "collect_results (compute_uninstall_modification manifest lockfile) (walk removals) = Ok modifications"
    using assms(3) by (auto simp: resolve_specs_to_modifications_def compute_uninstall_modifications_def result_simps)
  have inv: "bm_inv removals" and get: "\<And>iid. bm_get removals iid =
      (if ?targets iid then Some (removed_outputs manifest specs iid) else None)"
    using collect_removals_get [OF removals] by blast+
  have walked: "set (walk removals) = set removals" "distinct (map fst (walk removals))"
  proof -
    show "set (walk removals) = set removals"
      using assms(2) by (metis set_mset_mset)
    have "mset (map fst (walk removals)) = mset (map fst removals)"
      using assms(2) by simp
    then show "distinct (map fst (walk removals))"
      using bm.entries_distinct [OF inv] by (metis mset_eq_imp_distinct_iff)
  qed
  have entries: "(iid, r) \<in> set (walk removals) \<longleftrightarrow> ?targets iid \<and> r = removed_outputs manifest specs iid" for iid r
    unfolding walked(1) using bm.entries_iff [OF inv, of iid r] get by auto
  have present: "\<exists>d. bm_get (mf_install manifest) iid = Some d" if "?targets iid" for iid
    using that resolve_install_id_found by (fastforce simp: bm_contains_def)
  have "list_all2 (\<lambda>x m. compute_uninstall_modification manifest lockfile x = Ok m) (walk removals) modifications"
    using mods by (simp add: collect_results_Inr_iff)
  moreover have "compute_uninstall_modification manifest lockfile x = Ok m \<Longrightarrow> x \<in> set (walk removals) \<Longrightarrow>
      ptm_install_id m = fst x \<and> applicable (mf_install manifest) m" for x m
    using entries present compute_uninstall_effect by (metis prod.collapse)
  ultimately have ids: "map ptm_install_id modifications = map fst (walk removals)"
    and app: "\<forall>m \<in> set modifications. applicable (mf_install manifest) m"
    using list_all2_each [where f = ptm_install_id and g = fst and P = "applicable (mf_install manifest)"] by blast+
  obtain install' where install': "modify_all api modifications (mf_install manifest) = Ok install'"
    "\<forall>m \<in> set modifications. bm_get install' (ptm_install_id m) =
       modification_effect api (ptm_modification m) (bm_get (mf_install manifest) (ptm_install_id m))"
    "\<forall>k. k \<notin> ptm_install_id ` set modifications \<longrightarrow> bm_get install' k = bm_get (mf_install manifest) k"
    using modify_all_effects [OF assms(1), of modifications api] ids app walked(2) by auto
  have "\<exists>d locked. bm_get (mf_install manifest) iid = Some d \<and> locked_package_with_id lockfile iid = Some locked \<and>
      bm_get install' iid = descriptor_without (removed_outputs manifest specs iid) d locked" if iid: "?targets iid" for iid
  proof -
    obtain d where d: "bm_get (mf_install manifest) iid = Some d"
      using present [OF iid] by blast
    obtain m where m: "m \<in> set modifications"
      "compute_uninstall_modification manifest lockfile (iid, removed_outputs manifest specs iid) = Ok m"
      using collect_results_each [OF mods] iid entries by blast
    show ?thesis
      using compute_uninstall_effect [OF m(2) d, of api] d m(1) install'(2) by auto
  qed
  moreover have "bm_get install' iid = bm_get (mf_install manifest) iid" if "\<not> ?targets iid" for iid
  proof -
    have "iid \<notin> fst ` set (walk removals)"
      using that entries by auto
    then show ?thesis
      using ids install'(3) by (metis image_set)
  qed
  ultimately show ?thesis
    using install'(1) by (intro exI [of _ "manifest\<lparr> mf_install := install' \<rparr>"]) (simp add: modify_packages_def)
qed

lemma uninstall_removes_requested_witness:
  "\<exists>modifications manifest'.
     resolve_specs_to_modifications rev [demo_spec ''man'', demo_spec ''doc'']
       (demo_environment\<lparr> mf_install := [(''python3'', set_outputs (Some AllOutputs) demo_entry)] \<rparr>) demo_lock_of =
       Ok (modifications :: string PackageToModify list) \<and>
     modify_packages demo_url
       (demo_environment\<lparr> mf_install := [(''python3'', set_outputs (Some AllOutputs) demo_entry)] \<rparr>) modifications =
       Ok manifest' \<and>
     bm_get (mf_install manifest') ''python3'' = Some (set_outputs (Some (Specific [''out''])) demo_entry)"
proof -
  let ?manifest = "demo_environment\<lparr> mf_install := [(''python3'', set_outputs (Some AllOutputs) demo_entry)] \<rparr>"
  let ?specs = "[demo_spec ''man'', demo_spec ''doc'']"
  have all: "get_outputs (set_outputs (Some AllOutputs) demo_entry) = Some AllOutputs"
    by (simp add: get_set_outputs)
  have target: "resolve_install_id ?manifest ''python3'' None = Ok ''python3''"
    by (simp add: resolve_install_id_def bm_contains_def)
  have mods: "resolve_specs_to_modifications rev ?specs ?manifest demo_lock_of =
      Ok [\<lparr> ptm_install_id = ''python3'', ptm_modification = UpdateOutputs (Specific [''out'']) \<rparr> :: string PackageToModify]"
    by (simp add: resolve_specs_to_modifications_def resolve_spec_def target demo_spec_def record_removal_of_def
        compute_uninstall_modifications_def compute_uninstall_modification_def pkg_descriptor_with_id_def all
        modification_for_outputs_def demo_outputs_def Let_def)
  have "bm_inv (mf_install ?manifest)"
    by (simp add: bm_inv_def)
  note removed = uninstall_removes_requested [OF this _ mods, of demo_url]
  have "descriptor_without (removed_outputs ?manifest ?specs ''python3'') (set_outputs (Some AllOutputs) demo_entry)
      demo_locked_python = Some (set_outputs (Some (Specific [''out''])) demo_entry)"
    by (simp add: descriptor_without_def removed_outputs_def target demo_spec_def all effective_outputs_def demo_outputs_def)
      (simp add: demo_entry_def set_outputs_def)
  moreover have "\<exists>spec \<in> set ?specs. resolve_install_id ?manifest (us_package_ref spec) (us_version spec) = Ok ''python3''"
    by (simp add: target demo_spec_def)
  ultimately show ?thesis
    using removed mods by (auto dest!: spec [of _ "''python3''"])
qed

end
