(* ===== verification/Lock_Manifest.thy ===== *)
theory Lock_Manifest
  imports Locked_Packages
begin

text \<open>
  Locking a manifest (\<open>flox-rust-sdk/src/providers/lock_manifest.rs\<close>): composing the included
  environments, grouping the packages, reusing what the previous lockfile (the seed) holds and
  resolving the rest. The catalog service, the flake locker, fetching an included environment
  and the clock are parameters.
\<close>

section \<open>Requests and errors\<close>

record PackageDescriptor =
  apd_install_id :: string
  apd_attr_path :: string
  apd_derivation :: "string option"
  apd_version :: "string option"
  apd_allow_pre_releases :: "bool option"
  apd_allow_broken :: "bool option"
  apd_allow_insecure :: "bool option"
  apd_allow_unfree :: "bool option"
  apd_allow_missing_builds :: "bool option"
  apd_allowed_licenses :: "string list option"
  apd_systems :: "PackageSystem list"

record PackageGroup =
  pg_name :: string
  pg_descriptors :: "PackageDescriptor list"

record FlakeInstallableToLock =
  fi_install_id :: string
  fi_descriptor :: PackageDescriptorFlake
  fi_system :: system

datatype FlakeInstallableError = LockInstallable string | DeserializeLockedInstallable | NixError string

definition show_flake_error :: "FlakeInstallableError \<Rightarrow> string" where
  "show_flake_error e = (case e of
     LockInstallable s \<Rightarrow> ''Failed to lock flake installable: '' @ s
   | DeserializeLockedInstallable \<Rightarrow> ''Failed to deserialize locked installable''
   | NixError s \<Rightarrow> ''Caught Nix error while locking flake:'' @ newline @ s)"

text \<open>The systems of an unavailable package come from a hash set, without an order.\<close>

datatype ResolutionFailure =
    FailNotFound ResolutionMessage
  | FailUnavailableOnSomeSystems MsgNotFoundForAllSystems "system set"
  | FailSystemsNotOnSamePage ResolutionMessage
  | FailConstraintsTooTight ResolutionMessage string
  | FailUnknownServiceMessage ResolutionMessage
  | FallbackMessage string

datatype ResolveError =
    CatalogResolve string
  | UnrecognizedSystem string
  | ResolutionFailed "ResolutionFailure list"
  | SystemUnavailableInManifest string system "system list"
  | LicenseNotAllowed string string
  | BrokenNotAllowed string
  | UnfreeNotAllowed string
  | LockFlakeNixError FlakeInstallableError
  | InstallIdNotInManifest string

type_synonym catalog_client = "PackageGroup list \<Rightarrow> string + ResolvedPackageGroup list"
type_synonym flake_locker = "system \<Rightarrow> PackageDescriptorFlake \<Rightarrow> FlakeInstallableError + LockedInstallable"

section \<open>The seed\<close>

text \<open>
  The locked packages by install id and system, with the descriptor they were locked for. The
  hash map keeps the last of several packages with one key.
\<close>

definition make_seed_mapping :: "Lockfile \<Rightarrow> ((string \<times> system) \<times> (ManifestPackageDescriptor \<times> LockedPackage)) list" where
  "make_seed_mapping seed =
     List.map_filter (\<lambda>p. map_option (\<lambda>d. ((locked_install_id p, locked_system p), (d, p)))
       (bm_get (mf_install (lf_manifest seed)) (locked_install_id p))) (lf_packages seed)"

definition seed_mapping :: "Lockfile option \<Rightarrow> string \<times> system \<Rightarrow> (ManifestPackageDescriptor \<times> LockedPackage) option" where
  "seed_mapping maybe_seed key =
     (case maybe_seed of None \<Rightarrow> None | Some seed \<Rightarrow> map_of (rev (make_seed_mapping seed)) key)"

section \<open>Package groups\<close>

definition manifest_systems :: "Manifest \<Rightarrow> system list" where
  "manifest_systems m = (case opt_systems (mf_options m) of Some s \<Rightarrow> s | None \<Rightarrow> DEFAULT_SYSTEMS_STR)"

definition requested_systems :: "Manifest \<Rightarrow> system list option \<Rightarrow> system list" where
  "requested_systems m pkg_systems = (case pkg_systems of Some s \<Rightarrow> s | None \<Rightarrow> manifest_systems m)"

definition pkg_systems :: "Manifest \<Rightarrow> string \<Rightarrow> PackageDescriptorCatalog \<Rightarrow> ResolveError + PackageSystem list" where
  "pkg_systems m iid pkg =
     (let available_systems = manifest_systems m
      in case find (\<lambda>s. s \<notin> set available_systems) (case pdc_systems pkg of Some s \<Rightarrow> s | None \<Rightarrow> []) of
           Some system \<Rightarrow> Err (SystemUnavailableInManifest iid system available_systems)
         | None \<Rightarrow> collect_results (\<lambda>s. ok_or (UnrecognizedSystem s) (system_from_str s))
                     (sort (requested_systems m (pdc_systems pkg))))"

definition allowed_licenses :: "Allows \<Rightarrow> string list option" where
  "allowed_licenses allow = Option.bind (allow_licenses allow) (\<lambda>ls. if ls = [] then None else Some ls)"

text \<open>The derivation a package stays locked to: none if its descriptor changed or is new.\<close>

definition seed_derivation :: "Lockfile option \<Rightarrow> string \<Rightarrow> PackageDescriptorCatalog \<Rightarrow> system \<Rightarrow> string option" where
  "seed_derivation seed iid desc system =
     Option.bind (seed_mapping seed (iid, system)) (\<lambda>(descriptor, locked).
       if invalidates_existing_resolution descriptor (Catalog desc) then None
       else map_option lpc_derivation (as_catalog_package_ref locked))"

definition descriptor_for ::
  "Manifest \<Rightarrow> Lockfile option \<Rightarrow> string \<Rightarrow> PackageDescriptorCatalog \<Rightarrow> PackageSystem \<Rightarrow> PackageDescriptor" where
  "descriptor_for m seed iid desc system =
     \<lparr> apd_install_id = iid, apd_attr_path = pdc_pkg_path desc,
       apd_derivation = seed_derivation seed iid desc (show_system system),
       apd_version = pdc_version desc,
       apd_allow_pre_releases = semver_allow_pre_releases (opt_semver (mf_options m)),
       apd_allow_broken = allow_broken (opt_allow (mf_options m)), apd_allow_insecure = None,
       apd_allow_unfree = allow_unfree (opt_allow (mf_options m)), apd_allow_missing_builds = None,
       apd_allowed_licenses = allowed_licenses (opt_allow (mf_options m)), apd_systems = [system] \<rparr>"

definition group_descriptors ::
  "Manifest \<Rightarrow> Lockfile option \<Rightarrow> (string, PackageDescriptorCatalog) bmap \<Rightarrow> ResolveError + PackageDescriptor list" where
  "group_descriptors m seed pkgs =
     map_ok concat (collect_results (\<lambda>(iid, desc).
       map_ok (map (descriptor_for m seed iid desc)) (pkg_systems m iid desc)) pkgs)"

definition collect_resolution_package_groups :: "Manifest \<Rightarrow> Lockfile option \<Rightarrow> ResolveError + PackageGroup list" where
  "collect_resolution_package_groups m seed =
     collect_results (\<lambda>(name, pkgs).
       map_ok (\<lambda>ds. \<lparr> pg_name = name, pg_descriptors = ds \<rparr>) (group_descriptors m seed pkgs))
       (catalog_pkgs_by_group m)"

definition fully_locked :: "PackageGroup \<Rightarrow> bool" where
  "fully_locked g \<longleftrightarrow> list_all (\<lambda>d. apd_derivation d \<noteq> None) (pg_descriptors g)"

definition split_fully_locked_groups ::
  "PackageGroup list \<Rightarrow> Lockfile option \<Rightarrow> LockedPackage list \<times> PackageGroup list" where
  "split_fully_locked_groups groups seed =
     (List.map_filter (\<lambda>(iid, system). map_option snd (seed_mapping seed (iid, show_system system)))
        (concat (map (\<lambda>d. map (Pair (apd_install_id d)) (apd_systems d))
          (concat (map pg_descriptors (filter fully_locked groups))))),
      filter (\<lambda>g. \<not> fully_locked g) groups)"

section \<open>Flakes and store paths\<close>

definition collect_flake_installables :: "Manifest \<Rightarrow> FlakeInstallableToLock list" where
  "collect_flake_installables m =
     concat (map (\<lambda>(iid, d). map (\<lambda>s. \<lparr> fi_install_id = iid, fi_descriptor = d, fi_system = s \<rparr>)
         (requested_systems m (pdf_systems d)))
       (List.map_filter (\<lambda>(iid, d). map_option (Pair iid) (as_flake_descriptor_ref d)) (mf_install m)))"

definition collect_store_paths :: "Manifest \<Rightarrow> LockedPackageStorePath list" where
  "collect_store_paths m =
     concat (map (\<lambda>(iid, d). map (\<lambda>s.
           \<lparr> lps_install_id = iid, lps_store_path = pds_store_path d, lps_system = s,
             lps_priority = (case pds_priority d of Some p \<Rightarrow> p | None \<Rightarrow> DEFAULT_PRIORITY) \<rparr>)
         (requested_systems m (pds_systems d)))
       (List.map_filter (\<lambda>(iid, d). map_option (Pair iid) (as_store_path_descriptor_ref d)) (mf_install m)))"

text \<open>Runs of elements with one key, as \<open>chunk_by\<close> of itertools gives them.\<close>

function chunk_by :: "('a \<Rightarrow> 'k) \<Rightarrow> 'a list \<Rightarrow> 'a list list" where
  "chunk_by key [] = []"
| "chunk_by key (x # xs) =
     (x # takeWhile (\<lambda>y. key y = key x) xs) # chunk_by key (dropWhile (\<lambda>y. key y = key x) xs)"
  by pat_completeness auto
termination
  by (relation "measure (\<lambda>(_, xs). length xs)") (simp_all add: length_dropWhile_le le_imp_less_Suc)

text \<open>One install id: locked for all its systems, or to be locked for all of them.\<close>

fun locked_chunk :: "Lockfile option \<Rightarrow> FlakeInstallableToLock list \<Rightarrow> LockedPackage list option" where
  "locked_chunk seed [] = Some []"
| "locked_chunk seed (installable # rest) =
     (case seed_mapping seed (fi_install_id installable, fi_system installable) of
        Some (locked_descriptor, LockedFlake f) \<Rightarrow>
          if invalidates_existing_resolution (FlakeRef (fi_descriptor installable)) locked_descriptor then None
          else map_option ((#) (LockedFlake f)) (locked_chunk seed rest)
      | _ \<Rightarrow> None)"

definition split_locked_flake_installables ::
  "FlakeInstallableToLock list \<Rightarrow> Lockfile option \<Rightarrow> LockedPackage list \<times> FlakeInstallableToLock list" where
  "split_locked_flake_installables installables seed =
     (let chunks = chunk_by fi_install_id installables
      in (concat (List.map_filter (locked_chunk seed) chunks),
          concat (filter (\<lambda>c. locked_chunk seed c = None) chunks)))"

definition flake_lock_error :: "FlakeInstallableError \<Rightarrow> ResolveError" where
  "flake_lock_error e = (case e of
     NixError _ \<Rightarrow> LockFlakeNixError e
   | _ \<Rightarrow> ResolutionFailed [FallbackMessage (show_flake_error e)])"

definition lock_flake_installables ::
  "flake_locker \<Rightarrow> FlakeInstallableToLock list \<Rightarrow> ResolveError + LockedPackageFlake list" where
  "lock_flake_installables locking installables =
     collect_results (\<lambda>i. case locking (fi_system i) (fi_descriptor i) of
         Inl e \<Rightarrow> Err (flake_lock_error e)
       | Inr l \<Rightarrow> Ok \<lparr> lpf_install_id = fi_install_id i, lpf_locked_installable = l \<rparr>) installables"

section \<open>What the catalog resolved\<close>

definition detect_failed_resolutions :: "ResolvedPackageGroup list \<Rightarrow> nat list" where
  "detect_failed_resolutions groups =
     map fst (filter (\<lambda>(_, g). case rpg_page g of None \<Rightarrow> True | Some p \<Rightarrow> \<not> cp_complete p) (enumerate 0 groups))"

definition determine_invalid_systems :: "MsgNotFoundForAllSystems \<Rightarrow> Manifest \<Rightarrow> ResolveError + system set" where
  "determine_invalid_systems r_msg m =
     (case catalog_descriptor_with_id m (mfs_install_id r_msg) of
        None \<Rightarrow> Err (InstallIdNotInManifest (mfs_install_id r_msg))
      | Some d \<Rightarrow> Ok (set (requested_systems m (pdc_systems d)) - set (mfs_valid_systems r_msg)))"

definition failure_of :: "Manifest \<Rightarrow> string \<Rightarrow> ResolutionMessage \<Rightarrow> ResolveError + ResolutionFailure" where
  "failure_of m grp msg = (case msg of
     General _ text \<Rightarrow> Ok (FallbackMessage text)
   | NotInCatalog _ _ _ _ \<Rightarrow> Ok (FailNotFound msg)
   | NotFoundForAllSystems inner \<Rightarrow> map_ok (FailUnavailableOnSomeSystems inner) (determine_invalid_systems inner m)
   | SystemsNotOnSamePage _ _ _ _ _ \<Rightarrow> Ok (FailSystemsNotOnSamePage msg)
   | ConstraintsTooTight _ _ \<Rightarrow> Ok (FailConstraintsTooTight msg grp)
   | UnknownMessage _ _ _ _ \<Rightarrow> Ok (FailUnknownServiceMessage msg))"

definition collect_failures :: "ResolvedPackageGroup list \<Rightarrow> Manifest \<Rightarrow> ResolveError + ResolutionFailure list" where
  "collect_failures failed_groups m =
     map_ok concat (collect_results (\<lambda>g. collect_results (failure_of m (rpg_name g))
       (filter (\<lambda>msg. message_level msg = LevelError) (rpg_msgs g))) failed_groups)"

definition resolved_packages :: "ResolvedPackageGroup \<Rightarrow> ResolvedPackageDescriptor list" where
  "resolved_packages g = (case Option.bind (rpg_page g) cp_packages of Some ps \<Rightarrow> ps | None \<Rightarrow> [])"

definition locked_packages_from_resolution ::
  "int \<Rightarrow> Manifest \<Rightarrow> ResolvedPackageGroup list \<Rightarrow> ResolveError + LockedPackageCatalog list" where
  "locked_packages_from_resolution now m groups =
     and_then (collect_failures (map ((!) groups) (detect_failed_resolutions groups)) m) (\<lambda>failures.
     if failures \<noteq> [] then Err (ResolutionFailed failures)
     else Ok (List.map_filter (\<lambda>p. map_option (catalog_from_parts now p) (catalog_descriptor_with_id m (rpd_install_id p)))
       (concat (map resolved_packages groups))))"

section \<open>Resolving a manifest\<close>

definition check_package_allowed :: "Allows \<Rightarrow> LockedPackageCatalog \<Rightarrow> ResolveError + unit" where
  "check_package_allowed allow package =
     (let flags =
        (if allow_broken allow \<noteq> Some True \<and> lpc_broken package = Some True
         then Err (BrokenNotAllowed (lpc_install_id package))
         else if allow_unfree allow = Some False \<and> lpc_unfree package = Some True
         then Err (UnfreeNotAllowed (lpc_install_id package))
         else Ok ())
      in case allowed_licenses allow of
           None \<Rightarrow> flags
         | Some licenses \<Rightarrow>
             (case lpc_license package of
                None \<Rightarrow> Ok ()
              | Some license \<Rightarrow>
                  if license \<notin> set licenses then Err (LicenseNotAllowed (lpc_install_id package) license)
                  else flags))"

fun check_packages_are_allowed :: "LockedPackageCatalog list \<Rightarrow> Allows \<Rightarrow> ResolveError + unit" where
  "check_packages_are_allowed [] allow = Ok ()"
| "check_packages_are_allowed (package # rest) allow =
     and_then (check_package_allowed allow package) (\<lambda>_. check_packages_are_allowed rest allow)"

definition manifest_priority :: "Manifest \<Rightarrow> string \<Rightarrow> nat" where
  "manifest_priority m iid =
     (case Option.bind (catalog_descriptor_with_id m iid) pdc_priority of Some p \<Rightarrow> p | None \<Rightarrow> DEFAULT_PRIORITY)"

text \<open>The loop returns at the first package that is not from the catalog.\<close>

fun update_priority :: "Manifest \<Rightarrow> LockedPackage list \<Rightarrow> LockedPackage list" where
  "update_priority m (LockedCatalog p # rest) =
     LockedCatalog (p \<lparr> lpc_priority := manifest_priority m (lpc_install_id p) \<rparr>) # update_priority m rest"
| "update_priority m packages = packages"

definition resolve_manifest ::
  "catalog_client \<Rightarrow> flake_locker \<Rightarrow> int \<Rightarrow> Manifest \<Rightarrow> Lockfile option \<Rightarrow> ResolveError + LockedPackage list" where
  "resolve_manifest client locker now m seed =
     and_then (collect_resolution_package_groups m seed) (\<lambda>catalog_groups.
     let (already_locked, groups_to_lock) = split_fully_locked_groups catalog_groups seed;
         (already_locked_installables, installables_to_lock) =
           split_locked_flake_installables (collect_flake_installables m) seed;
         locked_store_paths = map LockedStorePath (collect_store_paths m);
         allow = opt_allow (mf_options m)
     in and_then (check_packages_are_allowed (List.map_filter as_catalog_package_ref already_locked) allow) (\<lambda>_.
        let already_locked_packages = update_priority m already_locked
        in if groups_to_lock = [] \<and> installables_to_lock = []
           then Ok (locked_store_paths @ already_locked_packages @ already_locked_installables)
           else
             and_then (if groups_to_lock = [] then Ok []
                       else (case client groups_to_lock of Inl e \<Rightarrow> Err (CatalogResolve e) | Inr r \<Rightarrow> Ok r)) (\<lambda>resolved.
             and_then (locked_packages_from_resolution now m resolved) (\<lambda>locked_packages.
             and_then (if installables_to_lock = [] then Ok []
                       else lock_flake_installables locker installables_to_lock) (\<lambda>locked_installables.
             and_then (check_packages_are_allowed locked_packages allow) (\<lambda>_.
             Ok (locked_store_paths @ already_locked_packages @ map LockedCatalog locked_packages @
                 already_locked_installables @ map LockedFlake locked_installables)))))))"

definition unlock_specified_packages_or_groups :: "Lockfile \<Rightarrow> string list \<Rightarrow> Lockfile" where
  "unlock_specified_packages_or_groups lockfile groups_or_iids =
     (if groups_or_iids = [] then lockfile \<lparr> lf_packages := [] \<rparr>
      else lockfile \<lparr> lf_packages := filter (\<lambda>package.
             locked_install_id package \<notin> set groups_or_iids \<and>
             (case as_catalog_package_ref package of
                Some p \<Rightarrow> lpc_group p \<notin> set groups_or_iids | None \<Rightarrow> True)) (lf_packages lockfile) \<rparr>)"

section \<open>Included environments\<close>

datatype RecoverableMergeError =
    MergeFailed MergeError
  | FetchFailed IncludeDescriptor string
  | Catchall string

type_synonym include_fetcher = "IncludeDescriptor \<Rightarrow> string + LockedInclude"

fun position :: "('a \<Rightarrow> bool) \<Rightarrow> 'a list \<Rightarrow> nat option" where
  "position P [] = None"
| "position P (x # xs) = (if P x then Some 0 else map_option Suc (position P xs))"

text \<open>\<open>Vec::swap_remove\<close>: the last element takes the place of the removed one.\<close>

definition swap_remove :: "nat \<Rightarrow> 'a list \<Rightarrow> 'a list" where
  "swap_remove n xs = butlast (xs[n := last xs])"

definition remove_matching_include :: "string list \<Rightarrow> LockedInclude \<Rightarrow> bool \<times> string list" where
  "remove_matching_include to_upgrade locked_include =
     (case position (\<lambda>name. linc_name locked_include = name) to_upgrade of
        Some p \<Rightarrow> (True, swap_remove p to_upgrade)
      | None \<Rightarrow> (False, to_upgrade))"

definition existing_locked_include :: "bool \<Rightarrow> Lockfile option \<Rightarrow> IncludeDescriptor \<Rightarrow> LockedInclude option" where
  "existing_locked_include upgrade_all seed include =
     (if upgrade_all then None
      else Option.bind (Option.bind seed lf_compose) (\<lambda>c. find (\<lambda>l. linc_descriptor l = include) (comp_include c)))"

definition lock_include ::
  "include_fetcher \<Rightarrow> (IncludeDescriptor \<Rightarrow> LockedInclude option) \<Rightarrow> string list option \<Rightarrow> IncludeDescriptor
     \<Rightarrow> RecoverableMergeError + LockedInclude \<times> string list option" where
  "lock_include fetch existing to_upgrade include =
     (let fetched = (case fetch include of Inl e \<Rightarrow> Err (FetchFailed include e) | Inr l \<Rightarrow> Ok l)
      in case existing include of
           Some locked_include \<Rightarrow>
             (case map_option (\<lambda>u. remove_matching_include u locked_include) to_upgrade of
                Some (True, u) \<Rightarrow> map_ok (\<lambda>l. (l, Some u)) fetched
              | _ \<Rightarrow> Ok (locked_include, to_upgrade))
         | None \<Rightarrow>
             map_ok (\<lambda>l. (l, map_option (\<lambda>u. snd (remove_matching_include u l)) to_upgrade)) fetched)"

fun lock_includes ::
  "include_fetcher \<Rightarrow> (IncludeDescriptor \<Rightarrow> LockedInclude option) \<Rightarrow> string list option \<Rightarrow> IncludeDescriptor list
     \<Rightarrow> RecoverableMergeError + LockedInclude list \<times> string list option" where
  "lock_includes fetch existing to_upgrade [] = Ok ([], to_upgrade)"
| "lock_includes fetch existing to_upgrade (include # includes) =
     and_then (lock_include fetch existing to_upgrade include) (\<lambda>(l, rest).
     map_ok (\<lambda>(ls, rest). (l # ls, rest)) (lock_includes fetch existing rest includes))"

fun check_locked_names_unique :: "string list \<Rightarrow> LockedInclude list \<Rightarrow> RecoverableMergeError + unit" where
  "check_locked_names_unique seen [] = Ok ()"
| "check_locked_names_unique seen (l # ls) =
     (if linc_name l \<in> set seen
      then Err (Catchall (''multiple environments in include.environments have the name '' @ quoted (linc_name l) @ newline @
             ''A unique name can be provided with the '' @ quoted ''name'' @ '' field.''))
      else check_locked_names_unique (linc_name l # seen) ls)"

definition merge_manifest ::
  "include_fetcher \<Rightarrow> Manifest \<Rightarrow> Lockfile option \<Rightarrow> string list option
     \<Rightarrow> RecoverableMergeError + Manifest \<times> ComposeInfo option" where
  "merge_manifest fetch m seed to_upgrade =
     (if mf_include m = [] then
        (if to_upgrade \<noteq> None then Err (Catchall ''environment has no included environments'') else Ok (m, None))
      else
        and_then (lock_includes fetch (existing_locked_include (to_upgrade = Some []) seed) to_upgrade (mf_include m))
          (\<lambda>(locked_includes, rest).
        and_then (check_locked_names_unique [] locked_includes) (\<lambda>_.
        if rest \<noteq> None \<and> rest \<noteq> Some []
        then Err (Catchall (''unknown included environment to check for changes '' @ quoted (hd (the rest))))
        else (case merge_all \<lparr> cm_composer = m, cm_deps = map (\<lambda>l. (linc_name l, linc_manifest l)) locked_includes \<rparr> of
               Inl e \<Rightarrow> Err (MergeFailed e)
             | Inr (merged, warnings) \<Rightarrow>
                 Ok (merged, Some \<lparr> comp_composer = m, comp_include = locked_includes, comp_warnings = warnings \<rparr>)))))"

datatype LockError = RecoverableError RecoverableMergeError | ResolveFailed ResolveError

definition lock_manifest_with_include_upgrades ::
  "include_fetcher \<Rightarrow> catalog_client \<Rightarrow> flake_locker \<Rightarrow> int \<Rightarrow> Manifest \<Rightarrow> Lockfile option \<Rightarrow> string list option
     \<Rightarrow> LockError + Lockfile" where
  "lock_manifest_with_include_upgrades fetch client locker now m seed to_upgrade =
     (case merge_manifest fetch m seed to_upgrade of
        Inl e \<Rightarrow> Err (RecoverableError e)
      | Inr (merged, composed) \<Rightarrow>
          (case resolve_manifest client locker now merged seed of
             Inl e \<Rightarrow> Err (ResolveFailed e)
           | Inr packages \<Rightarrow> Ok \<lparr> lf_manifest = merged, lf_packages = packages, lf_compose = composed \<rparr>))"

definition lock_manifest ::
  "include_fetcher \<Rightarrow> catalog_client \<Rightarrow> flake_locker \<Rightarrow> int \<Rightarrow> Manifest \<Rightarrow> Lockfile option \<Rightarrow> LockError + Lockfile" where
  "lock_manifest fetch client locker now m seed =
     lock_manifest_with_include_upgrades fetch client locker now m seed None"

section \<open>Facts about the parts\<close>

lemma seed_mapping_key:
  assumes "seed_mapping seed (iid, system) = Some (d, p)"
  shows "locked_install_id p = iid" "locked_system p = system"
    "\<exists>l. seed = Some l \<and> p \<in> set (lf_packages l) \<and> bm_get (mf_install (lf_manifest l)) iid = Some d"
proof -
  obtain l where l: "seed = Some l" "map_of (rev (make_seed_mapping l)) (iid, system) = Some (d, p)"
    using assms by (auto simp: seed_mapping_def split: option.splits)
  then have "((iid, system), (d, p)) \<in> set (make_seed_mapping l)"
    by (auto dest: map_of_SomeD)
  then obtain p' where p': "p' \<in> set (lf_packages l)"
    "map_option (\<lambda>d. ((locked_install_id p', locked_system p'), (d, p')))
       (bm_get (mf_install (lf_manifest l)) (locked_install_id p')) = Some ((iid, system), (d, p))"
    unfolding make_seed_mapping_def in_map_filter by blast
  then show "locked_install_id p = iid" "locked_system p = system"
    "\<exists>l. seed = Some l \<and> p \<in> set (lf_packages l) \<and> bm_get (mf_install (lf_manifest l)) iid = Some d"
    using l(1) by auto
qed

lemma check_packages_iff:
  "check_packages_are_allowed ps allow = Ok () \<longleftrightarrow> (\<forall>p \<in> set ps. check_package_allowed allow p = Ok ())"
  by (induction ps) (auto simp: result_simps split: sum.splits)

lemma check_package_priority [simp]:
  "check_package_allowed allow (p \<lparr> lpc_priority := n \<rparr>) = check_package_allowed allow p"
proof -
  have "lpc_broken (p \<lparr> lpc_priority := n \<rparr>) = lpc_broken p" "lpc_unfree (p \<lparr> lpc_priority := n \<rparr>) = lpc_unfree p"
    "lpc_license (p \<lparr> lpc_priority := n \<rparr>) = lpc_license p" "lpc_install_id (p \<lparr> lpc_priority := n \<rparr>) = lpc_install_id p"
    by simp_all
  then show ?thesis
    unfolding check_package_allowed_def by (simp only:)
qed

text \<open>Updating the priorities changes nothing else.\<close>

lemma update_priority_sub:
  assumes "p \<in> set (update_priority m ps)"
  shows "p \<in> set ps \<or> (\<exists>c. LockedCatalog c \<in> set ps \<and> p = LockedCatalog (c \<lparr> lpc_priority := manifest_priority m (lpc_install_id c) \<rparr>))"
  using assms by (induction m ps rule: update_priority.induct) auto

text \<open>Every descriptor of a group stands for a catalog package of the manifest and one system.\<close>

lemma collect_results_in:
  assumes "collect_results f xs = Ok ys" "y \<in> set ys"
  shows "\<exists>x \<in> set xs. f x = Ok y"
  using assms by (induction xs arbitrary: ys) (auto simp: result_simps split: sum.splits)

lemma collect_results_from:
  assumes "collect_results f xs = Ok ys" "x \<in> set xs"
  shows "\<exists>y \<in> set ys. f x = Ok y"
  using assms by (induction xs arbitrary: ys) (auto simp: result_simps split: sum.splits)

lemma pkg_systems_sub:
  assumes "pkg_systems m iid d = Ok ss" "s \<in> set ss"
  shows "show_system s \<in> set (requested_systems m (pdc_systems d))"
proof -
  have "collect_results (\<lambda>s. ok_or (UnrecognizedSystem s) (system_from_str s)) (sort (requested_systems m (pdc_systems d))) = Ok ss"
    using assms(1) by (auto simp: pkg_systems_def Let_def split: option.splits)
  from collect_results_in [OF this assms(2)] show ?thesis
    by (auto simp: ok_or_Inr_iff dest: show_from_system)
qed

lemma groups_descriptors:
  assumes "collect_resolution_package_groups m seed = Ok groups" "g \<in> set groups" "x \<in> set (pg_descriptors g)"
    and "bm_inv (mf_install m)"
  obtains iid d s where "bm_get (mf_install m) iid = Some (Catalog d)" "x = descriptor_for m seed iid d s"
    "show_system s \<in> set (requested_systems m (pdc_systems d))"
proof -
  obtain name pkgs where g: "(name, pkgs) \<in> set (catalog_pkgs_by_group m)"
    "map_ok (\<lambda>ds. \<lparr> pg_name = name, pg_descriptors = ds \<rparr>) (group_descriptors m seed pkgs) = Ok g"
    using collect_results_in [OF assms(1) [unfolded collect_resolution_package_groups_def] assms(2)] by fastforce
  then have "group_descriptors m seed pkgs = Ok (pg_descriptors g)"
    by (auto simp: map_ok_Inr_iff)
  then obtain dss where dss: "collect_results (\<lambda>(iid, desc).
      map_ok (map (descriptor_for m seed iid desc)) (pkg_systems m iid desc)) pkgs = Ok dss" "pg_descriptors g = concat dss"
    by (auto simp: group_descriptors_def map_ok_Inr_iff)
  then obtain ds where ds: "ds \<in> set dss" "x \<in> set ds"
    using assms(3) by auto
  obtain iid d where d: "(iid, d) \<in> set pkgs" "map_ok (map (descriptor_for m seed iid d)) (pkg_systems m iid d) = Ok ds"
    using collect_results_in [OF dss(1) ds(1)] by fastforce
  then obtain ss where ss: "pkg_systems m iid d = Ok ss" "ds = map (descriptor_for m seed iid d) ss"
    by (auto simp: map_ok_Inr_iff)
  then obtain s where "s \<in> set ss" "x = descriptor_for m seed iid d s"
    using ds(2) by auto
  moreover have "bm_get (mf_install m) iid = Some (Catalog d)"
    using group_members [OF assms(4), of iid d] g(1) d(1) by blast
  ultimately show thesis
    using that pkg_systems_sub [OF ss(1)] by blast
qed

section \<open>Where the packages of a lock come from\<close>

lemma resolve_manifest_cases:
  assumes "resolve_manifest client locker now m seed = Ok ps" "p \<in> set ps"
  obtains (store) x where "p = LockedStorePath x" "x \<in> set (collect_store_paths m)"
  | (already) groups where "collect_resolution_package_groups m seed = Ok groups"
      "p \<in> set (update_priority m (fst (split_fully_locked_groups groups seed)))"
      "\<forall>c. LockedCatalog c \<in> set (fst (split_fully_locked_groups groups seed)) \<longrightarrow>
        check_package_allowed (opt_allow (mf_options m)) c = Ok ()"
  | (already_flake) "p \<in> set (fst (split_locked_flake_installables (collect_flake_installables m) seed))"
  | (resolved) groups locked c where "p = LockedCatalog c" "c \<in> set locked"
      "locked_packages_from_resolution now m groups = Ok locked"
      "check_package_allowed (opt_allow (mf_options m)) c = Ok ()"
  | (flake) locked f where "p = LockedFlake f" "f \<in> set locked"
      "lock_flake_installables locker (snd (split_locked_flake_installables (collect_flake_installables m) seed)) = Ok locked"
proof -
  obtain groups where groups: "collect_resolution_package_groups m seed = Ok groups"
    using assms(1) by (auto simp: resolve_manifest_def result_simps)
  obtain al gl where split: "split_fully_locked_groups groups seed = (al, gl)"
    by fastforce
  obtain ai il where flakes: "split_locked_flake_installables (collect_flake_installables m) seed = (ai, il)"
    by fastforce
  have checked: "check_packages_are_allowed (List.map_filter as_catalog_package_ref al) (opt_allow (mf_options m)) = Ok ()"
    using assms(1) groups split flakes by (auto simp: resolve_manifest_def Let_def result_simps)
  have allowed: "\<forall>c. LockedCatalog c \<in> set al \<longrightarrow> check_package_allowed (opt_allow (mf_options m)) c = Ok ()"
    using checked unfolding check_packages_iff by (auto simp: in_map_filter)
  let ?done = "map LockedStorePath (collect_store_paths m) @ update_priority m al @ ai"
  show thesis
  proof (cases "gl = [] \<and> il = []")
    case True
    then have "ps = ?done"
      using assms(1) groups split flakes checked by (simp add: resolve_manifest_def Let_def)
    then have "p \<in> set (map LockedStorePath (collect_store_paths m)) \<or> p \<in> set (update_priority m al) \<or> p \<in> set ai"
      using assms(2) by auto
    then show ?thesis
      using store already [OF groups] already_flake split flakes allowed by auto
  next
    case False
    then obtain resolved locked installed where r:
      "locked_packages_from_resolution now m resolved = Ok locked"
      "(if il = [] then Ok [] else lock_flake_installables locker il) = Ok installed"
      "check_packages_are_allowed locked (opt_allow (mf_options m)) = Ok ()"
      "ps = map LockedStorePath (collect_store_paths m) @ update_priority m al @ map LockedCatalog locked @ ai @
        map LockedFlake installed"
      using assms(1) groups split flakes checked by (auto simp: resolve_manifest_def Let_def result_simps)
    have il: "lock_flake_installables locker il = Ok installed"
      using r(2) by (cases il) (auto simp: lock_flake_installables_def)
    have "p \<in> set (map LockedStorePath (collect_store_paths m)) \<or> p \<in> set (update_priority m al) \<or> p \<in> set ai \<or>
        p \<in> set (map LockedCatalog locked) \<or> p \<in> set (map LockedFlake installed)"
      using assms(2) r(4) by auto
    then show ?thesis
      using store already [OF groups] already_flake split flakes allowed r(1,3) il flake resolved
      by (auto simp: check_packages_iff)
  qed
qed

lemma already_locked_package:
  assumes "collect_resolution_package_groups m seed = Ok groups" "bm_inv (mf_install m)"
    and "p \<in> set (fst (split_fully_locked_groups groups seed))"
  obtains iid d s d' c where "bm_get (mf_install m) iid = Some (Catalog d)"
    "seed_mapping seed (iid, s) = Some (d', LockedCatalog c)" "p = LockedCatalog c"
    "s \<in> set (requested_systems m (pdc_systems d))"
proof -
  obtain g x s where gx: "g \<in> set groups" "fully_locked g" "x \<in> set (pg_descriptors g)" "s \<in> set (apd_systems x)"
    "map_option snd (seed_mapping seed (apd_install_id x, show_system s)) = Some p"
    using assms(3) by (auto simp: split_fully_locked_groups_def in_map_filter)
  obtain iid d s' where d: "bm_get (mf_install m) iid = Some (Catalog d)" "x = descriptor_for m seed iid d s'"
    "show_system s' \<in> set (requested_systems m (pdc_systems d))"
    by (rule groups_descriptors [OF assms(1) gx(1,3) assms(2)])
  have s: "s = s'"
    using gx(4) d(2) by (simp add: descriptor_for_def)
  have "apd_derivation x \<noteq> None"
    using gx(2,3) by (simp add: fully_locked_def list_all_iff)
  then obtain d' c where dc: "seed_mapping seed (iid, show_system s') = Some (d', LockedCatalog c)"
    by (auto simp: d(2) descriptor_for_def seed_derivation_def bind_eq_Some_conv split: if_splits)
  then have "p = LockedCatalog c"
    using gx(5) s by (simp add: d(2) descriptor_for_def)
  then show thesis
    using that d dc by blast
qed

lemma chunk_by_concat: "concat (chunk_by key xs) = xs"
  by (induction key xs rule: chunk_by.induct) (simp_all add: takeWhile_dropWhile_id)

lemma locked_chunk_in:
  assumes "locked_chunk seed is = Some ps" "p \<in> set ps"
  obtains i d f where "i \<in> set is" "seed_mapping seed (fi_install_id i, fi_system i) = Some (d, LockedFlake f)"
    "p = LockedFlake f"
  using assms
proof (induction "is" arbitrary: ps)
  case (Cons i "is")
  obtain d f ps' where "seed_mapping seed (fi_install_id i, fi_system i) = Some (d, LockedFlake f)"
    "locked_chunk seed is = Some ps'" "ps = LockedFlake f # ps'"
    using Cons.prems(2) by (auto split: option.splits LockedPackage.splits if_splits)
  then show ?case
    using Cons.IH [of ps'] Cons.prems(1,3) by fastforce
qed simp

lemma flake_installables:
  assumes "i \<in> set (collect_flake_installables m)" "bm_inv (mf_install m)"
  shows "bm_get (mf_install m) (fi_install_id i) = Some (FlakeRef (fi_descriptor i))"
    "fi_system i \<in> set (requested_systems m (pdf_systems (fi_descriptor i)))"
proof -
  obtain iid d s where "(iid, FlakeRef d) \<in> set (mf_install m)" "s \<in> set (requested_systems m (pdf_systems d))"
    "i = \<lparr> fi_install_id = iid, fi_descriptor = d, fi_system = s \<rparr>"
    using assms(1) by (auto simp: collect_flake_installables_def in_map_filter)
  moreover have "distinct (map fst (mf_install m))"
    using assms(2) by (simp add: bm_inv_def strict_sorted_iff)
  ultimately show "bm_get (mf_install m) (fi_install_id i) = Some (FlakeRef (fi_descriptor i))"
    "fi_system i \<in> set (requested_systems m (pdf_systems (fi_descriptor i)))"
    by simp_all
qed

lemma split_flakes_sub:
  "i \<in> set (snd (split_locked_flake_installables is seed)) \<Longrightarrow> i \<in> set is"
  "p \<in> set (fst (split_locked_flake_installables is seed)) \<Longrightarrow>
     \<exists>i d f. i \<in> set is \<and> seed_mapping seed (fi_install_id i, fi_system i) = Some (d, LockedFlake f) \<and> p = LockedFlake f"
proof -
  have sub: "c \<in> set (chunk_by fi_install_id is) \<Longrightarrow> i \<in> set c \<Longrightarrow> i \<in> set is" for c i
    using chunk_by_concat [of fi_install_id "is"] by (metis UN_I set_concat)
  show "i \<in> set (snd (split_locked_flake_installables is seed)) \<Longrightarrow> i \<in> set is"
    using sub by (auto simp: split_locked_flake_installables_def Let_def)
  assume "p \<in> set (fst (split_locked_flake_installables is seed))"
  then obtain c ps where c: "c \<in> set (chunk_by fi_install_id is)" "locked_chunk seed c = Some ps" "p \<in> set ps"
    by (auto simp: split_locked_flake_installables_def Let_def in_map_filter)
  obtain i d f where "i \<in> set c" "seed_mapping seed (fi_install_id i, fi_system i) = Some (d, LockedFlake f)"
    "p = LockedFlake f"
    by (rule locked_chunk_in [OF c(2,3)])
  then show "\<exists>i d f. i \<in> set is \<and> seed_mapping seed (fi_install_id i, fi_system i) = Some (d, LockedFlake f) \<and>
      p = LockedFlake f"
    using sub [OF c(1)] by blast
qed

lemma resolved_package:
  assumes "locked_packages_from_resolution now m groups = Ok locked" "c \<in> set locked"
  obtains r d where "c = catalog_from_parts now r d" "bm_get (mf_install m) (lpc_install_id c) = Some (Catalog d)"
    "\<exists>g \<in> set groups. r \<in> set (resolved_packages g)"
proof -
  have "locked = List.map_filter (\<lambda>p. map_option (catalog_from_parts now p) (catalog_descriptor_with_id m (rpd_install_id p)))
       (concat (map resolved_packages groups))"
    using assms(1) by (auto simp: locked_packages_from_resolution_def result_simps split: if_splits)
  with assms(2) have "c \<in> set (List.map_filter (\<lambda>p. map_option (catalog_from_parts now p)
      (catalog_descriptor_with_id m (rpd_install_id p))) (concat (map resolved_packages groups)))"
    by simp
  then obtain r where r: "r \<in> set (concat (map resolved_packages groups))"
    "map_option (catalog_from_parts now r) (catalog_descriptor_with_id m (rpd_install_id r)) = Some c"
    unfolding in_map_filter by blast
  then obtain d where d: "catalog_descriptor_with_id m (rpd_install_id r) = Some d" "c = catalog_from_parts now r d"
    by auto
  moreover have "lpc_install_id c = rpd_install_id r"
    using d(2) by (simp add: catalog_from_parts_def)
  moreover have "\<exists>g \<in> set groups. r \<in> set (resolved_packages g)"
    using r(1) by simp
  ultimately show thesis
    using that by (simp add: catalog_descriptor_iff)
qed

text \<open>An element that contributes nothing can be left out.\<close>

lemma collect_results_skip:
  assumes "f y = Ok []"
  shows "map_ok concat (collect_results f (xs @ y # ys)) = map_ok concat (collect_results f (xs @ ys))"
proof (induction xs)
  case Nil
  then show ?case
    using assms by (cases "collect_results f ys") simp_all
next
  case (Cons x xs)
  then show ?case
    by (cases "f x"; cases "collect_results f (xs @ y # ys)"; cases "collect_results f (xs @ ys)") simp_all
qed

section \<open>Properties of locking\<close>

text \<open>
  C18. Locking never admits a package that the options forbid, as long as its license is known or
  no license list is set: every catalog package of the result, reused or resolved, has an
  allowed license, is broken only if broken packages are allowed, and is unfree only if
  unfree ones are not forbidden.
\<close>
theorem locked_packages_are_allowed:
  assumes "resolve_manifest client locker now m seed = Ok ps" and "LockedCatalog c \<in> set ps"
    and "bm_inv (mf_install m)" and "allow = opt_allow (mf_options m)"
    and "lpc_license c \<noteq> None \<or> allowed_licenses allow = None"
  shows "(case allowed_licenses allow of None \<Rightarrow> True | Some ls \<Rightarrow> the (lpc_license c) \<in> set ls) \<and>
    (lpc_broken c = Some True \<longrightarrow> allow_broken allow = Some True) \<and>
    (lpc_unfree c = Some True \<longrightarrow> allow_unfree allow \<noteq> Some False)"
proof -
  have "check_package_allowed allow c = Ok ()"
  proof (rule resolve_manifest_cases [OF assms(1,2)])
    fix groups
    assume groups: "LockedCatalog c \<in> set (update_priority m (fst (split_fully_locked_groups groups seed)))"
      "\<forall>c. LockedCatalog c \<in> set (fst (split_fully_locked_groups groups seed)) \<longrightarrow>
        check_package_allowed (opt_allow (mf_options m)) c = Ok ()"
    then show ?thesis
      using update_priority_sub [OF groups(1)] by (auto simp: assms(4))
  next
    assume "LockedCatalog c \<in> set (fst (split_locked_flake_installables (collect_flake_installables m) seed))"
    then show ?thesis
      using split_flakes_sub(2) by blast
  qed (use assms(4) in auto)
  then show ?thesis
    using assms(5) by (auto simp: check_package_allowed_def Let_def split: option.splits if_splits)
qed

text \<open>
  With a list of allowed licenses, packages whose license is unknown skip all checks: they are
  admitted even when they are broken or unfree and the options forbid that.
\<close>
theorem unlicensed_packages_escape_checks:
  assumes "allow_licenses allow = Some (l # ls)" and "\<forall>c \<in> set ps. lpc_license c = None"
  shows "check_packages_are_allowed ps allow = Ok ()"
  using assms by (simp add: check_packages_iff check_package_allowed_def allowed_licenses_def)

text \<open>
  A group that the catalog could not resolve is dropped silently when none of its messages is
  an error: locking then gives what it would give had the group not been asked for, and
  succeeds without the packages of the group.
\<close>
theorem failed_groups_without_errors_are_dropped:
  assumes "rpg_page g = None" and "\<forall>msg \<in> set (rpg_msgs g). message_level msg \<noteq> LevelError"
  shows "locked_packages_from_resolution now m (gs1 @ g # gs2) = locked_packages_from_resolution now m (gs1 @ gs2)"
proof -
  let ?bad = "\<lambda>g. case rpg_page g of None \<Rightarrow> True | Some p \<Rightarrow> \<not> cp_complete p"
  have detect: "map ((!) gs) (detect_failed_resolutions gs) = filter ?bad gs" for gs
  proof -
    have "map ((!) gs) (map fst (filter (\<lambda>(_, g). ?bad g) (enumerate n xs))) = filter ?bad xs"
      if "gs = pre @ xs" "n = length pre" for n pre xs
      using that
    proof (induction xs arbitrary: n pre)
      case (Cons x xs)
      have "map ((!) gs) (map fst (filter (\<lambda>(_, g). ?bad g) (enumerate (Suc n) xs))) = filter ?bad xs"
        using Cons.IH [of "pre @ [x]" "Suc n"] Cons.prems by simp
      then show ?case
        using Cons.prems by simp
    qed simp
    from this [of "[]" gs 0] show ?thesis
      by (simp add: detect_failed_resolutions_def)
  qed
  have none: "filter (\<lambda>msg. message_level msg = LevelError) (rpg_msgs g) = []"
    using assms(2) by simp
  have "collect_failures (filter ?bad (gs1 @ g # gs2)) m = collect_failures (filter ?bad (gs1 @ gs2)) m"
    using assms(1) by (simp add: collect_failures_def collect_results_skip none)
  moreover have "concat (map resolved_packages (gs1 @ g # gs2)) = concat (map resolved_packages (gs1 @ gs2))"
    by (simp add: resolved_packages_def assms(1))
  ultimately show ?thesis
    by (simp only: locked_packages_from_resolution_def detect)
qed

text \<open>
  C19. Whatever the catalog and the flake locker answer, and whatever is reused, each package of a
  lock stands for an install id of the manifest whose descriptor has the kind of the package.
  So listing the packages of the lockfile for a system never fails.
\<close>
theorem locked_packages_can_be_listed:
  assumes "resolve_manifest client locker now m seed = Ok ps" and "bm_inv (mf_install m)"
    and "lf_manifest lockfile = m" and "lf_packages lockfile = ps"
  shows "(\<forall>p \<in> set ps. locked_for m p) \<and> (\<exists>listed. list_packages lockfile system = Ok listed)"
proof -
  have "locked_for m p" if p: "p \<in> set ps" for p
  proof (rule resolve_manifest_cases [OF assms(1) p])
    fix x
    assume "p = LockedStorePath x" "x \<in> set (collect_store_paths m)"
    moreover have "distinct (map fst (mf_install m))"
      using assms(2) by (simp add: bm_inv_def strict_sorted_iff)
    ultimately show ?thesis
      by (auto simp: locked_for_def collect_store_paths_def in_map_filter) blast
  next
    fix groups
    assume groups: "collect_resolution_package_groups m seed = Ok groups"
      "p \<in> set (update_priority m (fst (split_fully_locked_groups groups seed)))"
    have kind: "\<exists>c d. q = LockedCatalog c \<and> bm_get (mf_install m) (lpc_install_id c) = Some (Catalog d)"
      if q: "q \<in> set (fst (split_fully_locked_groups groups seed))" for q
    proof -
      obtain iid d s d' c where "bm_get (mf_install m) iid = Some (Catalog d)"
        "seed_mapping seed (iid, s) = Some (d', LockedCatalog c)" "q = LockedCatalog c"
        by (rule already_locked_package [OF groups(1) assms(2) q])
      then show ?thesis
        using seed_mapping_key(1) by fastforce
    qed
    then show ?thesis
      using update_priority_sub [OF groups(2)] by (fastforce simp: locked_for_def)
  next
    assume "p \<in> set (fst (split_locked_flake_installables (collect_flake_installables m) seed))"
    then obtain i d f where i: "i \<in> set (collect_flake_installables m)"
      "seed_mapping seed (fi_install_id i, fi_system i) = Some (d, LockedFlake f)" "p = LockedFlake f"
      using split_flakes_sub(2) by blast
    then show ?thesis
      using flake_installables(1) [OF i(1) assms(2)] seed_mapping_key(1) [OF i(2)] by (simp add: locked_for_def)
  next
    fix groups locked c
    assume c: "p = LockedCatalog c" "c \<in> set locked" "locked_packages_from_resolution now m groups = Ok locked"
    show ?thesis
      by (rule resolved_package [OF c(3,2)]) (simp add: locked_for_def c(1))
  next
    fix locked f
    assume f: "p = LockedFlake f" "f \<in> set locked"
      "lock_flake_installables locker (snd (split_locked_flake_installables (collect_flake_installables m) seed)) = Ok locked"
    obtain i where i: "i \<in> set (snd (split_locked_flake_installables (collect_flake_installables m) seed))"
      "(case locker (fi_system i) (fi_descriptor i) of Inl e \<Rightarrow> Err (flake_lock_error e)
        | Inr l \<Rightarrow> Ok \<lparr> lpf_install_id = fi_install_id i, lpf_locked_installable = l \<rparr>) = Ok f"
      using collect_results_in [OF f(3) [unfolded lock_flake_installables_def] f(2)] by blast
    then have "lpf_install_id f = fi_install_id i"
      by (cases "locker (fi_system i) (fi_descriptor i)") auto
    with i(1) show ?thesis
      using flake_installables(1) [OF split_flakes_sub(1) assms(2)] by (simp add: f(1) locked_for_def)
  qed
  then show ?thesis
    using list_packages_ok [of lockfile system] assms(3,4) by simp
qed

text \<open>A lockfile that holds every package of a manifest for each of its systems.\<close>

definition covers :: "Lockfile \<Rightarrow> Manifest \<Rightarrow> bool" where
  "covers seed m \<longleftrightarrow>
     list_all (\<lambda>(iid, desc). case desc of
         Catalog d \<Rightarrow> list_all (\<lambda>s. seed_derivation (Some seed) iid d s \<noteq> None) (requested_systems m (pdc_systems d))
       | FlakeRef d \<Rightarrow> list_all (\<lambda>s. case seed_mapping (Some seed) (iid, s) of
             Some (old, LockedFlake _) \<Rightarrow> \<not> invalidates_existing_resolution desc old
           | _ \<Rightarrow> False) (requested_systems m (pdf_systems d))
       | StorePathPkg _ \<Rightarrow> True) (mf_install m)"

lemma covers_fully_locked:
  assumes "covers seed m" "collect_resolution_package_groups m (Some seed) = Ok groups" "bm_inv (mf_install m)"
  shows "snd (split_fully_locked_groups groups (Some seed)) = []"
proof -
  have "apd_derivation x \<noteq> None" if x: "g \<in> set groups" "x \<in> set (pg_descriptors g)" for g x
  proof -
    obtain iid d s where d: "bm_get (mf_install m) iid = Some (Catalog d)" "x = descriptor_for m (Some seed) iid d s"
      "show_system s \<in> set (requested_systems m (pdc_systems d))"
      by (rule groups_descriptors [OF assms(2) x assms(3)])
    then have "(iid, Catalog d) \<in> set (mf_install m)"
      by (simp add: map_of_SomeD)
    then show ?thesis
      using assms(1) d(2,3) by (auto simp: covers_def list_all_iff descriptor_for_def)
  qed
  then show ?thesis
    by (simp add: split_fully_locked_groups_def fully_locked_def list_all_iff)
qed

lemma locked_chunk_covered:
  assumes "\<forall>i \<in> set is. case seed_mapping seed (fi_install_id i, fi_system i) of
      Some (old, LockedFlake _) \<Rightarrow> \<not> invalidates_existing_resolution (FlakeRef (fi_descriptor i)) old | _ \<Rightarrow> False"
  shows "locked_chunk seed is \<noteq> None"
  using assms by (induction "is") (auto split: option.splits LockedPackage.splits)

lemma covers_flakes:
  assumes "covers seed m" "bm_inv (mf_install m)"
  shows "snd (split_locked_flake_installables (collect_flake_installables m) (Some seed)) = []"
proof -
  have covered: "case seed_mapping (Some seed) (fi_install_id i, fi_system i) of
      Some (old, LockedFlake _) \<Rightarrow> \<not> invalidates_existing_resolution (FlakeRef (fi_descriptor i)) old | _ \<Rightarrow> False"
    if i: "i \<in> set (collect_flake_installables m)" for i
  proof -
    have "(fi_install_id i, FlakeRef (fi_descriptor i)) \<in> set (mf_install m)"
      using flake_installables(1) [OF i assms(2)] by (simp add: map_of_SomeD)
    then show ?thesis
      using assms(1) flake_installables(2) [OF i assms(2)] by (fastforce simp: covers_def list_all_iff)
  qed
  have "c \<in> set (chunk_by fi_install_id (collect_flake_installables m)) \<Longrightarrow> locked_chunk (Some seed) c \<noteq> None" for c
    using locked_chunk_covered covered chunk_by_concat [of fi_install_id "collect_flake_installables m"]
    by (metis UN_I set_concat)
  then show ?thesis
    by (simp add: split_locked_flake_installables_def Let_def filter_empty_conv)
qed

text \<open>
  C20. A lockfile that covers the manifest is relocked without asking the catalog or locking a
  flake: the result does not depend on them or on the clock, and its packages are those of the
  lockfile, with the priorities the manifest gives now.
\<close>
theorem covered_manifest_relocks_offline:
  assumes "covers seed m" and "bm_inv (mf_install m)"
  shows "resolve_manifest client locker now m (Some seed) = resolve_manifest client' locker' now' m (Some seed) \<and>
    (\<forall>ps. resolve_manifest client locker now m (Some seed) = Ok ps \<longrightarrow>
      (\<forall>p \<in> set ps. case p of
         LockedCatalog c \<Rightarrow> (\<exists>c0. LockedCatalog c0 \<in> set (lf_packages seed) \<and>
           c = c0 \<lparr> lpc_priority := manifest_priority m (lpc_install_id c0) \<rparr>)
       | LockedFlake _ \<Rightarrow> p \<in> set (lf_packages seed)
       | LockedStorePath x \<Rightarrow> x \<in> set (collect_store_paths m)))"
proof (cases "collect_resolution_package_groups m (Some seed)")
  case (Inl e)
  then show ?thesis
    by (simp add: resolve_manifest_def)
next
  case (Inr groups)
  obtain al gl where split: "split_fully_locked_groups groups (Some seed) = (al, gl)"
    by fastforce
  obtain ai il where flakes: "split_locked_flake_installables (collect_flake_installables m) (Some seed) = (ai, il)"
    by fastforce
  have "gl = []" "il = []"
    using covers_fully_locked [OF assms(1) Inr assms(2)] covers_flakes [OF assms] split flakes by simp_all
  then have offline: "resolve_manifest client locker now m (Some seed) =
      and_then (check_packages_are_allowed (List.map_filter as_catalog_package_ref al) (opt_allow (mf_options m))) (\<lambda>_.
        Ok (map LockedStorePath (collect_store_paths m) @ update_priority m al @ ai))" for client locker now
    using Inr split flakes by (simp add: resolve_manifest_def Let_def)
  have al: "\<exists>c. p = LockedCatalog c \<and> p \<in> set (lf_packages seed)" if p: "p \<in> set al" for p
  proof -
    have "p \<in> set (fst (split_fully_locked_groups groups (Some seed)))"
      using p split by simp
    then obtain iid d s d' c where "bm_get (mf_install m) iid = Some (Catalog d)"
      "seed_mapping (Some seed) (iid, s) = Some (d', LockedCatalog c)" "p = LockedCatalog c"
      by (rule already_locked_package [OF Inr assms(2)])
    then show ?thesis
      using seed_mapping_key(3) by fastforce
  qed
  have priority: "\<exists>c0. LockedCatalog c0 \<in> set (lf_packages seed) \<and>
      p = LockedCatalog (c0 \<lparr> lpc_priority := manifest_priority m (lpc_install_id c0) \<rparr>)"
    if "p \<in> set (update_priority m al)" for p
  proof -
    have "\<forall>q \<in> set al. \<exists>c. q = LockedCatalog c"
      using al by blast
    then have "update_priority m al = map (\<lambda>q. case q of LockedCatalog c \<Rightarrow>
        LockedCatalog (c \<lparr> lpc_priority := manifest_priority m (lpc_install_id c) \<rparr>) | _ \<Rightarrow> q) al"
      by (induction al) auto
    then show ?thesis
      using that al by force
  qed
  have ai: "\<exists>f. p = LockedFlake f \<and> p \<in> set (lf_packages seed)" if p: "p \<in> set ai" for p
  proof -
    have "p \<in> set (fst (split_locked_flake_installables (collect_flake_installables m) (Some seed)))"
      using flakes p by simp
    then obtain i d f where "i \<in> set (collect_flake_installables m)"
      "seed_mapping (Some seed) (fi_install_id i, fi_system i) = Some (d, LockedFlake f)" "p = LockedFlake f"
      using split_flakes_sub(2) by blast
    then show ?thesis
      using seed_mapping_key(3) by fastforce
  qed
  have "case p of
         LockedCatalog c \<Rightarrow> (\<exists>c0. LockedCatalog c0 \<in> set (lf_packages seed) \<and>
           c = c0 \<lparr> lpc_priority := manifest_priority m (lpc_install_id c0) \<rparr>)
       | LockedFlake _ \<Rightarrow> p \<in> set (lf_packages seed)
       | LockedStorePath x \<Rightarrow> x \<in> set (collect_store_paths m)"
    if "p \<in> set (map LockedStorePath (collect_store_paths m)) \<or> p \<in> set (update_priority m al) \<or> p \<in> set ai" for p
    using that
  proof (elim disjE)
    assume "p \<in> set (update_priority m al)"
    from priority [OF this] show ?thesis
      by (elim exE conjE) (simp, blast)
  next
    assume "p \<in> set ai"
    from ai [OF this] show ?thesis
      by auto
  qed auto
  then show ?thesis
    unfolding offline by (auto simp: result_simps)
qed

section \<open>Properties of composing\<close>

lemma check_names_iff:
  "check_locked_names_unique seen ls = Ok () \<longleftrightarrow> distinct (map linc_name ls) \<and> set seen \<inter> linc_name ` set ls = {}"
  by (induction ls arbitrary: seen) auto

lemma lock_include_cases:
  assumes "lock_include fetch existing to_upgrade include = Ok (l, rest)"
  shows "existing include = Some l \<or> fetch include = Ok l"
  using assms by (auto simp: lock_include_def Let_def map_ok_Inr_iff split: option.splits sum.splits prod.splits bool.splits)

lemma lock_includes_facts:
  assumes "lock_includes fetch existing to_upgrade ds = Ok (ls, rest)"
  shows "list_all2 (\<lambda>d l. existing d = Some l \<or> fetch d = Ok l) ds ls"
    and "to_upgrade = None \<Longrightarrow> list_all2 (\<lambda>d l. existing d \<in> {None, Some l}) ds ls"
  using assms
proof (induction ds arbitrary: to_upgrade ls)
  case (Cons d ds)
  {
    fix to_upgrade ls
    assume prem: "lock_includes fetch existing to_upgrade (d # ds) = Ok (ls, rest)"
    have "\<exists>l rest' ls'. lock_include fetch existing to_upgrade d = Ok (l, rest') \<and>
      lock_includes fetch existing rest' ds = Ok (ls', rest) \<and> ls = l # ls'"
      using prem by (auto simp: result_simps map_ok_Inr_iff)
  }
  note step = this
  {
    case 1
    then show ?case
      using step [OF 1] Cons.IH(1) lock_include_cases by fastforce
  next
    case 2
    obtain l rest' ls' where l: "lock_include fetch existing to_upgrade d = Ok (l, rest')"
      "lock_includes fetch existing rest' ds = Ok (ls', rest)" "ls = l # ls'"
      using step [OF 2(2)] by blast
    then have "rest' = None \<and> existing d \<in> {None, Some l}"
      using 2(1) by (auto simp: lock_include_def Let_def map_ok_Inr_iff split: option.splits)
    then show ?case
      using Cons.IH(2) l by simp
  }
qed simp_all

lemma existing_descriptor: "existing_locked_include all seed d = Some l \<Longrightarrow> linc_descriptor l = d"
  by (auto simp: existing_locked_include_def bind_eq_Some_conv find_Some_iff split: if_splits)

text \<open>
  A lock of a composed environment keeps the manifest of the user, and holds one include for
  each that the manifest asks for, in its order and under distinct names. Each is the one
  of the previous lock for the same descriptor, or has just been fetched; with no upgrade
  asked for, those of the previous lock are never fetched again.
\<close>
theorem includes_are_locked:
  assumes "lock_manifest_with_include_upgrades fetch client locker now m seed to_upgrade = Ok lockfile"
    and "\<forall>d l. fetch d = Ok l \<longrightarrow> linc_descriptor l = d"
  shows "user_manifest lockfile = m \<and>
    (mf_include m = [] \<and> lf_compose lockfile = None \<or>
     (\<exists>c. lf_compose lockfile = Some c \<and> map linc_descriptor (comp_include c) = mf_include m \<and>
        distinct (map linc_name (comp_include c)) \<and>
        (\<forall>l \<in> set (comp_include c).
           existing_locked_include False seed (linc_descriptor l) = Some l \<or> fetch (linc_descriptor l) = Ok l) \<and>
        (to_upgrade = None \<longrightarrow> (\<forall>l \<in> set (comp_include c).
           existing_locked_include False seed (linc_descriptor l) \<in> {None, Some l}))))"
proof -
  obtain merged cinfo ps where lf: "merge_manifest fetch m seed to_upgrade = Ok (merged, cinfo)"
    "lockfile = \<lparr> lf_manifest = merged, lf_packages = ps, lf_compose = cinfo \<rparr>"
    using assms(1) by (auto simp: lock_manifest_with_include_upgrades_def split: sum.splits)
  show ?thesis
  proof (cases "mf_include m = []")
    case True
    then show ?thesis
      using lf by (auto simp: merge_manifest_def user_manifest_def split: if_splits)
  next
    case False
    let ?ex = "existing_locked_include (to_upgrade = Some []) seed"
    obtain ls rest warnings where ls: "lock_includes fetch ?ex to_upgrade (mf_include m) = Ok (ls, rest)"
      "check_locked_names_unique [] ls = Ok ()"
      "cinfo = Some \<lparr> comp_composer = m, comp_include = ls, comp_warnings = warnings \<rparr>"
      using lf(1) False by (auto simp: merge_manifest_def result_simps split: if_splits sum.splits)
    note facts = lock_includes_facts(1) [OF ls(1)]
    have ex: "?ex d = Some l \<Longrightarrow> existing_locked_include False seed d = Some l" for d l
      by (simp add: existing_locked_include_def split: if_splits)
    have from_either: "?ex d = Some l \<or> fetch d = Ok l \<Longrightarrow> linc_descriptor l = d" for d l
      using existing_descriptor assms(2) by blast
    have all: "list_all2 (\<lambda>d l. linc_descriptor l = d \<and>
        (existing_locked_include False seed d = Some l \<or> fetch d = Ok l)) (mf_include m) ls"
      by (rule list_all2_mono [OF facts]) (use from_either ex in blast)
    have descriptors: "map linc_descriptor ls = mf_include m"
      by (rule nth_equalityI) (use all in \<open>simp_all add: list_all2_conv_all_nth\<close>)
    have sources: "\<forall>l \<in> set ls. existing_locked_include False seed (linc_descriptor l) = Some l \<or>
        fetch (linc_descriptor l) = Ok l"
      using all by (fastforce simp: list_all2_conv_all_nth in_set_conv_nth)
    have kept: "\<forall>l \<in> set ls. existing_locked_include False seed (linc_descriptor l) \<in> {None, Some l}"
      if none: "to_upgrade = None"
    proof -
      have "list_all2 (\<lambda>d l. existing_locked_include False seed d \<in> {None, Some l}) (mf_include m) ls"
        using lock_includes_facts(2) [OF ls(1) none] none by simp
      then show ?thesis
        using all by (fastforce simp: list_all2_conv_all_nth in_set_conv_nth)
    qed
    have "distinct (map linc_name ls)"
      using ls(2) by (simp add: check_names_iff)
    then show ?thesis
      using lf(2) ls(3) descriptors sources kept by (simp add: user_manifest_def)
  qed
qed

section \<open>A small manifest\<close>

definition demo_pkg :: PackageDescriptorCatalog where
  "demo_pkg = \<lparr> pdc_pkg_path = ''hello'', pdc_pkg_group = None, pdc_priority = Some 3, pdc_version = None,
     pdc_systems = None, pdc_outputs = None \<rparr>"

definition demo_locking_manifest :: Manifest where
  "demo_locking_manifest = default_manifest \<lparr> mf_install := [(''hello'', Catalog demo_pkg)],
     mf_options := default_options \<lparr> opt_systems := Some [''x86_64-linux''],
       opt_allow := \<lparr> allow_unfree = Some False, allow_broken = None, allow_licenses = Some [''MIT''] \<rparr> \<rparr> \<rparr>"

definition demo_resolved :: "string option \<Rightarrow> ResolvedPackageDescriptor" where
  "demo_resolved license = \<lparr> rpd_attr_path = ''hello'', rpd_broken = Some (license = None), rpd_cache_uri = None,
     rpd_catalog = None, rpd_derivation = ''/nix/store/hello.drv'', rpd_description = None, rpd_insecure = None,
     rpd_install_id = ''hello'', rpd_license = license, rpd_locked_url = ''url'', rpd_missing_builds = None,
     rpd_name = ''hello'', rpd_outputs = [(''out'', ''/nix/store/hello'')], rpd_outputs_to_install = None,
     rpd_pkg_path = ''hello'', rpd_pname = ''hello'', rpd_rev = ''rev'', rpd_rev_count = 1, rpd_rev_date = 1,
     rpd_scrape_date = None, rpd_stabilities = None, rpd_system = X8664Linux, rpd_unfree = None,
     rpd_version = ''1'' \<rparr>"

definition demo_locked :: "string option \<Rightarrow> LockedPackageCatalog" where
  "demo_locked license = catalog_from_parts 0 (demo_resolved license) demo_pkg"

definition demo_client :: catalog_client where
  "demo_client groups = Ok (map (\<lambda>g. \<lparr> rpg_msgs = [], rpg_name = pg_name g,
     rpg_page = Some \<lparr> cp_complete = True, cp_packages = Some [demo_resolved (Some ''MIT'')], cp_page = 1,
       cp_url = ''url'', cp_msgs = [] \<rparr> \<rparr>) groups)"

definition demo_locker :: flake_locker where
  "demo_locker system d = Err (NixError ''offline'')"

definition demo_lockfile :: Lockfile where
  "demo_lockfile = \<lparr> lf_manifest = demo_locking_manifest, lf_packages = [LockedCatalog (demo_locked (Some ''MIT''))],
     lf_compose = None \<rparr>"

lemma demo_lock: "resolve_manifest demo_client demo_locker 0 demo_locking_manifest None =
    Ok [LockedCatalog (demo_locked (Some ''MIT''))]"
  by code_simp

lemma demo_locking_inv: "bm_inv (mf_install demo_locking_manifest)"
  by (simp add: demo_locking_manifest_def bm_inv_def)

lemma locked_packages_are_allowed_witness: "lpc_broken (demo_locked (Some ''MIT'')) \<noteq> Some True"
proof -
  have "lpc_license (demo_locked (Some ''MIT'')) \<noteq> None"
    by (simp add: demo_locked_def catalog_from_parts_def demo_resolved_def)
  then show ?thesis
    using locked_packages_are_allowed [OF demo_lock _ demo_locking_inv refl, of "demo_locked (Some ''MIT'')"]
    by (simp add: demo_locking_manifest_def)
qed

lemma unlicensed_packages_escape_checks_witness:
  "lpc_broken (demo_locked None) = Some True \<and>
   check_packages_are_allowed [demo_locked None] (opt_allow (mf_options demo_locking_manifest)) = Ok ()"
  using unlicensed_packages_escape_checks [of "opt_allow (mf_options demo_locking_manifest)" "''MIT''" "[]" "[demo_locked None]"]
  by (simp add: demo_locked_def catalog_from_parts_def demo_resolved_def demo_locking_manifest_def)

lemma failed_groups_without_errors_are_dropped_witness:
  "locked_packages_from_resolution 0 demo_locking_manifest
     [\<lparr> rpg_msgs = [General LevelWarning ''try again later''], rpg_name = ''toplevel'', rpg_page = None \<rparr>] = Ok []"
  using failed_groups_without_errors_are_dropped
    [of "\<lparr> rpg_msgs = [General LevelWarning ''try again later''], rpg_name = ''toplevel'', rpg_page = None \<rparr>"
      0 demo_locking_manifest "[]" "[]"]
  by (simp add: message_level_def locked_packages_from_resolution_def detect_failed_resolutions_def collect_failures_def)

lemma locked_packages_can_be_listed_witness:
  "\<exists>listed. list_packages demo_lockfile ''x86_64-linux'' = Ok listed"
  using locked_packages_can_be_listed [OF demo_lock demo_locking_inv, of demo_lockfile] by (simp add: demo_lockfile_def)

lemma covered_manifest_relocks_offline_witness:
  "resolve_manifest (\<lambda>_. Err ''offline'') demo_locker 0 demo_locking_manifest (Some demo_lockfile) =
   resolve_manifest demo_client demo_locker 1 demo_locking_manifest (Some demo_lockfile)"
proof -
  have "covers demo_lockfile demo_locking_manifest"
    by code_simp
  then show ?thesis
    using covered_manifest_relocks_offline [OF _ demo_locking_inv] by blast
qed

definition demo_composing_manifest :: Manifest where
  "demo_composing_manifest = default_manifest \<lparr> mf_include := [IncludeLocal ''../base'' None] \<rparr>"

definition demo_fetch :: include_fetcher where
  "demo_fetch d = Ok \<lparr> linc_manifest = demo_locking_manifest, linc_name = ''base'', linc_descriptor = d \<rparr>"

lemma includes_are_locked_witness:
  "\<exists>lockfile c. lock_manifest demo_fetch demo_client demo_locker 0 demo_composing_manifest None = Ok lockfile \<and>
     lf_compose lockfile = Some c \<and> map linc_descriptor (comp_include c) = [IncludeLocal ''../base'' None]"
proof -
  have "is_ok (lock_manifest_with_include_upgrades demo_fetch demo_client demo_locker 0 demo_composing_manifest None None)"
    by code_simp
  then obtain lockfile where lockfile:
    "lock_manifest_with_include_upgrades demo_fetch demo_client demo_locker 0 demo_composing_manifest None None = Ok lockfile"
    by (metis is_ok.elims(2))
  show ?thesis
    using includes_are_locked [OF lockfile] lockfile
    by (auto simp: lock_manifest_def demo_fetch_def demo_composing_manifest_def)
qed

end
