(* ===== verification/Core_Environment.thy ===== *)
theory Core_Environment
  imports Install Lock_Manifest
begin

text \<open>
  The files of an environment and the transactions that change them
  (\<open>flox-rust-sdk/src/models/environment/core_environment.rs\<close> and \<open>copy_dir_recursive\<close> of \<open>mod.rs\<close>):
  locking, building, editing, installing, uninstalling and upgrading. The manifest has the latest
  schema here, so migrating it and bringing schemas in line is the identity. The text formats
  (\<open>toml_edit\<close>, \<open>serde_json\<close>), the builder and the faults of the file system are parameters; a
  directory is walked in the order of its paths, parents first.
\<close>

section \<open>Directories\<close>

datatype DirEntry = EntryDir | EntryFile string | EntrySymlink string

type_synonym EnvDir = "(string, DirEntry) bmap"

text \<open>The I/O errors that a copy meets: making the target, walking to an entry, copying an entry.\<close>

record CopyFaults =
  cf_root :: "string option"
  cf_walk :: "string \<Rightarrow> string option"
  cf_entry :: "string \<Rightarrow> string option"

datatype CopyOutcome = CopyOk | CopyErr string | CopyPanic string

fun copy_entries :: "CopyFaults \<Rightarrow> bool \<Rightarrow> (string \<times> DirEntry) list \<Rightarrow> EnvDir \<Rightarrow> CopyOutcome \<times> EnvDir" where
  "copy_entries faults keep_permissions [] target = (CopyOk, target)"
| "copy_entries faults keep_permissions ((path, entry) # entries) target =
     (case cf_walk faults path of
        Some e \<Rightarrow> (CopyPanic e, target)
      | None \<Rightarrow>
          (case entry of
             EntryDir \<Rightarrow>
               (case (if bm_contains target path then Some ''File exists'' else cf_entry faults path) of
                  Some e \<Rightarrow> (CopyPanic e, target)
                | None \<Rightarrow> copy_entries faults keep_permissions entries (bm_insert path entry target))
           | EntrySymlink _ \<Rightarrow>
               (case (if bm_contains target path then Some ''File exists'' else cf_entry faults path) of
                  Some e \<Rightarrow> (CopyErr e, target)
                | None \<Rightarrow> copy_entries faults keep_permissions entries (bm_insert path entry target))
           | EntryFile _ \<Rightarrow>
               (case cf_entry faults path of
                  Some e \<Rightarrow> (if keep_permissions then CopyErr e else CopyPanic e, target)
                | None \<Rightarrow> copy_entries faults keep_permissions entries (bm_insert path entry target))))"

text \<open>The first item of the walk, the source itself, is skipped even when it is missing.\<close>

definition copy_dir_recursive ::
  "CopyFaults \<Rightarrow> bool \<Rightarrow> EnvDir option \<Rightarrow> EnvDir option \<Rightarrow> CopyOutcome \<times> EnvDir option" where
  "copy_dir_recursive faults keep_permissions source target =
     (case (case target of None \<Rightarrow> cf_root faults | Some _ \<Rightarrow> None) of
        Some e \<Rightarrow> (CopyPanic e, None)
      | None \<Rightarrow>
          map_prod (\<lambda>o'. o') Some
            (copy_entries faults keep_permissions (case source of Some d \<Rightarrow> d | None \<Rightarrow> [])
              (case target of Some d \<Rightarrow> d | None \<Rightarrow> [])))"

definition MANIFEST_FILENAME :: string where
  "MANIFEST_FILENAME = ''manifest.toml''"

definition LOCKFILE_FILENAME :: string where
  "LOCKFILE_FILENAME = ''manifest.lock''"

definition read_file :: "string \<Rightarrow> EnvDir option \<Rightarrow> string option" where
  "read_file name dir =
     (case Option.bind dir (\<lambda>d. bm_get d name) of Some (EntryFile contents) \<Rightarrow> Some contents | _ \<Rightarrow> None)"

definition write_file :: "string \<Rightarrow> string \<Rightarrow> EnvDir \<Rightarrow> EnvDir" where
  "write_file name contents dir = bm_insert name (EntryFile contents) dir"

section \<open>Formats, services and faults\<close>

text \<open>
  Reading and writing the files. \<open>sync_toml\<close> brings the text of a manifest in line with the typed
  manifest; \<open>normalize_toml\<close> is the text of the parsed document, when it parses.
\<close>

record Documents =
  parse_toml :: "string \<Rightarrow> string + Manifest"
  sync_toml :: "string \<Rightarrow> Manifest \<Rightarrow> string"
  normalize_toml :: "string \<Rightarrow> string option"
  parse_json :: "string \<Rightarrow> string + Lockfile"
  print_json :: "Lockfile \<Rightarrow> string"

record 'out Backend =
  be_fetch :: include_fetcher
  be_client :: catalog_client
  be_locker :: flake_locker
  be_now :: int
  be_system :: system
  be_write_services :: "(string, ServiceDescriptor) bmap \<Rightarrow> string + string"
  be_auth :: "string + unit"
  be_build :: "string \<Rightarrow> string option \<Rightarrow> string + 'out"

text \<open>For the removals that may fail half way: the error and what is left.\<close>

record TransactionFaults =
  tf_tempdir :: "string option"
  tf_stage :: CopyFaults
  tf_write_manifest :: "string option"
  tf_write_lockfile :: "string option"
  tf_write_lock :: "string option"
  tf_backup :: "string option"
  tf_swap :: CopyFaults
  tf_clear :: "(string \<times> EnvDir) option"
  tf_restore :: "string option"
  tf_drop_backup :: "(string \<times> EnvDir) option"

datatype CoreEnvironmentError =
    CoreManifest string
  | CoreServicesInvalid "string list"
  | CoreLockfile string
  | CoreLock LockError
  | MakeSandbox string
  | WriteManifest string
  | WriteLockfile string
  | MakeTemporaryEnv string
  | PriorTransaction
  | BackupTransaction string
  | AbortTransaction string
  | Move string
  | RemoveBackup string
  | BadLockfilePath
  | CoreServices string
  | CoreAuth string
  | CoreBuildEnv string
  | UpgradePkgNotFound string
  | UpgradeNonEmptyNamedGroup string string
  | CoreInstallOrUninstall InstallOrUninstallError
  | CoreModifyManifest ManifestError
  | CorePanic string

text \<open>A manifest with the text of its document.\<close>

record MigratedManifest =
  mm_raw :: string
  mm_manifest :: Manifest

section \<open>Reading and locking\<close>

definition manifest_without_migrating :: "Documents \<Rightarrow> EnvDir option \<Rightarrow> CoreEnvironmentError + MigratedManifest" where
  "manifest_without_migrating docs dir =
     (case read_file MANIFEST_FILENAME dir of
        None \<Rightarrow> Err (CoreManifest ''failed to read manifest file'')
      | Some contents \<Rightarrow>
          (case parse_toml docs contents of
             Inl e \<Rightarrow> Err (CoreManifest e)
           | Inr m \<Rightarrow> Ok \<lparr> mm_raw = contents, mm_manifest = m \<rparr>))"

definition existing_lockfile_contents :: "EnvDir option \<Rightarrow> string option" where
  "existing_lockfile_contents dir = read_file LOCKFILE_FILENAME dir"

definition existing_lockfile :: "Documents \<Rightarrow> EnvDir option \<Rightarrow> CoreEnvironmentError + Lockfile option" where
  "existing_lockfile docs dir =
     (case existing_lockfile_contents dir of
        None \<Rightarrow> Ok None
      | Some contents \<Rightarrow>
          (case parse_json docs contents of Inl e \<Rightarrow> Err (CoreLockfile e) | Inr l \<Rightarrow> Ok (Some l)))"

definition lockfile_if_up_to_date :: "Documents \<Rightarrow> EnvDir option \<Rightarrow> CoreEnvironmentError + Lockfile option" where
  "lockfile_if_up_to_date docs dir =
     and_then (existing_lockfile docs dir) (\<lambda>existing.
       case existing of
         None \<Rightarrow> Ok None
       | Some lockfile \<Rightarrow>
           map_ok (\<lambda>mm. if is_up_to_date_with_serialized_manifest lockfile (mm_manifest mm) then Some lockfile else None)
             (manifest_without_migrating docs dir))"

datatype LockResult = LockChanged (lock_of: Lockfile) | LockUnchanged (lock_of: Lockfile)

definition lock_without_writing ::
  "'out Backend \<Rightarrow> Manifest \<Rightarrow> Lockfile option \<Rightarrow> CoreEnvironmentError + LockResult" where
  "lock_without_writing be manifest existing =
     (case lock_manifest (be_fetch be) (be_client be) (be_locker be) (be_now be) manifest existing of
        Inl e \<Rightarrow> Err (CoreLock e)
      | Inr lockfile \<Rightarrow> Ok (if Some lockfile = existing then LockUnchanged lockfile else LockChanged lockfile))"

text \<open>What \<open>lock\<close> leaves of a directory; when it fails it has changed nothing.\<close>

definition lock_dir ::
  "'out Backend \<Rightarrow> Documents \<Rightarrow> TransactionFaults \<Rightarrow> EnvDir option \<Rightarrow> CoreEnvironmentError + (LockResult \<times> EnvDir option)" where
  "lock_dir be docs faults dir =
     and_then (manifest_without_migrating docs dir) (\<lambda>mm.
     and_then (existing_lockfile docs dir) (\<lambda>existing.
     and_then (lock_without_writing be (mm_manifest mm) existing) (\<lambda>result.
       case result of
         LockUnchanged lockfile \<Rightarrow> Ok (result, dir)
       | LockChanged lockfile \<Rightarrow>
           (case tf_write_lock faults of
              Some e \<Rightarrow> Err (WriteLockfile e)
            | None \<Rightarrow> Ok (result, map_option (write_file LOCKFILE_FILENAME (print_json docs lockfile @ newline)) dir)))))"

definition maybe_make_service_config_file :: "'out Backend \<Rightarrow> Lockfile \<Rightarrow> CoreEnvironmentError + string option" where
  "maybe_make_service_config_file be lockfile =
     (let services = svcs_map (mf_services (lf_manifest lockfile))
      in if services \<noteq> []
         then (case be_write_services be (copy_for_system (be_system be) services) of
                 Inl e \<Rightarrow> Err (CoreServices e) | Inr path \<Rightarrow> Ok (Some path))
         else Ok None)"

definition build_lockfile :: "'out Backend \<Rightarrow> string \<Rightarrow> string option \<Rightarrow> CoreEnvironmentError + 'out" where
  "build_lockfile be contents service_config =
     (case be_auth be of
        Inl e \<Rightarrow> Err (CoreAuth e)
      | Inr _ \<Rightarrow> (case be_build be contents service_config of Inl e \<Rightarrow> Err (CoreBuildEnv e) | Inr out \<Rightarrow> Ok out))"

definition build_dir :: "'out Backend \<Rightarrow> Documents \<Rightarrow> EnvDir option \<Rightarrow> CoreEnvironmentError + 'out" where
  "build_dir be docs dir =
     (case read_file LOCKFILE_FILENAME dir of
        None \<Rightarrow> Err BadLockfilePath
      | Some contents \<Rightarrow>
          (case parse_json docs contents of
             Inl e \<Rightarrow> Err (CoreLockfile e)
           | Inr lockfile \<Rightarrow>
               and_then (maybe_make_service_config_file be lockfile) (build_lockfile be contents)))"

section \<open>Transactions\<close>

text \<open>
  The environment, the backup of a transaction (\<open>env.tmp\<close>) and the activation links that a build
  with an out-link prefix writes. Temporary directories are not kept in the state.
\<close>

record 'out EnvWorld =
  ew_env :: "EnvDir option"
  ew_backup :: "EnvDir option"
  ew_links :: "'out option"

type_synonym ('out, 'a) core_action = "('out EnvWorld, CoreEnvironmentError, 'a) action"

definition core_lock :: "'out Backend \<Rightarrow> Documents \<Rightarrow> TransactionFaults \<Rightarrow> ('out, LockResult) core_action" where
  "core_lock be docs faults w =
     (case lock_dir be docs faults (ew_env w) of
        Inl e \<Rightarrow> (Err e, w) | Inr (result, dir) \<Rightarrow> (Ok result, w\<lparr> ew_env := dir \<rparr>))"

definition ensure_locked :: "'out Backend \<Rightarrow> Documents \<Rightarrow> TransactionFaults \<Rightarrow> ('out, LockResult) core_action" where
  "ensure_locked be docs faults w =
     (case lockfile_if_up_to_date docs (ew_env w) of
        Inl e \<Rightarrow> (Err e, w)
      | Inr (Some lockfile) \<Rightarrow> (Ok (LockUnchanged lockfile), w)
      | Inr None \<Rightarrow> core_lock be docs faults w)"

definition core_manifest :: "'out Backend \<Rightarrow> Documents \<Rightarrow> TransactionFaults \<Rightarrow> ('out, MigratedManifest) core_action" where
  "core_manifest be docs faults w =
     (case manifest_without_migrating docs (ew_env w) of
        Inl e \<Rightarrow> (Err e, w)
      | Inr mm \<Rightarrow> act_bind (ensure_locked be docs faults) (\<lambda>_. act_ok mm) w)"

definition replace_with :: "TransactionFaults \<Rightarrow> EnvDir \<Rightarrow> ('out, unit) core_action" where
  "replace_with faults replacement w =
     (case (ew_backup w, ew_env w, tf_backup faults) of
        (Some _, _, _) \<Rightarrow> (Err PriorTransaction, w)
      | (None, None, _) \<Rightarrow> (Err (BackupTransaction ''No such file or directory''), w)
      | (None, Some _, Some e) \<Rightarrow> (Err (BackupTransaction e), w)
      | (None, Some old, None) \<Rightarrow>
          (case copy_dir_recursive (tf_swap faults) True (Some replacement) None of
             (CopyPanic e, partial) \<Rightarrow> (Err (CorePanic e), w\<lparr> ew_env := partial, ew_backup := Some old \<rparr>)
           | (CopyErr e, partial) \<Rightarrow>
               (case (tf_clear faults, tf_restore faults) of
                  (Some (e', left), _) \<Rightarrow>
                    (Err (AbortTransaction e'), w\<lparr> ew_env := Some left, ew_backup := Some old \<rparr>)
                | (None, Some e') \<Rightarrow> (Err (AbortTransaction e'), w\<lparr> ew_env := None, ew_backup := Some old \<rparr>)
                | (None, None) \<Rightarrow> (Err (Move e), w\<lparr> ew_env := Some old, ew_backup := None \<rparr>))
           | (CopyOk, copied) \<Rightarrow>
               (case tf_drop_backup faults of
                  Some (e, left) \<Rightarrow> (Err (RemoveBackup e), w\<lparr> ew_env := copied, ew_backup := Some left \<rparr>)
                | None \<Rightarrow> (Ok (), w\<lparr> ew_env := copied, ew_backup := None \<rparr>))))"

text \<open>A copy of the environment to work on.\<close>

definition writable :: "TransactionFaults \<Rightarrow> EnvDir option \<Rightarrow> CoreEnvironmentError + EnvDir" where
  "writable faults env =
     (case tf_tempdir faults of
        Some e \<Rightarrow> Err (MakeSandbox e)
      | None \<Rightarrow>
          (case copy_dir_recursive (tf_stage faults) True env (Some []) of
             (CopyPanic e, _) \<Rightarrow> Err (CorePanic e)
           | (CopyErr e, _) \<Rightarrow> Err (MakeTemporaryEnv e)
           | (CopyOk, copied) \<Rightarrow> Ok (case copied of Some d \<Rightarrow> d | None \<Rightarrow> [])))"

definition update_manifest ::
  "Documents \<Rightarrow> TransactionFaults \<Rightarrow> MigratedManifest \<Rightarrow> EnvDir \<Rightarrow> CoreEnvironmentError + EnvDir" where
  "update_manifest docs faults mm dir =
     (case tf_write_manifest faults of
        Some e \<Rightarrow> Err (WriteManifest e)
      | None \<Rightarrow> Ok (write_file MANIFEST_FILENAME (sync_toml docs (mm_raw mm) (mm_manifest mm)) dir))"

definition update_lockfile_with_contents ::
  "TransactionFaults \<Rightarrow> string \<Rightarrow> EnvDir \<Rightarrow> CoreEnvironmentError + EnvDir" where
  "update_lockfile_with_contents faults contents dir =
     (case tf_write_lockfile faults of
        Some e \<Rightarrow> Err (WriteLockfile e)
      | None \<Rightarrow> Ok (write_file LOCKFILE_FILENAME (contents @ newline) dir))"

definition write_manifest_lockfile_pair ::
  "Documents \<Rightarrow> TransactionFaults \<Rightarrow> MigratedManifest \<Rightarrow> Lockfile \<Rightarrow> EnvDir \<Rightarrow> CoreEnvironmentError + EnvDir" where
  "write_manifest_lockfile_pair docs faults mm lockfile dir =
     and_then (update_manifest docs faults mm dir) (update_lockfile_with_contents faults (print_json docs lockfile))"

text \<open>Building in the temporary directory; the links are written before the swap.\<close>

definition build_and_replace ::
  "'out Backend \<Rightarrow> Documents \<Rightarrow> TransactionFaults \<Rightarrow> bool \<Rightarrow> EnvDir \<Rightarrow> ('out, 'out) core_action" where
  "build_and_replace be docs faults link temp w =
     (case build_dir be docs (Some temp) of
        Inl e \<Rightarrow> (Err e, w)
      | Inr out \<Rightarrow>
          act_bind (replace_with faults temp) (\<lambda>_. act_ok out) (if link then w\<lparr> ew_links := Some out \<rparr> else w))"

definition stage_manifest ::
  "'out Backend \<Rightarrow> Documents \<Rightarrow> TransactionFaults \<Rightarrow> MigratedManifest \<Rightarrow> EnvDir option
     \<Rightarrow> CoreEnvironmentError + (EnvDir \<times> Lockfile)" where
  "stage_manifest be docs faults mm env =
     and_then (case validate_services (svcs_map (mf_services (mm_manifest mm))) of
                 Inl names \<Rightarrow> Err (CoreServicesInvalid names) | Inr u \<Rightarrow> Ok u) (\<lambda>_.
     and_then (writable faults env) (\<lambda>temp.
     and_then (existing_lockfile docs (Some temp)) (\<lambda>existing.
     and_then (lock_without_writing be (mm_manifest mm) existing) (\<lambda>result.
     map_ok (\<lambda>temp'. (temp', lock_of result))
       (write_manifest_lockfile_pair docs faults mm (lock_of result) temp)))))"

definition transact_with_manifest ::
  "'out Backend \<Rightarrow> Documents \<Rightarrow> TransactionFaults \<Rightarrow> bool \<Rightarrow> MigratedManifest \<Rightarrow> ('out, 'out \<times> Lockfile) core_action" where
  "transact_with_manifest be docs faults link mm w =
     (case stage_manifest be docs faults mm (ew_env w) of
        Inl e \<Rightarrow> (Err e, w)
      | Inr (temp, lockfile) \<Rightarrow>
          act_bind (build_and_replace be docs faults link temp) (\<lambda>out. act_ok (out, lockfile)) w)"

definition transact_with_lockfile_contents ::
  "'out Backend \<Rightarrow> Documents \<Rightarrow> TransactionFaults \<Rightarrow> bool \<Rightarrow> string \<Rightarrow> ('out, 'out) core_action" where
  "transact_with_lockfile_contents be docs faults link contents w =
     (case and_then (writable faults (ew_env w)) (update_lockfile_with_contents faults contents) of
        Inl e \<Rightarrow> (Err e, w)
      | Inr temp \<Rightarrow> build_and_replace be docs faults link temp w)"

section \<open>Editing\<close>

datatype 'out EditResult =
    EditUnchanged
  | EditChanged "Lockfile option" Lockfile 'out

definition reactivate_required :: "'out EditResult \<Rightarrow> bool" where
  "reactivate_required result =
     (case result of
        EditUnchanged \<Rightarrow> False
      | EditChanged old new _ \<Rightarrow>
          (let new_manifest = lf_manifest new; old_manifest = map_option lf_manifest old
           in Option.bind old_manifest mf_hook \<noteq> mf_hook new_manifest \<or>
              (case old_manifest of Some m \<Rightarrow> mf_vars m | None \<Rightarrow> []) \<noteq> mf_vars new_manifest \<or>
              Option.bind old_manifest mf_profile \<noteq> mf_profile new_manifest))"

definition contents_match :: "Documents \<Rightarrow> MigratedManifest \<Rightarrow> string \<Rightarrow> bool" where
  "contents_match docs mm contents =
     (case normalize_toml docs contents of
        None \<Rightarrow> False | Some text \<Rightarrow> Some text = normalize_toml docs (mm_raw mm))"

definition contents_match_existing_manifest ::
  "Documents \<Rightarrow> EnvDir option \<Rightarrow> string \<Rightarrow> CoreEnvironmentError + bool" where
  "contents_match_existing_manifest docs dir contents =
     map_ok (\<lambda>mm. contents_match docs mm contents) (manifest_without_migrating docs dir)"

definition parse_contents :: "Documents \<Rightarrow> string \<Rightarrow> CoreEnvironmentError + MigratedManifest" where
  "parse_contents docs contents =
     (case parse_toml docs contents of
        Inl e \<Rightarrow> Err (CoreManifest e) | Inr m \<Rightarrow> Ok \<lparr> mm_raw = contents, mm_manifest = m \<rparr>)"

definition core_edit ::
  "'out Backend \<Rightarrow> Documents \<Rightarrow> TransactionFaults \<Rightarrow> bool \<Rightarrow> string \<Rightarrow> ('out, 'out EditResult) core_action" where
  "core_edit be docs faults link contents w =
     (case and_then (lockfile_if_up_to_date docs (ew_env w)) (\<lambda>up_to_date.
             map_ok (Pair up_to_date) (contents_match_existing_manifest docs (ew_env w) contents)) of
        Inl e \<Rightarrow> (Err e, w)
      | Inr (up_to_date, same) \<Rightarrow>
          if same \<and> up_to_date \<noteq> None then (Ok EditUnchanged, w)
          else (case parse_contents docs contents of
                  Inl e \<Rightarrow> (Err e, w)
                | Inr mm \<Rightarrow>
                    act_bind (transact_with_manifest be docs faults link mm)
                      (\<lambda>(out, lockfile). act_ok (EditChanged up_to_date lockfile out)) w))"

text \<open>
  The edit that also keeps environments that do not lock or build; the inner result is that of the
  edit, the outer one that of the transaction.
\<close>

definition core_edit_unsafe ::
  "'out Backend \<Rightarrow> Documents \<Rightarrow> TransactionFaults \<Rightarrow> string
     \<Rightarrow> ('out, CoreEnvironmentError + 'out EditResult) core_action" where
  "core_edit_unsafe be docs faults contents w =
     (case and_then (contents_match_existing_manifest docs (ew_env w) contents) (\<lambda>same.
             if same then Ok None
             else and_then (parse_contents docs contents) (\<lambda>mm.
               map_ok (\<lambda>old. Some (mm, old)) (lockfile_if_up_to_date docs (ew_env w)))) of
        Inl e \<Rightarrow> (Err e, w)
      | Inr None \<Rightarrow> (Ok (Ok EditUnchanged), w)
      | Inr (Some (mm, up_to_date)) \<Rightarrow>
          (let (old, w') = (case up_to_date of
                 Some lockfile \<Rightarrow> (Some lockfile, w)
               | None \<Rightarrow> (case core_lock be docs faults w of
                            (Inr result, w') \<Rightarrow> (Some (lock_of result), w') | (Inl _, w') \<Rightarrow> (None, w')))
           in case and_then (writable faults (ew_env w')) (update_manifest docs faults mm) of
                Inl e \<Rightarrow> (Err e, w')
              | Inr temp \<Rightarrow>
                  (case lock_dir be docs faults (Some temp) of
                     Inl lock_err \<Rightarrow> act_bind (replace_with faults temp) (\<lambda>_. act_ok (Err lock_err)) w'
                   | Inr (result, locked) \<Rightarrow>
                       (let attempt = build_dir be docs locked
                        in act_bind (replace_with faults (case locked of Some d \<Rightarrow> d | None \<Rightarrow> [])) (\<lambda>_.
                             act_ok (map_ok (EditChanged old (lock_of result)) attempt)) w'))))"

section \<open>Installing and uninstalling\<close>

record ('u, 'out) InstallationAttempt =
  ia_modifications :: "'u PackageToModify list"
  ia_built_environments :: "'out option"

definition modify_migrated ::
  "'u url_api \<Rightarrow> Documents \<Rightarrow> MigratedManifest \<Rightarrow> 'u PackageToModify list \<Rightarrow> CoreEnvironmentError + MigratedManifest" where
  "modify_migrated api docs mm modifications =
     (case modify_packages api (mm_manifest mm) modifications of
        Inl e \<Rightarrow> Err (CoreModifyManifest e)
      | Inr m \<Rightarrow> Ok \<lparr> mm_raw = sync_toml docs (mm_raw mm) m, mm_manifest = m \<rparr>)"

definition core_install ::
  "'u url_api \<Rightarrow> 'out Backend \<Rightarrow> Documents \<Rightarrow> TransactionFaults \<Rightarrow> bool \<Rightarrow> 'u PackageToInstall list
     \<Rightarrow> ('out, ('u, 'out) InstallationAttempt) core_action" where
  "core_install api be docs faults link packages =
     act_bind (core_manifest be docs faults) (\<lambda>mm.
     act_bind (core_lock be docs faults) (\<lambda>locked.
     case compute_install_modifications packages (mm_manifest mm) (lock_of locked) of
       Inl e \<Rightarrow> act_err (CoreInstallOrUninstall e)
     | Inr modifications \<Rightarrow>
         if modifications = [] then act_ok \<lparr> ia_modifications = modifications, ia_built_environments = None \<rparr>
         else act_bind (act_lift (modify_migrated api docs mm modifications)) (\<lambda>new_manifest.
              act_bind (transact_with_manifest be docs faults link new_manifest) (\<lambda>(out, _).
              act_ok \<lparr> ia_modifications = modifications, ia_built_environments = Some out \<rparr>))))"

record ('u, 'out) UninstallationAttempt =
  ua_modifications :: "'u PackageToModify list"
  ua_still_included :: "(string \<times> LockedInclude) list"
  ua_store_paths :: 'out

definition still_included :: "Lockfile \<Rightarrow> 'u PackageToModify list \<Rightarrow> (string \<times> LockedInclude) list" where
  "still_included lockfile modifications =
     (case lf_compose lockfile of
        None \<Rightarrow> []
      | Some compose \<Rightarrow>
          List.map_filter (\<lambda>m. case get_include_for_package compose (ptm_install_id m) None of
              Inr (Some i) \<Rightarrow> Some (ptm_install_id m, i) | _ \<Rightarrow> None) modifications)"

definition core_uninstall ::
  "'u url_api \<Rightarrow> (removals \<Rightarrow> (string \<times> RawSelectedOutputs) list) \<Rightarrow> 'out Backend \<Rightarrow> Documents \<Rightarrow> TransactionFaults
     \<Rightarrow> bool \<Rightarrow> UninstallSpec list \<Rightarrow> ('out, ('u, 'out) UninstallationAttempt) core_action" where
  "core_uninstall api walk be docs faults link specs =
     act_bind (core_lock be docs faults) (\<lambda>locked.
     act_bind (core_manifest be docs faults) (\<lambda>mm.
     case resolve_specs_to_modifications walk specs (mm_manifest mm) (lock_of locked) of
       Inl e \<Rightarrow> act_err (CoreInstallOrUninstall e)
     | Inr modifications \<Rightarrow>
         act_bind (act_lift (modify_migrated api docs mm modifications)) (\<lambda>new_manifest.
         act_bind (transact_with_manifest be docs faults link new_manifest) (\<lambda>(out, _).
         act_ok \<lparr> ua_modifications = modifications, ua_still_included = still_included (lock_of locked) modifications,
           ua_store_paths = out \<rparr>))))"

section \<open>Upgrading\<close>

record 'out UpgradeResult =
  ur_old_lockfile :: "Lockfile option"
  ur_new_lockfile :: Lockfile
  ur_store_path :: "'out option"

type_synonym packages_by_id = "(string, (system, LockedPackage) bmap) bmap"

definition index_package :: "packages_by_id \<Rightarrow> LockedPackage \<Rightarrow> packages_by_id" where
  "index_package pkgs_by_id pkg =
     (let by_system = (case bm_get pkgs_by_id (locked_install_id pkg) of Some b \<Rightarrow> b | None \<Rightarrow> [])
      in bm_insert (locked_install_id pkg)
           (if bm_contains by_system (locked_system pkg) then by_system
            else bm_insert (locked_system pkg) pkg by_system) pkgs_by_id)"

definition index_packages :: "Lockfile \<Rightarrow> packages_by_id" where
  "index_packages lockfile = foldl index_package [] (lf_packages lockfile)"

type_synonym upgrade_diff = "(string, (system, LockedPackage \<times> LockedPackage) bmap) bmap"

definition is_upgrade :: "LockedPackage \<Rightarrow> LockedPackage \<Rightarrow> bool" where
  "is_upgrade prev after \<longleftrightarrow>
     locked_derivation prev \<noteq> None \<and> locked_derivation after \<noteq> None \<and> locked_derivation prev \<noteq> locked_derivation after"

text \<open>The packages of one install id that changed, by system; ids without changes get no entry.\<close>

definition upgrades_of ::
  "(system, LockedPackage) bmap \<Rightarrow> (system, LockedPackage) bmap \<Rightarrow> (system, LockedPackage \<times> LockedPackage) bmap" where
  "upgrades_of prev after =
     List.map_filter (\<lambda>(system, p). map_option (Pair system)
       (Option.bind (bm_get after system) (\<lambda>q. if is_upgrade p q then Some (p, q) else None))) prev"

definition upgrade_result_diff :: "'out UpgradeResult \<Rightarrow> upgrade_diff" where
  "upgrade_result_diff result =
     (let previous = (case ur_old_lockfile result of Some l \<Rightarrow> index_packages l | None \<Rightarrow> []);
          after = index_packages (ur_new_lockfile result)
      in List.map_filter (\<lambda>(iid, prev). map_option (Pair iid)
           (Option.bind (bm_get after iid) (\<lambda>by_system.
              if upgrades_of prev by_system = [] then None else Some (upgrades_of prev by_system)))) previous)"

definition upgrade_result_packages :: "'out UpgradeResult \<Rightarrow> string list" where
  "upgrade_result_packages result = sort (bm_keys (upgrade_result_diff result))"

definition diff_for_system :: "'out UpgradeResult \<Rightarrow> system \<Rightarrow> (string, LockedPackage \<times> LockedPackage) bmap" where
  "diff_for_system result system =
     List.map_filter (\<lambda>(iid, by_system). map_option (Pair iid) (bm_get by_system system)) (upgrade_result_diff result)"

definition include_diff :: "'out UpgradeResult \<Rightarrow> string list" where
  "include_diff result =
     (case lf_compose (ur_new_lockfile result) of
        None \<Rightarrow> []
      | Some new_compose \<Rightarrow>
          (case Option.bind (ur_old_lockfile result) lf_compose of
             None \<Rightarrow> map linc_name (comp_include new_compose)
           | Some old_compose \<Rightarrow>
               map linc_name (filter (\<lambda>i. i \<notin> set (comp_include old_compose)) (comp_include new_compose))))"

definition first_error :: "('a \<Rightarrow> 'e option) \<Rightarrow> 'a list \<Rightarrow> 'e + unit" where
  "first_error f xs = (case List.map_filter f xs of e # _ \<Rightarrow> Err e | [] \<Rightarrow> Ok ())"

definition check_group_membership :: "Manifest \<Rightarrow> string \<Rightarrow> CoreEnvironmentError option" where
  "check_group_membership manifest iid =
     (if pkg_descriptor_with_id manifest iid = None then None
      else case pkg_belongs_to_non_empty_toplevel_group manifest iid of
             Inl _ \<Rightarrow> Some (CorePanic ''already checked that package exists'')
           | Inr True \<Rightarrow> Some (UpgradeNonEmptyNamedGroup iid ''toplevel'')
           | Inr False \<Rightarrow>
               (case pkg_belongs_to_non_empty_named_group manifest iid of
                  Inl _ \<Rightarrow> Some (CorePanic ''already checked that package exists'')
                | Inr grp \<Rightarrow> map_option (UpgradeNonEmptyNamedGroup iid) grp))"

definition ensure_valid_upgrade :: "string list \<Rightarrow> Manifest \<Rightarrow> CoreEnvironmentError + unit" where
  "ensure_valid_upgrade groups_or_iids manifest =
     and_then (first_error (\<lambda>iid.
         if iid = ''toplevel'' \<or> pkg_or_group_found_in_manifest manifest iid then None else Some (UpgradePkgNotFound iid))
         groups_or_iids)
       (\<lambda>_. first_error (check_group_membership manifest) groups_or_iids)"

definition upgrade_with_catalog_client ::
  "'out Backend \<Rightarrow> Documents \<Rightarrow> EnvDir option \<Rightarrow> string list \<Rightarrow> Manifest \<Rightarrow> CoreEnvironmentError + 'out UpgradeResult" where
  "upgrade_with_catalog_client be docs dir groups_or_iids manifest =
     and_then (existing_lockfile docs dir) (\<lambda>existing.
       let seed = map_option (\<lambda>l. unlock_specified_packages_or_groups l groups_or_iids) existing
       in map_ok (\<lambda>result. \<lparr> ur_old_lockfile = existing, ur_new_lockfile = lock_of result, ur_store_path = None \<rparr>)
            (lock_without_writing be manifest seed))"

text \<open>The temporary lockfile of a dry run is built from its contents, without services or links.\<close>

definition core_upgrade ::
  "'out Backend \<Rightarrow> Documents \<Rightarrow> TransactionFaults \<Rightarrow> bool \<Rightarrow> string list \<Rightarrow> bool
     \<Rightarrow> ('out, 'out UpgradeResult) core_action" where
  "core_upgrade be docs faults link groups_or_iids write_lockfile =
     act_bind (core_manifest be docs faults) (\<lambda>mm w.
       case and_then (ensure_valid_upgrade groups_or_iids (mm_manifest mm)) (\<lambda>_.
              upgrade_with_catalog_client be docs (ew_env w) groups_or_iids (mm_manifest mm)) of
         Inl e \<Rightarrow> (Err e, w)
       | Inr result \<Rightarrow>
           (let contents = print_json docs (ur_new_lockfile result)
            in if write_lockfile
               then if upgrade_result_diff result = [] then (Ok result, w)
                    else act_bind (transact_with_lockfile_contents be docs faults link contents) (\<lambda>out.
                           act_ok (result\<lparr> ur_store_path := Some out \<rparr>)) w
               else (case tf_write_lockfile faults of
                       Some e \<Rightarrow> (Err (WriteLockfile e), w)
                     | None \<Rightarrow> (map_ok (\<lambda>_. result) (build_lockfile be contents None), w))))"

definition core_include_upgrade ::
  "'out Backend \<Rightarrow> Documents \<Rightarrow> TransactionFaults \<Rightarrow> bool \<Rightarrow> string list \<Rightarrow> ('out, 'out UpgradeResult) core_action" where
  "core_include_upgrade be docs faults link to_upgrade =
     act_bind (core_manifest be docs faults) (\<lambda>mm w.
       case existing_lockfile docs (ew_env w) of
         Inl e \<Rightarrow> (Err e, w)
       | Inr existing \<Rightarrow>
           (case lock_manifest_with_include_upgrades (be_fetch be) (be_client be) (be_locker be) (be_now be)
                   (mm_manifest mm) existing (Some to_upgrade) of
              Inl e \<Rightarrow> (Err (CoreLock e), w)
            | Inr new_lockfile \<Rightarrow>
                (let result = \<lparr> ur_old_lockfile = existing, ur_new_lockfile = new_lockfile, ur_store_path = None \<rparr>;
                     contents = print_json docs new_lockfile
                 in if Some contents = existing_lockfile_contents (ew_env w) then (Ok result, w)
                    else act_bind (transact_with_lockfile_contents be docs faults link contents) (\<lambda>out.
                           act_ok (result\<lparr> ur_store_path := Some out \<rparr>)) w)))"

section \<open>Copies and swaps\<close>

lemma copy_entries_ok: "copy_entries faults keep entries target = (CopyOk, result) \<Longrightarrow> result = bm_extend target entries"
  by (induction faults keep entries target rule: copy_entries.induct)
    (auto simp: bm_extend_def split: option.splits DirEntry.splits if_splits)

lemma bm_extend_empty: "bm_inv m \<Longrightarrow> bm_extend [] m = m"
proof (rule bm_eqI)
  assume inv: "bm_inv m"
  then show "bm_get (bm_extend [] m) = bm_get m"
    using bm.entries_distinct [OF inv] by (simp add: fun_eq_iff bm_extend_get map_of_rev split: option.splits)
qed simp_all

text \<open>A copy into a fresh directory that succeeds is complete.\<close>

lemma copy_complete:
  assumes "copy_dir_recursive faults keep (Some dir) target = (CopyOk, copied)" and "bm_inv dir"
    and "target = None \<or> target = Some []"
  shows "copied = Some dir"
proof -
  obtain x where x: "copy_entries faults keep dir [] = (CopyOk, x)" "copied = Some x"
    using assms(1,3) by (auto simp: copy_dir_recursive_def map_prod_def split: option.splits prod.splits)
  then show ?thesis
    using copy_entries_ok [OF x(1)] bm_extend_empty [OF assms(2)] by simp
qed

lemma replace_with_outcome:
  assumes "replace_with faults temp w = (r, w')" and "ew_env w = Some old" and "ew_backup w = None" and "bm_inv temp"
  shows "ew_links w' = ew_links w \<and>
    (r = Ok () \<and> ew_env w' = Some temp \<and> ew_backup w' = None \<or>
     (\<exists>e. r = Err e) \<and>
       (ew_env w' = Some old \<and> ew_backup w' = None \<or> ew_backup w' = Some old \<or>
        ew_env w' = Some temp \<and> ew_backup w' \<noteq> None))"
proof (cases "copy_dir_recursive (tf_swap faults) True (Some temp) None")
  case (Pair outcome copied)
  have "outcome = CopyOk \<Longrightarrow> copied = Some temp"
    using copy_complete [of "tf_swap faults" True temp None copied] Pair assms(4) by simp
  then show ?thesis
    using assms(1-3) Pair
    by (cases "tf_backup faults"; cases outcome)
      (auto simp: replace_with_def split: option.splits prod.splits)
qed

definition committed :: "Documents \<Rightarrow> MigratedManifest \<Rightarrow> Lockfile \<Rightarrow> EnvDir \<Rightarrow> EnvDir" where
  "committed docs mm lockfile dir =
     write_file LOCKFILE_FILENAME (print_json docs lockfile @ newline)
       (write_file MANIFEST_FILENAME (sync_toml docs (mm_raw mm) (mm_manifest mm)) dir)"

lemma committed_inv [simp]: "bm_inv dir \<Longrightarrow> bm_inv (committed docs mm lockfile dir)"
  by (simp add: committed_def write_file_def bm_inv_insert)

lemma read_write_file:
  "bm_inv dir \<Longrightarrow> read_file name (Some (write_file name' contents dir)) =
     (if name = name' then Some contents else read_file name (Some dir))"
  by (simp add: read_file_def write_file_def bm_get_insert)

lemma write_file_inv [simp]: "bm_inv dir \<Longrightarrow> bm_inv (write_file name contents dir)"
  by (simp add: write_file_def bm_inv_insert)

lemma read_committed:
  "bm_inv dir \<Longrightarrow> read_file MANIFEST_FILENAME (Some (committed docs mm lockfile dir)) =
     Some (sync_toml docs (mm_raw mm) (mm_manifest mm))"
  "bm_inv dir \<Longrightarrow> read_file LOCKFILE_FILENAME (Some (committed docs mm lockfile dir)) =
     Some (print_json docs lockfile @ newline)"
  by (simp_all add: committed_def read_write_file) (simp add: MANIFEST_FILENAME_def LOCKFILE_FILENAME_def)

lemma writable_copy: "writable faults (Some dir) = Ok temp \<Longrightarrow> bm_inv dir \<Longrightarrow> temp = dir"
  using copy_complete [of "tf_stage faults" True dir "Some []"]
  by (auto simp: writable_def split: option.splits prod.splits CopyOutcome.splits)

lemma stage_manifest_ok:
  assumes "stage_manifest be docs faults mm (Some dir) = Ok (temp, lockfile)" and "bm_inv dir"
  shows "temp = committed docs mm lockfile dir \<and>
    (\<exists>existing. existing_lockfile docs (Some dir) = Ok existing \<and>
       lock_manifest (be_fetch be) (be_client be) (be_locker be) (be_now be) (mm_manifest mm) existing = Ok lockfile)"
proof -
  obtain temp0 existing result where temp0: "writable faults (Some dir) = Ok temp0"
    and existing: "existing_lockfile docs (Some temp0) = Ok existing"
    and result: "lock_without_writing be (mm_manifest mm) existing = Ok result" "lockfile = lock_of result"
    and pair: "write_manifest_lockfile_pair docs faults mm lockfile temp0 = Ok temp"
    using assms(1) by (auto simp: stage_manifest_def result_simps)
  have "temp = committed docs mm lockfile temp0"
    using pair by (auto simp: write_manifest_lockfile_pair_def update_manifest_def update_lockfile_with_contents_def
        committed_def result_simps split: option.splits)
  moreover have "lock_manifest (be_fetch be) (be_client be) (be_locker be) (be_now be) (mm_manifest mm) existing = Ok lockfile"
    using result by (auto simp: lock_without_writing_def split: sum.splits if_splits)
  ultimately show ?thesis
    using writable_copy [OF temp0 assms(2)] existing by auto
qed

lemma build_and_replace_outcome:
  assumes "build_and_replace be docs faults link temp w = (r, w')" and "ew_env w = Some old" and "ew_backup w = None"
    and "bm_inv temp"
  shows "(\<exists>out. r = Ok out \<and> build_dir be docs (Some temp) = Ok out \<and> ew_env w' = Some temp \<and> ew_backup w' = None) \<or>
     (\<exists>e. r = Err e) \<and>
       (ew_env w' = Some old \<and> ew_backup w' = None \<or> ew_backup w' = Some old \<or>
        ew_env w' = Some temp \<and> ew_backup w' \<noteq> None)"
proof (cases "build_dir be docs (Some temp)")
  case (Inl e)
  have "r = Err e \<and> w' = w"
    using assms(1) Inl by (simp add: build_and_replace_def)
  then show ?thesis
    using assms(2,3) by simp
next
  case (Inr out)
  let ?w = "if link then w\<lparr> ew_links := Some out \<rparr> else w"
  obtain r1 w1 where r1: "replace_with faults temp ?w = (r1, w1)"
    by (cases "replace_with faults temp ?w")
  have "r1 = Ok () \<and> ew_env w1 = Some temp \<and> ew_backup w1 = None \<or>
     (\<exists>e. r1 = Err e) \<and>
       (ew_env w1 = Some old \<and> ew_backup w1 = None \<or> ew_backup w1 = Some old \<or>
        ew_env w1 = Some temp \<and> ew_backup w1 \<noteq> None)"
    using replace_with_outcome [OF r1 _ _ assms(4)] assms(2,3) by auto
  moreover have "w' = w1 \<and> r = map_ok (\<lambda>_. out) r1"
    using assms(1) Inr r1 by (cases r1) (auto simp: build_and_replace_def act_bind_def act_ok_def act_err_def)
  ultimately show ?thesis
    using Inr by auto
qed

end
