(* ===== verification/Commits.thy ===== *)
theory Commits
  imports Core_Environment
begin

text \<open>
  What the transactions of an environment guarantee: an edit or an installation that succeeds leaves
  a manifest, its lockfile and a build that belong together, one that fails leaves the files of the
  environment, and the one failure that does not. What an upgrade reports.
\<close>

section \<open>The outcome of a transaction\<close>

lemma lock_manifest_user:
  assumes "lock_manifest fetch client locker now m seed = Ok lockfile"
  shows "user_manifest lockfile = m"
proof -
  obtain merged composed where merged: "merge_manifest fetch m seed None = Ok (merged, composed)"
    and lockfile: "lf_manifest lockfile = merged" "lf_compose lockfile = composed"
    using assms by (auto simp: lock_manifest_def lock_manifest_with_include_upgrades_def split: sum.splits)
  have "(composed = None \<and> merged = m) \<or> (\<exists>c. composed = Some c \<and> comp_composer c = m)"
    using merged by (auto simp: merge_manifest_def result_simps split: if_splits sum.splits)
  then show ?thesis
    using lockfile by (auto simp: user_manifest_def)
qed

definition locks_as :: "'out Backend \<Rightarrow> Manifest \<Rightarrow> Lockfile \<Rightarrow> bool" where
  "locks_as be m lockfile \<longleftrightarrow>
     (\<exists>seed. lock_manifest (be_fetch be) (be_client be) (be_locker be) (be_now be) m seed = Ok lockfile)"

lemma transact_outcome:
  assumes "transact_with_manifest be docs faults link mm w = (r, w')"
    and "ew_env w = Some old" and "ew_backup w = None" and "bm_inv old"
  shows "(\<exists>out lockfile. r = Ok (out, lockfile) \<and> ew_env w' = Some (committed docs mm lockfile old) \<and>
            ew_backup w' = None \<and> build_dir be docs (ew_env w') = Ok out \<and> locks_as be (mm_manifest mm) lockfile) \<or>
    (\<exists>e. r = Err e) \<and>
      (ew_env w' = Some old \<and> ew_backup w' = None \<or> ew_backup w' = Some old \<or>
       (\<exists>lockfile. ew_env w' = Some (committed docs mm lockfile old)) \<and> ew_backup w' \<noteq> None)"
proof (cases "stage_manifest be docs faults mm (ew_env w)")
  case (Inl e)
  then show ?thesis
    using assms by (auto simp: transact_with_manifest_def)
next
  case (Inr staged)
  then obtain temp lockfile where temp: "stage_manifest be docs faults mm (Some old) = Ok (temp, lockfile)"
    using assms(2) by (cases staged) auto
  then have eq: "temp = committed docs mm lockfile old" and locked: "locks_as be (mm_manifest mm) lockfile"
    using stage_manifest_ok assms(4) unfolding locks_as_def by blast+
  obtain r1 w1 where r1: "build_and_replace be docs faults link temp w = (r1, w1)"
    by (cases "build_and_replace be docs faults link temp w")
  have w': "w' = w1 \<and> r = map_ok (\<lambda>out. (out, lockfile)) r1"
    using assms(1,2) temp r1
    by (cases r1) (auto simp: transact_with_manifest_def act_bind_def act_ok_def act_err_def)
  have "bm_inv temp"
    using eq assms(4) by simp
  from build_and_replace_outcome [OF r1 assms(2,3) this] show ?thesis
    using w' eq locked by auto
qed

lemma transact_Ok:
  assumes "transact_with_manifest be docs faults link mm w = (Ok (out, lockfile), w')"
    and "ew_env w = Some old" and "ew_backup w = None" and "bm_inv old"
  shows "ew_env w' = Some (committed docs mm lockfile old) \<and> ew_backup w' = None \<and>
    build_dir be docs (ew_env w') = Ok out \<and> locks_as be (mm_manifest mm) lockfile"
  using transact_outcome [OF assms] by auto

text \<open>The two documents that a transaction writes read as what was written.\<close>

definition reads_back :: "Documents \<Rightarrow> MigratedManifest \<Rightarrow> Lockfile \<Rightarrow> bool" where
  "reads_back docs mm lockfile \<longleftrightarrow>
     parse_toml docs (sync_toml docs (mm_raw mm) (mm_manifest mm)) = Ok (mm_manifest mm) \<and>
     parse_json docs (print_json docs lockfile @ newline) = Ok lockfile"

lemma committed_reads:
  assumes "reads_back docs mm lockfile" and "bm_inv old" and "locks_as be (mm_manifest mm) lockfile"
  shows "manifest_without_migrating docs (Some (committed docs mm lockfile old)) =
      Ok \<lparr> mm_raw = sync_toml docs (mm_raw mm) (mm_manifest mm), mm_manifest = mm_manifest mm \<rparr>"
    and "lockfile_if_up_to_date docs (Some (committed docs mm lockfile old)) = Ok (Some lockfile)"
proof -
  show reads: "manifest_without_migrating docs (Some (committed docs mm lockfile old)) =
      Ok \<lparr> mm_raw = sync_toml docs (mm_raw mm) (mm_manifest mm), mm_manifest = mm_manifest mm \<rparr>"
    using assms(1) by (simp add: manifest_without_migrating_def read_committed [OF assms(2)] reads_back_def)
  have "user_manifest lockfile = mm_manifest mm"
    using assms(3) lock_manifest_user by (auto simp: locks_as_def)
  then show "lockfile_if_up_to_date docs (Some (committed docs mm lockfile old)) = Ok (Some lockfile)"
    using assms(1) reads
    by (simp add: lockfile_if_up_to_date_def existing_lockfile_def existing_lockfile_contents_def reads_back_def
        read_committed [OF assms(2)] is_up_to_date_with_serialized_manifest_def)
qed

text \<open>The lockfile on disk is one that locking the manifest gives: just written, or found up to date.\<close>

definition locked_on_disk :: "'out Backend \<Rightarrow> Documents \<Rightarrow> Manifest \<Rightarrow> EnvDir option \<Rightarrow> bool" where
  "locked_on_disk be docs m dir \<longleftrightarrow>
     (\<exists>lockfile. locks_as be m lockfile \<and>
        (read_file LOCKFILE_FILENAME dir = Some (print_json docs lockfile @ newline) \<or>
         existing_lockfile docs dir = Ok (Some lockfile)))"

section \<open>Locking in place\<close>

lemma lock_dir_Ok:
  assumes "lock_dir be docs faults dir = Ok (result, dir')"
  obtains mm existing where "manifest_without_migrating docs dir = Ok mm" and "existing_lockfile docs dir = Ok existing"
    and "lock_without_writing be (mm_manifest mm) existing = Ok result"
    and "dir' = (case result of LockUnchanged _ \<Rightarrow> dir
       | LockChanged lockfile \<Rightarrow> map_option (write_file LOCKFILE_FILENAME (print_json docs lockfile @ newline)) dir)"
proof -
  obtain mm existing r where parts: "manifest_without_migrating docs dir = Ok mm" "existing_lockfile docs dir = Ok existing"
    "lock_without_writing be (mm_manifest mm) existing = Ok r"
    using assms by (auto simp: lock_dir_def result_simps)
  then show ?thesis
    using assms that [OF parts(1,2)] by (cases r) (auto simp: lock_dir_def split: option.splits)
qed

lemma locked_env:
  assumes "core_lock be docs faults w = (Ok result, w')" and "ew_env w = Some old" and "bm_inv old"
  shows "\<exists>dir mm. ew_env w' = Some dir \<and> bm_inv dir \<and> ew_backup w' = ew_backup w \<and>
    (\<forall>name. name \<noteq> LOCKFILE_FILENAME \<longrightarrow> bm_get dir name = bm_get old name) \<and>
    manifest_without_migrating docs (Some old) = Ok mm \<and> locked_on_disk be docs (mm_manifest mm) (Some dir)"
proof -
  obtain dir' where locked: "lock_dir be docs faults (Some old) = Ok (result, dir')" and w': "w' = w\<lparr> ew_env := dir' \<rparr>"
    using assms(1,2) by (auto simp: core_lock_def split: sum.splits)
  obtain mm existing where mm: "manifest_without_migrating docs (Some old) = Ok mm"
    and existing: "existing_lockfile docs (Some old) = Ok existing"
    and result: "lock_without_writing be (mm_manifest mm) existing = Ok result"
    and dir': "dir' = (case result of LockUnchanged _ \<Rightarrow> Some old
       | LockChanged lockfile \<Rightarrow> map_option (write_file LOCKFILE_FILENAME (print_json docs lockfile @ newline)) (Some old))"
    by (rule lock_dir_Ok [OF locked])
  have locks: "locks_as be (mm_manifest mm) (lock_of result)"
    using result by (auto simp: lock_without_writing_def locks_as_def split: sum.splits if_splits)
  show ?thesis
  proof (cases result)
    case (LockUnchanged lockfile)
    then have "existing = Some lockfile"
      using result by (auto simp: lock_without_writing_def split: sum.splits if_splits)
    then show ?thesis
      using assms(3) mm existing LockUnchanged w' dir' locks by (auto simp: locked_on_disk_def)
  next
    case (LockChanged lockfile)
    let ?dir = "write_file LOCKFILE_FILENAME (print_json docs lockfile @ newline) old"
    have "locked_on_disk be docs (mm_manifest mm) (Some ?dir)"
      using locks LockChanged read_write_file [OF assms(3)] by (auto simp: locked_on_disk_def)
    then show ?thesis
      using w' dir' mm LockChanged assms(3) by (auto simp: write_file_def bm_get_insert bm_inv_insert)
  qed
qed

lemma same_manifest:
  assumes "\<forall>name. name \<noteq> LOCKFILE_FILENAME \<longrightarrow> bm_get dir name = bm_get old name"
  shows "manifest_without_migrating docs (Some dir) = manifest_without_migrating docs (Some old)"
  using assms by (simp add: manifest_without_migrating_def read_file_def MANIFEST_FILENAME_def LOCKFILE_FILENAME_def)

text \<open>Reading the manifest of an environment locks it first, when its lock is not up to date.\<close>

lemma manifest_env:
  assumes "core_manifest be docs faults w = (Ok mm, w')" and "ew_env w = Some old" and "bm_inv old"
  shows "\<exists>dir. ew_env w' = Some dir \<and> bm_inv dir \<and> ew_backup w' = ew_backup w \<and>
    (\<forall>name. name \<noteq> LOCKFILE_FILENAME \<longrightarrow> bm_get dir name = bm_get old name) \<and>
    manifest_without_migrating docs (Some old) = Ok mm"
proof -
  have mm: "manifest_without_migrating docs (Some old) = Ok mm" and "\<exists>result. ensure_locked be docs faults w = (Ok result, w')"
    using assms(1,2) by (auto simp: core_manifest_def act_bind_Inr_iff act_ok_def split: sum.splits)
  then obtain result where locked: "ensure_locked be docs faults w = (Ok result, w')"
    by blast
  show ?thesis
  proof (cases "lockfile_if_up_to_date docs (Some old) = Ok None")
    case True
    then have "core_lock be docs faults w = (Ok result, w')"
      using locked assms(2) by (simp add: ensure_locked_def)
    then show ?thesis
      using locked_env [OF _ assms(2,3)] mm by blast
  next
    case False
    then have "w' = w"
      using locked assms(2) by (auto simp: ensure_locked_def split: sum.splits option.splits)
    then show ?thesis
      using assms(2,3) mm by auto
  qed
qed

text \<open>An installation up to its modifications: the manifest is read and locked, which keeps it.\<close>

lemma install_starts:
  assumes "core_install api be docs faults link packages w = (Ok attempt, w')"
    and "ew_env w = Some old" and "ew_backup w = None" and "bm_inv old"
    and "manifest_without_migrating docs (Some old) = Ok mm"
  obtains locked modifications w2 dir where "ew_env w2 = Some dir" and "bm_inv dir" and "ew_backup w2 = None"
    and "manifest_without_migrating docs (Some dir) = Ok mm" and "locked_on_disk be docs (mm_manifest mm) (Some dir)"
    and "compute_install_modifications packages (mm_manifest mm) locked = Ok modifications"
    and "(if modifications = [] then act_ok \<lparr> ia_modifications = modifications, ia_built_environments = None \<rparr>
      else act_bind (act_lift (modify_migrated api docs mm modifications)) (\<lambda>new_manifest.
           act_bind (transact_with_manifest be docs faults link new_manifest) (\<lambda>(out, _).
           act_ok \<lparr> ia_modifications = modifications, ia_built_environments = Some out \<rparr>))) w2 = (Ok attempt, w')"
proof -
  let ?continue = "\<lambda>mm1 modifications.
      if modifications = [] then act_ok \<lparr> ia_modifications = modifications, ia_built_environments = None \<rparr>
      else act_bind (act_lift (modify_migrated api docs mm1 modifications)) (\<lambda>new_manifest.
           act_bind (transact_with_manifest be docs faults link new_manifest) (\<lambda>(out, _).
           act_ok \<lparr> ia_modifications = modifications, ia_built_environments = Some out \<rparr>))"
  obtain mm1 w1 result w2 where first: "core_manifest be docs faults w = (Ok mm1, w1)"
    and lock: "core_lock be docs faults w1 = (Ok result, w2)"
    and tail: "(case compute_install_modifications packages (mm_manifest mm1) (lock_of result) of
        Inl e \<Rightarrow> act_err (CoreInstallOrUninstall e) | Inr modifications \<Rightarrow> ?continue mm1 modifications) w2 = (Ok attempt, w')"
    using assms(1) unfolding core_install_def act_bind_Inr_iff by blast
  then obtain modifications where mods: "compute_install_modifications packages (mm_manifest mm1) (lock_of result) = Ok modifications"
    and rest: "?continue mm1 modifications w2 = (Ok attempt, w')"
    by (cases "compute_install_modifications packages (mm_manifest mm1) (lock_of result)") (simp_all add: act_err_def)
  obtain dir1 where env1: "ew_env w1 = Some dir1" "bm_inv dir1" "ew_backup w1 = ew_backup w"
    and kept1: "\<forall>name. name \<noteq> LOCKFILE_FILENAME \<longrightarrow> bm_get dir1 name = bm_get old name"
    and read1: "manifest_without_migrating docs (Some old) = Ok mm1"
    using manifest_env [OF first assms(2,4)] by blast
  have mm1: "mm1 = mm" and again: "manifest_without_migrating docs (Some dir1) = Ok mm"
    using read1 assms(5) same_manifest [OF kept1, of docs] by simp_all
  obtain dir2 mm2 where env2: "ew_env w2 = Some dir2" "bm_inv dir2" "ew_backup w2 = ew_backup w1"
    and kept2: "\<forall>name. name \<noteq> LOCKFILE_FILENAME \<longrightarrow> bm_get dir2 name = bm_get dir1 name"
    and read2: "manifest_without_migrating docs (Some dir1) = Ok mm2"
    and disk2: "locked_on_disk be docs (mm_manifest mm2) (Some dir2)"
    using locked_env [OF lock env1(1,2)] by blast
  have dir2: "ew_env w2 = Some dir2" "bm_inv dir2" "ew_backup w2 = None"
    "manifest_without_migrating docs (Some dir2) = Ok mm" "locked_on_disk be docs (mm_manifest mm) (Some dir2)"
    using env2 env1(3) assms(3) read2 again disk2 same_manifest [OF kept2, of docs] by simp_all
  show ?thesis
    by (rule that [OF dir2 mods [unfolded mm1] rest [unfolded mm1]])
qed

section \<open>What an upgrade reports\<close>

lemma upgrades_of_get:
  assumes "bm_inv prev"
  shows "bm_get (upgrades_of prev after) system = Some (p, q) \<longleftrightarrow>
    bm_get prev system = Some p \<and> bm_get after system = Some q \<and> is_upgrade p q"
  unfolding upgrades_of_def
  using map_of_map_filter [OF bm.entries_distinct [OF assms], where h = "\<lambda>system p. Option.bind (bm_get after system) (\<lambda>q.
    if is_upgrade p q then Some (p, q) else None)" and k = system]
  by (auto simp: bind_eq_Some_conv)

text \<open>The package that stands for an install id on a system: the first one of the lockfile.\<close>

definition first_locked :: "Lockfile \<Rightarrow> string \<Rightarrow> system \<Rightarrow> LockedPackage option" where
  "first_locked lockfile iid system = find (\<lambda>p. locked_install_id p = iid \<and> locked_system p = system) (lf_packages lockfile)"

definition indexed :: "packages_by_id \<Rightarrow> LockedPackage list \<Rightarrow> bool" where
  "indexed index pkgs \<longleftrightarrow> bm_inv index \<and> (\<forall>iid by_system. bm_get index iid = Some by_system \<longrightarrow> bm_inv by_system) \<and>
     (\<forall>iid system. Option.bind (bm_get index iid) (\<lambda>by_system. bm_get by_system system) =
        find (\<lambda>p. locked_install_id p = iid \<and> locked_system p = system) pkgs)"

lemma find_snoc: "find P (xs @ [x]) = (case find P xs of Some y \<Rightarrow> Some y | None \<Rightarrow> if P x then Some x else None)"
  by (induction xs) auto

text \<open>The first entry of a key stays: \<open>entry().or_insert\<close> for a package and its lookup.\<close>

lemma or_insert_get:
  assumes "bm_inv b" and "\<And>k. bm_get b k = find (\<lambda>q. P q \<and> key q = k) qs" and "P p"
  shows "bm_inv (if bm_contains b (key p) then b else bm_insert (key p) p b) \<and>
    bm_get (if bm_contains b (key p) then b else bm_insert (key p) p b) k = find (\<lambda>q. P q \<and> key q = k) (qs @ [p])"
proof (cases "bm_get b (key p)")
  case None
  then have "find (\<lambda>q. P q \<and> key q = key p) qs = None"
    using assms(2) [of "key p"] by simp
  then show ?thesis
    using None assms by (cases "k = key p") (auto simp: bm_contains_def bm_get_insert bm_inv_insert find_snoc split: option.splits)
next
  case (Some q)
  then have "find (\<lambda>q. P q \<and> key q = key p) qs = Some q"
    using assms(2) [of "key p"] by simp
  then show ?thesis
    using Some assms by (cases "k = key p") (auto simp: bm_contains_def find_snoc split: option.splits)
qed

lemma index_packages_indexed: "indexed (foldl index_package [] pkgs) pkgs"
proof (induction pkgs rule: rev_induct)
  case (snoc p pkgs)
  define index where "index = foldl index_package [] pkgs"
  define old where "old = (case bm_get index (locked_install_id p) of Some b \<Rightarrow> b | None \<Rightarrow> [])"
  define new where "new = (if bm_contains old (locked_system p) then old else bm_insert (locked_system p) p old)"
  note IH = snoc [folded index_def, unfolded indexed_def]
  have old_inv: "bm_inv old"
    using IH by (auto simp: old_def split: option.splits)
  have index_get: "Option.bind (bm_get index iid) (\<lambda>by_system. bm_get by_system system) =
      find (\<lambda>q. locked_install_id q = iid \<and> locked_system q = system) pkgs" for iid system
    using IH by blast
  have "bm_get old system = find (\<lambda>q. locked_install_id q = locked_install_id p \<and> locked_system q = system) pkgs" for system
    using index_get [of "locked_install_id p" system] by (cases "bm_get index (locked_install_id p)") (simp_all add: old_def)
  then have new: "bm_inv new" "bm_get new system =
      find (\<lambda>q. locked_install_id q = locked_install_id p \<and> locked_system q = system) (pkgs @ [p])" for system
    using or_insert_get [OF old_inv, where P = "\<lambda>q. locked_install_id q = locked_install_id p" and key = locked_system and qs = pkgs]
    by (simp_all add: new_def)
  have step: "foldl index_package [] (pkgs @ [p]) = bm_insert (locked_install_id p) new index"
    by (simp add: index_package_def new_def old_def index_def Let_def)
  have get: "bm_get (bm_insert (locked_install_id p) new index) iid =
      (if iid = locked_install_id p then Some new else bm_get index iid)" for iid
    using IH by (simp add: bm_get_insert)
  show ?case
    unfolding indexed_def step
  proof (intro conjI allI impI)
    show "bm_inv (bm_insert (locked_install_id p) new index)"
      using IH by (simp add: bm_inv_insert)
  next
    fix iid by_system
    assume "bm_get (bm_insert (locked_install_id p) new index) iid = Some by_system"
    then show "bm_inv by_system"
      using new(1) IH unfolding get by (cases "iid = locked_install_id p") auto
  next
    fix iid system
    show "Option.bind (bm_get (bm_insert (locked_install_id p) new index) iid) (\<lambda>by_system. bm_get by_system system) =
        find (\<lambda>q. locked_install_id q = iid \<and> locked_system q = system) (pkgs @ [p])"
    proof (cases "iid = locked_install_id p")
      case False
      then show ?thesis
        using IH unfolding get by (simp add: find_snoc split: option.splits)
    qed (simp add: get new(2))
  qed
qed (simp add: indexed_def)

text \<open>The packages of the previous lockfile by id, and the differences of one id.\<close>

abbreviation previous_index :: "'out UpgradeResult \<Rightarrow> packages_by_id" where
  "previous_index result \<equiv> (case ur_old_lockfile result of Some l \<Rightarrow> index_packages l | None \<Rightarrow> [])"

lemma previous_indexed:
  "indexed (previous_index result) (case ur_old_lockfile result of Some l \<Rightarrow> lf_packages l | None \<Rightarrow> [])"
  using index_packages_indexed index_packages_indexed [of "[]"] by (simp add: index_packages_def split: option.splits)

lemma previous_distinct: "distinct (map fst (previous_index result))"
  using previous_indexed bm.entries_distinct unfolding indexed_def by blast

lemma index_get:
  "Option.bind (bm_get (index_packages l) iid) (\<lambda>by_system. bm_get by_system system) = first_locked l iid system"
  using index_packages_indexed [of "lf_packages l"] by (simp add: index_packages_def indexed_def first_locked_def)

lemma previous_get:
  "Option.bind (bm_get (previous_index result) iid) (\<lambda>by_system. bm_get by_system system) =
     Option.bind (ur_old_lockfile result) (\<lambda>l. first_locked l iid system)"
  using index_get by (simp split: option.splits)

lemma diff_get:
  "bm_get (upgrade_result_diff result) iid = Option.bind (bm_get (previous_index result) iid) (\<lambda>prev.
     Option.bind (bm_get (index_packages (ur_new_lockfile result)) iid) (\<lambda>by_system.
       if upgrades_of prev by_system = [] then None else Some (upgrades_of prev by_system)))"
  unfolding upgrade_result_diff_def Let_def
  using map_of_map_filter [OF previous_distinct [of result], where h = "\<lambda>iid prev.
      Option.bind (bm_get (index_packages (ur_new_lockfile result)) iid) (\<lambda>by_system.
        if upgrades_of prev by_system = [] then None else Some (upgrades_of prev by_system))"] by simp

lemma diff_for_system_get:
  "bm_get (diff_for_system result system) iid =
     Option.bind (bm_get (upgrade_result_diff result) iid) (\<lambda>by_system. bm_get by_system system)"
proof -
  have "distinct (map fst (upgrade_result_diff result))"
    unfolding upgrade_result_diff_def Let_def by (rule map_filter_distinct [OF previous_distinct])
  from map_of_map_filter [OF this, where h = "\<lambda>_ by_system. bm_get by_system system"] show ?thesis
    by (simp add: diff_for_system_def)
qed

lemma diff_not_empty:
  "(\<exists>system. bm_get (diff_for_system result system) iid \<noteq> None) \<longleftrightarrow> bm_get (upgrade_result_diff result) iid \<noteq> None"
proof
  assume "bm_get (upgrade_result_diff result) iid \<noteq> None"
  then obtain changes where changes: "bm_get (upgrade_result_diff result) iid = Some changes"
    by blast
  then have "changes \<noteq> []"
    by (auto simp: diff_get bind_eq_Some_conv split: if_splits)
  then have "bm_get changes (fst (hd changes)) \<noteq> None"
    by (cases changes) auto
  then show "\<exists>system. bm_get (diff_for_system result system) iid \<noteq> None"
    using changes by (intro exI [of _ "fst (hd changes)"]) (simp add: diff_for_system_get)
qed (auto simp: diff_for_system_get bind_eq_Some_conv)

lemma diff_entry:
  "bm_get (diff_for_system result system) iid = Some (p, q) \<longleftrightarrow>
     Option.bind (ur_old_lockfile result) (\<lambda>l. first_locked l iid system) = Some p \<and>
     first_locked (ur_new_lockfile result) iid system = Some q \<and> is_upgrade p q"
proof (cases "bm_get (previous_index result) iid")
  case prev: (Some prev)
  show ?thesis
  proof (cases "bm_get (index_packages (ur_new_lockfile result)) iid")
    case (Some by_system)
    have "bm_get (diff_for_system result system) iid = bm_get (upgrades_of prev by_system) system"
      unfolding diff_for_system_get diff_get using prev Some by simp
    moreover have "bm_inv prev"
      using prev previous_indexed unfolding indexed_def by blast
    ultimately show ?thesis
      using previous_get [of result iid system] index_get [of "ur_new_lockfile result" iid system] prev Some
      by (simp add: upgrades_of_get)
  next
    case None
    then show ?thesis
      using index_get [of "ur_new_lockfile result" iid system] by (auto simp: diff_for_system_get diff_get bind_eq_Some_conv)
  qed
next
  case None
  then show ?thesis
    using previous_get [of result iid system] by (auto simp: diff_for_system_get diff_get bind_eq_Some_conv)
qed

section \<open>A small environment on disk\<close>

definition demo_documents :: Documents where
  "demo_documents = \<lparr> parse_toml = (\<lambda>text. if text = ''hello.pkg-path'' then Ok demo_locking_manifest else Err ''expected a table''),
     sync_toml = (\<lambda>raw _. raw), normalize_toml = Some,
     parse_json = (\<lambda>text. if text = ''locked'' @ newline then Ok demo_lockfile else Err ''expected a value''),
     print_json = (\<lambda>_. ''locked'') \<rparr>"

definition demo_backend :: "string Backend" where
  "demo_backend = \<lparr> be_fetch = demo_fetch, be_client = demo_client, be_locker = demo_locker, be_now = 0,
     be_system = ''x86_64-linux'', be_write_services = (\<lambda>_. Err ''no services''), be_auth = Ok (),
     be_build = (\<lambda>_ _. Ok ''/nix/store/environment'') \<rparr>"

definition no_copy_faults :: CopyFaults where
  "no_copy_faults = \<lparr> cf_root = None, cf_walk = (\<lambda>_. None), cf_entry = (\<lambda>_. None) \<rparr>"

definition no_faults :: TransactionFaults where
  "no_faults = \<lparr> tf_tempdir = None, tf_stage = no_copy_faults, tf_write_manifest = None, tf_write_lockfile = None,
     tf_write_lock = None, tf_backup = None, tf_swap = no_copy_faults, tf_clear = None, tf_restore = None,
     tf_drop_backup = None \<rparr>"

definition demo_mm :: MigratedManifest where
  "demo_mm = \<lparr> mm_raw = ''hello.pkg-path'', mm_manifest = demo_locking_manifest \<rparr>"

definition demo_dir :: "string \<Rightarrow> EnvDir" where
  "demo_dir contents = [(''manifest.toml'', EntryFile contents)]"

definition demo_world :: "string \<Rightarrow> string EnvWorld" where
  "demo_world contents = \<lparr> ew_env = Some (demo_dir contents), ew_backup = None, ew_links = None \<rparr>"

lemma demo_world_simps [simp]:
  "ew_env (demo_world contents) = Some (demo_dir contents)" "ew_backup (demo_world contents) = None"
  "bm_inv (demo_dir contents)"
  by (simp_all add: demo_world_def demo_dir_def bm_inv_def)

lemma demo_locks: "lock_manifest demo_fetch demo_client demo_locker 0 demo_locking_manifest None = Ok demo_lockfile"
  by code_simp

text \<open>The disk is full when the directory is made again.\<close>

definition full_disk :: TransactionFaults where
  "full_disk = no_faults\<lparr> tf_swap := no_copy_faults\<lparr> cf_root := Some ''No space left on device'' \<rparr> \<rparr>"

lemma demo_stage: "stage_manifest demo_backend demo_documents full_disk demo_mm (Some (demo_dir ''hello.pkg-path'')) =
    Ok (committed demo_documents demo_mm demo_lockfile (demo_dir ''hello.pkg-path''), demo_lockfile)"
  by code_simp

abbreviation demo_transaction :: "TransactionFaults \<Rightarrow> (CoreEnvironmentError + string \<times> Lockfile) \<times> string EnvWorld" where
  "demo_transaction faults \<equiv>
     transact_with_manifest demo_backend demo_documents faults False demo_mm (demo_world ''hello.pkg-path'')"

lemma demo_transaction: "is_ok (fst (demo_transaction no_faults))"
  by code_simp

lemma demo_build: "build_dir demo_backend demo_documents
    (Some (committed demo_documents demo_mm demo_lockfile (demo_dir ''hello.pkg-path''))) = Ok ''/nix/store/environment''"
  by code_simp

abbreviation demo_edit :: "(CoreEnvironmentError + string EditResult) \<times> string EnvWorld" where
  "demo_edit \<equiv> core_edit demo_backend demo_documents no_faults False ''hello.pkg-path'' (demo_world ''hello.pkg-path'')"

lemma demo_edit: "fst demo_edit = Ok (EditChanged None demo_lockfile ''/nix/store/environment'')"
  by code_simp

lemma demo_reads_back: "reads_back demo_documents demo_mm demo_lockfile"
  by code_simp

abbreviation demo_installation :: "(CoreEnvironmentError + (string, string) InstallationAttempt) \<times> string EnvWorld" where
  "demo_installation \<equiv> core_install demo_url demo_backend demo_documents no_faults False [demo_request ''hello'' ''out'']
     (demo_world ''hello.pkg-path'')"

lemma demo_installation: "is_ok (fst demo_installation)"
  by code_simp

section \<open>Properties\<close>

text \<open>
  C30. A transaction is all or nothing. When it succeeds, the environment is the old one with the new
  manifest and its lockfile, built, and there is no backup. When it fails, whatever the file system
  did, the environment is still the old one, or the old one is complete in the backup, or the new
  one is complete in place and only its backup could not be removed.
\<close>

theorem transaction_keeps_an_environment:
  assumes "transact_with_manifest be docs faults link mm w = (r, w')"
    and "ew_env w = Some old" and "ew_backup w = None" and "bm_inv old"
  shows "(\<exists>out lockfile. r = Ok (out, lockfile) \<and> ew_env w' = Some (committed docs mm lockfile old) \<and>
            ew_backup w' = None \<and> build_dir be docs (ew_env w') = Ok out) \<or>
    (\<exists>e. r = Err e) \<and>
      (ew_env w' = Some old \<and> ew_backup w' = None \<or> ew_backup w' = Some old \<or>
       (\<exists>lockfile. ew_env w' = Some (committed docs mm lockfile old)) \<and> ew_backup w' \<noteq> None)"
  using transact_outcome [OF assms] by blast

lemma transaction_keeps_an_environment_witness:
  "\<exists>lockfile. ew_env (snd (demo_transaction no_faults)) =
     Some (committed demo_documents demo_mm lockfile (demo_dir ''hello.pkg-path''))"
proof -
  obtain r w' where r: "demo_transaction no_faults = (r, w')"
    by (cases "demo_transaction no_faults")
  have "is_ok r"
    using demo_transaction r by simp
  then show ?thesis
    using transaction_keeps_an_environment [OF r] r by auto
qed

text \<open>
  C31. An edit that reports a change has written the new manifest, its lock and a build of it: the
  environment holds the text of the edit brought in line with what it parses to, and the next
  operation finds that manifest locked by the reported lockfile. An edit that reports no change has
  changed nothing.
\<close>

theorem edit_commits:
  assumes "core_edit be docs faults link contents w = (Ok result, w')"
    and "ew_env w = Some old" and "ew_backup w = None" and "bm_inv old"
  shows "case result of
      EditUnchanged \<Rightarrow> w' = w \<and> (\<exists>lockfile. lockfile_if_up_to_date docs (ew_env w) = Ok (Some lockfile))
    | EditChanged previous lockfile out \<Rightarrow>
        lockfile_if_up_to_date docs (ew_env w) = Ok previous \<and>
        build_dir be docs (ew_env w') = Ok out \<and> ew_backup w' = None \<and>
        (\<exists>m. parse_toml docs contents = Ok m \<and>
           ew_env w' = Some (committed docs \<lparr> mm_raw = contents, mm_manifest = m \<rparr> lockfile old) \<and>
           (reads_back docs \<lparr> mm_raw = contents, mm_manifest = m \<rparr> lockfile \<longrightarrow>
              map_ok mm_manifest (manifest_without_migrating docs (ew_env w')) = Ok m \<and>
              lockfile_if_up_to_date docs (ew_env w') = Ok (Some lockfile)))"
proof -
  obtain up_to_date same where start: "lockfile_if_up_to_date docs (ew_env w) = Ok up_to_date"
    "contents_match_existing_manifest docs (ew_env w) contents = Ok same"
    using assms(1) by (auto simp: core_edit_def result_simps split: sum.splits prod.splits)
  show ?thesis
  proof (cases "same \<and> up_to_date \<noteq> None")
    case True
    then show ?thesis
      using assms(1) start by (auto simp: core_edit_def)
  next
    case False
    then obtain m where m: "parse_toml docs contents = Ok m"
      using assms(1) start by (auto simp: core_edit_def parse_contents_def split: sum.splits if_splits)
    let ?mm = "\<lparr> mm_raw = contents, mm_manifest = m \<rparr>"
    have "act_bind (transact_with_manifest be docs faults link ?mm)
        (\<lambda>(out, lockfile). act_ok (EditChanged up_to_date lockfile out)) w = (Ok result, w')"
      using assms(1) start False m by (auto simp: core_edit_def parse_contents_def split: if_splits)
    then obtain out lockfile where transacted: "transact_with_manifest be docs faults link ?mm w = (Ok (out, lockfile), w')"
      and result: "result = EditChanged up_to_date lockfile out"
      by (auto simp: act_bind_Inr_iff act_ok_def)
    from transact_Ok [OF transacted assms(2-4)] show ?thesis
      using result start m committed_reads [of docs ?mm lockfile old be] assms(4) by auto
  qed
qed

lemma edit_commits_witness:
  "lockfile_if_up_to_date demo_documents (ew_env (snd demo_edit)) = Ok (Some demo_lockfile)"
proof -
  have run: "demo_edit = (Ok (EditChanged None demo_lockfile ''/nix/store/environment''), snd demo_edit)"
    using demo_edit by (metis prod.collapse)
  have "parse_toml demo_documents ''hello.pkg-path'' = Ok demo_locking_manifest"
    by (simp add: demo_documents_def)
  then show ?thesis
    using edit_commits [OF run] demo_reads_back by (auto simp: demo_mm_def)
qed

text \<open>
  C32. An installation that succeeds leaves an environment in which every requested package is in the
  manifest on disk: the manifest as it was with the reported modifications, which are those computed
  from it. Its lock on disk is one that locking this manifest gives, and when something was
  modified the environment on disk is the one that was built.
\<close>

theorem install_commits:
  assumes "core_install api be docs faults link packages w = (Ok attempt, w')"
    and "ew_env w = Some old" and "ew_backup w = None" and "bm_inv old"
    and "manifest_without_migrating docs (Some old) = Ok mm" and "bm_inv (mf_install (mm_manifest mm))"
    and "distinct (map package_id packages)"
  shows "\<exists>locked m. compute_install_modifications packages (mm_manifest mm) locked = Ok (ia_modifications attempt) \<and>
    modify_packages api (mm_manifest mm) (ia_modifications attempt) = Ok m \<and>
    (\<forall>pkg \<in> set packages. pkg_descriptor_with_id m (package_id pkg) \<noteq> None) \<and>
    locked_on_disk be docs m (ew_env w') \<and> ew_backup w' = None \<and>
    (case ia_built_environments attempt of
       None \<Rightarrow> m = mm_manifest mm \<and> manifest_without_migrating docs (ew_env w') = Ok mm
     | Some out \<Rightarrow> build_dir be docs (ew_env w') = Ok out \<and>
         (\<exists>raw. read_file MANIFEST_FILENAME (ew_env w') = Some (sync_toml docs raw m)))"
proof -
  obtain locked modifications w2 dir2 where dir2: "ew_env w2 = Some dir2" "bm_inv dir2" "ew_backup w2 = None"
    "manifest_without_migrating docs (Some dir2) = Ok mm" "locked_on_disk be docs (mm_manifest mm) (Some dir2)"
    and mods: "compute_install_modifications packages (mm_manifest mm) locked = Ok modifications"
    and rest: "(if modifications = [] then act_ok \<lparr> ia_modifications = modifications, ia_built_environments = None \<rparr>
      else act_bind (act_lift (modify_migrated api docs mm modifications)) (\<lambda>new_manifest.
           act_bind (transact_with_manifest be docs faults link new_manifest) (\<lambda>(out, _).
           act_ok \<lparr> ia_modifications = modifications, ia_built_environments = Some out \<rparr>))) w2 = (Ok attempt, w')"
    by (rule install_starts [OF assms(1-5)])
  obtain install' where install': "modify_all api modifications (mf_install (mm_manifest mm)) = Ok install'"
    and entries: "\<forall>pkg \<in> set packages. bm_get install' (package_id pkg) \<noteq> None"
    using install_result [OF assms(6,7) mods, of api] by (fastforce split: option.splits)
  obtain m where m: "modify_packages api (mm_manifest mm) modifications = Ok m" "mf_install m = install'"
    using install' by (simp add: modify_packages_def)
  have found: "\<forall>pkg \<in> set packages. pkg_descriptor_with_id m (package_id pkg) \<noteq> None"
    using entries m(2) by (simp add: pkg_descriptor_with_id_def)
  show ?thesis
  proof (cases "modifications = []")
    case True
    then have "attempt = \<lparr> ia_modifications = [], ia_built_environments = None \<rparr>" "w' = w2"
      using rest by (simp_all add: act_ok_def)
    moreover have "m = mm_manifest mm"
      using m True by (simp add: modify_packages_def)
    ultimately show ?thesis
      using True mods m found dir2 by auto
  next
    case False
    let ?new = "\<lparr> mm_raw = sync_toml docs (mm_raw mm) m, mm_manifest = m \<rparr>"
    obtain out lockfile where transacted: "transact_with_manifest be docs faults link ?new w2 = (Ok (out, lockfile), w')"
      and attempt: "attempt = \<lparr> ia_modifications = modifications, ia_built_environments = Some out \<rparr>"
      using rest False m(1) by (auto simp: act_bind_Inr_iff act_ok_def act_lift_def modify_migrated_def)
    note committed = transact_Ok [OF transacted dir2(1,3,2)]
    have "locked_on_disk be docs m (ew_env w')"
      using committed read_committed(2) [OF dir2(2)] by (auto simp: locked_on_disk_def)
    then show ?thesis
      using committed mods m(1) found attempt read_committed(1) [OF dir2(2), of docs ?new] by auto
  qed
qed

lemma install_commits_witness:
  "\<exists>m. locked_on_disk demo_backend demo_documents m (ew_env (snd demo_installation)) \<and>
     pkg_descriptor_with_id m ''hello'' \<noteq> None"
proof -
  obtain attempt w' where run: "demo_installation = (Ok attempt, w')"
    using demo_installation by (metis is_ok.elims(2) prod.collapse)
  have "manifest_without_migrating demo_documents (Some (demo_dir ''hello.pkg-path'')) = Ok demo_mm"
    by code_simp
  then show ?thesis
    using install_commits [OF run _ _ _ _ _ _] demo_locking_inv run by (fastforce simp: demo_mm_def)
qed

text \<open>
  C33. The swap of a transaction panics when the directory of the environment cannot be made again
  after the old one was moved away: the old environment stays in the backup, nothing restores it,
  and from then on reading, locking, editing, installing, uninstalling and upgrading all fail and
  change nothing.
\<close>

theorem swap_panic_strands_environment:
  assumes "stage_manifest be docs faults mm (ew_env w) = Ok (temp, lockfile)" and "build_dir be docs (Some temp) = Ok out"
    and "ew_env w = Some old" and "ew_backup w = None" and "tf_backup faults = None"
    and "cf_root (tf_swap faults) = Some e"
  shows "\<exists>w'. transact_with_manifest be docs faults link mm w = (Err (CorePanic e), w') \<and>
    ew_env w' = None \<and> ew_backup w' = Some old \<and>
    (\<exists>err. \<forall>faults' link' contents packages specs groups api walk write_lockfile.
       core_manifest be docs faults' w' = (Err err, w') \<and> core_lock be docs faults' w' = (Err err, w') \<and>
       core_edit be docs faults' link' contents w' = (Err err, w') \<and>
       core_install api be docs faults' link' packages w' = (Err err, w') \<and>
       core_uninstall api walk be docs faults' link' specs w' = (Err err, w') \<and>
       core_upgrade be docs faults' link' groups write_lockfile w' = (Err err, w'))"
proof -
  let ?w' = "(if link then w\<lparr> ew_links := Some out \<rparr> else w)\<lparr> ew_env := None, ew_backup := Some old \<rparr>"
  let ?err = "CoreManifest ''failed to read manifest file''"
  have env: "ew_env ?w' = None"
    by simp
  have "replace_with faults temp (if link then w\<lparr> ew_links := Some out \<rparr> else w) = (Err (CorePanic e), ?w')"
    using assms(3-6) by (simp add: replace_with_def copy_dir_recursive_def)
  then have "transact_with_manifest be docs faults link mm w = (Err (CorePanic e), ?w')"
    using assms(1,2) by (simp add: transact_with_manifest_def build_and_replace_def act_bind_Inl)
  moreover have read: "manifest_without_migrating docs None = Err ?err" "existing_lockfile docs None = Ok None"
    by (simp_all add: manifest_without_migrating_def read_file_def existing_lockfile_def existing_lockfile_contents_def)
  have manifest: "core_manifest be docs faults' ?w' = (Err ?err, ?w')" for faults'
    unfolding core_manifest_def env by (simp add: read)
  have lock: "core_lock be docs faults' ?w' = (Err ?err, ?w')" for faults'
    unfolding core_lock_def lock_dir_def env by (simp add: read)
  have edit: "core_edit be docs faults' link' contents ?w' = (Err ?err, ?w')" for faults' link' contents
    unfolding core_edit_def env by (simp add: lockfile_if_up_to_date_def contents_match_existing_manifest_def read)
  have "core_install api be docs faults' link' packages ?w' = (Err ?err, ?w')" for api faults' link' packages
    unfolding core_install_def by (rule act_bind_Inl [of "core_manifest be docs faults'", OF manifest])
  moreover have "core_uninstall api walk be docs faults' link' specs ?w' = (Err ?err, ?w')" for api walk faults' link' specs
    unfolding core_uninstall_def by (rule act_bind_Inl [of "core_lock be docs faults'", OF lock])
  moreover have "core_upgrade be docs faults' link' groups write_lockfile ?w' = (Err ?err, ?w')"
    for faults' link' groups write_lockfile
    unfolding core_upgrade_def by (rule act_bind_Inl [of "core_manifest be docs faults'", OF manifest])
  ultimately show ?thesis
    using manifest lock edit by (intro exI [of _ ?w']) auto
qed

lemma swap_panic_strands_environment_witness:
  "\<exists>w'. demo_transaction full_disk = (Err (CorePanic ''No space left on device''), w') \<and>
    ew_env w' = None \<and> ew_backup w' = Some (demo_dir ''hello.pkg-path'')"
proof -
  have faults: "tf_backup full_disk = None" "cf_root (tf_swap full_disk) = Some ''No space left on device''"
    by (simp_all add: full_disk_def no_faults_def)
  have "stage_manifest demo_backend demo_documents full_disk demo_mm (ew_env (demo_world ''hello.pkg-path'')) =
      Ok (committed demo_documents demo_mm demo_lockfile (demo_dir ''hello.pkg-path''), demo_lockfile)"
    using demo_stage by simp
  from swap_panic_strands_environment [OF this demo_build demo_world_simps(1,2) faults, of False] show ?thesis
    by blast
qed

text \<open>
  C34. What an upgrade reports for a system are the install ids whose first locked package for that
  system has another derivation than before, with both packages; a package that is new or gone, or a
  store path, is none. The list of upgraded packages has the ids reported for any system.
\<close>

theorem upgrade_diff_correct:
  "(bm_get (diff_for_system result system) iid = Some (p, q) \<longleftrightarrow>
      Option.bind (ur_old_lockfile result) (\<lambda>l. first_locked l iid system) = Some p \<and>
      first_locked (ur_new_lockfile result) iid system = Some q \<and> is_upgrade p q) \<and>
   (iid \<in> set (upgrade_result_packages result) \<longleftrightarrow>
      (\<exists>system. bm_get (diff_for_system result system) iid \<noteq> None))"
  unfolding diff_entry diff_not_empty by (simp add: upgrade_result_packages_def bm_keys_def map_of_eq_None_iff)

end
