(* ===== verification/Managed_Changes.thy ===== *)
theory Managed_Changes
  imports Managed Commits
begin

text \<open>
  Changing a managed environment (\<open>flox-rust-sdk/src/models/environment/managed_environment.rs\<close>,
  the writing part of \<open>generations.rs\<close>): the transactions of the checkout, followed by a commit that
  records a new generation on the branch of the environment and by the generation lock. A checkout
  is a directory, as in the theory of transactions, and so are the files of a generation. What git
  does in a temporary clone, what a commit holds and the faults of file operations are parameters.
\<close>

section \<open>A working clone\<close>

definition clone_branch_with ::
  "'g git_exec \<Rightarrow> string \<Rightarrow> string \<Rightarrow> string \<Rightarrow> bool \<Rightarrow> ('g, GitRemoteCommandError, unit) action" where
  "clone_branch_with exec origin path branch bare =
     act_map_err remote_error (act_bind (run_command exec
       ([''clone'', ''--quiet'', ''--single-branch'', ''--no-tags'', ''--branch'', branch, origin, path] @
        (if bare then [''--bare''] else []))) (\<lambda>_. act_ok ()))"

definition git_add :: "'g git_exec \<Rightarrow> string list \<Rightarrow> ('g, GitCommandError, unit) action" where
  "git_add exec paths = act_bind (run_command exec (''add'' # paths)) (\<lambda>_. act_ok ())"

definition git_commit :: "'g git_exec \<Rightarrow> string \<Rightarrow> ('g, GitCommandError, unit) action" where
  "git_commit exec message = act_bind (run_command exec [''commit'', ''-m'', message]) (\<lambda>_. act_ok ())"

definition git_push :: "'g git_exec \<Rightarrow> string \<Rightarrow> bool \<Rightarrow> ('g, GitRemoteCommandError, unit) action" where
  "git_push exec remote force =
     act_map_err remote_error (act_bind (run_command exec
       ([''push'', ''--porcelain'', ''-u'', remote, ''HEAD''] @ (if force then [''--force''] else []))) (\<lambda>_. act_ok ()))"

text \<open>
  Git in the floxmeta clone, git in a temporary clone of a branch whose files are given, what a
  commit holds, and the directories of the two.
\<close>

type_synonym gen_files = "EnvDir option GenRepo"

record 'g FloxmetaGit =
  fg_exec :: "'g git_exec"
  fg_exec_in :: "string \<Rightarrow> gen_files \<Rightarrow> 'g git_exec"
  fg_tree :: "string \<Rightarrow> gen_files"
  fg_path :: string
  fg_tempdir :: "string + string"

datatype GenerationsTransactionError =
    GenerationsFailed GenerationsError
  | CreateTempDir string
  | CloneToFS GitRemoteCommandError
  | WriteMetadata string
  | StageChanges GitCommandError
  | CommitChanges GitCommandError
  | CompleteTransaction GitRemoteCommandError
  | GenerationsFilesPanic string

definition GENERATIONS_METADATA_FILE :: string where
  "GENERATIONS_METADATA_FILE = ''metadata.json''"

definition checkout_to_tempdir :: "'g FloxmetaGit \<Rightarrow> string \<Rightarrow> string \<Rightarrow> ('g, GenerationsTransactionError, unit) action" where
  "checkout_to_tempdir fg branch tempdir =
     act_map_err CloneToFS (clone_branch_with (fg_exec fg) (fg_path fg) tempdir branch False)"

definition writable_generations :: "'g FloxmetaGit \<Rightarrow> string \<Rightarrow> ('g, GenerationsTransactionError, string) action" where
  "writable_generations fg branch =
     (case fg_tempdir fg of
        Inl e \<Rightarrow> act_err (CreateTempDir e)
      | Inr tempdir \<Rightarrow> act_bind (checkout_to_tempdir fg branch tempdir) (\<lambda>_. act_ok tempdir))"

text \<open>
  The files of a branch: those of its head. A temporary clone has the same ones until its own
  commit, so that its metadata is read from the branch too.
\<close>

definition branch_files :: "'g FloxmetaGit \<Rightarrow> string \<Rightarrow> ('g, GenerationsError, gen_files) action" where
  "branch_files fg branch =
     act_match (branch_hash (fg_exec fg) branch) (\<lambda>r. case r of
         Inr h \<Rightarrow> act_ok (fg_tree fg h)
       | Inl _ \<Rightarrow> act_err ShowMetadata)"

text \<open>The directory of the current generation in a clone, which may be missing.\<close>

definition current_generation_dir :: "gen_files \<Rightarrow> GenerationsError + EnvDir option" where
  "current_generation_dir files =
     map_ok (\<lambda>g. Option.bind (bm_get (gr_files files) g) (\<lambda>d. d))
       (ok_or NoGenerations (current_gen (gr_metadata files)))"

section \<open>Recording generations\<close>

fun stage_each :: "'g git_exec \<Rightarrow> string list \<Rightarrow> ('g, GitCommandError, unit) action" where
  "stage_each exec [] = act_ok ()"
| "stage_each exec (path # paths) = act_bind (git_add exec [path]) (\<lambda>_. stage_each exec paths)"

text \<open>Staging and committing the files in the clone and pushing the commit to the branch.\<close>

definition publish ::
  "'g FloxmetaGit \<Rightarrow> string \<Rightarrow> gen_files \<Rightarrow> string list \<Rightarrow> ('g, GenerationsTransactionError, unit) action" where
  "publish fg branch files staged =
     act_bind (act_map_err StageChanges (stage_each (fg_exec_in fg branch files) staged)) (\<lambda>_.
     act_bind (act_map_err CommitChanges (git_commit (fg_exec_in fg branch files) (last (gr_log files)))) (\<lambda>_.
     act_map_err CompleteTransaction (git_push (fg_exec_in fg branch files) ''origin'' False)))"

record GenerationFaults =
  gf_write_metadata :: "string option"
  gf_copy :: CopyFaults

text \<open>
  The directory of the new generation may exist already, and the copy is made into it; its errors
  are unwrapped.
\<close>

definition write_generation ::
  "'g FloxmetaGit \<Rightarrow> GenerationFaults \<Rightarrow> AddGenerationOptions \<Rightarrow> string \<Rightarrow> string \<Rightarrow> EnvDir option
     \<Rightarrow> ('g, GenerationsTransactionError, unit) action" where
  "write_generation fg faults opts branch tempdir dir =
     act_bind (act_map_err GenerationsFailed (branch_files fg branch)) (\<lambda>files.
       let generation = fst (fst (add_generation opts (gr_metadata files)));
           existing = (case bm_get (gr_files files) generation of Some (Some d) \<Rightarrow> d | _ \<Rightarrow> [])
       in case (gf_write_metadata faults, copy_dir_recursive (gf_copy faults) True dir (Some existing)) of
            (Some e, _) \<Rightarrow> act_err (WriteMetadata e)
          | (None, CopyErr e, _) \<Rightarrow> act_err (GenerationsFilesPanic e)
          | (None, CopyPanic e, _) \<Rightarrow> act_err (GenerationsFilesPanic e)
          | (None, CopyOk, copied) \<Rightarrow>
              (case repo_add_generation opts copied files of
                 (Inl e, _) \<Rightarrow> act_err (GenerationsFailed e)
               | (Inr _, files') \<Rightarrow>
                   publish fg branch files' [tempdir @ ''/'' @ show_nat generation, GENERATIONS_METADATA_FILE]))"

definition write_current_generation ::
  "'g FloxmetaGit \<Rightarrow> GenerationFaults \<Rightarrow> SwitchGenerationOptions \<Rightarrow> string
     \<Rightarrow> ('g, GenerationsTransactionError, unit) action" where
  "write_current_generation fg faults opts branch =
     act_bind (act_map_err GenerationsFailed (branch_files fg branch)) (\<lambda>files.
       case set_current_generation opts files of
         (Inl e, _) \<Rightarrow> act_err (GenerationsFailed e)
       | (Inr _, files') \<Rightarrow>
           (case gf_write_metadata faults of
              Some e \<Rightarrow> act_err (WriteMetadata e)
            | None \<Rightarrow> publish fg branch files' [GENERATIONS_METADATA_FILE]))"

section \<open>The state and the parameters\<close>

record ('g, 'out) ManagedWorld =
  mw_git :: 'g
  mw_lock_file :: "GenerationLock option"
  mw_core :: "'out EnvWorld"

datatype ManagedChangeError =
    ChangeManaged ManagedEnvironmentError
  | ChangeCore CoreEnvironmentError
  | ChangeGenerations GenerationsError
  | ChangeManifest CoreEnvironmentError
  | CreateFloxmetaDir GenerationsTransactionError
  | CreateGenerationFiles GenerationsError
  | CreateEnvView string
  | DeleteEnvDir string
  | CommitGeneration GenerationsTransactionError
  | WritableGenerations GenerationsTransactionError
  | MissingLockfile
  | ChangeLockfile string
  | ChangePanic string

text \<open>Making the checkout: creating and filling it, and removing it first; what a removal leaves.\<close>

record CheckoutFaults =
  co_create :: "string option"
  co_copy :: CopyFaults
  co_remove :: "(string \<times> EnvDir) option"

record ('g, 'u, 'out) ChangeOps =
  ch_git :: "'g FloxmetaGit"
  ch_api :: "'u url_api"
  ch_walk :: "removals \<Rightarrow> (string \<times> RawSelectedOutputs) list"
  ch_backend :: "'out Backend"
  ch_docs :: Documents
  ch_faults :: TransactionFaults
  ch_checkout :: CheckoutFaults
  ch_generation :: GenerationFaults
  ch_author :: string
  ch_hostname :: string
  ch_argv :: "string list"
  ch_now :: int

type_synonym ('g, 'out, 'a) change = "(('g, 'out) ManagedWorld, ManagedChangeError, 'a) action"

definition on_clone :: "('e \<Rightarrow> ManagedChangeError) \<Rightarrow> ('g, 'e, 'a) action \<Rightarrow> ('g, 'out, 'a) change" where
  "on_clone err m = act_map_err err (act_zoom mw_git (\<lambda>g w. w\<lparr> mw_git := g \<rparr>) m)"

definition on_checkout :: "('out, 'a) core_action \<Rightarrow> ('g, 'out, 'a) change" where
  "on_checkout m = act_map_err ChangeCore (act_zoom mw_core (\<lambda>c w. w\<lparr> mw_core := c \<rparr>) m)"

definition change_lock_pointer :: "('g, 'u, 'out) ChangeOps \<Rightarrow> ManagedEnvironment \<Rightarrow> ('g, 'out, unit) change" where
  "change_lock_pointer ops env =
     act_map_err ChangeManaged (act_zoom
       (\<lambda>w. \<lparr> ms_git = mw_git w, ms_lock_file = mw_lock_file w, ms_checkout = None \<rparr>)
       (\<lambda>m w. w\<lparr> mw_git := ms_git m, mw_lock_file := ms_lock_file m \<rparr>)
       (lock_pointer (fg_exec (ch_git ops)) env))"

definition guard_immutable :: "ManagedEnvironment \<Rightarrow> ('g, 'out, unit) change" where
  "guard_immutable env =
     (case me_generation env of
        None \<Rightarrow> act_ok () | Some g \<Rightarrow> act_err (ChangeGenerations (ActivatedGenerationImmutable g)))"

section \<open>The files of a generation\<close>

definition generation_file :: "string \<Rightarrow> GenerationsError \<Rightarrow> GenerationId \<Rightarrow> gen_files \<Rightarrow> GenerationsError + string" where
  "generation_file name missing generation files =
     and_then (table_of (gr_metadata files)) (\<lambda>table.
       if \<not> bm_contains table generation then Err (GenerationNotFound generation)
       else ok_or missing (read_file name (Option.bind (bm_get (gr_files files) generation) (\<lambda>d. d))))"

definition generation_manifest :: "GenerationId \<Rightarrow> gen_files \<Rightarrow> GenerationsError + string" where
  "generation_manifest = generation_file MANIFEST_FILENAME ShowManifest"

definition lockfile_contents :: "GenerationId \<Rightarrow> gen_files \<Rightarrow> GenerationsError + string" where
  "lockfile_contents = generation_file LOCKFILE_FILENAME ShowLockfile"

definition current_gen_manifest :: "gen_files \<Rightarrow> GenerationsError + string" where
  "current_gen_manifest files =
     and_then (ok_or NoGenerations (current_gen (gr_metadata files))) (\<lambda>g. generation_manifest g files)"

definition current_gen_lockfile :: "gen_files \<Rightarrow> GenerationsError + string" where
  "current_gen_lockfile files =
     and_then (ok_or NoGenerations (current_gen (gr_metadata files))) (\<lambda>g. lockfile_contents g files)"

section \<open>The checkout\<close>

definition get_current_generation :: "('g, 'u, 'out) ChangeOps \<Rightarrow> ManagedEnvironment \<Rightarrow> ('g, 'out, EnvDir option) change" where
  "get_current_generation ops env =
     (let fg = ch_git ops; branch = fb_branch (me_branch env)
      in act_bind (on_clone CreateFloxmetaDir (writable_generations fg branch)) (\<lambda>_.
         act_bind (on_clone CreateGenerationFiles (branch_files fg branch)) (\<lambda>files.
         act_lift (map_sum CreateGenerationFiles (\<lambda>d. d) (current_generation_dir files)))))"

text \<open>Copying a generation into the directory of the checkout, which then exists even when that fails.\<close>

definition fill_checkout :: "CheckoutFaults \<Rightarrow> EnvDir option \<Rightarrow> ('g, 'out, unit) change" where
  "fill_checkout faults source w =
     (case co_create faults of
        Some e \<Rightarrow> (Err (CreateEnvView e), w)
      | None \<Rightarrow>
          (case copy_dir_recursive (co_copy faults) True source (Some []) of
             (outcome, copied) \<Rightarrow>
               (case outcome of
                  CopyOk \<Rightarrow> Ok () | CopyErr e \<Rightarrow> Err (CreateEnvView e) | CopyPanic e \<Rightarrow> Err (ChangePanic e),
                w\<lparr> mw_core := (mw_core w)\<lparr> ew_env := copied \<rparr> \<rparr>)))"

definition ensure_checkout :: "('g, 'u, 'out) ChangeOps \<Rightarrow> ManagedEnvironment \<Rightarrow> ('g, 'out, unit) change" where
  "ensure_checkout ops env w =
     (case ew_env (mw_core w) of
        Some _ \<Rightarrow> (Ok (), w)
      | None \<Rightarrow> act_bind (get_current_generation ops env) (fill_checkout (ch_checkout ops)) w)"

definition reset_checkout :: "('g, 'u, 'out) ChangeOps \<Rightarrow> ManagedEnvironment \<Rightarrow> ('g, 'out, unit) change" where
  "reset_checkout ops env =
     act_bind (get_current_generation ops env) (\<lambda>source w.
       case (ew_env (mw_core w), co_remove (ch_checkout ops)) of
         (None, _) \<Rightarrow> (Err (DeleteEnvDir ''No such file or directory''), w)
       | (Some _, Some (e, left)) \<Rightarrow> (Err (DeleteEnvDir e), w\<lparr> mw_core := (mw_core w)\<lparr> ew_env := Some left \<rparr> \<rparr>)
       | (Some _, None) \<Rightarrow>
           fill_checkout (ch_checkout ops) source (w\<lparr> mw_core := (mw_core w)\<lparr> ew_env := None \<rparr> \<rparr>))"

text \<open>The comparison of a checkout with the current generation.\<close>

definition checkout_matches :: "Documents \<Rightarrow> EnvDir option \<Rightarrow> GenerationsError + gen_files \<Rightarrow> ManagedChangeError + bool" where
  "checkout_matches docs dir recorded =
     (if existing_lockfile_contents dir \<noteq> (case and_then recorded current_gen_lockfile of Inr l \<Rightarrow> Some l | Inl _ \<Rightarrow> None)
      then Ok False
      else case manifest_without_migrating docs dir of
             Inl e \<Rightarrow> Err (ChangeManifest e)
           | Inr local_manifest \<Rightarrow>
               (case and_then recorded current_gen_manifest of
                  Inl e \<Rightarrow> Err (ChangeGenerations e)
                | Inr contents \<Rightarrow>
                    (case parse_contents docs contents of
                       Inl e \<Rightarrow> Err (ChangeManifest e)
                     | Inr _ \<Rightarrow>
                         Ok (contents_match docs local_manifest
                           (case normalize_toml docs contents of Some text \<Rightarrow> text | None \<Rightarrow> contents)))))"

definition checkout_valid :: "('g, 'u, 'out) ChangeOps \<Rightarrow> ManagedEnvironment \<Rightarrow> ('g, 'out, bool) change" where
  "checkout_valid ops env w =
     (case branch_files (ch_git ops) (fb_branch (me_branch env)) (mw_git w) of
        (files, g) \<Rightarrow> (checkout_matches (ch_docs ops) (ew_env (mw_core w)) files, w\<lparr> mw_git := g \<rparr>))"

definition require_valid :: "('g, 'u, 'out) ChangeOps \<Rightarrow> ManagedEnvironment \<Rightarrow> ('g, 'out, unit) change" where
  "require_valid ops env =
     act_bind (checkout_valid ops env) (\<lambda>valid. if \<not> valid then act_err (ChangeManaged CheckoutOutOfSync) else act_ok ())"

text \<open>Opening the generations for writing, and the checkout; the beginning of every change.\<close>

definition start_change :: "('g, 'u, 'out) ChangeOps \<Rightarrow> ManagedEnvironment \<Rightarrow> ('g, 'out, string) change" where
  "start_change ops env =
     act_bind (on_clone CreateFloxmetaDir (writable_generations (ch_git ops) (fb_branch (me_branch env)))) (\<lambda>tempdir.
     act_bind (ensure_checkout ops env) (\<lambda>_. act_ok tempdir))"

text \<open>Committing the checkout as a generation and locking to it; the end of every change.\<close>

definition record_change ::
  "('g, 'u, 'out) ChangeOps \<Rightarrow> ManagedEnvironment \<Rightarrow> string \<Rightarrow> HistoryKind \<Rightarrow> ('g, 'out, unit) change" where
  "record_change ops env tempdir kind w =
     (let opts = \<lparr> ago_author = ch_author ops, ago_hostname = ch_hostname ops, ago_argv = ch_argv ops,
                   ago_timestamp = ch_now ops, ago_kind = kind \<rparr>
      in act_bind (on_clone CommitGeneration
           (write_generation (ch_git ops) (ch_generation ops) opts (fb_branch (me_branch env)) tempdir (ew_env (mw_core w))))
           (\<lambda>_. change_lock_pointer ops env) w)"

section \<open>The changes\<close>

fun flake_package_display :: "'u url_api \<Rightarrow> 'u FlakePackage \<Rightarrow> string" where
  "flake_package_display api pkg =
     (case fpkg_outputs pkg of
        Some outputs \<Rightarrow> url_display api (fpkg_url pkg) @ ''^'' @ raw_outputs_display outputs
      | None \<Rightarrow> url_display api (fpkg_url pkg))"

fun install_target :: "'u url_api \<Rightarrow> 'u PackageToInstall \<Rightarrow> string" where
  "install_target api (InstallCatalog pkg) =
     (case cpkg_version pkg of
        Some version \<Rightarrow> cpkg_id pkg @ '' ('' @ cpkg_pkg_path pkg @ ''@'' @ version @ '')''
      | None \<Rightarrow> cpkg_id pkg @ '' ('' @ cpkg_pkg_path pkg @ '')'')"
| "install_target api (InstallFlake pkg) = fpkg_id pkg @ '' ('' @ flake_package_display api pkg @ '')''"
| "install_target api (InstallStorePath pkg) = spkg_id pkg @ '' ('' @ spkg_store_path pkg @ '')''"

definition managed_install ::
  "('g, 'u, 'out) ChangeOps \<Rightarrow> ManagedEnvironment \<Rightarrow> 'u PackageToInstall list \<Rightarrow> ('g, 'out, ('u, 'out) InstallationAttempt) change" where
  "managed_install ops env packages =
     act_bind (guard_immutable env) (\<lambda>_.
     act_bind (start_change ops env) (\<lambda>tempdir.
     act_bind (require_valid ops env) (\<lambda>_.
     act_bind (on_checkout (core_install (ch_api ops) (ch_backend ops) (ch_docs ops) (ch_faults ops) True packages)) (\<lambda>result.
     if ia_modifications result = [] then act_ok result
     else act_bind (record_change ops env tempdir (Install (map (install_target (ch_api ops)) packages))) (\<lambda>_.
          act_ok result)))))"

definition managed_uninstall ::
  "('g, 'u, 'out) ChangeOps \<Rightarrow> ManagedEnvironment \<Rightarrow> UninstallSpec list \<Rightarrow> ('g, 'out, ('u, 'out) UninstallationAttempt) change" where
  "managed_uninstall ops env specs =
     act_bind (guard_immutable env) (\<lambda>_.
     act_bind (start_change ops env) (\<lambda>tempdir.
     act_bind (require_valid ops env) (\<lambda>_.
     act_bind (on_checkout (core_uninstall (ch_api ops) (ch_walk ops) (ch_backend ops) (ch_docs ops) (ch_faults ops) True specs)) (\<lambda>result.
     act_bind (record_change ops env tempdir (Uninstall (map us_package_ref specs))) (\<lambda>_. act_ok result)))))"

text \<open>An edit also takes a checkout that is out of sync.\<close>

definition managed_edit ::
  "('g, 'u, 'out) ChangeOps \<Rightarrow> ManagedEnvironment \<Rightarrow> string \<Rightarrow> ('g, 'out, 'out EditResult) change" where
  "managed_edit ops env contents =
     act_bind (guard_immutable env) (\<lambda>_.
     act_bind (start_change ops env) (\<lambda>tempdir.
     act_bind (on_checkout (core_edit (ch_backend ops) (ch_docs ops) (ch_faults ops) True contents)) (\<lambda>result.
     case result of
       EditUnchanged \<Rightarrow> act_ok result
     | EditChanged _ _ _ \<Rightarrow> act_bind (record_change ops env tempdir Edit) (\<lambda>_. act_ok result))))"

definition managed_dry_upgrade ::
  "('g, 'u, 'out) ChangeOps \<Rightarrow> ManagedEnvironment \<Rightarrow> string list \<Rightarrow> ('g, 'out, 'out UpgradeResult) change" where
  "managed_dry_upgrade ops env groups_or_iids =
     act_bind (ensure_checkout ops env) (\<lambda>_.
     on_checkout (core_upgrade (ch_backend ops) (ch_docs ops) (ch_faults ops) False groups_or_iids False))"

definition managed_upgrade ::
  "('g, 'u, 'out) ChangeOps \<Rightarrow> ManagedEnvironment \<Rightarrow> string list \<Rightarrow> ('g, 'out, 'out UpgradeResult) change" where
  "managed_upgrade ops env groups_or_iids =
     act_bind (guard_immutable env) (\<lambda>_.
     act_bind (start_change ops env) (\<lambda>tempdir.
     act_bind (require_valid ops env) (\<lambda>_.
     act_bind (on_checkout (core_upgrade (ch_backend ops) (ch_docs ops) (ch_faults ops) True groups_or_iids True)) (\<lambda>result.
     if upgrade_result_diff result = [] then act_ok result
     else act_bind (record_change ops env tempdir (Upgrade (upgrade_result_packages result))) (\<lambda>_. act_ok result)))))"

definition managed_include_upgrade ::
  "('g, 'u, 'out) ChangeOps \<Rightarrow> ManagedEnvironment \<Rightarrow> string list \<Rightarrow> ('g, 'out, 'out UpgradeResult) change" where
  "managed_include_upgrade ops env to_upgrade =
     act_bind (guard_immutable env) (\<lambda>_.
     act_bind (start_change ops env) (\<lambda>tempdir.
     act_bind (require_valid ops env) (\<lambda>_.
     act_bind (on_checkout (core_include_upgrade (ch_backend ops) (ch_docs ops) (ch_faults ops) True to_upgrade)) (\<lambda>result.
     if ur_store_path result = None then act_ok result
     else act_bind (record_change ops env tempdir (IncludeUpgrade to_upgrade)) (\<lambda>_. act_ok result)))))"

definition managed_edit_unsafe ::
  "('g, 'u, 'out) ChangeOps \<Rightarrow> ManagedEnvironment \<Rightarrow> string
     \<Rightarrow> ('g, 'out, CoreEnvironmentError + 'out EditResult) change" where
  "managed_edit_unsafe ops env contents =
     act_bind (start_change ops env) (\<lambda>tempdir.
     act_bind (require_valid ops env) (\<lambda>_.
     act_bind (on_checkout (core_edit_unsafe (ch_backend ops) (ch_docs ops) (ch_faults ops) contents)) (\<lambda>result.
     if result = Ok EditUnchanged then act_ok result
     else act_bind (record_change ops env tempdir Edit) (\<lambda>_. act_ok result))))"

text \<open>Building the checkout in place.\<close>

definition build_checkout :: "('g, 'u, 'out) ChangeOps \<Rightarrow> ('g, 'out, 'out) change" where
  "build_checkout ops = on_checkout (\<lambda>w.
     case build_dir (ch_backend ops) (ch_docs ops) (ew_env w) of
       Inl e \<Rightarrow> (Err e, w) | Inr out \<Rightarrow> (Ok out, w\<lparr> ew_links := Some out \<rparr>))"

definition managed_build :: "('g, 'u, 'out) ChangeOps \<Rightarrow> ManagedEnvironment \<Rightarrow> ('g, 'out, 'out) change" where
  "managed_build ops env = act_bind (ensure_checkout ops env) (\<lambda>_. build_checkout ops)"

datatype SyncToGenerationResult = SyncUpToDate | Synced

definition create_generation_from_local_env ::
  "('g, 'u, 'out) ChangeOps \<Rightarrow> ManagedEnvironment \<Rightarrow> ('g, 'out, SyncToGenerationResult) change" where
  "create_generation_from_local_env ops env =
     act_bind (ensure_checkout ops env) (\<lambda>_.
     act_bind (checkout_valid ops env) (\<lambda>valid.
     if valid then act_ok SyncUpToDate
     else act_bind (on_checkout (core_lock (ch_backend ops) (ch_docs ops) (ch_faults ops))) (\<lambda>_.
          act_bind (build_checkout ops) (\<lambda>_.
          act_bind (on_clone CreateFloxmetaDir (writable_generations (ch_git ops) (fb_branch (me_branch env)))) (\<lambda>tempdir.
          act_bind (record_change ops env tempdir Edit) (\<lambda>_. act_ok Synced))))))"

definition managed_switch_generation ::
  "('g, 'u, 'out) ChangeOps \<Rightarrow> ManagedEnvironment \<Rightarrow> GenerationId \<Rightarrow> ('g, 'out, unit) change" where
  "managed_switch_generation ops env generation =
     (let fg = ch_git ops; branch = fb_branch (me_branch env);
          opts = \<lparr> sgo_author = ch_author ops, sgo_hostname = ch_hostname ops, sgo_argv = ch_argv ops,
                   sgo_timestamp = ch_now ops, sgo_next = generation \<rparr>
      in act_bind (ensure_checkout ops env) (\<lambda>_.
         act_bind (require_valid ops env) (\<lambda>_.
         act_bind (on_clone WritableGenerations (writable_generations fg branch)) (\<lambda>_.
         act_bind (on_clone CommitGeneration (write_current_generation fg (ch_generation ops) opts branch)) (\<lambda>_.
         act_bind (change_lock_pointer ops env) (\<lambda>_.
         act_bind (reset_checkout ops env) (\<lambda>_.
         act_bind (managed_build ops env) (\<lambda>_. act_ok ()))))))))"

section \<open>Reading\<close>

definition generation_lockfile :: "('g, 'u, 'out) ChangeOps \<Rightarrow> ManagedEnvironment \<Rightarrow> GenerationId \<Rightarrow> ('g, 'out, Lockfile) change" where
  "generation_lockfile ops env generation =
     act_bind (on_clone ChangeGenerations (branch_files (ch_git ops) (fb_branch (me_branch env)))) (\<lambda>files.
     case lockfile_contents generation files of
       Inl e \<Rightarrow> act_err (ChangeGenerations e)
     | Inr contents \<Rightarrow> act_lift (map_sum ChangeLockfile (\<lambda>l. l) (parse_json (ch_docs ops) contents)))"

definition ensure_checkout_locked :: "('g, 'u, 'out) ChangeOps \<Rightarrow> ManagedEnvironment \<Rightarrow> ('g, 'out, LockResult) change" where
  "ensure_checkout_locked ops env =
     act_bind (checkout_valid ops env) (\<lambda>valid.
     if \<not> valid then on_checkout (ensure_locked (ch_backend ops) (ch_docs ops) (ch_faults ops))
     else act_bind (on_checkout (\<lambda>w. (existing_lockfile (ch_docs ops) (ew_env w), w))) (\<lambda>existing.
          case existing of Some lockfile \<Rightarrow> act_ok (LockUnchanged lockfile) | None \<Rightarrow> act_err MissingLockfile))"

definition managed_lockfile :: "('g, 'u, 'out) ChangeOps \<Rightarrow> ManagedEnvironment \<Rightarrow> ('g, 'out, LockResult) change" where
  "managed_lockfile ops env =
     (case me_generation env of
        Some generation \<Rightarrow> act_bind (generation_lockfile ops env generation) (\<lambda>l. act_ok (LockUnchanged l))
      | None \<Rightarrow> act_bind (ensure_checkout ops env) (\<lambda>_. ensure_checkout_locked ops env))"

definition managed_existing_lockfile :: "('g, 'u, 'out) ChangeOps \<Rightarrow> ManagedEnvironment \<Rightarrow> ('g, 'out, Lockfile option) change" where
  "managed_existing_lockfile ops env =
     (case me_generation env of
        Some generation \<Rightarrow> act_bind (generation_lockfile ops env generation) (\<lambda>l. act_ok (Some l))
      | None \<Rightarrow> act_bind (ensure_checkout ops env) (\<lambda>_.
          on_checkout (\<lambda>w. (existing_lockfile (ch_docs ops) (ew_env w), w))))"

definition managed_manifest_without_migrating ::
  "('g, 'u, 'out) ChangeOps \<Rightarrow> ManagedEnvironment \<Rightarrow> ('g, 'out, MigratedManifest) change" where
  "managed_manifest_without_migrating ops env =
     (case me_generation env of
        Some generation \<Rightarrow>
          act_bind (on_clone ChangeGenerations (branch_files (ch_git ops) (fb_branch (me_branch env)))) (\<lambda>files.
          case generation_manifest generation files of
            Inl e \<Rightarrow> act_err (ChangeGenerations e)
          | Inr contents \<Rightarrow> act_lift (map_sum ChangeManifest (\<lambda>m. m) (parse_contents (ch_docs ops) contents)))
      | None \<Rightarrow> act_bind (ensure_checkout ops env) (\<lambda>_ w.
          (map_sum ChangeManifest (\<lambda>m. m) (manifest_without_migrating (ch_docs ops) (ew_env (mw_core w))), w)))"

section \<open>What git promises in a working clone\<close>

text \<open>Git records files, not directories: an empty directory is lost.\<close>

definition git_tracks :: "EnvDir option \<Rightarrow> bool" where
  "git_tracks dir \<longleftrightarrow>
     (case dir of
        None \<Rightarrow> True
      | Some d \<Rightarrow> d \<noteq> [] \<and> (\<forall>p. bm_get d p = Some EntryDir \<longrightarrow> (\<exists>q \<in> set (bm_keys d). take (length p + 1) q = p @ ''/'')))"

text \<open>The staged paths cover what the files change of the last commit.\<close>

definition stages_changes :: "gen_files \<Rightarrow> gen_files \<Rightarrow> string list \<Rightarrow> bool" where
  "stages_changes old files staged \<longleftrightarrow>
     GENERATIONS_METADATA_FILE \<in> set staged \<and> butlast (gr_log files) = gr_log old \<and> gr_log files \<noteq> [] \<and>
     (\<forall>n. bm_get (gr_files files) n \<noteq> bm_get (gr_files old) n \<longrightarrow> (\<exists>tempdir. tempdir @ ''/'' @ show_nat n \<in> set staged))"

text \<open>
  A clone changes nothing in the repository. A commit that was pushed contains the files that git
  tracks and is the new head of the branch, on top of the old one; when the commit or the push fails,
  the branch stays where it was. No commit holds \<open>2 ^ 64\<close> generations.
\<close>

definition git_records :: "('g \<Rightarrow> Repo) \<Rightarrow> (string \<Rightarrow> string set) \<Rightarrow> 'g FloxmetaGit \<Rightarrow> bool" where
  "git_records view hist fg \<longleftrightarrow>
     (\<forall>g args. view (snd (fg_exec fg (''clone'' # args) g)) = view g) \<and>
     (\<forall>c. agm_total (gr_metadata (fg_tree fg c)) < usize_max \<and> bm_inv (gr_files (fg_tree fg c)) \<and>
        (\<forall>n d. bm_get (gr_files (fg_tree fg c)) n = Some d \<longrightarrow> git_tracks d)) \<and>
     (\<forall>g branch h files staged r g'. repo_ok hist (view g) \<longrightarrow> bm_get (heads (view g)) branch = Some h \<longrightarrow>
        stages_changes (fg_tree fg h) files staged \<longrightarrow> publish fg branch files staged g = (r, g') \<longrightarrow>
        (case r of
           Inl _ \<Rightarrow> view g' = view g
         | Inr _ \<Rightarrow>
             (\<exists>c. hash_ok c \<and> hist c = insert c (hist h) \<and> gr_metadata (fg_tree fg c) = gr_metadata files \<and>
                (\<forall>n d. bm_get (gr_files files) n = Some d \<longrightarrow> git_tracks d \<longrightarrow> bm_get (gr_files (fg_tree fg c)) n = Some d) \<and>
                (\<forall>n. bm_get (gr_files files) n = None \<longrightarrow> bm_get (gr_files (fg_tree fg c)) n = None) \<and>
                view g' = (view g)\<lparr> heads := bm_insert branch c (heads (view g)), commits := insert c (commits (view g)) \<rparr>)))"

lemma git_records_clone: "git_records view hist fg \<Longrightarrow> view (snd (fg_exec fg (''clone'' # args) g)) = view g"
  by (simp add: git_records_def)

lemma git_records_tree:
  assumes "git_records view hist fg"
  shows "agm_total (gr_metadata (fg_tree fg c)) < usize_max" "bm_inv (gr_files (fg_tree fg c))"
    "bm_get (gr_files (fg_tree fg c)) n = Some d \<Longrightarrow> git_tracks d"
  using assms by (simp_all add: git_records_def)

lemma git_records_publish:
  assumes "git_records view hist fg" and "repo_ok hist (view g)" and "bm_get (heads (view g)) branch = Some h"
    and "stages_changes (fg_tree fg h) files staged" and "publish fg branch files staged g = (r, g')"
  shows "case r of
      Inl _ \<Rightarrow> view g' = view g
    | Inr _ \<Rightarrow>
        (\<exists>c. hash_ok c \<and> hist c = insert c (hist h) \<and> gr_metadata (fg_tree fg c) = gr_metadata files \<and>
           (\<forall>n d. bm_get (gr_files files) n = Some d \<longrightarrow> git_tracks d \<longrightarrow> bm_get (gr_files (fg_tree fg c)) n = Some d) \<and>
           (\<forall>n. bm_get (gr_files files) n = None \<longrightarrow> bm_get (gr_files (fg_tree fg c)) n = None) \<and>
           view g' = (view g)\<lparr> heads := bm_insert branch c (heads (view g)), commits := insert c (commits (view g)) \<rparr>)"
  using assms unfolding git_records_def by blast

lemma run_command_state: "snd (run_command exec args g) = snd (exec args g)"
  by (cases "exec args g") (auto simp: run_command_def action_defs split: sum.splits prod.splits)

lemma writable_view:
  assumes "git_records view hist fg"
  shows "view (snd (writable_generations fg branch g)) = view g"
proof -
  have "view (snd (run_command (fg_exec fg) (''clone'' # args) g)) = view g" for args
    unfolding run_command_state using git_records_clone [OF assms] .
  then have "view (snd (clone_branch_with (fg_exec fg) origin path branch False g)) = view g" for origin path
    unfolding clone_branch_with_def append_Cons
    by (simp add: act_map_err_def act_match_def act_bind_def act_ok_def act_err_def case_prod_beta split: sum.splits)
  then show ?thesis
    by (simp add: writable_generations_def checkout_to_tempdir_def act_map_err_def act_match_def act_bind_def act_ok_def
        act_err_def case_prod_beta split: sum.splits)
qed

lemma branch_files_eq:
  assumes "git_documented (fg_exec fg) view hist" and "good hist local remote (view g)"
    and "bm_get (heads (view g)) local = Some h"
  shows "branch_files fg local g = (Ok (fg_tree fg h), g)"
  using branch_hash_eq [OF assms(1) good_names(3,1) [OF assms(2)]] assms(3)
  by (simp add: branch_files_def act_ok_def)

text \<open>The head of a branch after a commit.\<close>

definition committed_to :: "string \<Rightarrow> string \<Rightarrow> Repo \<Rightarrow> Repo" where
  "committed_to branch c r = r\<lparr> heads := bm_insert branch c (heads r), commits := insert c (commits r) \<rparr>"

lemma committed_to_good:
  assumes "good hist local remote r" and "bm_get (heads r) local = Some h" and "hash_ok c" and "hist c = insert c (hist h)"
  shows "good hist local remote (committed_to local c r)"
proof -
  note n = good_names [OF assms(1)]
  have "hist h \<subseteq> commits r"
    using n(3) repo_ok_head(2) [OF n(3) assms(2)] by (simp add: repo_ok_def)
  then have "repo_ok hist (r\<lparr> commits := insert c (commits r) \<rparr>)"
    using n(3) assms(3,4) by (auto simp: repo_ok_def)
  moreover have "committed_to local c r =
      r\<lparr> commits := insert c (commits r), heads := bm_insert local c (heads (r\<lparr> commits := insert c (commits r) \<rparr>)) \<rparr>"
    by (cases r) (simp add: committed_to_def)
  ultimately have "repo_ok hist (committed_to local c r)"
    using repo_ok_insert_head [OF _ n(1), of hist "r\<lparr> commits := insert c (commits r) \<rparr>" c] by simp
  then show ?thesis
    using assms(1) repo_ok_inv(1) [OF n(3)] by (simp add: good_def committed_to_def bm_get_insert)
qed

definition records_files :: "gen_files \<Rightarrow> gen_files \<Rightarrow> bool" where
  "records_files files tree \<longleftrightarrow>
     gr_metadata tree = gr_metadata files \<and>
     (\<forall>n d. bm_get (gr_files files) n = Some d \<longrightarrow> git_tracks d \<longrightarrow> bm_get (gr_files tree) n = Some d) \<and>
     (\<forall>n. bm_get (gr_files files) n = None \<longrightarrow> bm_get (gr_files tree) n = None)"

definition published :: "('g \<Rightarrow> Repo) \<Rightarrow> (string \<Rightarrow> string set) \<Rightarrow> 'g FloxmetaGit \<Rightarrow> string \<Rightarrow> string \<Rightarrow> gen_files \<Rightarrow> 'g \<Rightarrow> 'g \<Rightarrow> bool" where
  "published view hist fg branch h files g g' \<longleftrightarrow>
     (\<exists>c. hash_ok c \<and> hist c = insert c (hist h) \<and> records_files files (fg_tree fg c) \<and>
        view g' = committed_to branch c (view g))"

lemma publish_outcome:
  assumes "git_records view hist fg" and "repo_ok hist (view g)" and "bm_get (heads (view g)) branch = Some h"
    and "stages_changes (fg_tree fg h) files staged" and "publish fg branch files staged g = (r, g')"
  shows "(r = Ok () \<and> published view hist fg branch h files g g') \<or> ((\<exists>e. r = Err e) \<and> view g' = view g)"
  using git_records_publish [OF assms] by (cases r) (auto simp: published_def committed_to_def records_files_def)

lemma repo_add_generation_effect:
  assumes "ago_kind opts \<noteq> SwitchGeneration" and "agm_total (gr_metadata repo) < usize_max"
  obtains repo' where "repo_add_generation opts env repo = (Ok (), repo')"
    and "gr_metadata repo' = snd (add_generation opts (gr_metadata repo))"
    and "gr_files repo' = bm_insert (agm_total (gr_metadata repo) + 1) env (gr_files repo)"
    and "gr_log repo' \<noteq> []" and "butlast (gr_log repo') = gr_log repo"
    and "fst (fst (add_generation opts (gr_metadata repo))) = agm_total (gr_metadata repo) + 1"
proof -
  obtain r repo' where run: "repo_add_generation opts env repo = (r, repo')"
    by fastforce
  note eq = repo_add_generation_eq [OF assms run]
  have "fst (fst (add_generation opts (gr_metadata repo))) = agm_total (gr_metadata repo) + 1"
    using assms(2) by (simp add: add_generation_def Let_def wrapping_add_no_overflow)
  moreover have "gr_log repo' \<noteq> [] \<and> butlast (gr_log repo') = gr_log repo"
    using run conjunct1 [OF eq] by (auto simp: repo_add_generation_def Let_def split: prod.splits option.splits)
  ultimately show thesis
    using that run eq by blast
qed

lemma write_generation_outcome:
  assumes "git_documented (fg_exec fg) view hist" and "git_records view hist fg" and "good hist local remote (view g)"
    and "bm_get (heads (view g)) local = Some h" and "ago_kind opts \<noteq> SwitchGeneration"
    and "write_generation fg faults opts local tempdir dir g = (r, g')"
  shows "(\<exists>e. r = Err e \<and> view g' = view g) \<or>
    (\<exists>copied files'. r = Ok () \<and> published view hist fg local h files' g g' \<and>
       copy_dir_recursive (gf_copy faults) True dir (Some (case bm_get (gr_files (fg_tree fg h))
         (agm_total (gr_metadata (fg_tree fg h)) + 1) of Some (Some d) \<Rightarrow> d | _ \<Rightarrow> [])) = (CopyOk, copied) \<and>
       gr_metadata files' = snd (add_generation opts (gr_metadata (fg_tree fg h))) \<and>
       gr_files files' = bm_insert (agm_total (gr_metadata (fg_tree fg h)) + 1) copied (gr_files (fg_tree fg h)))"
proof -
  let ?old = "fg_tree fg h"
  let ?n = "agm_total (gr_metadata ?old) + 1"
  let ?existing = "case bm_get (gr_files ?old) ?n of Some (Some d) \<Rightarrow> d | _ \<Rightarrow> []"
  note total = git_records_tree(1,2) [OF assms(2), of h]
  have files: "act_map_err GenerationsFailed (branch_files fg local) g = (Ok ?old, g)"
    using branch_files_eq [OF assms(1,3,4)] by (simp add: act_map_err_Inr)
  obtain outcome copied where copy: "copy_dir_recursive (gf_copy faults) True dir (Some ?existing) = (outcome, copied)"
    by fastforce
  obtain files' where files': "repo_add_generation opts copied ?old = (Ok (), files')"
    "gr_metadata files' = snd (add_generation opts (gr_metadata ?old))"
    "gr_files files' = bm_insert ?n copied (gr_files ?old)" "gr_log files' \<noteq> []" "butlast (gr_log files') = gr_log ?old"
    "fst (fst (add_generation opts (gr_metadata ?old))) = ?n"
    by (rule repo_add_generation_effect [OF assms(5) total(1)])
  let ?staged = "[tempdir @ ''/'' @ show_nat ?n, GENERATIONS_METADATA_FILE]"
  have run: "write_generation fg faults opts local tempdir dir g =
      (case (gf_write_metadata faults, outcome) of
         (Some e, _) \<Rightarrow> (Err (WriteMetadata e), g)
       | (None, CopyErr e) \<Rightarrow> (Err (GenerationsFilesPanic e), g)
       | (None, CopyPanic e) \<Rightarrow> (Err (GenerationsFilesPanic e), g)
       | (None, CopyOk) \<Rightarrow> publish fg local files' ?staged g)"
    unfolding write_generation_def act_bind_Inr [of "act_map_err GenerationsFailed (branch_files fg local)", OF files]
      Let_def files'(6) copy
    by (simp add: files'(1) act_err_def split: option.splits CopyOutcome.splits)
  have "stages_changes ?old files' ?staged"
    using files'(3-5) total(2) by (auto simp: stages_changes_def bm_get_insert)
  note publish = publish_outcome [OF assms(2) good_names(3) [OF assms(3)] assms(4) this]
  show ?thesis
  proof (cases "gf_write_metadata faults = None \<and> outcome = CopyOk")
    case True
    then have "publish fg local files' ?staged g = (r, g')"
      using run assms(6) by simp
    from publish [OF this] show ?thesis
      using files'(2,3) copy True by auto
  next
    case False
    then show ?thesis
      using run assms(6) by (auto split: option.splits CopyOutcome.splits)
  qed
qed

lemma write_current_generation_outcome:
  assumes "git_documented (fg_exec fg) view hist" and "git_records view hist fg" and "good hist local remote (view g)"
    and "bm_get (heads (view g)) local = Some h" and "write_current_generation fg faults opts local g = (r, g')"
  shows "(\<exists>e. r = Err e \<and> view g' = view g) \<or>
    (\<exists>x files'. r = Ok () \<and> published view hist fg local h files' g g' \<and>
       switch_generation opts (gr_metadata (fg_tree fg h)) = (Ok x, gr_metadata files') \<and>
       gr_files files' = gr_files (fg_tree fg h))"
proof -
  let ?old = "fg_tree fg h"
  have files: "act_map_err GenerationsFailed (branch_files fg local) g = (Ok ?old, g)"
    using branch_files_eq [OF assms(1,3,4)] by (simp add: act_map_err_Inr)
  obtain s files' where s: "set_current_generation opts ?old = (s, files')"
    by fastforce
  have run: "write_current_generation fg faults opts local g =
      (case (s, gf_write_metadata faults) of
         (Inl e, _) \<Rightarrow> (Err (GenerationsFailed e), g)
       | (Inr _, Some e) \<Rightarrow> (Err (WriteMetadata e), g)
       | (Inr _, None) \<Rightarrow> publish fg local files' [GENERATIONS_METADATA_FILE] g)"
    unfolding write_current_generation_def act_bind_Inr [of "act_map_err GenerationsFailed (branch_files fg local)", OF files] s
    by (simp add: act_err_def split: option.splits sum.splits)
  show ?thesis
  proof (cases "s = Ok () \<and> gf_write_metadata faults = None")
    case True
    then obtain x m where x: "switch_generation opts (gr_metadata ?old) = (Ok x, m)"
      "gr_metadata files' = m" "gr_files files' = gr_files ?old" "gr_log files' \<noteq> []" "butlast (gr_log files') = gr_log ?old"
      using s by (auto simp: set_current_generation_def split: prod.splits sum.splits option.splits)
    then have "stages_changes ?old files' [GENERATIONS_METADATA_FILE]"
      by (simp add: stages_changes_def)
    moreover have "publish fg local files' [GENERATIONS_METADATA_FILE] g = (r, g')"
      using run assms(5) True by simp
    ultimately have outcome: "(r = Ok () \<and> published view hist fg local h files' g g') \<or> ((\<exists>e. r = Err e) \<and> view g' = view g)"
      by (rule publish_outcome [OF assms(2) good_names(3) [OF assms(3)] assms(4)])
    show ?thesis
      using outcome x(1-3) by blast
  next
    case False
    then show ?thesis
      using run assms(5) by (cases s) (auto split: option.splits)
  qed
qed

section \<open>Generations are kept\<close>

lemma generation_in_table:
  assumes "agm_inv (gr_metadata files)"
  shows "manifest_contents g files =
    (if 1 \<le> g \<and> g \<le> agm_total (gr_metadata files) then ok_or ShowManifest (bm_get (gr_files files) g)
     else Err (GenerationNotFound g))"
proof -
  obtain t where t: "generations (gr_metadata files) = Some t"
    "table_inv t (agm_total (gr_metadata files)) (current_gen (gr_metadata files))"
    using assms by (auto simp: agm_inv_def)
  then have "bm_get t g \<noteq> None \<longleftrightarrow> 1 \<le> g \<and> g \<le> agm_total (gr_metadata files)"
    by (simp add: table_inv_def)
  then show ?thesis
    using t(1) by (auto simp: manifest_contents_def table_of_def bm_contains_def)
qed

text \<open>The branch of the environment has consistent generations, and no files of later ones.\<close>

definition generations_ok :: "gen_files \<Rightarrow> bool" where
  "generations_ok files \<longleftrightarrow>
     agm_inv (gr_metadata files) \<and> (\<forall>n. bm_get (gr_files files) n \<noteq> None \<longrightarrow> n \<le> agm_total (gr_metadata files))"

definition sound :: "('g \<Rightarrow> Repo) \<Rightarrow> (string \<Rightarrow> string set) \<Rightarrow> 'g FloxmetaGit \<Rightarrow> string \<Rightarrow> string \<Rightarrow> 'g \<Rightarrow> bool" where
  "sound view hist fg local remote g \<longleftrightarrow>
     good hist local remote (view g) \<and> generations_ok (fg_tree fg (the (bm_get (heads (view g)) local)))"

definition branch_head :: "('g \<Rightarrow> Repo) \<Rightarrow> string \<Rightarrow> 'g \<Rightarrow> string" where
  "branch_head view branch g = the (bm_get (heads (view g)) branch)"

text \<open>The same, unless a switch to generation 0 was recorded.\<close>

definition files_ok :: "gen_files \<Rightarrow> bool" where
  "files_ok files \<longleftrightarrow>
     (zeroed (gr_metadata files) \<or> agm_inv (gr_metadata files)) \<and>
     (\<forall>n. bm_get (gr_files files) n \<noteq> None \<longrightarrow> n \<le> agm_total (gr_metadata files))"

definition stored :: "('g \<Rightarrow> Repo) \<Rightarrow> (string \<Rightarrow> string set) \<Rightarrow> 'g FloxmetaGit \<Rightarrow> string \<Rightarrow> string \<Rightarrow> 'g \<Rightarrow> bool" where
  "stored view hist fg local remote g \<longleftrightarrow>
     good hist local remote (view g) \<and> files_ok (fg_tree fg (the (bm_get (heads (view g)) local)))"

lemma generations_ok_files: "generations_ok files \<longleftrightarrow> files_ok files \<and> \<not> zeroed (gr_metadata files)"
  using agm_inv_not_zeroed [of "gr_metadata files"] by (auto simp: generations_ok_def files_ok_def)

lemma sound_stored_iff:
  "sound view hist fg local remote g \<longleftrightarrow>
     stored view hist fg local remote g \<and> \<not> zeroed (gr_metadata (fg_tree fg (branch_head view local g)))"
  by (auto simp: sound_def stored_def generations_ok_files branch_head_def)

lemma sound_stored: "sound view hist fg local remote g \<Longrightarrow> stored view hist fg local remote g"
  by (simp add: sound_stored_iff)

text \<open>
  The files of every generation of a commit are those of another one, in the directories and
  as they are read.
\<close>

definition keeps_dirs :: "gen_files \<Rightarrow> gen_files \<Rightarrow> bool" where
  "keeps_dirs old new \<longleftrightarrow>
     (\<forall>n d. bm_get (gr_files old) n = Some d \<longrightarrow> bm_get (gr_files new) n = Some d) \<and>
     agm_total (gr_metadata old) \<le> agm_total (gr_metadata new) \<and>
     (zeroed (gr_metadata old) \<longrightarrow> zeroed (gr_metadata new))"

definition keeps_files :: "gen_files \<Rightarrow> gen_files \<Rightarrow> bool" where
  "keeps_files old new \<longleftrightarrow> (\<forall>n d. manifest_contents n old = Ok d \<longrightarrow> manifest_contents n new = Ok d)"

definition keeps_generations ::
  "('g \<Rightarrow> Repo) \<Rightarrow> (string \<Rightarrow> string set) \<Rightarrow> 'g FloxmetaGit \<Rightarrow> string \<Rightarrow> string \<Rightarrow> 'g \<Rightarrow> 'g \<Rightarrow> bool" where
  "keeps_generations view hist fg local remote g g' \<longleftrightarrow>
     (stored view hist fg local remote g \<longrightarrow>
        stored view hist fg local remote g' \<and>
        branch_head view local g \<in> hist (branch_head view local g') \<and>
        keeps_dirs (fg_tree fg (branch_head view local g)) (fg_tree fg (branch_head view local g')) \<and>
        hub (view g') = hub (view g) \<and> (\<forall>n. n \<noteq> local \<longrightarrow> bm_get (heads (view g')) n = bm_get (heads (view g)) n))"

lemma sound_head:
  assumes "sound view hist fg local remote g"
  obtains h where "bm_get (heads (view g)) local = Some h" and "branch_head view local g = h"
    and "generations_ok (fg_tree fg h)" and "good hist local remote (view g)"
proof -
  have good: "good hist local remote (view g)"
    using assms by (simp add: sound_def)
  obtain hl hr where "bm_get (heads (view g)) local = Some hl"
    by (rule good_heads [OF good])
  then show thesis
    using that [of hl] assms good by (simp add: sound_def branch_head_def)
qed

lemma stored_head:
  assumes "stored view hist fg local remote g"
  obtains h where "bm_get (heads (view g)) local = Some h" and "branch_head view local g = h"
    and "files_ok (fg_tree fg h)" and "good hist local remote (view g)"
proof -
  have good: "good hist local remote (view g)"
    using assms by (simp add: stored_def)
  obtain hl hr where "bm_get (heads (view g)) local = Some hl"
    by (rule good_heads [OF good])
  then show thesis
    using that [of hl] assms good by (simp add: stored_def branch_head_def)
qed

lemma keeps_generations_same:
  "view g' = view g \<Longrightarrow> keeps_generations view hist fg local remote g g'"
  unfolding keeps_generations_def
proof (intro impI conjI)
  assume "view g' = view g" and stored: "stored view hist fg local remote g"
  then show "stored view hist fg local remote g'"
    by (simp only: stored_def)
  have "hist_ok hist"
    using stored by (simp add: stored_def good_def)
  then show "branch_head view local g \<in> hist (branch_head view local g')"
    using \<open>view g' = view g\<close> by (simp add: branch_head_def hist_ok_def)
qed (simp_all add: branch_head_def keeps_dirs_def)

lemma keeps_generations_trans:
  assumes "keeps_generations view hist fg local remote g1 g2" and "keeps_generations view hist fg local remote g2 g3"
  shows "keeps_generations view hist fg local remote g1 g3"
proof -
  show ?thesis
    unfolding keeps_generations_def [of view hist fg local remote g1 g3]
  proof (rule impI)
    assume stored: "stored view hist fg local remote g1"
    then have "hist_ok hist"
      by (simp add: stored_def good_def)
    then have "branch_head view local g1 \<in> hist (branch_head view local g3)"
      if "branch_head view local g1 \<in> hist (branch_head view local g2)" "branch_head view local g2 \<in> hist (branch_head view local g3)"
      using that unfolding hist_ok_def by blast
    then show "stored view hist fg local remote g3 \<and> branch_head view local g1 \<in> hist (branch_head view local g3) \<and>
        keeps_dirs (fg_tree fg (branch_head view local g1)) (fg_tree fg (branch_head view local g3)) \<and>
        hub (view g3) = hub (view g1) \<and> (\<forall>n. n \<noteq> local \<longrightarrow> bm_get (heads (view g3)) n = bm_get (heads (view g1)) n)"
      using assms stored by (simp add: keeps_generations_def keeps_dirs_def)
  qed
qed

interpretation kept: action_relation "keeps_generations view hist fg local remote" for view hist fg local remote
  by unfold_locales (rule keeps_generations_same [OF refl], rule keeps_generations_trans)

lemma published_keeps:
  assumes "published view hist fg local h files' g g'" and "good hist local remote (view g)"
    and "bm_get (heads (view g)) local = Some h" and "git_records view hist fg" and "files_ok files'"
    and "keeps_dirs (fg_tree fg h) files'"
  shows "keeps_generations view hist fg local remote g g'"
proof -
  obtain c where c: "hash_ok c" "hist c = insert c (hist h)" "records_files files' (fg_tree fg c)"
    "view g' = committed_to local c (view g)"
    using assms(1) by (auto simp: published_def)
  have good': "good hist local remote (view g')"
    unfolding c(4) by (rule committed_to_good [of hist local remote "view g" h, OF assms(2,3) c(1,2)])
  have heads: "bm_get (heads (view g')) n = (if n = local then Some c else bm_get (heads (view g)) n)" for n
    using repo_ok_inv(1) [OF good_names(3) [OF assms(2)]] by (simp add: c(4) committed_to_def bm_get_insert)
  have "h \<in> hist c"
    using c(2) good_names(4) [OF assms(2)] by (simp add: hist_ok_def)
  have "n \<le> agm_total (gr_metadata files')" if "bm_get (gr_files (fg_tree fg c)) n \<noteq> None" for n
    using that c(3) assms(5) by (cases "bm_get (gr_files files') n") (simp_all add: records_files_def files_ok_def)
  then have ok: "files_ok (fg_tree fg c)"
    using c(3) assms(5) by (simp add: records_files_def files_ok_def)
  have kept: "keeps_dirs (fg_tree fg h) (fg_tree fg c)"
    using c(3) assms(6) git_records_tree(3) [OF assms(4), of h] by (simp add: records_files_def keeps_dirs_def)
  show ?thesis
    using good' heads assms(3) c(4) ok \<open>h \<in> hist c\<close> kept
    by (simp add: keeps_generations_def stored_def branch_head_def committed_to_def)
qed

lemma recorded_generation:
  assumes "generations_ok files" and "manifest_contents n files = Ok d"
  shows "1 \<le> n \<and> n \<le> agm_total (gr_metadata files) \<and> bm_get (gr_files files) n = Some d"
  using assms by (auto simp: generations_ok_def generation_in_table ok_or_Inr_iff split: if_splits)

text \<open>What is kept of a branch with consistent generations, without a switch to generation 0.\<close>

lemma keeps_sound:
  assumes "keeps_generations view hist fg local remote g g'" and "sound view hist fg local remote g"
    and "\<not> zeroed (gr_metadata (fg_tree fg (branch_head view local g')))"
  shows "sound view hist fg local remote g'"
    and "keeps_files (fg_tree fg (branch_head view local g)) (fg_tree fg (branch_head view local g'))"
proof -
  let ?old = "fg_tree fg (branch_head view local g)" and ?new = "fg_tree fg (branch_head view local g')"
  have kept: "stored view hist fg local remote g'" "keeps_dirs ?old ?new"
    using assms(1) sound_stored [OF assms(2)] by (simp_all add: keeps_generations_def)
  then show sound: "sound view hist fg local remote g'"
    using assms(3) by (simp add: sound_stored_iff)
  have ok: "generations_ok ?old" "generations_ok ?new"
    using assms(2) sound by (simp_all add: sound_def branch_head_def)
  have "manifest_contents n ?new = Ok d" if "manifest_contents n ?old = Ok d" for n d
  proof -
    have "1 \<le> n \<and> n \<le> agm_total (gr_metadata ?old) \<and> bm_get (gr_files ?old) n = Some d"
      by (rule recorded_generation [OF ok(1) that])
    then have "1 \<le> n \<and> n \<le> agm_total (gr_metadata ?new) \<and> bm_get (gr_files ?new) n = Some d"
      using kept(2) by (auto simp: keeps_dirs_def)
    then show ?thesis
      using ok(2) by (simp add: generations_ok_def generation_in_table)
  qed
  then show "keeps_files ?old ?new"
    by (simp add: keeps_files_def)
qed

lemma add_generation_total:
  "agm_total m < usize_max \<Longrightarrow> agm_total (snd (add_generation opts m)) = agm_total m + 1 \<and>
     current_gen (snd (add_generation opts m)) = Some (agm_total m + 1)"
  by (simp add: add_generation_def Let_def current_gen_def wrapping_add_no_overflow saturating_add_no_overflow)

lemma switch_generation_total:
  "switch_generation opts m = (Ok x, m') \<Longrightarrow> agm_total m' = agm_total m \<and> current_gen m' = Some (sgo_next opts)"
  by (auto simp: switch_generation_def current_gen_def Let_def split: if_splits option.splits)

lemma add_generation_ok:
  assumes "files_ok old" and "agm_total (gr_metadata old) < usize_max" and "bm_inv (gr_files old)"
    and "ago_kind opts \<noteq> SwitchGeneration" and "gr_metadata files' = snd (add_generation opts (gr_metadata old))"
    and "gr_files files' = bm_insert (agm_total (gr_metadata old) + 1) copied (gr_files old)"
  shows "files_ok files'" and "keeps_dirs old files'"
proof -
  note total = add_generation_total [OF assms(2), of opts]
  obtain spec where spec: "agm_history (gr_metadata files') = agm_history (gr_metadata old) @ [spec]"
    using add_generation_snoc [OF assms(2), of opts] assms(5) by metis
  then have zeroed: "zeroed (gr_metadata old) \<longrightarrow> zeroed (gr_metadata files')"
    by (simp add: zeroed_def)
  moreover have "agm_inv (gr_metadata files')" if "agm_inv (gr_metadata old)"
    by (rule add_generation_inv [OF that assms(2,4,5)])
  ultimately show "files_ok files'"
    using assms(1,3,5,6) total by (auto simp: files_ok_def bm_get_insert le_SucI)
  have fresh: "bm_get (gr_files old) (agm_total (gr_metadata old) + 1) = None"
    using assms(1) unfolding files_ok_def by fastforce
  then show "keeps_dirs old files'"
    using assms(3,5,6) total zeroed by (auto simp: keeps_dirs_def bm_get_insert)
qed

lemma switch_generation_ok:
  assumes "files_ok old" and "switch_generation opts (gr_metadata old) = (Ok x, gr_metadata files')"
    and "gr_files files' = gr_files old"
  shows "files_ok files'" and "keeps_dirs old files'"
proof -
  obtain spec where spec: "gr_metadata files' = (gr_metadata old)\<lparr> agm_history := agm_history (gr_metadata old) @ [spec] \<rparr>"
    "hs_current spec = sgo_next opts"
    using switch_generation_snoc [OF assms(2)] by metis
  then have zeroed: "zeroed (gr_metadata files') \<longleftrightarrow> zeroed (gr_metadata old) \<or> sgo_next opts = 0"
    by (auto simp: zeroed_def)
  moreover have "agm_inv (gr_metadata files')" if "agm_inv (gr_metadata old)" "sgo_next opts \<noteq> 0"
    by (rule switch_generation_inv [OF that(1) assms(2) that(2)])
  ultimately show "files_ok files'" "keeps_dirs old files'"
    using assms(1,3) switch_generation_total [OF assms(2)] by (auto simp: files_ok_def keeps_dirs_def)
qed

lemma write_generation_keeps:
  assumes "git_documented (fg_exec fg) view hist" and "git_records view hist fg" and "ago_kind opts \<noteq> SwitchGeneration"
  shows "preserves (keeps_generations view hist fg local remote) (write_generation fg faults opts local tempdir dir)"
  unfolding preserves_def
proof
  fix g
  obtain r g' where run: "write_generation fg faults opts local tempdir dir g = (r, g')"
    by fastforce
  have "keeps_generations view hist fg local remote g g'" if stored: "stored view hist fg local remote g"
  proof -
    obtain h where h: "bm_get (heads (view g)) local = Some h" "files_ok (fg_tree fg h)" "good hist local remote (view g)"
      by (rule stored_head [OF stored])
    note total = git_records_tree(1,2) [OF assms(2), of h]
    show ?thesis
      using write_generation_outcome [OF assms(1,2) h(3,1) assms(3) run]
    proof (elim disjE exE conjE)
      assume "view g' = view g"
      then show ?thesis
        by (rule keeps_generations_same)
    next
      fix copied files'
      assume published: "published view hist fg local h files' g g'"
        and files': "gr_metadata files' = snd (add_generation opts (gr_metadata (fg_tree fg h)))"
          "gr_files files' = bm_insert (agm_total (gr_metadata (fg_tree fg h)) + 1) copied (gr_files (fg_tree fg h))"
      show ?thesis
        by (rule published_keeps [OF published h(3,1) assms(2) add_generation_ok [OF h(2) total assms(3) files']])
    qed
  qed
  then show "keeps_generations view hist fg local remote g (snd (write_generation fg faults opts local tempdir dir g))"
    using run by (simp add: keeps_generations_def)
qed

lemma write_current_generation_keeps:
  assumes "git_documented (fg_exec fg) view hist" and "git_records view hist fg"
  shows "preserves (keeps_generations view hist fg local remote) (write_current_generation fg faults opts local)"
  unfolding preserves_def
proof
  fix g
  obtain r g' where run: "write_current_generation fg faults opts local g = (r, g')"
    by fastforce
  have "keeps_generations view hist fg local remote g g'" if stored: "stored view hist fg local remote g"
  proof -
    obtain h where h: "bm_get (heads (view g)) local = Some h" "files_ok (fg_tree fg h)" "good hist local remote (view g)"
      by (rule stored_head [OF stored])
    show ?thesis
      using write_current_generation_outcome [OF assms(1,2) h(3,1) run]
    proof (elim disjE exE conjE)
      assume "view g' = view g"
      then show ?thesis
        by (rule keeps_generations_same)
    next
      fix x files'
      assume published: "published view hist fg local h files' g g'"
        and switched: "switch_generation opts (gr_metadata (fg_tree fg h)) = (Ok x, gr_metadata files')"
        and files': "gr_files files' = gr_files (fg_tree fg h)"
      show ?thesis
        by (rule published_keeps [OF published h(3,1) assms(2) switch_generation_ok [OF h(2) switched files']])
    qed
  qed
  then show "keeps_generations view hist fg local remote g (snd (write_current_generation fg faults opts local g))"
    using run by (simp add: keeps_generations_def)
qed

section \<open>Every operation keeps the generations\<close>

definition world_keeps ::
  "('g \<Rightarrow> Repo) \<Rightarrow> (string \<Rightarrow> string set) \<Rightarrow> 'g FloxmetaGit \<Rightarrow> string \<Rightarrow> string
     \<Rightarrow> ('g, 'out) ManagedWorld \<Rightarrow> ('g, 'out) ManagedWorld \<Rightarrow> bool" where
  "world_keeps view hist fg local remote w w' \<longleftrightarrow> keeps_generations view hist fg local remote (mw_git w) (mw_git w')"

interpretation changes: action_relation "world_keeps view hist fg local remote" for view hist fg local remote
  by unfold_locales (simp add: world_keeps_def kept.refl, unfold world_keeps_def, rule kept.trans)

lemma on_clone_keeps:
  "preserves (keeps_generations view hist fg local remote) m \<Longrightarrow> preserves (world_keeps view hist fg local remote) (on_clone err m)"
  unfolding on_clone_def
  by (rule changes.preserves_map_err) (simp add: preserves_def world_keeps_def act_zoom_def case_prod_beta)

text \<open>Most steps only read the repository, and leave the generation lock alone.\<close>

definition reads_only ::
  "('g \<Rightarrow> Repo) \<Rightarrow> (string \<Rightarrow> string set) \<Rightarrow> 'g FloxmetaGit \<Rightarrow> string \<Rightarrow> string
     \<Rightarrow> ('g, 'out) ManagedWorld \<Rightarrow> ('g, 'out) ManagedWorld \<Rightarrow> bool" where
  "reads_only view hist fg local remote w w' \<longleftrightarrow>
     mw_lock_file w' = mw_lock_file w \<and>
     (stored view hist fg local remote (mw_git w) \<longrightarrow> view (mw_git w') = view (mw_git w))"

interpretation reads: action_relation "reads_only view hist fg local remote" for view hist fg local remote
  by unfold_locales (auto simp: reads_only_def stored_def)

lemma reads_keep:
  assumes "preserves (reads_only view hist fg local remote) m"
  shows "preserves (world_keeps view hist fg local remote) m"
  unfolding preserves_def
proof
  fix w
  have reads: "stored view hist fg local remote (mw_git w) \<Longrightarrow> view (mw_git (snd (m w))) = view (mw_git w)"
    using assms by (simp add: preserves_def reads_only_def)
  show "world_keeps view hist fg local remote w (snd (m w))"
  proof (cases "stored view hist fg local remote (mw_git w)")
    case True
    then show ?thesis
      unfolding world_keeps_def by (intro keeps_generations_same reads)
  qed (simp add: world_keeps_def keeps_generations_def)
qed

lemma on_clone_reads:
  assumes "\<And>g. stored view hist fg local remote g \<Longrightarrow> view (snd (m g)) = view g"
  shows "preserves (reads_only view hist fg local remote) (on_clone err m)"
  unfolding on_clone_def
  by (rule reads.preserves_map_err) (simp add: preserves_def reads_only_def act_zoom_def case_prod_beta assms)

lemma same_git_reads:
  "(\<And>w. mw_git (snd (m w)) = mw_git w \<and> mw_lock_file (snd (m w)) = mw_lock_file w) \<Longrightarrow>
     preserves (reads_only view hist fg local remote) m"
  by (simp add: preserves_def reads_only_def)

lemma on_checkout_reads: "preserves (reads_only view hist fg local remote) (on_checkout m)"
  unfolding on_checkout_def
  by (rule reads.preserves_map_err, rule same_git_reads) (simp add: act_zoom_def case_prod_beta)

lemma branch_files_stored:
  assumes "git_documented (fg_exec fg) view hist" and "stored view hist fg local remote g"
  shows "branch_files fg local g = (Ok (fg_tree fg (branch_head view local g)), g)"
proof -
  obtain h where "bm_get (heads (view g)) local = Some h" "branch_head view local g = h" "good hist local remote (view g)"
    by (rule stored_head [OF assms(2)])
  then show ?thesis
    using branch_files_eq [OF assms(1)] by simp
qed

lemmas branch_files_sound = branch_files_stored [OF _ sound_stored]

lemma change_lock_pointer_eq:
  assumes "git_documented (fg_exec (ch_git ops)) view hist" and "good hist local remote (view (mw_git w))"
    and "on_branches local remote env"
    and "bm_get (heads (view (mw_git w))) local = Some hl" and "bm_get (heads (view (mw_git w))) remote = Some hr"
  shows "change_lock_pointer ops env w =
    (Ok (), w\<lparr> mw_lock_file := Some \<lparr> gl_rev = hr, gl_local_rev = (if hl = hr then None else Some hl) \<rparr> \<rparr>)"
proof -
  have "generation_lock (fg_exec (ch_git ops)) (me_branch env) (mw_git w) =
      (Ok \<lparr> gl_rev = hr, gl_local_rev = (if hl = hr then None else Some hl) \<rparr>, mw_git w)"
    using generation_lock_eq [OF assms(1) good_names(3) [OF assms(2)], of "me_branch env" hr hl] assms(4,5)
    by (simp add: on_branches_simps [OF assms(3)])
  then show ?thesis
    by (cases w) (simp add: change_lock_pointer_def lock_pointer_def on_git_def put_lock_file_def write_generation_lock_def action_defs)
qed

lemma change_lock_pointer_keeps:
  assumes "git_documented (fg_exec (ch_git ops)) view hist" and "on_branches local remote env"
  shows "preserves (world_keeps view hist (ch_git ops) local remote) (change_lock_pointer ops env)"
  unfolding preserves_def
proof
  fix w
  show "world_keeps view hist (ch_git ops) local remote w (snd (change_lock_pointer ops env w))"
  proof (cases "stored view hist (ch_git ops) local remote (mw_git w)")
    case True
    then have good: "good hist local remote (view (mw_git w))"
      by (simp add: stored_def)
    obtain hl hr where "bm_get (heads (view (mw_git w))) local = Some hl" "bm_get (heads (view (mw_git w))) remote = Some hr"
      by (rule good_heads [OF good])
    from change_lock_pointer_eq [OF assms(1) good assms(2) this] show ?thesis
      by (simp add: world_keeps_def kept.refl)
  qed (simp add: world_keeps_def keeps_generations_def)
qed

lemma fill_checkout_reads: "preserves (reads_only view hist fg local remote) (fill_checkout faults source)"
  by (rule same_git_reads) (simp add: fill_checkout_def split: option.splits prod.splits)

text \<open>Git behaves as documented, and the environment is the one of the two branches.\<close>

definition works_on ::
  "('g \<Rightarrow> Repo) \<Rightarrow> (string \<Rightarrow> string set) \<Rightarrow> 'g FloxmetaGit \<Rightarrow> string \<Rightarrow> string \<Rightarrow> ('g, 'u, 'out) ChangeOps \<Rightarrow> ManagedEnvironment \<Rightarrow> bool" where
  "works_on view hist fg local remote ops env \<longleftrightarrow>
     ch_git ops = fg \<and> git_documented (fg_exec fg) view hist \<and> git_records view hist fg \<and> on_branches local remote env"

lemma works_onD:
  assumes "works_on view hist fg local remote ops env"
  shows "ch_git ops = fg" "git_documented (fg_exec fg) view hist" "git_records view hist fg" "on_branches local remote env"
    "fb_branch (me_branch env) = local"
  using assms by (simp_all add: works_on_def on_branches_def)

lemma get_current_generation_reads:
  assumes "works_on view hist fg local remote ops env"
  shows "preserves (reads_only view hist fg local remote) (get_current_generation ops env)"
  unfolding get_current_generation_def Let_def works_onD(1,5) [OF assms]
  by (intro reads.preserves_rules on_clone_reads)
    (simp_all add: writable_view [OF works_onD(3) [OF assms]] branch_files_stored [OF works_onD(2) [OF assms]])

lemma ensure_checkout_reads:
  assumes "works_on view hist fg local remote ops env"
  shows "preserves (reads_only view hist fg local remote) (ensure_checkout ops env)"
proof -
  have "preserves (reads_only view hist fg local remote) (act_bind (get_current_generation ops env) (fill_checkout (ch_checkout ops)))"
    by (intro reads.preserves_rules get_current_generation_reads fill_checkout_reads assms)
  then show ?thesis
    by (simp add: preserves_def ensure_checkout_def reads.refl split: option.splits)
qed

lemma reset_checkout_reads:
  assumes "works_on view hist fg local remote ops env"
  shows "preserves (reads_only view hist fg local remote) (reset_checkout ops env)"
  unfolding reset_checkout_def
proof (intro reads.preserves_rules get_current_generation_reads assms)
  show "preserves (reads_only view hist fg local remote) (\<lambda>w. case (ew_env (mw_core w), co_remove (ch_checkout ops)) of
       (None, _) \<Rightarrow> (Err (DeleteEnvDir ''No such file or directory''), w)
     | (Some _, Some (e, left)) \<Rightarrow> (Err (DeleteEnvDir e), w\<lparr> mw_core := (mw_core w)\<lparr> ew_env := Some left \<rparr> \<rparr>)
     | (Some _, None) \<Rightarrow>
         fill_checkout (ch_checkout ops) source (w\<lparr> mw_core := (mw_core w)\<lparr> ew_env := None \<rparr> \<rparr>))" for source
    by (rule same_git_reads) (simp add: fill_checkout_def split: option.splits prod.splits)
qed

lemma checkout_valid_reads:
  assumes "works_on view hist fg local remote ops env"
  shows "preserves (reads_only view hist fg local remote) (checkout_valid ops env)"
  using branch_files_stored [OF works_onD(2) [OF assms]]
  by (simp add: preserves_def reads_only_def checkout_valid_def works_onD(1,5) [OF assms] case_prod_beta)

lemma require_valid_reads:
  assumes "works_on view hist fg local remote ops env"
  shows "preserves (reads_only view hist fg local remote) (require_valid ops env)"
  unfolding require_valid_def by (intro reads.preserves_rules checkout_valid_reads assms)

lemma start_change_reads:
  assumes "works_on view hist fg local remote ops env"
  shows "preserves (reads_only view hist fg local remote) (start_change ops env)"
  unfolding start_change_def works_onD(1,5) [OF assms]
  by (intro reads.preserves_rules on_clone_reads ensure_checkout_reads assms)
    (simp add: writable_view [OF works_onD(3) [OF assms]])

lemma record_change_keeps:
  assumes "works_on view hist fg local remote ops env" and "kind \<noteq> SwitchGeneration"
  shows "preserves (world_keeps view hist fg local remote) (record_change ops env tempdir kind)"
proof -
  have "preserves (world_keeps view hist fg local remote) (act_bind (on_clone CommitGeneration
      (write_generation fg (ch_generation ops) \<lparr> ago_author = ch_author ops, ago_hostname = ch_hostname ops,
         ago_argv = ch_argv ops, ago_timestamp = ch_now ops, ago_kind = kind \<rparr> local tempdir dir))
      (\<lambda>_. change_lock_pointer ops env))" for dir
    using works_onD [OF assms(1)] assms(2)
    by (intro changes.preserves_rules on_clone_keeps write_generation_keeps) (auto intro: change_lock_pointer_keeps)
  then show ?thesis
    by (simp add: preserves_def record_change_def works_onD(1,5) [OF assms(1)])
qed

lemma guard_reads: "preserves (reads_only view hist fg local remote) (guard_immutable env)"
  by (cases "me_generation env") (simp_all add: guard_immutable_def reads.preserves_rules)

lemmas change_reads = guard_reads start_change_reads require_valid_reads on_checkout_reads ensure_checkout_reads
  checkout_valid_reads reset_checkout_reads

lemmas change_keeps = changes.preserves_rules change_reads [THEN reads_keep]

lemma changes_keep:
  assumes "works_on view hist fg local remote ops env"
  shows "preserves (world_keeps view hist fg local remote) (managed_install ops env packages)"
    and "preserves (world_keeps view hist fg local remote) (managed_uninstall ops env specs)"
    and "preserves (world_keeps view hist fg local remote) (managed_edit ops env contents)"
    and "preserves (world_keeps view hist fg local remote) (managed_upgrade ops env groups)"
    and "preserves (world_keeps view hist fg local remote) (managed_include_upgrade ops env names)"
    and "preserves (world_keeps view hist fg local remote) (managed_edit_unsafe ops env contents)"
    and "preserves (world_keeps view hist fg local remote) (managed_dry_upgrade ops env groups)"
    and "preserves (world_keeps view hist fg local remote) (managed_build ops env)"
    and "preserves (world_keeps view hist fg local remote) (create_generation_from_local_env ops env)"
    and "preserves (world_keeps view hist fg local remote) (managed_switch_generation ops env generation)"
proof -
  note steps = change_keeps assms record_change_keeps [OF assms]
  show "preserves (world_keeps view hist fg local remote) (managed_install ops env packages)"
    unfolding managed_install_def by (intro steps) simp
  show "preserves (world_keeps view hist fg local remote) (managed_uninstall ops env specs)"
    unfolding managed_uninstall_def by (intro steps) simp
  have "preserves (world_keeps view hist fg local remote) (case result of EditUnchanged \<Rightarrow> act_ok result
      | EditChanged _ _ _ \<Rightarrow> act_bind (record_change ops env tempdir Edit) (\<lambda>_. act_ok result))" for tempdir result
    by (cases result; simp only: EditResult.case; intro steps) simp
  then show "preserves (world_keeps view hist fg local remote) (managed_edit ops env contents)"
    unfolding managed_edit_def by (intro steps)
  show "preserves (world_keeps view hist fg local remote) (managed_upgrade ops env groups)"
    unfolding managed_upgrade_def by (intro steps) simp
  show "preserves (world_keeps view hist fg local remote) (managed_include_upgrade ops env names)"
    unfolding managed_include_upgrade_def by (intro steps) simp
  show "preserves (world_keeps view hist fg local remote) (managed_edit_unsafe ops env contents)"
    unfolding managed_edit_unsafe_def by (intro steps) simp
  show "preserves (world_keeps view hist fg local remote) (managed_dry_upgrade ops env groups)"
    unfolding managed_dry_upgrade_def by (intro steps)
  show build: "preserves (world_keeps view hist fg local remote) (managed_build ops env)"
    unfolding managed_build_def build_checkout_def by (intro steps)
  show "preserves (world_keeps view hist fg local remote) (create_generation_from_local_env ops env)"
    unfolding create_generation_from_local_env_def build_checkout_def works_onD(1,5) [OF assms]
    by (intro steps on_clone_reads [THEN reads_keep]) (simp_all add: writable_view [OF works_onD(3) [OF assms]])
  show "preserves (world_keeps view hist fg local remote) (managed_switch_generation ops env generation)"
    unfolding managed_switch_generation_def Let_def works_onD(1,5) [OF assms]
    using works_onD(1-4) [OF assms] change_lock_pointer_keeps [of ops view hist local remote env]
    by (intro steps build on_clone_reads [where m = "writable_generations fg local", THEN reads_keep]
        on_clone_keeps [OF write_current_generation_keeps]) (simp_all add: writable_view)
qed

section \<open>A recorded change\<close>

text \<open>The lock names the heads of the two branches.\<close>

definition locked_to :: "('g \<Rightarrow> Repo) \<Rightarrow> string \<Rightarrow> string \<Rightarrow> ('g, 'out) ManagedWorld \<Rightarrow> bool" where
  "locked_to view local remote w \<longleftrightarrow>
     mw_lock_file w = Some \<lparr> gl_rev = branch_head view remote (mw_git w),
       gl_local_rev = (if branch_head view local (mw_git w) = branch_head view remote (mw_git w) then None
                       else Some (branch_head view local (mw_git w))) \<rparr>"

text \<open>The generations on the branch of the environment.\<close>

definition generations_of :: "('g \<Rightarrow> Repo) \<Rightarrow> 'g FloxmetaGit \<Rightarrow> string \<Rightarrow> ('g, 'out) ManagedWorld \<Rightarrow> gen_files" where
  "generations_of view fg local w = fg_tree fg (branch_head view local (mw_git w))"

text \<open>The current generation has the given number and files.\<close>

definition current_is :: "gen_files \<Rightarrow> GenerationId \<Rightarrow> EnvDir option \<Rightarrow> bool" where
  "current_is files n dir \<longleftrightarrow> current_gen (gr_metadata files) = Some n \<and> manifest_contents n files = Ok dir"

lemma lock_after:
  assumes "works_on view hist fg local remote ops env" and "sound view hist fg local remote (mw_git w)"
    and "change_lock_pointer ops env w = (Ok (), w')"
  shows "locked_to view local remote w' \<and> mw_git w' = mw_git w \<and> mw_core w' = mw_core w"
proof -
  have good: "good hist local remote (view (mw_git w))"
    using assms(2) by (simp add: sound_def)
  obtain hl hr where h: "bm_get (heads (view (mw_git w))) local = Some hl" "bm_get (heads (view (mw_git w))) remote = Some hr"
    by (rule good_heads [OF good])
  have "git_documented (fg_exec (ch_git ops)) view hist"
    using works_onD(1,2) [OF assms(1)] by simp
  from change_lock_pointer_eq [OF this good works_onD(4) [OF assms(1)] h] show ?thesis
    using assms(3) h by (auto simp: locked_to_def branch_head_def)
qed

lemma publish_recorded:
  assumes "published view hist fg local h files' g g'" and "good hist local remote (view g)"
  shows "records_files files' (fg_tree fg (branch_head view local g'))"
  using assms repo_ok_inv(1) [OF good_names(3) [OF assms(2)]]
  by (auto simp: published_def branch_head_def committed_to_def bm_get_insert)

lemma record_change_Ok:
  assumes "works_on view hist fg local remote ops env" and "sound view hist fg local remote (mw_git w)"
    and "kind \<noteq> SwitchGeneration" and "record_change ops env tempdir kind w = (Ok (), w')"
    and "ew_env (mw_core w) = Some dir" and "bm_inv dir" and "git_tracks (Some dir)"
  shows "mw_core w' = mw_core w \<and> locked_to view local remote w' \<and> sound view hist fg local remote (mw_git w') \<and>
    agm_total (gr_metadata (generations_of view fg local w')) = agm_total (gr_metadata (generations_of view fg local w)) + 1 \<and>
    current_is (generations_of view fg local w') (agm_total (gr_metadata (generations_of view fg local w)) + 1) (Some dir)"
proof -
  obtain h where h: "bm_get (heads (view (mw_git w))) local = Some h" "branch_head view local (mw_git w) = h"
      "generations_ok (fg_tree fg h)" "good hist local remote (view (mw_git w))"
    by (rule sound_head [OF assms(2)])
  let ?old = "fg_tree fg h"
  let ?n = "agm_total (gr_metadata ?old) + 1"
  let ?opts = "\<lparr> ago_author = ch_author ops, ago_hostname = ch_hostname ops, ago_argv = ch_argv ops,
      ago_timestamp = ch_now ops, ago_kind = kind \<rparr>"
  note total = git_records_tree(1,2) [OF works_onD(3) [OF assms(1)], of h]
  obtain g where g: "write_generation fg (ch_generation ops) ?opts local tempdir (Some dir) (mw_git w) = (Ok (), g)"
    and lock: "change_lock_pointer ops env (w\<lparr> mw_git := g \<rparr>) = (Ok (), w')"
    using assms(4,5) by (auto simp: record_change_def works_onD(1,5) [OF assms(1)] act_bind_Inr_iff on_clone_def
        act_map_err_Inr_iff act_zoom_def split: prod.splits)
  have kind: "ago_kind ?opts \<noteq> SwitchGeneration"
    using assms(3) by simp
  obtain copied files' where files': "published view hist fg local h files' (mw_git w) g"
    "copy_dir_recursive (gf_copy (ch_generation ops)) True (Some dir) (Some (case bm_get (gr_files ?old) ?n of
       Some (Some d) \<Rightarrow> d | _ \<Rightarrow> [])) = (CopyOk, copied)"
    "gr_metadata files' = snd (add_generation ?opts (gr_metadata ?old))"
    "gr_files files' = bm_insert ?n copied (gr_files ?old)"
    using write_generation_outcome [OF works_onD(2,3) [OF assms(1)] h(4,1) kind g] by auto
  have "bm_get (gr_files ?old) ?n = None"
    using h(3) unfolding generations_ok_def by fastforce
  then have copied: "copied = Some dir"
    using files'(2) copy_complete [OF _ assms(6)] by simp
  have keeps: "keeps_generations view hist fg local remote (mw_git w) g"
    using write_generation_keeps [OF works_onD(2,3) [OF assms(1)] kind, of local remote] g
    by (metis preserves_def snd_conv)
  have recorded: "records_files files' (fg_tree fg (branch_head view local g))"
    by (rule publish_recorded [OF files'(1) h(4)])
  have "agm_inv (gr_metadata ?old)"
    using h(3) by (simp add: generations_ok_def)
  then have "agm_inv (gr_metadata files')"
    by (rule add_generation_inv [OF _ total(1) kind files'(3)])
  then have "\<not> zeroed (gr_metadata (fg_tree fg (branch_head view local g)))"
    using recorded agm_inv_not_zeroed by (simp add: records_files_def)
  then have sound: "sound view hist fg local remote g"
    by (rule keeps_sound(1) [OF keeps assms(2)])
  note locked = lock_after [OF assms(1) _ lock]
  have "agm_inv (gr_metadata (fg_tree fg (branch_head view local g)))"
    using sound by (simp add: sound_def branch_head_def generations_ok_def)
  then have "current_is (fg_tree fg (branch_head view local g)) ?n (Some dir)"
    using recorded files'(3,4) copied assms(7) add_generation_total [OF total(1), of ?opts] total(2)
    by (simp add: current_is_def generation_in_table records_files_def bm_get_insert)
  then show ?thesis
    using locked sound recorded files'(3) add_generation_total [OF total(1), of ?opts] h(2)
    by (simp add: generations_of_def records_files_def)
qed

section \<open>A checkout in sync\<close>

text \<open>The TOML library prints a document as it was read.\<close>

definition toml_prints :: "Documents \<Rightarrow> bool" where
  "toml_prints docs \<longleftrightarrow>
     (\<forall>c text. normalize_toml docs c = Some text \<longrightarrow> normalize_toml docs text = Some text) \<and>
     (\<forall>c m. parse_toml docs c = Ok m \<longrightarrow> normalize_toml docs c \<noteq> None)"

lemma current_file:
  assumes "current_is files n (Some dir)"
  shows "current_gen_manifest files = ok_or ShowManifest (read_file MANIFEST_FILENAME (Some dir))"
    and "current_gen_lockfile files = ok_or ShowLockfile (read_file LOCKFILE_FILENAME (Some dir))"
proof -
  obtain table where table: "table_of (gr_metadata files) = Ok table" "bm_contains table n" "bm_get (gr_files files) n = Some (Some dir)"
    using assms by (auto simp: current_is_def manifest_contents_def result_simps split: if_splits)
  then have "generation_file name missing n files = ok_or missing (read_file name (Some dir))" for name missing
    by (simp add: generation_file_def)
  then show "current_gen_manifest files = ok_or ShowManifest (read_file MANIFEST_FILENAME (Some dir))"
    "current_gen_lockfile files = ok_or ShowLockfile (read_file LOCKFILE_FILENAME (Some dir))"
    using assms by (simp_all add: current_is_def current_gen_manifest_def current_gen_lockfile_def generation_manifest_def lockfile_contents_def)
qed

lemma checkout_valid_eq:
  assumes "works_on view hist fg local remote ops env" and "sound view hist fg local remote (mw_git w)"
  shows "checkout_valid ops env w =
    (checkout_matches (ch_docs ops) (ew_env (mw_core w)) (Ok (generations_of view fg local w)), w)"
  by (simp add: checkout_valid_def works_onD(1,5) [OF assms(1)] branch_files_sound [OF works_onD(2) [OF assms(1)] assms(2)]
      generations_of_def)

lemma in_sync:
  assumes "works_on view hist fg local remote ops env" and "sound view hist fg local remote (mw_git w)"
    and "ew_env (mw_core w) = Some dir" and "current_is (generations_of view fg local w) n (Some dir)"
    and "toml_prints (ch_docs ops)" and "manifest_without_migrating (ch_docs ops) (Some dir) = Ok mm"
  shows "checkout_valid ops env w = (Ok True, w)"
proof -
  obtain contents where contents: "read_file MANIFEST_FILENAME (Some dir) = Some contents"
    "parse_toml (ch_docs ops) contents = Ok (mm_manifest mm)" "mm_raw mm = contents"
    using assms(6) by (auto simp: manifest_without_migrating_def split: option.splits sum.splits)
  then obtain t where t: "normalize_toml (ch_docs ops) contents = Some t" "normalize_toml (ch_docs ops) t = Some t"
    using assms(5) unfolding toml_prints_def by blast
  have "checkout_matches (ch_docs ops) (Some dir) (Ok (generations_of view fg local w)) = Ok True"
    using current_file [OF assms(4)] contents t assms(6)
    by (cases "read_file LOCKFILE_FILENAME (Some dir)")
      (simp_all add: checkout_matches_def existing_lockfile_contents_def parse_contents_def contents_match_def)
  then show ?thesis
    using checkout_valid_eq [OF assms(1,2)] assms(3) by simp
qed

section \<open>Changes that record a generation\<close>

definition records_generation ::
  "('g, 'u, 'out) ChangeOps \<Rightarrow> ManagedEnvironment \<Rightarrow> ('g, 'out) ManagedWorld \<Rightarrow> ('g, 'out) ManagedWorld \<Rightarrow> bool" where
  "records_generation ops env w w' \<longleftrightarrow>
     (\<exists>packages r. managed_install ops env packages w = (Ok r, w') \<and> ia_modifications r \<noteq> []) \<or>
     (\<exists>specs r. managed_uninstall ops env specs w = (Ok r, w')) \<or>
     (\<exists>contents old new out. managed_edit ops env contents w = (Ok (EditChanged old new out), w')) \<or>
     (\<exists>groups r. managed_upgrade ops env groups w = (Ok r, w') \<and> upgrade_result_diff r \<noteq> []) \<or>
     (\<exists>names r. managed_include_upgrade ops env names w = (Ok r, w') \<and> ur_store_path r \<noteq> None) \<or>
     (\<exists>contents r. managed_edit_unsafe ops env contents w = (Ok r, w') \<and> r \<noteq> Ok EditUnchanged) \<or>
     create_generation_from_local_env ops env w = (Ok Synced, w')"

lemma preserves_step: "preserves R m \<Longrightarrow> m s = (r, t) \<Longrightarrow> R s t"
  by (metis preserves_def snd_conv)

text \<open>The change itself: guarded, started, validated, and made on the checkout.\<close>

definition change_checkout ::
  "('g, 'u, 'out) ChangeOps \<Rightarrow> ManagedEnvironment \<Rightarrow> bool \<Rightarrow> ('out, 'a) core_action \<Rightarrow> ('g, 'out, string \<times> 'a) change" where
  "change_checkout ops env validated m =
     act_bind (start_change ops env) (\<lambda>tempdir.
     act_bind (if validated then require_valid ops env else act_ok ()) (\<lambda>_.
     act_bind (on_checkout m) (\<lambda>result. act_ok (tempdir, result))))"

lemma change_checkout_reads:
  assumes "works_on view hist fg local remote ops env"
  shows "preserves (reads_only view hist fg local remote) (change_checkout ops env validated m)"
  unfolding change_checkout_def by (intro reads.preserves_rules change_reads assms)

text \<open>Every change is this step and then a record.\<close>

lemma act_bind_change:
  "act_bind (start_change ops env) (\<lambda>tempdir. act_bind (require_valid ops env) (\<lambda>_. act_bind (on_checkout m) (f tempdir))) =
     act_bind (change_checkout ops env True m) (\<lambda>(tempdir, result). f tempdir result)"
  "act_bind (start_change ops env) (\<lambda>tempdir. act_bind (on_checkout m) (f tempdir)) =
     act_bind (change_checkout ops env False m) (\<lambda>(tempdir, result). f tempdir result)"
  by (simp_all add: fun_eq_iff change_checkout_def action_defs split: prod.splits sum.splits)

lemma guarded: "guard_immutable env w = (Ok (), w') \<longleftrightarrow> me_generation env = None \<and> w' = w"
  by (cases "me_generation env") (auto simp: guard_immutable_def act_err_def act_ok_def)

text \<open>The end of a change: a record after steps that only read.\<close>

definition ends_with_record ::
  "('g \<Rightarrow> Repo) \<Rightarrow> (string \<Rightarrow> string set) \<Rightarrow> 'g FloxmetaGit \<Rightarrow> string \<Rightarrow> string \<Rightarrow> ('g, 'u, 'out) ChangeOps \<Rightarrow> ManagedEnvironment
     \<Rightarrow> ('g, 'out) ManagedWorld \<Rightarrow> ('g, 'out) ManagedWorld \<Rightarrow> bool" where
  "ends_with_record view hist fg local remote ops env w w' \<longleftrightarrow>
     (\<exists>w1 tempdir kind. reads_only view hist fg local remote w w1 \<and> kind \<noteq> SwitchGeneration \<and>
        record_change ops env tempdir kind w1 = (Ok (), w'))"

lemma changed_ends:
  assumes "works_on view hist fg local remote ops env" and "change_checkout ops env validated m w = (Ok (tempdir, result), w1)"
    and "record_change ops env tempdir kind w1 = (Ok (), w')" and "kind \<noteq> SwitchGeneration"
  shows "ends_with_record view hist fg local remote ops env w w'"
  using assms(3,4) preserves_step [OF change_checkout_reads [OF assms(1)] assms(2)] unfolding ends_with_record_def by blast

lemma records_generation_end:
  assumes "works_on view hist fg local remote ops env" and "records_generation ops env w w'"
  shows "ends_with_record view hist fg local remote ops env w w'"
proof -
  from assms(2) show ?thesis
    unfolding records_generation_def
  proof (elim disjE exE conjE)
    assume "create_generation_from_local_env ops env w = (Ok Synced, w')"
    then obtain tempdir s1 s2 s3 s4 s5 x y where run: "ensure_checkout ops env w = (Ok (), s1)" "checkout_valid ops env s1 = (Ok False, s2)"
      "on_checkout (core_lock (ch_backend ops) (ch_docs ops) (ch_faults ops)) s2 = (Ok x, s3)" "build_checkout ops s3 = (Ok y, s4)"
      "on_clone CreateFloxmetaDir (writable_generations fg local) s4 = (Ok tempdir, s5)"
      and recorded: "record_change ops env tempdir Edit s5 = (Ok (), w')"
      by (auto simp: create_generation_from_local_env_def act_bind_Inr_iff act_ok_def works_onD(1,5) [OF assms(1)] split: if_splits)
    define prepare where "prepare = act_bind (ensure_checkout ops env) (\<lambda>_. act_bind (checkout_valid ops env) (\<lambda>valid.
        if valid then act_err MissingLockfile
        else act_bind (on_checkout (core_lock (ch_backend ops) (ch_docs ops) (ch_faults ops))) (\<lambda>_.
             act_bind (build_checkout ops) (\<lambda>_. on_clone CreateFloxmetaDir (writable_generations fg local)))))"
    have w1: "prepare w = (Ok tempdir, s5)"
      unfolding prepare_def
      by (simp add: act_bind_Inr [of "ensure_checkout ops env", OF run(1)] act_bind_Inr [of "checkout_valid ops env", OF run(2)]
          act_bind_Inr [of "on_checkout (core_lock (ch_backend ops) (ch_docs ops) (ch_faults ops))", OF run(3)] act_bind_Inr [of "build_checkout ops", OF run(4)] run(5))
    have "preserves (reads_only view hist fg local remote) prepare"
      unfolding prepare_def build_checkout_def
      by (intro reads.preserves_rules change_reads on_clone_reads assms(1)) (simp add: writable_view [OF works_onD(3) [OF assms(1)]])
    from preserves_step [OF this w1] show ?thesis
      using recorded unfolding ends_with_record_def by blast
  qed (auto simp: managed_install_def managed_uninstall_def managed_edit_def managed_upgrade_def managed_include_upgrade_def
      managed_edit_unsafe_def act_bind_change guarded act_bind_Inr_iff act_ok_def intro: changed_ends [OF assms(1)] split: if_splits EditResult.splits,
      metis EditResult.exhaust)
qed

text \<open>The program's operations that write a managed environment, whatever their outcome.\<close>

inductive managed_step ::
  "('g \<Rightarrow> Repo) \<Rightarrow> (string \<Rightarrow> string set) \<Rightarrow> 'g FloxmetaGit \<Rightarrow> string \<Rightarrow> string \<Rightarrow> 'u url_api
     \<Rightarrow> ('g, 'out) ManagedWorld \<Rightarrow> ('g, 'out) ManagedWorld \<Rightarrow> bool"
  for view hist fg local remote and api :: "'u url_api" where
  install: "works_on view hist fg local remote ops env \<Longrightarrow> ch_api ops = api \<Longrightarrow>
     managed_step view hist fg local remote api w (snd (managed_install ops env packages w))"
| uninstall: "works_on view hist fg local remote ops env \<Longrightarrow> ch_api ops = api \<Longrightarrow>
     managed_step view hist fg local remote api w (snd (managed_uninstall ops env specs w))"
| edit: "works_on view hist fg local remote ops env \<Longrightarrow> ch_api ops = api \<Longrightarrow>
     managed_step view hist fg local remote api w (snd (managed_edit ops env contents w))"
| edit_unsafe: "works_on view hist fg local remote ops env \<Longrightarrow> ch_api ops = api \<Longrightarrow>
     managed_step view hist fg local remote api w (snd (managed_edit_unsafe ops env contents w))"
| upgrade: "works_on view hist fg local remote ops env \<Longrightarrow> ch_api ops = api \<Longrightarrow>
     managed_step view hist fg local remote api w (snd (managed_upgrade ops env groups w))"
| dry_upgrade: "works_on view hist fg local remote ops env \<Longrightarrow> ch_api ops = api \<Longrightarrow>
     managed_step view hist fg local remote api w (snd (managed_dry_upgrade ops env groups w))"
| include_upgrade: "works_on view hist fg local remote ops env \<Longrightarrow> ch_api ops = api \<Longrightarrow>
     managed_step view hist fg local remote api w (snd (managed_include_upgrade ops env names w))"
| build: "works_on view hist fg local remote ops env \<Longrightarrow> ch_api ops = api \<Longrightarrow>
     managed_step view hist fg local remote api w (snd (managed_build ops env w))"
| sync: "works_on view hist fg local remote ops env \<Longrightarrow> ch_api ops = api \<Longrightarrow>
     managed_step view hist fg local remote api w (snd (create_generation_from_local_env ops env w))"
| reset: "works_on view hist fg local remote ops env \<Longrightarrow> ch_api ops = api \<Longrightarrow>
     managed_step view hist fg local remote api w (snd (reset_checkout ops env w))"
| switch: "works_on view hist fg local remote ops env \<Longrightarrow> ch_api ops = api \<Longrightarrow>
     managed_step view hist fg local remote api w (snd (managed_switch_generation ops env generation w))"

lemmas changes_kept = changes_keep [unfolded preserves_def, THEN spec]
  reset_checkout_reads [THEN reads_keep, unfolded preserves_def, THEN spec]

lemma managed_step_keeps:
  assumes "managed_step view hist fg local remote api w w'"
  shows "world_keeps view hist fg local remote w w'"
  using assms by cases (simp_all add: changes_kept)

lemma managed_steps_keep:
  "(managed_step view hist fg local remote api)\<^sup>*\<^sup>* w w' \<Longrightarrow> world_keeps view hist fg local remote w w'"
  by (induction rule: rtranclp_induct) (auto intro: changes.refl changes.trans managed_step_keeps)

interpretation managed: transition_system
  "\<lambda>w. stored view hist fg local remote (mw_git w)" "managed_step view hist fg local remote api"
  "\<lambda>w. stored view hist fg local remote (mw_git w)" for view hist fg local remote api
  by unfold_locales (auto dest: managed_step_keeps simp: world_keeps_def keeps_generations_def)

section \<open>Where a change fails\<close>

text \<open>The steps before the record do not fail with the error of a commit.\<close>

definition never_commits :: "('g, 'out, 'a) change \<Rightarrow> bool" where
  "never_commits m \<longleftrightarrow> (\<forall>w e w'. m w \<noteq> (Err (CommitGeneration e), w'))"

lemma act_bind_Inl_iff:
  "act_bind m f s = (Inl e, t) \<longleftrightarrow> m s = (Inl e, t) \<or> (\<exists>a s'. m s = (Inr a, s') \<and> f a s' = (Inl e, t))"
  by (cases "m s"; cases "fst (m s)") (auto simp: act_bind_def act_match_def act_err_def)

lemma never_commits_rules:
  "never_commits (act_ok a)"
  "(\<And>x. e \<noteq> CommitGeneration x) \<Longrightarrow> never_commits (act_err e)"
  "never_commits m \<Longrightarrow> (\<And>a. never_commits (f a)) \<Longrightarrow> never_commits (act_bind m f)"
  "never_commits m \<Longrightarrow> never_commits m' \<Longrightarrow> never_commits (if b then m else m')"
  "(\<And>e x. err e \<noteq> CommitGeneration x) \<Longrightarrow> never_commits (on_clone err k)"
  "never_commits (on_checkout c)"
  by (auto simp: never_commits_def act_bind_Inl_iff act_ok_def act_err_def on_clone_def on_checkout_def act_map_err_def
      act_match_def split: prod.splits sum.splits)

lemma never_commits_checkout: "never_commits (ensure_checkout ops env)"
proof -
  have "never_commits (act_lift (map_sum CreateGenerationFiles (\<lambda>d. d) r))" for r :: "GenerationsError + EnvDir option"
    by (cases r) (auto simp: never_commits_def act_lift_def)
  then have source: "never_commits (get_current_generation ops env)"
    unfolding get_current_generation_def Let_def by (intro never_commits_rules) simp_all
  have "never_commits (fill_checkout faults source)" for faults source
    by (auto simp: never_commits_def fill_checkout_def split: option.splits prod.splits CopyOutcome.splits)
  then have "never_commits (act_bind (get_current_generation ops env) (fill_checkout (ch_checkout ops)))"
    by (intro never_commits_rules source)
  then show ?thesis
    by (simp add: never_commits_def ensure_checkout_def split: option.splits)
qed

lemma never_commits_valid: "never_commits (require_valid ops env)"
proof -
  have "never_commits (checkout_valid ops env)"
    by (auto simp: never_commits_def checkout_valid_def checkout_matches_def split: prod.splits sum.splits if_splits)
  then show ?thesis
    unfolding require_valid_def by (intro never_commits_rules) simp_all
qed

lemma never_commits_change: "never_commits (change_checkout ops env validated m)"
  unfolding change_checkout_def start_change_def
  by (intro never_commits_rules never_commits_checkout never_commits_valid) simp

definition commit_fails ::
  "('g, 'u, 'out) ChangeOps \<Rightarrow> ManagedEnvironment \<Rightarrow> ('g, 'out) ManagedWorld \<Rightarrow> ('g, 'out) ManagedWorld \<Rightarrow> bool" where
  "commit_fails ops env w w' \<longleftrightarrow>
     (\<exists>e packages. managed_install ops env packages w = (Err (CommitGeneration e), w')) \<or>
     (\<exists>e specs. managed_uninstall ops env specs w = (Err (CommitGeneration e), w')) \<or>
     (\<exists>e contents. managed_edit ops env contents w = (Err (CommitGeneration e), w')) \<or>
     (\<exists>e groups. managed_upgrade ops env groups w = (Err (CommitGeneration e), w')) \<or>
     (\<exists>e names. managed_include_upgrade ops env names w = (Err (CommitGeneration e), w')) \<or>
     (\<exists>e contents. managed_edit_unsafe ops env contents w = (Err (CommitGeneration e), w'))"

lemma record_change_fails:
  assumes "works_on view hist fg local remote ops env" and "sound view hist fg local remote (mw_git w)"
    and "kind \<noteq> SwitchGeneration" and "record_change ops env tempdir kind w = (Err (CommitGeneration e), w')"
  shows "view (mw_git w') = view (mw_git w) \<and> mw_lock_file w' = mw_lock_file w \<and> mw_core w' = mw_core w"
proof -
  obtain h where h: "bm_get (heads (view (mw_git w))) local = Some h" "good hist local remote (view (mw_git w))"
    by (rule sound_head [OF assms(2)])
  let ?opts = "\<lparr> ago_author = ch_author ops, ago_hostname = ch_hostname ops, ago_argv = ch_argv ops,
      ago_timestamp = ch_now ops, ago_kind = kind \<rparr>"
  have "\<not> (\<exists>s. change_lock_pointer ops env s = (Err (CommitGeneration e), w'))"
    by (auto simp: change_lock_pointer_def act_map_err_def act_match_def act_err_def act_ok_def split: prod.splits sum.splits)
  then obtain x g where g: "write_generation fg (ch_generation ops) ?opts local tempdir (ew_env (mw_core w)) (mw_git w) = (Err x, g)"
    and w': "w' = w\<lparr> mw_git := g \<rparr>"
    using assms(4) by (auto simp: record_change_def works_onD(1,5) [OF assms(1)] act_bind_Inl_iff on_clone_def
        act_map_err_def act_match_def act_zoom_def act_ok_def act_err_def split: prod.splits sum.splits)
  have "ago_kind ?opts \<noteq> SwitchGeneration"
    using assms(3) by simp
  from write_generation_outcome [OF works_onD(2,3) [OF assms(1)] h(2,1) this g] show ?thesis
    using w' by auto
qed

lemma change_fails:
  assumes "works_on view hist fg local remote ops env" and "sound view hist fg local remote (mw_git w)"
    and "act_bind (change_checkout ops env validated m) (\<lambda>(tempdir, result). f tempdir result) w = (Err (CommitGeneration e), w')"
    and "\<And>tempdir result w1. f tempdir result w1 = (Err (CommitGeneration e), w') \<Longrightarrow>
      \<exists>kind. kind \<noteq> SwitchGeneration \<and> record_change ops env tempdir kind w1 = (Err (CommitGeneration e), w')"
  shows "view (mw_git w') = view (mw_git w) \<and> mw_lock_file w' = mw_lock_file w"
proof -
  obtain tempdir result w1 where w1: "change_checkout ops env validated m w = (Ok (tempdir, result), w1)"
    and "f tempdir result w1 = (Err (CommitGeneration e), w')"
    using assms(3) never_commits_change [of ops env validated m] by (auto simp: act_bind_Inl_iff never_commits_def)
  then obtain kind where kind: "kind \<noteq> SwitchGeneration" "record_change ops env tempdir kind w1 = (Err (CommitGeneration e), w')"
    using assms(4) by blast
  have "reads_only view hist fg local remote w w1"
    by (rule preserves_step [OF change_checkout_reads [OF assms(1)] w1])
  then have reads: "view (mw_git w1) = view (mw_git w)" "mw_lock_file w1 = mw_lock_file w"
    using sound_stored [OF assms(2)] by (simp_all add: reads_only_def)
  then have "sound view hist fg local remote (mw_git w1)"
    using assms(2) by (simp add: sound_def)
  from record_change_fails [OF assms(1) this kind] show ?thesis
    using reads by simp
qed

end
