(* ===== verification/Managed_Sync.thy ===== *)
theory Managed_Sync
  imports Managed_Changes
begin

text \<open>
  What the changes of a managed environment achieve: every generation is kept, a recorded change
  leaves the checkout, the current generation and the lock in agreement, switching restores the
  files of a generation, and a change whose commit failed leaves a checkout out of sync.
\<close>

section \<open>Switching\<close>

lemma on_clone_Ok: "on_clone err m w = (Ok x, w') \<longleftrightarrow> (\<exists>g. m (mw_git w) = (Ok x, g) \<and> w' = w\<lparr> mw_git := g \<rparr>)"
  by (cases "m (mw_git w)") (auto simp: on_clone_def act_map_err_Inr_iff act_zoom_def)

lemma current_dir: "current_is files n dir \<Longrightarrow> current_generation_dir files = Ok dir"
  by (auto simp: current_is_def manifest_contents_def current_generation_dir_def result_simps split: if_splits)

lemma generations_of_same: "view (mw_git w') = view (mw_git w) \<Longrightarrow> generations_of view fg local w' = generations_of view fg local w"
  by (simp add: generations_of_def branch_head_def)

lemma locked_to_same:
  "view (mw_git w') = view (mw_git w) \<Longrightarrow> mw_lock_file w' = mw_lock_file w \<Longrightarrow> locked_to view local remote w' = locked_to view local remote w"
  by (simp only: locked_to_def branch_head_def)

lemma reads_same:
  assumes "preserves (reads_only view hist fg local remote) m" and "sound view hist fg local remote (mw_git w)" and "m w = (r, w')"
  shows "view (mw_git w') = view (mw_git w)" "mw_lock_file w' = mw_lock_file w" "sound view hist fg local remote (mw_git w')"
proof -
  have "reads_only view hist fg local remote w w'"
    using assms(1,3) by (rule preserves_step)
  then show *: "view (mw_git w') = view (mw_git w)" "mw_lock_file w' = mw_lock_file w"
    using sound_stored [OF assms(2)] by (simp_all add: reads_only_def)
  then show "sound view hist fg local remote (mw_git w')"
    using assms(2) by (simp only: sound_def)
qed

lemma map_sum_Ok: "map_sum f g r = Ok y \<Longrightarrow> (\<And>x. r = Ok x \<Longrightarrow> y = g x \<Longrightarrow> P) \<Longrightarrow> P"
  by (cases r) simp_all

lemma get_current_generation_Ok:
  assumes "works_on view hist fg local remote ops env" and "sound view hist fg local remote (mw_git w)"
    and "get_current_generation ops env w = (Ok source, w')"
  shows "mw_core w' = mw_core w \<and> current_generation_dir (generations_of view fg local w) = Ok source"
proof -
  obtain tempdir g files where g: "writable_generations fg local (mw_git w) = (Ok tempdir, g)"
    and files: "on_clone CreateGenerationFiles (branch_files fg local) (w\<lparr> mw_git := g \<rparr>) = (Ok files, w')"
    and source: "current_generation_dir files = Ok source"
    using assms(3) by (auto simp: get_current_generation_def works_onD(1,5) [OF assms(1)] act_bind_Inr_iff on_clone_Ok act_lift_def
        split: sum.splits elim!: map_sum_Ok)
  have view: "view g = view (mw_git w)"
    using writable_view [OF works_onD(3) [OF assms(1)], of local "mw_git w"] g by simp
  then have "sound view hist fg local remote g"
    using assms(2) by (simp only: sound_def)
  from branch_files_sound [OF works_onD(2) [OF assms(1)] this] view source files show ?thesis
    by (auto simp: on_clone_Ok generations_of_def branch_head_def)
qed

lemma fill_checkout_Ok:
  assumes "fill_checkout faults (Some dir) w = (Ok (), w')" and "bm_inv dir"
  shows "w' = w\<lparr> mw_core := (mw_core w)\<lparr> ew_env := Some dir \<rparr> \<rparr>"
proof -
  obtain copied where "copy_dir_recursive (co_copy faults) True (Some dir) (Some []) = (CopyOk, copied)"
    and "w' = w\<lparr> mw_core := (mw_core w)\<lparr> ew_env := copied \<rparr> \<rparr>"
    using assms(1) by (auto simp: fill_checkout_def split: option.splits prod.splits CopyOutcome.splits)
  then show ?thesis
    using copy_complete [OF _ assms(2)] by blast
qed

lemma reset_checkout_Ok:
  assumes "works_on view hist fg local remote ops env" and "sound view hist fg local remote (mw_git w)"
    and "current_is (generations_of view fg local w) n (Some dir)" and "bm_inv dir" and "reset_checkout ops env w = (Ok (), w')"
  shows "ew_env (mw_core w') = Some dir"
proof -
  obtain source w1 where source: "get_current_generation ops env w = (Ok source, w1)"
    and fill: "fill_checkout (ch_checkout ops) source (w1\<lparr> mw_core := (mw_core w1)\<lparr> ew_env := None \<rparr> \<rparr>) = (Ok (), w')"
    using assms(5) by (auto simp: reset_checkout_def act_bind_Inr_iff split: option.splits)
  have "source = Some dir"
    using get_current_generation_Ok [OF assms(1,2) source] current_dir [OF assms(3)] by simp
  then show ?thesis
    using fill_checkout_Ok [OF _ assms(4)] fill by fastforce
qed

lemma managed_build_Ok:
  assumes "managed_build ops env w = (Ok out, w')" and "ew_env (mw_core w) = Some dir"
  shows "build_dir (ch_backend ops) (ch_docs ops) (Some dir) = Ok out \<and> w' = w\<lparr> mw_core := (mw_core w)\<lparr> ew_links := Some out \<rparr> \<rparr>"
  using assms by (auto simp: managed_build_def ensure_checkout_def act_bind_Inr_iff build_checkout_def on_checkout_def
      act_map_err_Inr_iff act_zoom_def split: option.splits sum.splits prod.splits)

lemma write_current_generation_Ok:
  assumes "works_on view hist fg local remote ops env" and "sound view hist fg local remote g"
    and "write_current_generation fg faults opts local g = (Ok (), g')"
    and "manifest_contents (sgo_next opts) (fg_tree fg (branch_head view local g)) = Ok dir"
  shows "sound view hist fg local remote g' \<and>
    agm_total (gr_metadata (fg_tree fg (branch_head view local g'))) = agm_total (gr_metadata (fg_tree fg (branch_head view local g))) \<and>
    keeps_files (fg_tree fg (branch_head view local g)) (fg_tree fg (branch_head view local g')) \<and>
    current_is (fg_tree fg (branch_head view local g')) (sgo_next opts) dir"
proof -
  obtain h where h: "bm_get (heads (view g)) local = Some h" "branch_head view local g = h" "generations_ok (fg_tree fg h)"
      "good hist local remote (view g)"
    by (rule sound_head [OF assms(2)])
  have pos: "sgo_next opts \<noteq> 0"
    using recorded_generation [OF h(3)] assms(4) h(2) by fastforce
  have keeps: "keeps_generations view hist fg local remote g g'"
    using write_current_generation_keeps [OF works_onD(2,3) [OF assms(1)]] assms(3) by (rule preserves_step)
  obtain x files' where files': "published view hist fg local h files' g g'"
    "switch_generation opts (gr_metadata (fg_tree fg h)) = (Ok x, gr_metadata files')"
    using write_current_generation_outcome [OF works_onD(2,3) [OF assms(1)] h(4,1) assms(3)] by auto
  have recorded: "records_files files' (fg_tree fg (branch_head view local g'))"
    by (rule publish_recorded [OF files'(1) h(4)])
  have "agm_inv (gr_metadata (fg_tree fg h))"
    using h(3) by (simp add: generations_ok_def)
  then have "agm_inv (gr_metadata files')"
    by (rule switch_generation_inv [OF _ files'(2) pos])
  then have "\<not> zeroed (gr_metadata (fg_tree fg (branch_head view local g')))"
    using recorded agm_inv_not_zeroed by (simp add: records_files_def)
  note kept = keeps_sound [OF keeps assms(2) this]
  show ?thesis
    using recorded switch_generation_total [OF files'(2)] kept assms(4) h(2)
    by (simp add: records_files_def current_is_def keeps_files_def)
qed

section \<open>After a failed commit\<close>

lemma record_change_core: "record_change ops env tempdir kind w = (r, w') \<Longrightarrow> mw_core w' = mw_core w"
  by (auto simp: record_change_def on_clone_def change_lock_pointer_def action_defs act_zoom_def
      split: prod.splits sum.splits)

text \<open>A checkout whose lockfile is not the one of the current generation.\<close>

lemma out_of_sync:
  assumes "works_on view hist fg local remote ops env" and "sound view hist fg local remote (mw_git w)"
    and "current_is (generations_of view fg local w) n (Some dir)"
    and "existing_lockfile_contents (ew_env (mw_core w)) \<noteq> existing_lockfile_contents (Some dir)"
  shows "require_valid ops env w = (Err (ChangeManaged CheckoutOutOfSync), w)"
proof -
  have "checkout_matches (ch_docs ops) (ew_env (mw_core w)) (Ok (generations_of view fg local w)) = Ok False"
    using current_file(2) [OF assms(3)] assms(4)
    by (cases "read_file LOCKFILE_FILENAME (Some dir)") (simp_all add: checkout_matches_def existing_lockfile_contents_def)
  then have "checkout_valid ops env w = (Ok False, w)"
    using checkout_valid_eq [OF assms(1,2)] by simp
  then show ?thesis
    unfolding require_valid_def by (subst act_bind_Inr) (assumption, simp add: act_err_def)
qed

text \<open>What such a checkout blocks, when the temporary clone can be made.\<close>

lemma out_of_sync_blocks:
  assumes "works_on view hist fg local remote ops env" and "sound view hist fg local remote (mw_git w)"
    and "current_is (generations_of view fg local w) n (Some dir)" and "ew_env (mw_core w) = Some changed"
    and "existing_lockfile_contents (Some changed) \<noteq> existing_lockfile_contents (Some dir)"
    and "writable_generations fg local (mw_git w) = (Ok tempdir, g)"
  shows "fst (act_bind (start_change ops env) (\<lambda>tempdir. act_bind (require_valid ops env) (f tempdir)) w)
      = Err (ChangeManaged CheckoutOutOfSync)"
    and "fst (act_bind (ensure_checkout ops env) (\<lambda>_. act_bind (require_valid ops env) f') w) = Err (ChangeManaged CheckoutOutOfSync)"
proof -
  have ensure: "ensure_checkout ops env w' = (Ok (), w')" if "mw_core w' = mw_core w" for w'
    using that assms(4) by (simp add: ensure_checkout_def)
  let ?w = "w\<lparr> mw_git := g \<rparr>"
  have start: "start_change ops env w = (Ok tempdir, ?w)"
    using assms(6) by (simp add: start_change_def works_onD(1,5) [OF assms(1)] on_clone_Ok act_bind_Inr_iff ensure act_ok_def)
  note same = reads_same [OF start_change_reads [OF assms(1)] assms(2) start]
  have invalid: "require_valid ops env ?w = (Err (ChangeManaged CheckoutOutOfSync), ?w)"
    using out_of_sync [OF assms(1) same(3), of n dir] generations_of_same [of view ?w w fg local] same(1) assms(3-5) by simp
  show "fst (act_bind (start_change ops env) (\<lambda>tempdir. act_bind (require_valid ops env) (f tempdir)) w)
      = Err (ChangeManaged CheckoutOutOfSync)"
    by (simp add: act_bind_Inr [of "start_change ops env", OF start] act_bind_Inl [of "require_valid ops env", OF invalid])
  show "fst (act_bind (ensure_checkout ops env) (\<lambda>_. act_bind (require_valid ops env) f') w) = Err (ChangeManaged CheckoutOutOfSync)"
    using out_of_sync [OF assms(1-3)] assms(4,5)
    by (simp add: act_bind_Inr [of "ensure_checkout ops env", OF ensure [OF refl]] act_bind_Inl [of "require_valid ops env"])
qed

lemma guarded_fails:
  "act_bind (guard_immutable env) f w = (Err (CommitGeneration e), w') \<Longrightarrow> f () w = (Err (CommitGeneration e), w')"
  by (cases "me_generation env") (auto simp: guard_immutable_def act_bind_def act_match_def act_ok_def act_err_def)

lemma commit_fails_same:
  assumes "works_on view hist fg local remote ops env" and "sound view hist fg local remote (mw_git w)"
    and "commit_fails ops env w w'"
  shows "view (mw_git w') = view (mw_git w) \<and> mw_lock_file w' = mw_lock_file w"
proof -
  note fails = change_fails [OF assms(1,2)]
  from assms(3) show ?thesis
    unfolding commit_fails_def managed_install_def managed_uninstall_def managed_edit_def managed_upgrade_def
      managed_include_upgrade_def managed_edit_unsafe_def act_bind_change
    by (elim disjE exE)
      (drule guarded_fails | erule fails | fastforce simp: act_bind_Inl_iff act_ok_def split: if_splits EditResult.splits)+
qed

section \<open>An environment with one copy\<close>

text \<open>
  The commit \<open>a\<close> holds the given old generations. In a temporary clone of it, new ones can be pushed as
  the commit \<open>b\<close>; without new ones the commit fails.
\<close>

definition demo_clone :: "gen_files option \<Rightarrow> string \<Rightarrow> gen_files \<Rightarrow> Repo git_exec" where
  "demo_clone new branch files args r =
     (let refused = (Ok (Some 1, [], ''refused''), r)
      in if new = None \<and> hd args = ''commit'' then refused
         else if hd args = ''push''
         then if new = Some files \<and> bm_get (heads r) branch = Some (demo_hash (CHR ''a''))
              then (Ok (Some 0, [], []), committed_to branch (demo_hash (CHR ''b'')) r)
              else refused
         else (Ok (Some 0, [], []), r))"

definition demo_fg :: "gen_files \<Rightarrow> gen_files option \<Rightarrow> Repo FloxmetaGit" where
  "demo_fg old new = \<lparr> fg_exec = (\<lambda>args r. if hd args = ''clone'' then (Ok (Some 0, [], []), r) else small_git demo_hist args r),
     fg_exec_in = demo_clone new,
     fg_tree = (\<lambda>c. if c = demo_hash (CHR ''b'') then (case new of Some files \<Rightarrow> files | None \<Rightarrow> old) else old),
     fg_path = ''/meta'', fg_tempdir = Ok ''/tmp/clone'' \<rparr>"

lemma demo_fg_git: "git_documented (fg_exec (demo_fg old new)) id demo_hist"
  using demo_git unfolding git_documented_def documents_reads_def documents_branches_def documents_remote_def
  by (simp add: demo_fg_def answers_def succeeds_def fails_def)

definition recordable :: "gen_files \<Rightarrow> bool" where
  "recordable files \<longleftrightarrow> agm_total (gr_metadata files) < usize_max \<and> bm_inv (gr_files files) \<and>
     (\<forall>n d. bm_get (gr_files files) n = Some d \<longrightarrow> git_tracks d)"

lemma demo_publishes:
  assumes "publish (demo_fg old new) branch files staged g = (r, g')"
  shows "(r = Ok () \<longrightarrow> new = Some files \<and> bm_get (heads g) branch = Some (demo_hash (CHR ''a'')) \<and>
      g' = committed_to branch (demo_hash (CHR ''b'')) g) \<and> ((\<exists>e. r = Err e) \<longrightarrow> g' = g)"
proof -
  have "stage_each (fg_exec_in (demo_fg old new) branch files) paths g = (Ok (), g)" for paths
    by (induction paths) (simp_all add: git_add_def demo_fg_def demo_clone_def run_command_def action_defs)
  then show ?thesis
    using assms by (auto simp: publish_def git_commit_def git_push_def demo_fg_def demo_clone_def run_command_def action_defs
        Let_def split: if_splits)
qed

lemma demo_records:
  assumes "recordable old" and "case new of Some files \<Rightarrow> recordable files | None \<Rightarrow> True"
  shows "git_records id demo_hist (demo_fg old new)"
proof -
  have tree: "recordable (fg_tree (demo_fg old new) c)" for c
    using assms by (simp add: demo_fg_def split: option.splits)
  have commit: "hash_ok (demo_hash (CHR ''b''))"
    "demo_hist (demo_hash (CHR ''b'')) = insert (demo_hash (CHR ''b'')) (demo_hist (demo_hash (CHR ''a'')))"
    by (simp_all add: demo_hash_ok is_hex_def demo_hist_def)
  show ?thesis
    unfolding git_records_def
  proof (intro conjI allI impI)
    show "id (snd (fg_exec (demo_fg old new) (''clone'' # args) g)) = id g" for args g
      by (simp add: demo_fg_def)
    show "agm_total (gr_metadata (fg_tree (demo_fg old new) c)) < usize_max" "bm_inv (gr_files (fg_tree (demo_fg old new) c))"
      "bm_get (gr_files (fg_tree (demo_fg old new) c)) n = Some d \<Longrightarrow> git_tracks d" for c n d
      using tree [of c] by (simp_all add: recordable_def)
    fix g branch h files staged r g'
    assume head: "bm_get (heads (id g)) branch = Some h" and run: "publish (demo_fg old new) branch files staged g = (r, g')"
    note done_now = demo_publishes [OF run]
    show "case r of
        Inl _ \<Rightarrow> id g' = id g
      | Inr _ \<Rightarrow>
          (\<exists>c. hash_ok c \<and> demo_hist c = insert c (demo_hist h) \<and> gr_metadata (fg_tree (demo_fg old new) c) = gr_metadata files \<and>
             (\<forall>n d. bm_get (gr_files files) n = Some d \<longrightarrow> git_tracks d \<longrightarrow> bm_get (gr_files (fg_tree (demo_fg old new) c)) n = Some d) \<and>
             (\<forall>n. bm_get (gr_files files) n = None \<longrightarrow> bm_get (gr_files (fg_tree (demo_fg old new) c)) n = None) \<and>
             id g' = (id g)\<lparr> heads := bm_insert branch c (heads (id g)), commits := insert c (commits (id g)) \<rparr>)"
    proof (cases r)
      case (Inr u)
      then have new: "new = Some files" "h = demo_hash (CHR ''a'')" "g' = committed_to branch (demo_hash (CHR ''b'')) g"
        using done_now head by simp_all
      then have "fg_tree (demo_fg old new) (demo_hash (CHR ''b'')) = files"
        by (simp add: demo_fg_def)
      then show ?thesis
        using commit new Inr unfolding committed_to_def
        by (simp, intro exI [of _ "demo_hash (CHR ''b'')"]) simp
    qed (use done_now in simp)
  qed
qed

definition demo_change_ops :: "gen_files \<Rightarrow> gen_files option \<Rightarrow> (Repo, string, string) ChangeOps" where
  "demo_change_ops old new = \<lparr> ch_git = demo_fg old new, ch_api = demo_url, ch_walk = (\<lambda>_. []), ch_backend = demo_backend,
     ch_docs = demo_documents, ch_faults = no_faults,
     ch_checkout = \<lparr> co_create = None, co_copy = no_copy_faults, co_remove = None \<rparr>,
     ch_generation = \<lparr> gf_write_metadata = None, gf_copy = no_copy_faults \<rparr>,
     ch_author = ''me'', ch_hostname = ''host'', ch_argv = [''/bin/flox'', ''edit''], ch_now = 2 \<rparr>"

text \<open>The files before and after the first lock, and the generations before and after an edit.\<close>

abbreviation demo_unlocked :: EnvDir where
  "demo_unlocked \<equiv> demo_dir ''hello.pkg-path''"

abbreviation demo_locked_dir :: EnvDir where
  "demo_locked_dir \<equiv> committed demo_documents demo_mm demo_lockfile demo_unlocked"

definition demo_one_gen :: gen_files where
  "demo_one_gen = \<lparr> gr_metadata = snd (add_generation (demo_add 1) metadata_default), gr_files = [(1, Some demo_unlocked)],
     gr_log = [''created''] \<rparr>"

definition demo_two_gens :: gen_files where
  "demo_two_gens = snd (repo_add_generation (demo_add 2) (Some demo_locked_dir) demo_one_gen)"

lemma demo_works: "recordable old \<Longrightarrow> (case new of Some files \<Rightarrow> recordable files | None \<Rightarrow> True) \<Longrightarrow>
    works_on id demo_hist (demo_fg old new) ''myenv.1a2b3c4d'' ''myenv'' (demo_change_ops old new) demo_env"
  by (simp add: works_on_def demo_change_ops_def demo_fg_git demo_records demo_on_branches)

lemma demo_one: "gr_files demo_one_gen = [(1, Some demo_unlocked)]" "agm_total (gr_metadata demo_one_gen) = 1"
    "gr_metadata demo_one_gen = snd (add_generation (demo_add 1) metadata_default)" "current_gen (gr_metadata demo_one_gen) = Some 1"
  by (simp_all add: demo_one_gen_def add_generation_def demo_add_def metadata_default_def current_gen_def wrapping_add_def
      saturating_add_def usize_max_def Let_def)

lemma demo_two: "gr_files demo_two_gens = [(1, Some demo_unlocked), (2, Some demo_locked_dir)]" "gr_metadata demo_two_gens = demo_two"
  "repo_add_generation (demo_add 2) (Some demo_locked_dir) demo_one_gen = (Ok (), demo_two_gens)"
proof -
  have "ago_kind (demo_add 2) \<noteq> SwitchGeneration" "agm_total (gr_metadata demo_one_gen) < usize_max"
    using demo_one(2) by (simp_all add: demo_add_def usize_max_def)
  then obtain repo' where "repo_add_generation (demo_add 2) (Some demo_locked_dir) demo_one_gen = (Ok (), repo')"
      "gr_metadata repo' = snd (add_generation (demo_add 2) (gr_metadata demo_one_gen))"
      "gr_files repo' = bm_insert (agm_total (gr_metadata demo_one_gen) + 1) (Some demo_locked_dir) (gr_files demo_one_gen)"
    by (rule repo_add_generation_effect)
  then show "repo_add_generation (demo_add 2) (Some demo_locked_dir) demo_one_gen = (Ok (), demo_two_gens)"
    "gr_files demo_two_gens = [(1, Some demo_unlocked), (2, Some demo_locked_dir)]" "gr_metadata demo_two_gens = demo_two"
    using demo_one(2) [unfolded demo_one(3)] by (simp_all add: demo_two_gens_def demo_one(1,3) demo_two_def)
qed

lemma demo_dirs_tracked: "git_tracks (Some demo_unlocked)" "git_tracks (Some demo_locked_dir)"
  by (simp_all add: git_tracks_def demo_dir_def committed_def write_file_def LOCKFILE_FILENAME_def MANIFEST_FILENAME_def)

lemma demo_recordable: "recordable demo_one_gen" "recordable demo_two_gens"
  by (auto simp: recordable_def demo_one(1,2) demo_two usize_max_def demo_two_eq bm_inv_def demo_dirs_tracked split: if_splits)

lemma demo_one_not_zeroed: "\<not> zeroed (gr_metadata demo_one_gen)"
  by (simp add: zeroed_def demo_one(3) add_generation_def demo_add_def metadata_default_def Let_def wrapping_add_def usize_max_def)

lemma demo_generations_ok: "generations_ok demo_one_gen" "generations_ok demo_two_gens"
proof -
  have "metadata_step metadata_default (gr_metadata demo_one_gen)"
    unfolding demo_one(3) by (rule metadata_step.add) (simp_all add: demo_add_def metadata_default_def usize_max_def)
  then have "agm_inv (gr_metadata demo_one_gen)" "agm_inv (gr_metadata demo_two_gens)"
    using metadata_reachable_inv demo_one_not_zeroed demo_two_steps demo_two_not_zeroed unfolding demo_two by blast+
  then show "generations_ok demo_one_gen" "generations_ok demo_two_gens"
    by (simp_all add: generations_ok_def demo_one(1,2) demo_two demo_two_eq)
qed

definition demo_managed :: "EnvDir \<Rightarrow> (Repo, string) ManagedWorld" where
  "demo_managed dir = \<lparr> mw_git = demo_repo (CHR ''a'') (CHR ''a'') (Some (CHR ''a'')), mw_lock_file = None,
     mw_core = \<lparr> ew_env = Some dir, ew_backup = None, ew_links = None \<rparr> \<rparr>"

lemma demo_managed_git: "good demo_hist ''myenv.1a2b3c4d'' ''myenv'' (id (mw_git (demo_managed dir)))"
  "bm_get (heads (mw_git (demo_managed dir))) ''myenv.1a2b3c4d'' = Some (demo_hash (CHR ''a''))"
  "branch_head id ''myenv.1a2b3c4d'' (mw_git (demo_managed dir)) = demo_hash (CHR ''a'')"
  "generations_of id (demo_fg old new) ''myenv.1a2b3c4d'' (demo_managed dir) = old"
  using demo_good [of "CHR ''a''" "CHR ''a''" "Some (CHR ''a'')"] demo_branches(1) [of "CHR ''a''" "CHR ''a''" "Some (CHR ''a'')"]
  by (simp_all add: demo_managed_def demo_state_def branch_head_def generations_of_def demo_fg_def)

lemma demo_sound: "generations_ok old \<Longrightarrow> sound id demo_hist (demo_fg old new) ''myenv.1a2b3c4d'' ''myenv'' (mw_git (demo_managed dir))"
  using demo_managed_git(1,2) [of dir] by (simp add: sound_def demo_fg_def)

lemma demo_writable: "writable_generations (demo_fg old new) branch g = (Ok ''/tmp/clone'', g)"
  by (simp add: demo_fg_def writable_generations_def checkout_to_tempdir_def clone_branch_with_def run_command_def action_defs)

lemma demo_files: "branch_files (demo_fg old new) ''myenv.1a2b3c4d'' (mw_git (demo_managed dir)) = (Ok old, mw_git (demo_managed dir))"
  using branch_files_eq [OF demo_fg_git [of old new] demo_managed_git(1) [of dir], where h = "demo_hash (CHR ''a'')"]
    demo_managed_git(2) [of dir] by (simp add: demo_fg_def)

text \<open>An edit locks the environment, and its commit goes through or not.\<close>

abbreviation demo_edited :: "string EnvWorld" where
  "demo_edited \<equiv> \<lparr> ew_env = Some demo_locked_dir, ew_backup = None, ew_links = Some ''/nix/store/environment'' \<rparr>"

lemma demo_core_edit: "core_edit demo_backend demo_documents no_faults True ''hello.pkg-path''
    \<lparr> ew_env = Some demo_unlocked, ew_backup = None, ew_links = None \<rparr> =
  (Ok (EditChanged None demo_lockfile ''/nix/store/environment''), demo_edited)"
  by code_simp

lemma demo_copy: "copy_dir_recursive no_copy_faults True (Some demo_locked_dir) (Some []) = (CopyOk, Some demo_locked_dir)"
  by code_simp

abbreviation demo_write :: "gen_files option \<Rightarrow> Repo \<Rightarrow> (GenerationsTransactionError + unit) \<times> Repo" where
  "demo_write new \<equiv> write_generation (demo_fg demo_one_gen new) (ch_generation (demo_change_ops demo_one_gen new)) (demo_add 2)
     ''myenv.1a2b3c4d'' ''/tmp/clone'' (Some demo_locked_dir)"

lemma demo_write:
  "demo_write new (mw_git (demo_managed dir)) = publish (demo_fg demo_one_gen new) ''myenv.1a2b3c4d'' demo_two_gens
     [''/tmp/clone/2'', GENERATIONS_METADATA_FILE] (mw_git (demo_managed dir))"
proof -
  have files: "act_map_err GenerationsFailed (branch_files (demo_fg demo_one_gen new) ''myenv.1a2b3c4d'') (mw_git (demo_managed dir)) =
      (Ok demo_one_gen, mw_git (demo_managed dir))"
    by (rule act_map_err_Inr, rule demo_files)
  have number: "fst (fst (add_generation (demo_add 2) (gr_metadata demo_one_gen))) = 2"
    using demo_one(2) by (simp add: add_generation_def Let_def wrapping_add_def usize_max_def)
  have path: "''/tmp/clone'' @ ''/'' @ show_nat 2 = ''/tmp/clone/2''"
    by code_simp
  show ?thesis
    unfolding write_generation_def
    by (subst act_bind_Inr, rule files) (simp only: Let_def number path, simp add: demo_change_ops_def demo_one(1) demo_copy demo_two(3))
qed

lemma demo_commit_fails: "\<exists>e. demo_write None (mw_git (demo_managed dir)) = (Err e, mw_git (demo_managed dir))"
  unfolding demo_write
  by (simp add: publish_def demo_fg_def demo_clone_def git_commit_def git_add_def run_command_def action_defs Let_def)

lemma demo_commits:
  "demo_write (Some demo_two_gens) (mw_git (demo_managed dir)) =
     (Ok (), committed_to ''myenv.1a2b3c4d'' (demo_hash (CHR ''b'')) (mw_git (demo_managed dir)))"
  unfolding demo_write
  using demo_managed_git(2)
  by (simp add: publish_def demo_fg_def demo_clone_def git_commit_def git_add_def git_push_def run_command_def action_defs Let_def)

text \<open>The edit up to its record.\<close>

lemma demo_edit_run:
  "managed_edit (demo_change_ops demo_one_gen new) demo_env ''hello.pkg-path'' (demo_managed demo_unlocked) =
     act_bind (record_change (demo_change_ops demo_one_gen new) demo_env ''/tmp/clone'' Edit)
       (\<lambda>_. act_ok (EditChanged None demo_lockfile ''/nix/store/environment'')) ((demo_managed demo_unlocked)\<lparr> mw_core := demo_edited \<rparr>)"
proof -
  let ?ops = "demo_change_ops demo_one_gen new" and ?w = "demo_managed demo_unlocked"
  have guard: "guard_immutable demo_env ?w = (Ok (), ?w)"
    by (simp add: guarded) (simp add: demo_env_def)
  have start: "start_change ?ops demo_env ?w = (Ok ''/tmp/clone'', ?w)"
    by (simp add: start_change_def act_bind_Inr_iff on_clone_Ok ensure_checkout_def act_ok_def)
       (simp add: demo_change_ops_def demo_writable demo_managed_def)
  have edit: "on_checkout (core_edit (ch_backend ?ops) (ch_docs ?ops) (ch_faults ?ops) True ''hello.pkg-path'') ?w =
      (Ok (EditChanged None demo_lockfile ''/nix/store/environment''), ?w\<lparr> mw_core := demo_edited \<rparr>)"
    by (simp add: on_checkout_def act_map_err_Inr_iff act_zoom_def demo_change_ops_def)
       (simp add: demo_managed_def demo_core_edit)
  show ?thesis
    unfolding managed_edit_def
    by (subst act_bind_Inr, rule guard, subst act_bind_Inr, rule start, subst act_bind_Inr, rule edit) simp
qed

lemma demo_record:
  "record_change (demo_change_ops demo_one_gen new) demo_env ''/tmp/clone'' Edit ((demo_managed demo_unlocked)\<lparr> mw_core := demo_edited \<rparr>) =
     act_bind (on_clone CommitGeneration (demo_write new)) (\<lambda>_. change_lock_pointer (demo_change_ops demo_one_gen new) demo_env)
       ((demo_managed demo_unlocked)\<lparr> mw_core := demo_edited \<rparr>)"
  by (simp add: record_change_def) (simp add: demo_change_ops_def demo_add_def demo_env_def demo_fb_def)

lemma demo_edit_fails:
  "\<exists>e. managed_edit (demo_change_ops demo_one_gen None) demo_env ''hello.pkg-path'' (demo_managed demo_unlocked) =
     (Err (CommitGeneration e), (demo_managed demo_unlocked)\<lparr> mw_core := demo_edited \<rparr>)"
proof -
  obtain e where "demo_write None (mw_git (demo_managed demo_unlocked)) = (Err e, mw_git (demo_managed demo_unlocked))"
    using demo_commit_fails by blast
  then have "on_clone CommitGeneration (demo_write None) ((demo_managed demo_unlocked)\<lparr> mw_core := demo_edited \<rparr>) =
      (Err (CommitGeneration e), (demo_managed demo_unlocked)\<lparr> mw_core := demo_edited \<rparr>)"
    by (simp add: on_clone_def act_map_err_def act_match_def act_zoom_def act_err_def)
  then show ?thesis
    unfolding demo_edit_run by (intro exI [of _ e]) (simp add: act_bind_Inl_iff demo_record)
qed

abbreviation demo_after :: Repo where
  "demo_after \<equiv> committed_to ''myenv.1a2b3c4d'' (demo_hash (CHR ''b'')) (demo_repo (CHR ''a'') (CHR ''a'') (Some (CHR ''a'')))"

lemma demo_after: "good demo_hist ''myenv.1a2b3c4d'' ''myenv'' (id demo_after)"
  "bm_get (heads (id demo_after)) ''myenv.1a2b3c4d'' = Some (demo_hash (CHR ''b''))"
  "bm_get (heads (id demo_after)) ''myenv'' = Some (demo_hash (CHR ''a''))"
proof -
  have "hash_ok (demo_hash (CHR ''b''))"
    "demo_hist (demo_hash (CHR ''b'')) = insert (demo_hash (CHR ''b'')) (demo_hist (demo_hash (CHR ''a'')))"
    by (simp_all add: demo_hash_ok is_hex_def demo_hist_def)
  then show "good demo_hist ''myenv.1a2b3c4d'' ''myenv'' (id demo_after)"
    using committed_to_good [of demo_hist "''myenv.1a2b3c4d''" "''myenv''" "mw_git (demo_managed demo_unlocked)" "demo_hash (CHR ''a'')"]
      demo_managed_git(1,2) [of demo_unlocked] by (simp add: demo_managed_def)
qed (simp_all add: committed_to_def demo_repo_def)

lemma demo_files_after: "branch_files (demo_fg old (Some new)) ''myenv.1a2b3c4d'' demo_after = (Ok new, demo_after)"
proof -
  have "fg_tree (demo_fg old (Some new)) (demo_hash (CHR ''b'')) = new"
    by (simp add: demo_fg_def)
  with branch_files_eq [where view = id and g = demo_after, OF demo_fg_git [of old "Some new"] demo_after(1,2)] show ?thesis
    by (simp only:)
qed

lemma demo_lock_pointer:
  assumes "mw_git w = demo_after"
  obtains w' where "change_lock_pointer (demo_change_ops old new) demo_env w = (Ok (), w')" "mw_core w' = mw_core w" "mw_git w' = demo_after"
proof -
  have "git_documented (fg_exec (ch_git (demo_change_ops old new))) id demo_hist"
    by (simp add: demo_change_ops_def demo_fg_git)
  from change_lock_pointer_eq [OF this _ demo_on_branches, of w] demo_after assms that show thesis
    by simp
qed

lemma demo_edit_succeeds:
  "\<exists>w'. managed_edit (demo_change_ops demo_one_gen (Some demo_two_gens)) demo_env ''hello.pkg-path'' (demo_managed demo_unlocked) =
     (Ok (EditChanged None demo_lockfile ''/nix/store/environment''), w') \<and> mw_core w' = demo_edited \<and>
     mw_git w' = demo_after"
proof -
  let ?w = "(demo_managed demo_unlocked)\<lparr> mw_core := demo_edited, mw_git := demo_after \<rparr>"
  have written: "on_clone CommitGeneration (demo_write (Some demo_two_gens)) ((demo_managed demo_unlocked)\<lparr> mw_core := demo_edited \<rparr>) = (Ok (), ?w)"
    using demo_commits [of demo_unlocked] by (simp add: on_clone_Ok) (simp add: demo_managed_def)
  obtain w' where "change_lock_pointer (demo_change_ops demo_one_gen (Some demo_two_gens)) demo_env ?w = (Ok (), w')" "mw_core w' = demo_edited"
      "mw_git w' = demo_after"
    by (rule demo_lock_pointer [of ?w demo_one_gen "Some demo_two_gens"]) simp_all
  then show ?thesis
    unfolding demo_edit_run by (simp add: act_bind_Inr_iff demo_record written act_ok_def)
qed

text \<open>Going back from a generation without a lockfile to a locked one.\<close>

definition demo_swapped :: gen_files where
  "demo_swapped = \<lparr> gr_metadata = demo_two, gr_files = [(1, Some demo_locked_dir), (2, Some demo_unlocked)], gr_log = [''created''] \<rparr>"

definition demo_back :: gen_files where
  "demo_back = snd (set_current_generation \<lparr> sgo_author = ''me'', sgo_hostname = ''host'', sgo_argv = [''/bin/flox'', ''edit''],
     sgo_timestamp = 2, sgo_next = 1 \<rparr> demo_swapped)"

lemma demo_swapped_ok: "recordable demo_swapped" "generations_ok demo_swapped"
  using metadata_reachable_inv [OF demo_two_steps demo_two_not_zeroed]
  by (auto simp: recordable_def generations_ok_def demo_swapped_def usize_max_def demo_two_eq bm_inv_def demo_dirs_tracked split: if_splits)

lemma demo_switched:
  obtains m where "set_current_generation \<lparr> sgo_author = ''me'', sgo_hostname = ''host'', sgo_argv = [''/bin/flox'', ''edit''],
     sgo_timestamp = 2, sgo_next = 1 \<rparr> demo_swapped = (Ok (), demo_back)"
    and "gr_metadata demo_back = m" and "agm_total m = 2" and "gr_files demo_back = gr_files demo_swapped"
  by (simp add: demo_back_def set_current_generation_def switch_generation_def demo_swapped_def demo_two_eq current_gen_def Let_def
      summary_def split: option.splits)

lemma demo_recordable_back: "recordable demo_back"
  by (rule demo_switched) (use demo_swapped_ok(1) in \<open>simp add: recordable_def usize_max_def\<close>)

lemma demo_swapped_works: "works_on id demo_hist (demo_fg demo_swapped (Some demo_back)) ''myenv.1a2b3c4d'' ''myenv''
    (demo_change_ops demo_swapped (Some demo_back)) demo_env"
  by (rule demo_works) (simp_all add: demo_swapped_ok demo_recordable_back)

lemma demo_toml_prints: "toml_prints demo_documents"
  by (simp add: toml_prints_def demo_documents_def)

lemma demo_manifest: "manifest_without_migrating demo_documents (Some demo_unlocked) = Ok demo_mm"
  "manifest_without_migrating demo_documents (Some demo_locked_dir) = Ok demo_mm"
  by code_simp+

lemma demo_current_two: "current_is demo_swapped 2 (Some demo_unlocked)" "manifest_contents 1 demo_swapped = Ok (Some demo_locked_dir)"
proof -
  have "agm_inv demo_two"
    using metadata_reachable_inv [OF demo_two_steps demo_two_not_zeroed] .
  then have "manifest_contents n demo_swapped = (if 1 \<le> n \<and> n \<le> 2 then ok_or ShowManifest (bm_get (gr_files demo_swapped) n)
      else Err (GenerationNotFound n))" for n
    using generation_in_table [of demo_swapped n] by (simp add: demo_swapped_def demo_two_eq)
  then show "current_is demo_swapped 2 (Some demo_unlocked)" "manifest_contents 1 demo_swapped = Ok (Some demo_locked_dir)"
    by (simp_all add: current_is_def) (simp_all add: demo_swapped_def demo_two_live)
qed

lemma demo_back_dir: "current_generation_dir demo_back = Ok (Some demo_locked_dir)"
  by (simp add: current_generation_dir_def demo_back_def set_current_generation_def switch_generation_def demo_swapped_def demo_two_eq
      current_gen_def Let_def summary_def split: option.splits)

lemma demo_switch_succeeds:
  "\<exists>w'. managed_switch_generation (demo_change_ops demo_swapped (Some demo_back)) demo_env 1 (demo_managed demo_unlocked) = (Ok (), w')"
proof -
  let ?ops = "demo_change_ops demo_swapped (Some demo_back)" and ?fg = "demo_fg demo_swapped (Some demo_back)"
  let ?local = "''myenv.1a2b3c4d''" and ?w = "demo_managed demo_unlocked"
  let ?opts = "\<lparr> sgo_author = ''me'', sgo_hostname = ''host'', sgo_argv = [''/bin/flox'', ''edit''], sgo_timestamp = 2, sgo_next = 1 \<rparr>"
  have ensure: "ensure_checkout ?ops demo_env ?w = (Ok (), ?w)"
    by (simp add: ensure_checkout_def demo_managed_def)
  have "checkout_valid ?ops demo_env ?w = (Ok True, ?w)"
    by (rule in_sync [OF demo_swapped_works demo_sound [OF demo_swapped_ok(2)], where n = 2 and mm = demo_mm and dir = demo_unlocked])
      (simp_all add: demo_managed_git demo_current_two demo_toml_prints demo_manifest demo_change_ops_def, simp add: demo_managed_def)
  then have valid: "require_valid ?ops demo_env ?w = (Ok (), ?w)"
    unfolding require_valid_def by (auto simp: act_bind_Inr_iff act_ok_def)
  have clone: "on_clone err (writable_generations ?fg branch) w = (Ok ''/tmp/clone'', w)" for err branch w
    by (simp add: on_clone_Ok demo_writable)
  have files: "act_map_err GenerationsFailed (branch_files ?fg ?local) (mw_git ?w) = (Ok demo_swapped, mw_git ?w)"
    by (rule act_map_err_Inr, rule demo_files)
  have switched: "set_current_generation ?opts demo_swapped = (Ok (), demo_back)"
    by (rule demo_switched)
  have head: "bm_get (heads (demo_repo (CHR ''a'') (CHR ''a'') (Some (CHR ''a'')))) ?local = Some (demo_hash (CHR ''a''))"
    by (simp add: demo_repo_def)
  have "write_current_generation ?fg (ch_generation ?ops) ?opts ?local (mw_git ?w) = (Ok (), demo_after)"
    unfolding write_current_generation_def
    by (subst act_bind_Inr, rule files) (simp add: switched [unfolded One_nat_def] head demo_change_ops_def demo_managed_def publish_def demo_fg_def demo_clone_def
        git_commit_def git_add_def git_push_def run_command_def action_defs Let_def)
  then have written: "on_clone CommitGeneration (write_current_generation ?fg (ch_generation ?ops) ?opts ?local) ?w =
      (Ok (), ?w\<lparr> mw_git := demo_after \<rparr>)"
    by (simp add: on_clone_Ok)
  obtain w5 where w5: "change_lock_pointer ?ops demo_env (?w\<lparr> mw_git := demo_after \<rparr>) = (Ok (), w5)"
      "mw_core w5 = mw_core ?w" "mw_git w5 = demo_after"
    by (rule demo_lock_pointer [of "?w\<lparr> mw_git := demo_after \<rparr>" demo_swapped "Some demo_back"]) simp_all
  note demo_files_after [of demo_swapped demo_back]
  then have source: "get_current_generation ?ops demo_env w5 = (Ok (Some demo_locked_dir), w5)"
    using w5(3) demo_back_dir by (simp add: get_current_generation_def act_bind_Inr_iff act_lift_def Let_def)
      (simp add: on_clone_Ok demo_change_ops_def demo_writable demo_env_def demo_fb_def)
  let ?w6 = "w5\<lparr> mw_core := (mw_core w5)\<lparr> ew_env := Some demo_locked_dir \<rparr> \<rparr>"
  have "ew_env (mw_core w5) = Some demo_unlocked"
    using w5(2) by (simp add: demo_managed_def)
  note checkout = this
  have reset: "reset_checkout ?ops demo_env w5 = (Ok (), ?w6)"
    unfolding reset_checkout_def
    by (subst act_bind_Inr, rule source) (simp add: checkout demo_change_ops_def fill_checkout_def demo_copy)
  obtain w7 where built: "managed_build ?ops demo_env ?w6 = (Ok ''/nix/store/environment'', w7)"
    by (simp add: managed_build_def act_bind_Inr_iff ensure_checkout_def build_checkout_def on_checkout_def act_map_err_Inr_iff act_zoom_def
        split: sum.splits) (simp add: demo_change_ops_def demo_build)
  have names: "fb_branch (me_branch demo_env) = ?local" "ch_git ?ops = ?fg"
    "\<lparr> sgo_author = ch_author ?ops, sgo_hostname = ch_hostname ?ops, sgo_argv = ch_argv ?ops, sgo_timestamp = ch_now ?ops, sgo_next = 1 \<rparr> = ?opts"
    by (simp_all add: demo_env_def demo_fb_def demo_change_ops_def)
  show ?thesis
    unfolding managed_switch_generation_def Let_def names
    by (subst act_bind_Inr, rule ensure, subst act_bind_Inr, rule valid, subst act_bind_Inr, rule clone, subst act_bind_Inr, rule written,
        subst act_bind_Inr, rule w5(1), subst act_bind_Inr, rule reset, subst act_bind_Inr, rule built) (simp add: act_ok_def)
qed

section \<open>Properties\<close>

text \<open>
  C35. However a managed environment is changed, and whatever fails on the way, no files of a
  generation are lost: the branch of the environment only advances, the directory of every generation
  keeps its files and FloxHub is left alone. The generations also stay consistent and readable, unless
  an event of the new history is a switch to generation 0, which the switch accepts and after which
  no generation can be read.
\<close>

theorem generations_are_kept:
  assumes "(managed_step view hist fg local remote api)\<^sup>*\<^sup>* w w'" and "sound view hist fg local remote (mw_git w)"
  shows "branch_head view local (mw_git w) \<in> hist (branch_head view local (mw_git w')) \<and>
    (\<forall>n dir. bm_get (gr_files (generations_of view fg local w)) n = Some dir \<longrightarrow>
       bm_get (gr_files (generations_of view fg local w')) n = Some dir) \<and>
    hub (view (mw_git w')) = hub (view (mw_git w)) \<and>
    (0 \<notin> hs_current ` set (agm_history (gr_metadata (generations_of view fg local w'))) \<longrightarrow>
       sound view hist fg local remote (mw_git w') \<and>
       (\<forall>n dir. manifest_contents n (generations_of view fg local w) = Ok dir \<longrightarrow>
          manifest_contents n (generations_of view fg local w') = Ok dir))"
proof -
  have kept: "keeps_generations view hist fg local remote (mw_git w) (mw_git w')"
    using managed_steps_keep [OF assms(1)] by (simp add: world_keeps_def)
  have "sound view hist fg local remote (mw_git w') \<and> keeps_files (generations_of view fg local w) (generations_of view fg local w')"
    if "0 \<notin> hs_current ` set (agm_history (gr_metadata (generations_of view fg local w')))"
    using keeps_sound [OF kept assms(2)] that by (simp add: zeroed_def generations_of_def)
  then show ?thesis
    using kept sound_stored [OF assms(2)]
    by (simp add: keeps_generations_def keeps_dirs_def keeps_files_def generations_of_def)
qed

lemma generations_are_kept_witness:
  "\<exists>w'. managed_edit (demo_change_ops demo_one_gen (Some demo_two_gens)) demo_env ''hello.pkg-path'' (demo_managed demo_unlocked) =
      (Ok (EditChanged None demo_lockfile ''/nix/store/environment''), w') \<and>
    bm_get (gr_files (generations_of id (demo_fg demo_one_gen (Some demo_two_gens)) ''myenv.1a2b3c4d'' w')) 1 = Some (Some demo_unlocked) \<and>
    manifest_contents 1 (generations_of id (demo_fg demo_one_gen (Some demo_two_gens)) ''myenv.1a2b3c4d'' w') = Ok (Some demo_unlocked)"
proof -
  let ?fg = "demo_fg demo_one_gen (Some demo_two_gens)" and ?local = "''myenv.1a2b3c4d''"
  let ?ops = "demo_change_ops demo_one_gen (Some demo_two_gens)" and ?w = "demo_managed demo_unlocked"
  obtain w' where run: "managed_edit ?ops demo_env ''hello.pkg-path'' ?w = (Ok (EditChanged None demo_lockfile ''/nix/store/environment''), w')"
    and git: "mw_git w' = demo_after"
    using demo_edit_succeeds by blast
  have "works_on id demo_hist ?fg ?local ''myenv'' ?ops demo_env"
    by (rule demo_works) (simp_all add: demo_recordable)
  then have "managed_step id demo_hist ?fg ?local ''myenv'' demo_url ?w (snd (managed_edit ?ops demo_env ''hello.pkg-path'' ?w))"
    by (rule managed_step.edit) (simp add: demo_change_ops_def)
  then have step: "managed_step id demo_hist ?fg ?local ''myenv'' demo_url ?w w'"
    using run by simp
  have "generations_of id ?fg ?local w' = demo_two_gens"
    using git demo_after(2) by (simp add: generations_of_def branch_head_def demo_fg_def)
  then have "0 \<notin> hs_current ` set (agm_history (gr_metadata (generations_of id ?fg ?local w')))"
    using demo_two_not_zeroed demo_two(2) by (simp add: zeroed_def)
  moreover have "manifest_contents 1 (generations_of id ?fg ?local ?w) = Ok (Some demo_unlocked)"
    using generation_in_table [of demo_one_gen 1] demo_generations_ok(1) demo_one(1,2) by (simp add: demo_managed_git generations_ok_def)
  moreover have "bm_get (gr_files (generations_of id ?fg ?local ?w)) 1 = Some (Some demo_unlocked)"
    using demo_one(1) by (simp add: demo_managed_git)
  ultimately show ?thesis
    using run generations_are_kept [OF r_into_rtranclp [of "managed_step id demo_hist ?fg ?local ''myenv'' demo_url", OF step]
        demo_sound [OF demo_generations_ok(1)]] by blast
qed

text \<open>
  C36. After a change that records a generation, the number of generations has grown by one, the
  current generation holds the files of the checkout, the lock names the heads of the branches, and
  the checkout counts as in sync, so that the next change is not refused.
\<close>

theorem recorded_change_in_sync:
  assumes "works_on view hist fg local remote ops env" and "sound view hist fg local remote (mw_git w)"
    and "records_generation ops env w w'" and "ew_env (mw_core w') = Some dir" and "bm_inv dir" and "git_tracks (Some dir)"
    and "toml_prints (ch_docs ops)" and "manifest_without_migrating (ch_docs ops) (Some dir) = Ok mm"
  shows "agm_total (gr_metadata (generations_of view fg local w')) = agm_total (gr_metadata (generations_of view fg local w)) + 1 \<and>
    current_is (generations_of view fg local w') (agm_total (gr_metadata (generations_of view fg local w')))  (Some dir) \<and>
    locked_to view local remote w' \<and> checkout_valid ops env w' = (Ok True, w')"
proof -
  obtain w1 tempdir kind where w1: "reads_only view hist fg local remote w w1" "kind \<noteq> SwitchGeneration"
    and recorded: "record_change ops env tempdir kind w1 = (Ok (), w')"
    using records_generation_end [OF assms(1,3)] by (auto simp: ends_with_record_def)
  have view: "view (mw_git w1) = view (mw_git w)"
    using w1(1) sound_stored [OF assms(2)] by (simp add: reads_only_def)
  then have sound: "sound view hist fg local remote (mw_git w1)"
    using assms(2) by (simp only: sound_def)
  have "ew_env (mw_core w1) = Some dir"
    using record_change_core [OF recorded] assms(4) by simp
  note done_now = record_change_Ok [OF assms(1) sound w1(2) recorded this assms(5,6)]
  then have "checkout_valid ops env w' = (Ok True, w')"
    using done_now by (intro in_sync [OF assms(1) _ assms(4) _ assms(7,8)]) blast+
  then show ?thesis
    using done_now generations_of_same [OF view, of fg local] by simp
qed

lemma recorded_change_in_sync_witness:
  "\<exists>w'. managed_edit (demo_change_ops demo_one_gen (Some demo_two_gens)) demo_env ''hello.pkg-path'' (demo_managed demo_unlocked) =
      (Ok (EditChanged None demo_lockfile ''/nix/store/environment''), w') \<and>
    current_is (generations_of id (demo_fg demo_one_gen (Some demo_two_gens)) ''myenv.1a2b3c4d'' w') 2 (Some demo_locked_dir) \<and>
    checkout_valid (demo_change_ops demo_one_gen (Some demo_two_gens)) demo_env w' = (Ok True, w')"
proof -
  let ?fg = "demo_fg demo_one_gen (Some demo_two_gens)" and ?local = "''myenv.1a2b3c4d''"
  let ?ops = "demo_change_ops demo_one_gen (Some demo_two_gens)" and ?w = "demo_managed demo_unlocked"
  obtain w' where run: "managed_edit ?ops demo_env ''hello.pkg-path'' ?w = (Ok (EditChanged None demo_lockfile ''/nix/store/environment''), w')"
    and core: "mw_core w' = demo_edited"
    using demo_edit_succeeds by blast
  have "works_on id demo_hist ?fg ?local ''myenv'' ?ops demo_env"
    by (rule demo_works) (simp_all add: demo_recordable)
  moreover have "records_generation ?ops demo_env ?w w'"
    using run unfolding records_generation_def by blast
  ultimately have "agm_total (gr_metadata (generations_of id ?fg ?local w')) = agm_total (gr_metadata (generations_of id ?fg ?local ?w)) + 1 \<and>
      current_is (generations_of id ?fg ?local w') (agm_total (gr_metadata (generations_of id ?fg ?local w'))) (Some demo_locked_dir) \<and>
      locked_to id ?local ''myenv'' w' \<and> checkout_valid ?ops demo_env w' = (Ok True, w')"
    using demo_sound [OF demo_generations_ok(1)] core demo_dirs_tracked(2) demo_toml_prints demo_manifest(2)
    by (intro recorded_change_in_sync [where mm = demo_mm]) (simp_all add: demo_change_ops_def)
  then show ?thesis
    using run demo_one(2) by (clarsimp simp: demo_managed_git(4) numeral_2_eq_2)
qed

text \<open>
  C37. Switching to a generation restores its files: the checkout holds exactly the files the
  generation was recorded with, it is the current generation and built, the lock names the heads of
  the branches, and no generation was added or lost.
\<close>

theorem switching_restores_generation:
  assumes "works_on view hist fg local remote ops env" and "sound view hist fg local remote (mw_git w)"
    and "manifest_contents n (generations_of view fg local w) = Ok (Some dir)" and "bm_inv dir"
    and "managed_switch_generation ops env n w = (Ok (), w')"
  shows "ew_env (mw_core w') = Some dir \<and> current_is (generations_of view fg local w') n (Some dir) \<and>
    Ok (the (ew_links (mw_core w'))) = build_dir (ch_backend ops) (ch_docs ops) (Some dir) \<and>
    locked_to view local remote w' \<and>
    agm_total (gr_metadata (generations_of view fg local w')) = agm_total (gr_metadata (generations_of view fg local w)) \<and>
    keeps_files (generations_of view fg local w) (generations_of view fg local w')"
proof -
  let ?opts = "\<lparr> sgo_author = ch_author ops, sgo_hostname = ch_hostname ops, sgo_argv = ch_argv ops,
      sgo_timestamp = ch_now ops, sgo_next = n \<rparr>"
  define prepare where "prepare = act_bind (ensure_checkout ops env) (\<lambda>_. act_bind (require_valid ops env) (\<lambda>_.
      on_clone WritableGenerations (writable_generations fg local)))"
  obtain tempdir w1 w2 w3 w4 out where w1: "prepare w = (Ok tempdir, w1)"
    and w2: "on_clone CommitGeneration (write_current_generation fg (ch_generation ops) ?opts local) w1 = (Ok (), w2)"
    and w3: "change_lock_pointer ops env w2 = (Ok (), w3)" and w4: "reset_checkout ops env w3 = (Ok (), w4)"
    and built: "managed_build ops env w4 = (Ok out, w')"
    using assms(5) by (auto simp: managed_switch_generation_def Let_def works_onD(1,5) [OF assms(1)] act_bind_Inr_iff act_ok_def prepare_def)
  have "preserves (reads_only view hist fg local remote) prepare"
    unfolding prepare_def by (intro reads.preserves_rules change_reads on_clone_reads assms(1))
      (simp add: writable_view [OF works_onD(3) [OF assms(1)]])
  note same1 = reads_same [OF this assms(2) w1]
  have "manifest_contents n (fg_tree fg (branch_head view local (mw_git w1))) = Ok (Some dir)"
    using assms(3) same1(1) by (simp add: generations_of_def branch_head_def)
  with w2 write_current_generation_Ok [OF assms(1) same1(3), of "ch_generation ops" ?opts _ "Some dir"]
  have switched: "sound view hist fg local remote (mw_git w2)"
    "agm_total (gr_metadata (generations_of view fg local w2)) = agm_total (gr_metadata (generations_of view fg local w1))"
    "keeps_files (generations_of view fg local w1) (generations_of view fg local w2)"
    "current_is (generations_of view fg local w2) n (Some dir)"
    by (auto simp: on_clone_Ok generations_of_def)
  note locked = lock_after [OF assms(1) switched(1) w3]
  then have g3: "generations_of view fg local w3 = generations_of view fg local w2"
    by (simp add: generations_of_def)
  have sound3: "sound view hist fg local remote (mw_git w3)"
    using switched(1) locked by simp
  have reset: "ew_env (mw_core w4) = Some dir"
    using switched(4) g3 by (intro reset_checkout_Ok [OF assms(1) sound3 _ assms(4) w4]) simp
  note same4 = reads_same [OF reset_checkout_reads [OF assms(1)] sound3 w4]
  have final_build: "w' = w4\<lparr> mw_core := (mw_core w4)\<lparr> ew_links := Some out \<rparr> \<rparr>" "build_dir (ch_backend ops) (ch_docs ops) (Some dir) = Ok out"
    using managed_build_Ok [OF built reset] by simp_all
  have "view (mw_git w') = view (mw_git w3)" "mw_lock_file w' = mw_lock_file w3"
    using same4 final_build(1) by simp_all
  note final = generations_of_same [OF this(1), of fg local] locked_to_same [OF this, of local remote]
  show ?thesis
    using final locked g3 switched reset final_build generations_of_same [OF same1(1), of fg local] by simp
qed

lemma switching_restores_generation_witness:
  "\<exists>w'. managed_switch_generation (demo_change_ops demo_swapped (Some demo_back)) demo_env 1 (demo_managed demo_unlocked) = (Ok (), w') \<and>
     ew_env (mw_core w') = Some demo_locked_dir"
proof -
  obtain w' where run: "managed_switch_generation (demo_change_ops demo_swapped (Some demo_back)) demo_env 1 (demo_managed demo_unlocked) = (Ok (), w')"
    using demo_switch_succeeds by blast
  have "manifest_contents 1 (generations_of id (demo_fg demo_swapped (Some demo_back)) ''myenv.1a2b3c4d'' (demo_managed demo_unlocked)) =
      Ok (Some demo_locked_dir)"
    using demo_current_two(2) by (simp add: demo_managed_git(4))
  from switching_restores_generation [OF demo_swapped_works demo_sound [OF demo_swapped_ok(2)] this _ run] show ?thesis
    using run by simp
qed

text \<open>
  C38. A change whose commit fails has changed the checkout but neither the generations nor the lock.
  When the lockfile of the checkout is then another one than that of the current generation, every
  later install, uninstall, upgrade and switch is refused as out of sync.
\<close>

theorem failed_commit_blocks_changes:
  assumes "works_on view hist fg local remote ops env" and "sound view hist fg local remote (mw_git w)"
    and "commit_fails ops env w w'" and "current_is (generations_of view fg local w) n (Some dir)"
    and "ew_env (mw_core w') = Some changed"
    and "existing_lockfile_contents (Some changed) \<noteq> existing_lockfile_contents (Some dir)"
    and "works_on view hist fg local remote later env" and "me_generation env = None"
    and "writable_generations fg local (mw_git w') = (Ok tempdir, g)"
  shows "generations_of view fg local w' = generations_of view fg local w \<and> mw_lock_file w' = mw_lock_file w \<and>
    fst (managed_install later env packages w') = Err (ChangeManaged CheckoutOutOfSync) \<and>
    fst (managed_uninstall later env specs w') = Err (ChangeManaged CheckoutOutOfSync) \<and>
    fst (managed_upgrade later env groups w') = Err (ChangeManaged CheckoutOutOfSync) \<and>
    fst (managed_include_upgrade later env names w') = Err (ChangeManaged CheckoutOutOfSync) \<and>
    fst (managed_switch_generation later env generation w') = Err (ChangeManaged CheckoutOutOfSync)"
proof -
  have same: "view (mw_git w') = view (mw_git w)" "mw_lock_file w' = mw_lock_file w"
    using commit_fails_same [OF assms(1-3)] by simp_all
  then have sound: "sound view hist fg local remote (mw_git w')"
    using assms(2) by (simp only: sound_def)
  have g: "generations_of view fg local w' = generations_of view fg local w"
    by (rule generations_of_same [OF same(1)])
  have current: "current_is (generations_of view fg local w') n (Some dir)"
    using assms(4) g by simp
  note blocks = out_of_sync_blocks [OF assms(7) sound current assms(5,6,9)]
  have unguarded: "act_bind (guard_immutable env) f w' = f () w'" for f :: "unit \<Rightarrow> ('a, 'c, 'x) change"
    by (rule act_bind_Inr) (simp add: guarded assms(8))
  show ?thesis
    unfolding managed_install_def managed_uninstall_def managed_upgrade_def managed_include_upgrade_def
      managed_switch_generation_def Let_def unguarded
    by (intro conjI g same(2) blocks)
qed

lemma failed_commit_blocks_changes_witness:
  "\<exists>e w'. managed_edit (demo_change_ops demo_one_gen None) demo_env ''hello.pkg-path'' (demo_managed demo_unlocked) = (Err (CommitGeneration e), w') \<and>
     fst (managed_uninstall (demo_change_ops demo_one_gen None) demo_env [] w') = Err (ChangeManaged CheckoutOutOfSync)"
proof -
  let ?fg = "demo_fg demo_one_gen None" and ?ops = "demo_change_ops demo_one_gen None" and ?w = "demo_managed demo_unlocked"
  let ?w' = "?w\<lparr> mw_core := demo_edited \<rparr>"
  obtain e where run: "managed_edit ?ops demo_env ''hello.pkg-path'' ?w = (Err (CommitGeneration e), ?w')"
    using demo_edit_fails by blast
  have works: "works_on id demo_hist ?fg ''myenv.1a2b3c4d'' ''myenv'' ?ops demo_env"
    by (rule demo_works) (simp_all add: demo_recordable)
  have failed: "commit_fails ?ops demo_env ?w ?w'"
    using run unfolding commit_fails_def by blast
  have "current_is demo_one_gen 1 (Some demo_unlocked)"
    using generation_in_table [of demo_one_gen 1] demo_generations_ok(1) demo_one(1,2,4) by (simp add: current_is_def generations_ok_def)
  then have current: "current_is (generations_of id ?fg ''myenv.1a2b3c4d'' ?w) 1 (Some demo_unlocked)"
    by (simp add: demo_managed_git(4))
  have differs: "existing_lockfile_contents (Some demo_locked_dir) \<noteq> existing_lockfile_contents (Some demo_unlocked)"
    by code_simp
  show ?thesis
    using run failed_commit_blocks_changes [OF works demo_sound [OF demo_generations_ok(1)] failed current _ differs works _ demo_writable]
    by (simp add: demo_env_def)
qed

end
