(* ===== verification/Registry.thy ===== *)
theory Registry
  imports Floxmeta
begin

text \<open>
  The registry of the environments of a user (\<open>flox-rust-sdk/src/models/env_registry.rs\<close>): which
  environments have existed at which \<open>.flox\<close> directory, and the garbage collection that forgets the
  directories that are gone and prunes their floxmeta branches. The registry file is its typed
  contents; what the file lock and the file operations answer, the clock and the existence of a path
  are parameters, and so is \<open>git\<close>, as in the theory of floxmeta branches.
\<close>

section \<open>Data\<close>

text \<open>A managed environment is identified by its owner, its name and where its FloxHub is.\<close>

datatype EnvironmentPointer =
    PointerManaged ManagedPointer (floxhub_base_url: string) (floxhub_git_url_override: "string option")
  | PointerPath string

record RegisteredEnv =
  re_created_at :: nat
  re_pointer :: EnvironmentPointer

record RegistryEntry =
  ent_path_hash :: string
  ent_path :: path
  ent_envs :: "RegisteredEnv list"

type_synonym EnvRegistry = "RegistryEntry list"

datatype EnvRegistryError =
    AcquireRegistryLock string
  | ReadRegistry string
  | ParseRegistry string
  | UnknownKey string
  | EnvNotRegistered
  | WriteEnvironmentRegistry string
  | NoEnvRegistry
  | RegistryFloxMeta FloxMetaError
  | RegistryFloxMetaNotFound string

section \<open>Entries\<close>

definition latest_env :: "RegistryEntry \<Rightarrow> RegisteredEnv option" where
  "latest_env entry = (if ent_envs entry = [] then None else Some (last (ent_envs entry)))"

definition is_same_as_latest_env :: "RegistryEntry \<Rightarrow> EnvironmentPointer \<Rightarrow> bool" where
  "is_same_as_latest_env entry ptr = (case latest_env entry of Some env \<Rightarrow> re_pointer env = ptr | None \<Rightarrow> False)"

definition entry_register_env ::
  "nat \<Rightarrow> EnvironmentPointer \<Rightarrow> RegistryEntry \<Rightarrow> RegistryEntry \<times> RegisteredEnv option" where
  "entry_register_env now ptr entry =
     (if is_same_as_latest_env entry ptr then (entry, None)
      else let created_at = (case latest_env entry of Some env \<Rightarrow> max now (re_created_at env) | None \<Rightarrow> now);
               env = \<lparr> re_created_at = created_at, re_pointer = ptr \<rparr>
           in (entry\<lparr> ent_envs := ent_envs entry @ [env] \<rparr>, Some env))"

definition entry_deregister_env :: "EnvironmentPointer \<Rightarrow> RegistryEntry \<Rightarrow> RegistryEntry \<times> RegisteredEnv option" where
  "entry_deregister_env ptr entry =
     (if is_same_as_latest_env entry ptr
      then (entry\<lparr> ent_envs := butlast (ent_envs entry) \<rparr>, Some (last (ent_envs entry)))
      else (entry, None))"

section \<open>The registry\<close>

definition entry_for_hash :: "EnvRegistry \<Rightarrow> string \<Rightarrow> RegistryEntry option" where
  "entry_for_hash reg hash = find (\<lambda>entry. ent_path_hash entry = hash) reg"

definition path_for_hash :: "EnvRegistry \<Rightarrow> string \<Rightarrow> EnvRegistryError + path" where
  "path_for_hash reg hash = map_ok ent_path (ok_or EnvNotRegistered (entry_for_hash reg hash))"

text \<open>An operation on the first entry with a hash, through the reference to it.\<close>

fun update_entry :: "string \<Rightarrow> RegistryEntry \<Rightarrow> EnvRegistry \<Rightarrow> EnvRegistry" where
  "update_entry hash entry [] = []"
| "update_entry hash entry (e # reg) = (if ent_path_hash e = hash then entry # reg else e # update_entry hash entry reg)"

definition register_env ::
  "nat \<Rightarrow> path \<Rightarrow> string \<Rightarrow> EnvironmentPointer \<Rightarrow> EnvRegistry \<Rightarrow> EnvRegistry \<times> RegisteredEnv option" where
  "register_env now dot_flox_path hash ptr reg =
     (case entry_for_hash reg hash of
        Some entry \<Rightarrow> (case entry_register_env now ptr entry of (entry', r) \<Rightarrow> (update_entry hash entry' reg, r))
      | None \<Rightarrow>
          (case entry_register_env now ptr \<lparr> ent_path_hash = hash, ent_path = dot_flox_path, ent_envs = [] \<rparr> of
             (entry', r) \<Rightarrow> (reg @ [entry'], r)))"

definition deregister_env ::
  "string \<Rightarrow> EnvironmentPointer \<Rightarrow> EnvRegistry \<Rightarrow> (EnvRegistryError + RegisteredEnv) \<times> EnvRegistry" where
  "deregister_env hash ptr reg =
     (case entry_for_hash reg hash of
        None \<Rightarrow> (Err (UnknownKey hash), reg)
      | Some entry \<Rightarrow>
          (case entry_deregister_env ptr entry of (entry', r) \<Rightarrow>
             (ok_or EnvNotRegistered r,
              if ent_envs entry' = [] then filter (\<lambda>e. ent_path_hash e \<noteq> hash) (update_entry hash entry' reg)
              else update_entry hash entry' reg)))"

section \<open>Garbage collection\<close>

text \<open>The clone of each owner's floxmeta repository, when there is one.\<close>

type_synonym 'g clones = "string \<Rightarrow> 'g option"

definition prune_managed ::
  "(ManagedPointer \<Rightarrow> 'g git_exec) \<Rightarrow> (path \<Rightarrow> string) \<Rightarrow> path \<Rightarrow> ManagedPointer
     \<Rightarrow> ('g clones, EnvRegistryError, unit) action" where
  "prune_managed exec path_hash path pointer clones =
     (case clones (mp_owner pointer) of
        None \<Rightarrow> (Err (RegistryFloxMetaNotFound (mp_owner pointer)), clones)
      | Some git \<Rightarrow>
          (case act_map_err RegistryFloxMeta (act_bind (open_floxmeta (exec pointer) pointer) (\<lambda>_.
                  prune_branches_from_floxmeta_by_pointer (exec pointer) path_hash pointer path)) git of
             (r, git') \<Rightarrow> (r, clones(mp_owner pointer \<mapsto> git'))))"

fun prune_envs ::
  "(ManagedPointer \<Rightarrow> 'g git_exec) \<Rightarrow> (path \<Rightarrow> string) \<Rightarrow> path \<Rightarrow> RegisteredEnv list
     \<Rightarrow> ('g clones, EnvRegistryError, unit) action" where
  "prune_envs exec path_hash path [] = act_ok ()"
| "prune_envs exec path_hash path (env # envs) =
     (case re_pointer env of
        PointerManaged pointer _ _ \<Rightarrow>
          act_bind (prune_managed exec path_hash path pointer) (\<lambda>_. prune_envs exec path_hash path envs)
      | PointerPath _ \<Rightarrow> prune_envs exec path_hash path envs)"

fun prune_entries ::
  "(ManagedPointer \<Rightarrow> 'g git_exec) \<Rightarrow> (path \<Rightarrow> string) \<Rightarrow> RegistryEntry list \<Rightarrow> ('g clones, EnvRegistryError, unit) action" where
  "prune_entries exec path_hash [] = act_ok ()"
| "prune_entries exec path_hash (entry # entries) =
     act_bind (prune_envs exec path_hash (ent_path entry) (ent_envs entry)) (\<lambda>_. prune_entries exec path_hash entries)"

definition prune_nonexistent ::
  "(ManagedPointer \<Rightarrow> 'g git_exec) \<Rightarrow> (path \<Rightarrow> string) \<Rightarrow> (path \<Rightarrow> bool) \<Rightarrow> EnvRegistry
     \<Rightarrow> ('g clones, EnvRegistryError, EnvRegistry) action" where
  "prune_nonexistent exec path_hash exists reg =
     act_bind (prune_entries exec path_hash (filter (\<lambda>entry. \<not> exists (ent_path entry)) reg)) (\<lambda>_.
       act_ok (filter (\<lambda>entry. exists (ent_path entry)) reg))"

section \<open>The registry file\<close>

record 'g RegistryWorld =
  rw_file :: "EnvRegistry option"
  rw_clones :: "'g clones"

record RegistryFaults =
  rf_lock :: "string option"
  rf_read :: "EnvRegistryError option"
  rf_write :: "string option"

type_synonym 'g registry_op = "('g RegistryWorld, EnvRegistryError, unit) action"

definition acquire_env_registry_lock :: "RegistryFaults \<Rightarrow> 'g registry_op" where
  "acquire_env_registry_lock faults =
     (case rf_lock faults of Some e \<Rightarrow> act_err (AcquireRegistryLock e) | None \<Rightarrow> act_ok ())"

definition read_environment_registry ::
  "RegistryFaults \<Rightarrow> ('g RegistryWorld, EnvRegistryError, EnvRegistry option) action" where
  "read_environment_registry faults w =
     (case (rw_file w, rf_read faults) of (Some _, Some e) \<Rightarrow> (Err e, w) | (file, _) \<Rightarrow> (Ok file, w))"

definition write_environment_registry :: "RegistryFaults \<Rightarrow> EnvRegistry \<Rightarrow> 'g registry_op" where
  "write_environment_registry faults reg w =
     (case rf_write faults of
        Some e \<Rightarrow> (Err (WriteEnvironmentRegistry e), w) | None \<Rightarrow> (Ok (), w\<lparr> rw_file := Some reg \<rparr>))"

definition ensure_registered ::
  "RegistryFaults \<Rightarrow> nat \<Rightarrow> (path \<Rightarrow> string) \<Rightarrow> path \<Rightarrow> EnvironmentPointer \<Rightarrow> 'g registry_op" where
  "ensure_registered faults now path_hash dot_flox_path ptr =
     act_bind (acquire_env_registry_lock faults) (\<lambda>_.
     act_bind (read_environment_registry faults) (\<lambda>file.
       (case register_env now dot_flox_path (path_hash dot_flox_path) ptr (case file of Some reg \<Rightarrow> reg | None \<Rightarrow> []) of
          (reg, r) \<Rightarrow> if r \<noteq> None then write_environment_registry faults reg else act_ok ())))"

definition deregister ::
  "RegistryFaults \<Rightarrow> (path \<Rightarrow> string) \<Rightarrow> path \<Rightarrow> EnvironmentPointer \<Rightarrow> 'g registry_op" where
  "deregister faults path_hash dot_flox_path ptr =
     act_bind (acquire_env_registry_lock faults) (\<lambda>_.
     act_bind (read_environment_registry faults) (\<lambda>file.
       (case deregister_env (path_hash dot_flox_path) ptr (case file of Some reg \<Rightarrow> reg | None \<Rightarrow> []) of
          (r, reg) \<Rightarrow> act_bind (act_lift r) (\<lambda>_. write_environment_registry faults reg))))"

definition garbage_collect ::
  "RegistryFaults \<Rightarrow> (ManagedPointer \<Rightarrow> 'g git_exec) \<Rightarrow> (path \<Rightarrow> string) \<Rightarrow> (path \<Rightarrow> bool)
     \<Rightarrow> ('g RegistryWorld, EnvRegistryError, EnvRegistry) action" where
  "garbage_collect faults exec path_hash exists =
     act_bind (acquire_env_registry_lock faults) (\<lambda>_.
     act_bind (read_environment_registry faults) (\<lambda>file.
     act_bind (act_lift (ok_or NoEnvRegistry file)) (\<lambda>reg.
     act_bind (act_zoom rw_clones (\<lambda>c w. w\<lparr> rw_clones := c \<rparr>) (prune_nonexistent exec path_hash exists reg)) (\<lambda>reg'.
     act_bind (write_environment_registry faults reg') (\<lambda>_. act_ok reg')))))"

section \<open>The invariant of the registry\<close>

text \<open>
  Every directory has one entry, under the hash of its path, which is never empty; an environment
  that follows another one at the same directory is a different one and not older.
\<close>

definition follows :: "RegisteredEnv \<Rightarrow> RegisteredEnv \<Rightarrow> bool" where
  "follows env env' \<longleftrightarrow> re_created_at env \<le> re_created_at env' \<and> re_pointer env \<noteq> re_pointer env'"

definition entry_inv :: "(path \<Rightarrow> string) \<Rightarrow> RegistryEntry \<Rightarrow> bool" where
  "entry_inv path_hash entry \<longleftrightarrow>
     ent_path_hash entry = path_hash (ent_path entry) \<and> ent_envs entry \<noteq> [] \<and> successively follows (ent_envs entry)"

definition reg_inv :: "(path \<Rightarrow> string) \<Rightarrow> EnvRegistry \<Rightarrow> bool" where
  "reg_inv path_hash reg \<longleftrightarrow> distinct (map ent_path_hash reg) \<and> (\<forall>entry \<in> set reg. entry_inv path_hash entry)"

lemma reg_inv_Nil [simp]: "reg_inv path_hash []"
  by (simp add: reg_inv_def)

lemma reg_inv_filter: "reg_inv path_hash reg \<Longrightarrow> reg_inv path_hash (filter P reg)"
  by (auto simp: reg_inv_def distinct_map_filter)

lemma update_entry_hashes:
  "ent_path_hash entry = hash \<Longrightarrow> map ent_path_hash (update_entry hash entry reg) = map ent_path_hash reg"
  by (induction reg) auto

lemma update_entry_set: "set (update_entry hash entry reg) \<subseteq> insert entry (set reg)"
  by (induction reg) auto

lemma entry_for_hash_Some: "entry_for_hash reg hash = Some entry \<Longrightarrow> entry \<in> set reg \<and> ent_path_hash entry = hash"
  by (auto simp: entry_for_hash_def find_Some_iff)

lemma entry_for_hash_None: "entry_for_hash reg hash = None \<longleftrightarrow> hash \<notin> ent_path_hash ` set reg"
  by (auto simp: entry_for_hash_def find_None_iff)

lemma reg_inv_update:
  assumes "reg_inv path_hash reg" and "ent_path_hash entry = hash" and "entry_inv path_hash entry"
  shows "reg_inv path_hash (update_entry hash entry reg)"
  using assms update_entry_set [of hash entry reg] update_entry_hashes [OF assms(2), of reg] by (auto simp: reg_inv_def)

lemma latest_env_Some: "latest_env entry = Some env \<longleftrightarrow> ent_envs entry \<noteq> [] \<and> last (ent_envs entry) = env"
  by (auto simp: latest_env_def)

lemma entry_register_fields:
  assumes "entry_register_env now ptr entry = (entry', r)"
  shows "ent_path_hash entry' = ent_path_hash entry" and "ent_path entry' = ent_path entry" and "ent_envs entry' \<noteq> []"
  using assms
  by (auto simp: entry_register_env_def is_same_as_latest_env_def latest_env_def Let_def split: if_splits option.splits)

lemma entry_register_inv:
  assumes "entry_register_env now ptr entry = (entry', r)"
    and "entry_inv path_hash entry \<or> ent_envs entry = [] \<and> ent_path_hash entry = path_hash (ent_path entry)"
  shows "entry_inv path_hash entry'"
proof (cases "ent_envs entry = []")
  case True
  then show ?thesis
    using assms by (auto simp: entry_register_env_def is_same_as_latest_env_def latest_env_def entry_inv_def Let_def)
next
  case False
  then show ?thesis
    using assms
    by (auto simp: entry_register_env_def is_same_as_latest_env_def latest_env_def entry_inv_def follows_def Let_def
        successively_append_iff split: if_splits)
qed

lemma entry_deregister_inv:
  assumes "entry_deregister_env ptr entry = (entry', r)" and "entry_inv path_hash entry"
  shows "ent_path_hash entry' = ent_path_hash entry" and "ent_envs entry' \<noteq> [] \<Longrightarrow> entry_inv path_hash entry'"
proof -
  show "ent_path_hash entry' = ent_path_hash entry"
    using assms(1) by (auto simp: entry_deregister_env_def split: if_splits)
  have "successively follows (butlast (ent_envs entry) @ [last (ent_envs entry)])"
    using assms(2) by (simp add: entry_inv_def)
  then have "successively follows (butlast (ent_envs entry))"
    unfolding successively_append_iff by blast
  then show "ent_envs entry' \<noteq> [] \<Longrightarrow> entry_inv path_hash entry'"
    using assms by (auto simp: entry_deregister_env_def entry_inv_def split: if_splits)
qed

lemma register_env_inv:
  assumes "reg_inv path_hash reg" and "register_env now dot_flox (path_hash dot_flox) ptr reg = (reg', r)"
  shows "reg_inv path_hash reg'"
proof (cases "entry_for_hash reg (path_hash dot_flox)")
  case None
  let ?fresh = "\<lparr> ent_path_hash = path_hash dot_flox, ent_path = dot_flox, ent_envs = [] \<rparr>"
  obtain entry' where entry': "entry_register_env now ptr ?fresh = (entry', r)" "reg' = reg @ [entry']"
    using assms(2) None by (auto simp: register_env_def split: prod.splits)
  then have "entry_inv path_hash entry'" "ent_path_hash entry' = path_hash dot_flox"
    using entry_register_inv [OF entry'(1)] entry_register_fields [OF entry'(1)] by simp_all
  then show ?thesis
    using assms(1) entry'(2) None by (simp add: reg_inv_def entry_for_hash_None)
next
  case (Some entry)
  then obtain entry' where entry': "entry_register_env now ptr entry = (entry', r)"
    "reg' = update_entry (path_hash dot_flox) entry' reg"
    using assms(2) by (auto simp: register_env_def split: prod.splits)
  have "entry_inv path_hash entry"
    using entry_for_hash_Some [OF Some] assms(1) by (simp add: reg_inv_def)
  then have "entry_inv path_hash entry'"
    using entry_register_inv [OF entry'(1)] by blast
  moreover have "ent_path_hash entry' = path_hash dot_flox"
    using entry_register_fields(1) [OF entry'(1)] entry_for_hash_Some [OF Some] by simp
  ultimately show ?thesis
    using reg_inv_update [OF assms(1)] entry'(2) by blast
qed

lemma removed_entry:
  "ent_path_hash entry' = hash \<Longrightarrow>
     filter (\<lambda>e. ent_path_hash e \<noteq> hash) (update_entry hash entry' reg) = filter (\<lambda>e. ent_path_hash e \<noteq> hash) reg"
  by (induction reg) auto

lemma deregister_env_inv:
  assumes "reg_inv path_hash reg" and "deregister_env hash ptr reg = (r, reg')"
  shows "reg_inv path_hash reg'"
proof (cases "entry_for_hash reg hash")
  case None
  then show ?thesis
    using assms by (simp add: deregister_env_def)
next
  case (Some entry)
  then obtain entry' r' where entry': "entry_deregister_env ptr entry = (entry', r')"
    "reg' = (if ent_envs entry' = [] then filter (\<lambda>e. ent_path_hash e \<noteq> hash) (update_entry hash entry' reg)
              else update_entry hash entry' reg)"
    using assms(2) by (auto simp: deregister_env_def split: prod.splits)
  have inv: "entry_inv path_hash entry" "ent_path_hash entry = hash"
    using entry_for_hash_Some [OF Some] assms(1) by (simp_all add: reg_inv_def)
  have hash': "ent_path_hash entry' = hash"
    using entry_deregister_inv(1) [OF entry'(1) inv(1)] inv(2) by simp
  show ?thesis
  proof (cases "ent_envs entry' = []")
    case True
    then show ?thesis
      using removed_entry [OF hash'] entry'(2) reg_inv_filter [OF assms(1)] by simp
  next
    case False
    then show ?thesis
      using reg_inv_update [OF assms(1) hash'] entry_deregister_inv(2) [OF entry'(1) inv(1)] entry'(2) by simp
  qed
qed

section \<open>The operations on the file\<close>

text \<open>The program's operations on the registry, whatever the file system and \<open>git\<close> answer.\<close>

inductive registry_step ::
  "(ManagedPointer \<Rightarrow> 'g git_exec) \<Rightarrow> (path \<Rightarrow> string) \<Rightarrow> 'g RegistryWorld \<Rightarrow> 'g RegistryWorld \<Rightarrow> bool"
  for exec path_hash where
  register: "registry_step exec path_hash w (snd (ensure_registered faults now path_hash dot_flox ptr w))"
| deregister: "registry_step exec path_hash w (snd (deregister faults path_hash dot_flox ptr w))"
| collect: "registry_step exec path_hash w (snd (garbage_collect faults exec path_hash exists w))"

inductive_cases registry_stepE: "registry_step exec path_hash w w'"

definition file_inv :: "(path \<Rightarrow> string) \<Rightarrow> 'g RegistryWorld \<Rightarrow> bool" where
  "file_inv path_hash w \<longleftrightarrow> (\<forall>reg. rw_file w = Some reg \<longrightarrow> reg_inv path_hash reg)"

lemma file_inv_contents: "file_inv path_hash w \<Longrightarrow> reg_inv path_hash (case rw_file w of Some reg \<Rightarrow> reg | None \<Rightarrow> [])"
  by (simp add: file_inv_def split: option.splits)

lemma ensure_registered_file:
  "ensure_registered faults now path_hash dot_flox ptr w =
     (case rf_lock faults of
        Some e \<Rightarrow> (Err (AcquireRegistryLock e), w)
      | None \<Rightarrow>
          (case (rw_file w, rf_read faults) of
             (Some _, Some e) \<Rightarrow> (Err e, w)
           | _ \<Rightarrow>
               (case register_env now dot_flox (path_hash dot_flox) ptr (case rw_file w of Some reg \<Rightarrow> reg | None \<Rightarrow> []) of
                  (reg, r) \<Rightarrow> if r = None then (Ok (), w) else write_environment_registry faults reg w)))"
  by (auto simp: ensure_registered_def acquire_env_registry_lock_def read_environment_registry_def action_defs
      split: option.splits prod.splits)

lemma deregister_file:
  "deregister faults path_hash dot_flox ptr w =
     (case rf_lock faults of
        Some e \<Rightarrow> (Err (AcquireRegistryLock e), w)
      | None \<Rightarrow>
          (case (rw_file w, rf_read faults) of
             (Some _, Some e) \<Rightarrow> (Err e, w)
           | _ \<Rightarrow>
               (case deregister_env (path_hash dot_flox) ptr (case rw_file w of Some reg \<Rightarrow> reg | None \<Rightarrow> []) of
                  (Inl e, _) \<Rightarrow> (Err e, w) | (Inr _, reg) \<Rightarrow> write_environment_registry faults reg w)))"
  by (auto simp: deregister_def acquire_env_registry_lock_def read_environment_registry_def action_defs
      split: option.splits prod.splits sum.splits)

lemma garbage_collect_file:
  "garbage_collect faults exec path_hash exists w =
     (case (rf_lock faults, rw_file w, rf_read faults) of
        (Some e, _, _) \<Rightarrow> (Err (AcquireRegistryLock e), w)
      | (None, None, _) \<Rightarrow> (Err NoEnvRegistry, w)
      | (None, Some reg, Some e) \<Rightarrow> (Err e, w)
      | (None, Some reg, None) \<Rightarrow>
          (case prune_nonexistent exec path_hash exists reg (rw_clones w) of
             (Inl e, clones) \<Rightarrow> (Err e, w\<lparr> rw_clones := clones \<rparr>)
           | (Inr reg', clones) \<Rightarrow>
               act_bind (write_environment_registry faults reg') (\<lambda>_. act_ok reg') (w\<lparr> rw_clones := clones \<rparr>)))"
  by (auto simp: garbage_collect_def acquire_env_registry_lock_def read_environment_registry_def action_defs
      split: option.splits prod.splits sum.splits)

lemma file_inv_write: "file_inv path_hash w \<Longrightarrow> reg_inv path_hash reg \<Longrightarrow>
    file_inv path_hash (snd (write_environment_registry faults reg w))"
  by (simp add: write_environment_registry_def file_inv_def split: option.splits)

lemma prune_nonexistent_result:
  "prune_nonexistent exec path_hash exists reg clones = (Ok reg', clones') \<longleftrightarrow>
     reg' = filter (\<lambda>entry. exists (ent_path entry)) reg \<and>
     prune_entries exec path_hash (filter (\<lambda>entry. \<not> exists (ent_path entry)) reg) clones = (Ok (), clones')"
  by (auto simp: prune_nonexistent_def act_bind_Inr_iff act_ok_def)

lemma file_inv_step:
  assumes "registry_step exec path_hash w w'" and "file_inv path_hash w"
  shows "file_inv path_hash w'"
  using assms(1)
proof cases
  case (register faults now dot_flox ptr)
  obtain reg r where eq: "register_env now dot_flox (path_hash dot_flox) ptr (case rw_file w of Some reg \<Rightarrow> reg | None \<Rightarrow> []) = (reg, r)"
    by fastforce
  note written = file_inv_write [OF assms(2) register_env_inv [OF file_inv_contents [OF assms(2)] eq]]
  show ?thesis
    using register eq written assms(2) by (auto simp: ensure_registered_file split: option.splits)
next
  case (deregister faults dot_flox ptr)
  obtain reg r where eq: "deregister_env (path_hash dot_flox) ptr (case rw_file w of Some reg \<Rightarrow> reg | None \<Rightarrow> []) = (r, reg)"
    by fastforce
  note written = file_inv_write [OF assms(2) deregister_env_inv [OF file_inv_contents [OF assms(2)] eq]]
  show ?thesis
    using deregister eq written assms(2) by (auto simp: deregister_file split: option.splits sum.splits)
next
  case (collect faults exists)
  show ?thesis
  proof (cases "rf_lock faults = None \<and> rf_read faults = None \<and> rw_file w \<noteq> None")
    case True
    then obtain reg where reg: "rw_file w = Some reg" "rf_lock faults = None" "rf_read faults = None"
      by blast
    obtain r clones where pruned: "prune_nonexistent exec path_hash exists reg (rw_clones w) = (r, clones)"
      by (cases "prune_nonexistent exec path_hash exists reg (rw_clones w)")
    have kept: "file_inv path_hash (w\<lparr> rw_clones := clones \<rparr>)"
      using assms(2) by (simp add: file_inv_def)
    show ?thesis
    proof (cases r)
      case (Inr reg')
      then have "reg_inv path_hash reg'"
        using pruned reg(1) assms(2) prune_nonexistent_result [of exec path_hash exists reg "rw_clones w"]
        by (simp add: file_inv_def reg_inv_filter)
      then show ?thesis
        using file_inv_write [OF kept, of reg' faults] collect reg pruned Inr
        by (simp add: garbage_collect_file act_bind_def act_match_def act_ok_def act_err_def split: prod.splits sum.splits)
    qed (use collect reg pruned kept in \<open>simp add: garbage_collect_file\<close>)
  qed (use collect assms(2) in \<open>auto simp: garbage_collect_file split: option.splits\<close>)
qed

interpretation registry: transition_system "\<lambda>w. rw_file w = None" "registry_step exec path_hash" "file_inv path_hash"
  for exec path_hash
  by unfold_locales (simp add: file_inv_def, rule file_inv_step)

section \<open>Registering and deregistering\<close>

lemma update_entry_same: "entry_for_hash reg hash = Some entry \<Longrightarrow> update_entry hash entry reg = reg"
  by (induction reg) (auto simp: entry_for_hash_def split: if_splits)

lemma update_entry_twice:
  "ent_path_hash entry = hash \<Longrightarrow> update_entry hash entry' (update_entry hash entry reg) = update_entry hash entry' reg"
  by (induction reg) auto

lemma entry_for_hash_update:
  "entry_for_hash reg hash \<noteq> None \<Longrightarrow> ent_path_hash entry = hash \<Longrightarrow> entry_for_hash (update_entry hash entry reg) hash = Some entry"
  by (induction reg) (auto simp: entry_for_hash_def split: if_splits)

lemma entry_for_hash_last:
  "entry_for_hash reg hash = None \<Longrightarrow> ent_path_hash entry = hash \<Longrightarrow> entry_for_hash (reg @ [entry]) hash = Some entry"
  by (induction reg) (auto simp: entry_for_hash_def split: if_splits)

lemma entry_deregisters:
  assumes "entry_register_env now ptr entry = (entry', Some env)"
  shows "entry_deregister_env ptr entry' = (entry, Some env)" and "re_pointer env = ptr"
  using assms
  by (auto simp: entry_register_env_def entry_deregister_env_def is_same_as_latest_env_def latest_env_def Let_def
      split: if_splits)

lemma register_then_deregister:
  assumes "reg_inv path_hash reg" and "register_env now dot_flox hash ptr reg = (reg', Some env)"
  shows "deregister_env hash ptr reg' = (Ok env, reg)"
proof (cases "entry_for_hash reg hash")
  case None
  let ?fresh = "\<lparr> ent_path_hash = hash, ent_path = dot_flox, ent_envs = [] \<rparr>"
  obtain entry' where entry': "entry_register_env now ptr ?fresh = (entry', Some env)" "reg' = reg @ [entry']"
    using assms(2) None by (auto simp: register_env_def split: prod.splits)
  have hash: "ent_path_hash entry' = hash"
    using entry_register_fields(1) [OF entry'(1)] by simp
  have "filter (\<lambda>e. ent_path_hash e \<noteq> hash) reg = reg"
    using None by (auto simp: entry_for_hash_None filter_id_conv)
  then show ?thesis
    using entry_for_hash_last [OF None hash] entry_deregisters(1) [OF entry'(1)] entry'(2) hash
      removed_entry [of ?fresh hash "reg @ [entry']"]
    by (simp add: deregister_env_def)
next
  case (Some entry)
  then obtain entry' where entry': "entry_register_env now ptr entry = (entry', Some env)" "reg' = update_entry hash entry' reg"
    using assms(2) by (auto simp: register_env_def split: prod.splits)
  have hash: "ent_path_hash entry' = hash"
    using entry_register_fields(1) [OF entry'(1)] entry_for_hash_Some [OF Some] by simp
  have "ent_envs entry \<noteq> []"
    using entry_for_hash_Some [OF Some] assms(1) by (simp add: reg_inv_def entry_inv_def)
  then show ?thesis
    using entry_for_hash_update [of reg hash entry'] Some hash entry_deregisters(1) [OF entry'(1)] entry'(2)
      update_entry_twice [OF hash] update_entry_same [OF Some]
    by (simp add: deregister_env_def)
qed

lemma register_env_None: "register_env now dot_flox hash ptr reg = (reg', None) \<Longrightarrow> reg' = reg"
  using update_entry_same
  by (fastforce simp: register_env_def entry_register_env_def is_same_as_latest_env_def latest_env_def Let_def
      split: option.splits if_splits)

lemma registered_latest:
  assumes "register_env now dot_flox hash ptr reg = (reg', r)"
  shows "\<exists>entry. entry_for_hash reg' hash = Some entry \<and> is_same_as_latest_env entry ptr"
proof -
  have registers: "is_same_as_latest_env entry' ptr" if "entry_register_env now ptr entry = (entry', r)" for entry entry' r
    using that by (auto simp: entry_register_env_def is_same_as_latest_env_def latest_env_def Let_def split: if_splits)
  show ?thesis
  proof (cases "entry_for_hash reg hash")
    case None
    let ?fresh = "\<lparr> ent_path_hash = hash, ent_path = dot_flox, ent_envs = [] \<rparr>"
    obtain entry' where entry': "entry_register_env now ptr ?fresh = (entry', r)" "reg' = reg @ [entry']"
      using assms None by (auto simp: register_env_def split: prod.splits)
    then show ?thesis
      using entry_for_hash_last [OF None] entry_register_fields(1) [OF entry'(1)] registers [OF entry'(1)] by simp
  next
    case (Some entry)
    then obtain entry' where entry': "entry_register_env now ptr entry = (entry', r)" "reg' = update_entry hash entry' reg"
      using assms by (auto simp: register_env_def split: prod.splits)
    then show ?thesis
      using entry_for_hash_update [of reg hash entry'] Some entry_register_fields(1) [OF entry'(1)]
        entry_for_hash_Some [OF Some] registers [OF entry'(1)] by simp
  qed
qed

section \<open>Pruning\<close>

text \<open>The managed environments of some entries, with their directories, in the order they are pruned.\<close>

definition managed_env :: "path \<Rightarrow> RegisteredEnv \<Rightarrow> (path \<times> ManagedPointer) option" where
  "managed_env path env =
     (case re_pointer env of PointerManaged pointer _ _ \<Rightarrow> Some (path, pointer) | PointerPath _ \<Rightarrow> None)"

definition managed_envs :: "RegistryEntry list \<Rightarrow> (path \<times> ManagedPointer) list" where
  "managed_envs entries =
     concat (map (\<lambda>entry. List.map_filter (managed_env (ent_path entry)) (ent_envs entry)) entries)"

lemma in_managed_envs:
  "(path, pointer) \<in> set (managed_envs entries) \<longleftrightarrow>
     (\<exists>entry \<in> set entries. \<exists>env \<in> set (ent_envs entry). \<exists>url override.
        ent_path entry = path \<and> re_pointer env = PointerManaged pointer url override)"
proof -
  have "managed_env p env = Some (path, pointer) \<longleftrightarrow>
      p = path \<and> (\<exists>url override. re_pointer env = PointerManaged pointer url override)" for p env
    by (cases "re_pointer env") (auto simp: managed_env_def)
  then show ?thesis
    by (auto simp: managed_envs_def in_map_filter)
qed

fun prune_all ::
  "(ManagedPointer \<Rightarrow> 'g git_exec) \<Rightarrow> (path \<Rightarrow> string) \<Rightarrow> (path \<times> ManagedPointer) list \<Rightarrow> ('g clones, EnvRegistryError, unit) action" where
  "prune_all exec path_hash [] = act_ok ()"
| "prune_all exec path_hash ((path, pointer) # targets) =
     act_bind (prune_managed exec path_hash path pointer) (\<lambda>_. prune_all exec path_hash targets)"

lemma act_bind_assoc: "act_bind (act_bind m f) g = act_bind m (\<lambda>a. act_bind (f a) g)"
  by (auto simp: fun_eq_iff action_defs split: prod.splits sum.splits)

lemma prune_all_append:
  "prune_all exec path_hash (xs @ ys) = act_bind (prune_all exec path_hash xs) (\<lambda>_. prune_all exec path_hash ys)"
  by (induction exec path_hash xs rule: prune_all.induct) (simp_all add: act_bind_assoc)

lemma prune_envs_all:
  "prune_envs exec path_hash path envs =
     prune_all exec path_hash (List.map_filter (managed_env path) envs)"
  by (induction envs) (simp_all add: managed_env_def split: EnvironmentPointer.splits)

lemma prune_entries_all: "prune_entries exec path_hash entries = prune_all exec path_hash (managed_envs entries)"
  by (induction entries) (simp_all add: managed_envs_def prune_all_append prune_envs_all)

definition clones_ok :: "(string \<Rightarrow> string set) \<Rightarrow> ('g \<Rightarrow> Repo) \<Rightarrow> 'g clones \<Rightarrow> bool" where
  "clones_ok hist view clones \<longleftrightarrow> (\<forall>owner g. clones owner = Some g \<longrightarrow> repo_ok hist (view g))"

definition head_of :: "('g \<Rightarrow> Repo) \<Rightarrow> 'g clones \<Rightarrow> string \<Rightarrow> string \<Rightarrow> string option" where
  "head_of view clones owner branch = Option.bind (clones owner) (\<lambda>g. bm_get (heads (view g)) branch)"

lemma prune_managed_Ok:
  assumes "git_documented (exec pointer) view hist" and "clones_ok hist view clones" and "name_ok (mp_name pointer)"
    and "prune_managed exec path_hash path pointer clones = (Ok (), clones')"
  shows "clones_ok hist view clones' \<and>
    head_of view clones' (mp_owner pointer) (branch_name path_hash pointer path) = None \<and>
    (\<forall>owner branch. (owner \<noteq> mp_owner pointer \<or> branch \<noteq> mp_name pointer \<and> branch \<noteq> branch_name path_hash pointer path)
       \<longrightarrow> head_of view clones' owner branch = head_of view clones owner branch)"
proof -
  let ?exec = "exec pointer"
  let ?local = "branch_name path_hash pointer path"
  let ?remote = "remote_branch_name pointer"
  obtain g g1 g2 where g: "clones (mp_owner pointer) = Some g" "clones' = clones(mp_owner pointer \<mapsto> g2)"
    and opened: "open_floxmeta ?exec pointer g = (Ok (), g1)"
    and pruned: "prune_branches_from_floxmeta ?exec ?local ?remote g1 = (Ok (), g2)"
    using assms(4)
    by (auto simp: prune_managed_def act_map_err_Inr_iff act_bind_Inr_iff prune_branches_from_floxmeta_by_pointer_def
        split: option.splits prod.splits)
  have name: "name_ok ?remote" and ok: "repo_ok hist (view g)"
    using assms(2,3) g(1) by (simp_all add: remote_branch_name_def clones_ok_def)
  have "open_or_clone_floxmeta ?exec pointer g = (Ok (), g1)"
    using opened by (simp add: open_or_clone_floxmeta_def act_map_err_Inr)
  then have spec: "open_spec hist ?remote (view g) = Some (view g1)"
    using open_or_clone_eq [OF assms(1) ok name] by (auto split: option.splits)
  have ok1: "repo_ok hist (view g1)" and same: "n \<noteq> ?remote \<Longrightarrow> bm_get (heads (view g1)) n = bm_get (heads (view g)) n" for n
    using open_spec_ok [OF documented_hist [OF assms(1)] ok name spec] by blast+
  obtain g' where "prune_branches_from_floxmeta ?exec ?local ?remote g1 = (Ok (), g')"
    and view': "view g' = view g1 \<lparr> heads :=
      (let names = bm_keys (heads (view g1));
           left = (if ?local \<in> set names then bm_remove ?local (heads (view g1)) else heads (view g1))
       in if ?remote \<in> set names \<and> \<not> branches_for_other_paths names ?remote then bm_remove ?remote left else left) \<rparr>"
    using prune_eq [OF assms(1) ok1 branch_name_neq] by blast
  then have "g' = g2"
    using pruned by simp
  note view2 = view' [unfolded this]
  have inv: "bm_inv (heads (view g1))"
    by (rule repo_ok_inv(1) [OF ok1])
  define left where
    "left = (if ?local \<in> set (bm_keys (heads (view g1))) then bm_remove ?local (heads (view g1)) else heads (view g1))"
  have inv_left: "bm_inv left"
    using inv by (simp add: left_def bm_inv_remove)
  have get_left: "bm_get left n = (if n = ?local then None else bm_get (heads (view g1)) n)" for n
    by (cases "n = ?local") (simp_all add: left_def bm_get_remove [OF inv] bm_keys_def bm_get_notin)
  have heads2: "heads (view g2) = left \<or> heads (view g2) = bm_remove ?remote left"
    unfolding view2 by (simp add: Let_def left_def)
  have local_gone: "bm_get (heads (view g2)) ?local = None"
    using heads2 get_left bm_get_remove [OF inv_left] by auto
  have others: "bm_get (heads (view g2)) n = bm_get (heads (view g)) n" if "n \<noteq> ?remote" "n \<noteq> ?local" for n
    using heads2 get_left bm_get_remove [OF inv_left] same [OF that(1)] that by auto
  have "repo_ok hist (view g2)"
    unfolding view2 using ok1 repo_ok_remove_head [OF ok1] repo_ok_remove_head [OF repo_ok_remove_head [OF ok1]]
    by (simp add: Let_def)
  then have "clones_ok hist view clones'"
    using assms(2) g(2) by (simp add: clones_ok_def)
  then show ?thesis
    using local_gone others g by (auto simp: head_of_def remote_branch_name_def)
qed

text \<open>
  Pruning several touches the branches of the pruned environments and their sync branches, which
  bear their names and are fetched and pruned with them. A branch that is not one of these sync
  branches stays away once it is pruned.
\<close>

definition sync_branch_of :: "(path \<times> ManagedPointer) list \<Rightarrow> string \<Rightarrow> string \<Rightarrow> bool" where
  "sync_branch_of targets owner branch \<longleftrightarrow>
     (\<exists>(path, pointer) \<in> set targets. mp_owner pointer = owner \<and> mp_name pointer = branch)"

lemma sync_branch_of_Cons:
  "sync_branch_of ((path, pointer) # targets) owner branch \<longleftrightarrow>
     mp_owner pointer = owner \<and> mp_name pointer = branch \<or> sync_branch_of targets owner branch"
  by (simp add: sync_branch_of_def)

lemma prune_all_Ok:
  assumes "\<forall>pointer. git_documented (exec pointer) view hist" and "clones_ok hist view clones"
    and "\<forall>(path, pointer) \<in> set targets. name_ok (mp_name pointer)"
    and "prune_all exec path_hash targets clones = (Ok (), clones')"
  shows "(\<forall>(path, pointer) \<in> set targets.
       \<not> sync_branch_of targets (mp_owner pointer) (branch_name path_hash pointer path) \<longrightarrow>
       head_of view clones' (mp_owner pointer) (branch_name path_hash pointer path) = None) \<and>
    (\<forall>owner branch. \<not> sync_branch_of targets owner branch \<longrightarrow>
       (\<forall>(path, pointer) \<in> set targets. owner \<noteq> mp_owner pointer \<or> branch \<noteq> branch_name path_hash pointer path)
       \<longrightarrow> head_of view clones' owner branch = head_of view clones owner branch)"
  using assms(2-4)
proof (induction targets arbitrary: clones)
  case Nil
  then show ?case
    by (simp add: act_ok_def)
next
  case (Cons target targets)
  obtain path pointer where target: "target = (path, pointer)"
    by fastforce
  obtain clones1 where first: "prune_managed exec path_hash path pointer clones = (Ok (), clones1)"
    and rest: "prune_all exec path_hash targets clones1 = (Ok (), clones')"
    using Cons.prems(3) target by (auto simp: act_bind_Inr_iff)
  have name: "name_ok (mp_name pointer)"
    using Cons.prems(2) target by simp
  note pruned = prune_managed_Ok [OF assms(1) [rule_format] Cons.prems(1) name first]
  have "\<forall>(path, pointer) \<in> set targets. name_ok (mp_name pointer)"
    using Cons.prems(2) by simp
  note IH = Cons.IH [OF conjunct1 [OF pruned] this rest]
  have gone: "head_of view clones' (mp_owner pointer) (branch_name path_hash pointer path) = None"
    if "\<not> sync_branch_of targets (mp_owner pointer) (branch_name path_hash pointer path)"
  proof (cases "\<exists>(path', pointer') \<in> set targets. mp_owner pointer = mp_owner pointer' \<and>
      branch_name path_hash pointer path = branch_name path_hash pointer' path'")
    case True
    then obtain path' pointer' where same: "(path', pointer') \<in> set targets" "mp_owner pointer = mp_owner pointer'"
      "branch_name path_hash pointer path = branch_name path_hash pointer' path'"
      by auto
    with conjunct1 [OF IH, THEN bspec, OF same(1)] that show ?thesis
      by simp
  next
    case False
    then have away: "\<forall>(path', pointer') \<in> set targets. mp_owner pointer \<noteq> mp_owner pointer' \<or>
        branch_name path_hash pointer path \<noteq> branch_name path_hash pointer' path'"
      by auto
    show ?thesis
      using conjunct2 [OF IH, THEN spec, THEN spec, THEN mp, THEN mp, OF that away] pruned by simp
  qed
  moreover have "head_of view clones' owner branch = head_of view clones owner branch"
    if "\<not> sync_branch_of (target # targets) owner branch"
      "\<forall>(path, pointer) \<in> set (target # targets). owner \<noteq> mp_owner pointer \<or> branch \<noteq> branch_name path_hash pointer path" for owner branch
  proof -
    have "head_of view clones' owner branch = head_of view clones1 owner branch"
      using IH that by (auto simp: target sync_branch_of_Cons)
    also have "\<dots> = head_of view clones owner branch"
      using pruned that by (auto simp: target sync_branch_of_Cons)
    finally show ?thesis .
  qed
  moreover have "head_of view clones' (mp_owner p) (branch_name path_hash p d) = None"
    if "(d, p) \<in> set targets" "\<not> sync_branch_of (target # targets) (mp_owner p) (branch_name path_hash p d)" for d p
    using conjunct1 [OF IH, THEN bspec, OF that(1)] that(2) by (simp add: target sync_branch_of_Cons)
  ultimately show ?case
    by (auto simp: target sync_branch_of_Cons)
qed

lemma branch_name_hash:
  assumes "branch_name path_hash p path = branch_name path_hash p' path'"
    and "CHR ''.'' \<notin> set (path_hash path)" and "CHR ''.'' \<notin> set (path_hash path')"
  shows "path_hash path = path_hash path'"
proof -
  have "rsplit_once (CHR ''.'') (mp_name p @ CHR ''.'' # path_hash path) =
      rsplit_once (CHR ''.'') (mp_name p' @ CHR ''.'' # path_hash path')"
    using assms(1) by (simp add: branch_name_def BRANCH_NAME_PATH_SEPARATOR_def)
  then show ?thesis
    using rsplit_once_append [OF assms(2)] rsplit_once_append [OF assms(3)] by simp
qed

lemma reg_inv_paths:
  assumes "reg_inv path_hash reg" and "entry \<in> set reg" and "entry' \<in> set reg"
    and "path_hash (ent_path entry) = path_hash (ent_path entry')"
  shows "ent_path entry = ent_path entry'"
proof -
  have "ent_path_hash entry = ent_path_hash entry'" and "inj_on ent_path_hash (set reg)"
    using assms by (simp_all add: reg_inv_def entry_inv_def distinct_map)
  then show ?thesis
    using assms(2,3) by (simp add: inj_on_eq_iff)
qed

section \<open>A registry with one environment\<close>

definition demo_managed :: RegisteredEnv where
  "demo_managed = \<lparr> re_created_at = 7, re_pointer = PointerManaged demo_pointer ''https://hub.flox.dev'' None \<rparr>"

definition demo_registry :: EnvRegistry where
  "demo_registry = [\<lparr> ent_path_hash = ''1a2b3c4d'', ent_path = [''project'', ''.flox''], ent_envs = [demo_managed] \<rparr>]"

definition demo_registry_world :: "EnvRegistry option \<Rightarrow> Repo RegistryWorld" where
  "demo_registry_world file = \<lparr> rw_file = file, rw_clones = [''owner'' \<mapsto> demo_repo (CHR ''a'') (CHR ''a'') None] \<rparr>"

definition no_registry_faults :: RegistryFaults where
  "no_registry_faults = \<lparr> rf_lock = None, rf_read = None, rf_write = None \<rparr>"

lemma demo_registry_inv: "reg_inv demo_path_hash demo_registry"
  by (simp add: demo_registry_def reg_inv_def entry_inv_def demo_path_hash_def)

lemma demo_clones_ok: "clones_ok demo_hist id (rw_clones (demo_registry_world file))"
  using demo_repo_ok [of "CHR ''a''" "CHR ''a''" None] by (simp add: demo_registry_world_def clones_ok_def)

lemma demo_collect: "is_ok (fst (garbage_collect no_registry_faults (\<lambda>_. small_git demo_hist) demo_path_hash (\<lambda>_. False)
    (demo_registry_world (Some demo_registry))))"
proof -
  let ?g = "demo_repo (CHR ''a'') (CHR ''a'') None"
  have ok: "repo_ok demo_hist (id ?g)"
    using demo_repo_ok [of "CHR ''a''" "CHR ''a''" None] by simp
  have "has_branch (small_git demo_hist) (remote_branch_name demo_pointer) ?g = (Ok True, ?g)"
    using has_branch_eq [OF demo_git ok demo_names(1)] by (simp add: demo_names_eq demo_repo_def)
  then have opened: "open_floxmeta (small_git demo_hist) demo_pointer ?g = (Ok (), ?g)"
    by (simp add: open_floxmeta_def act_bind_def act_map_err_Inr act_ok_def)
  obtain g' where "prune_branches_from_floxmeta (small_git demo_hist)
      (branch_name demo_path_hash demo_pointer [''project'', ''.flox'']) (remote_branch_name demo_pointer) ?g = (Ok (), g')"
    using prune_eq [OF demo_git ok branch_name_neq] by blast
  then show ?thesis
    using opened
    by (simp add: garbage_collect_file no_registry_faults_def demo_registry_world_def demo_registry_def demo_managed_def
        prune_nonexistent_def prune_managed_def prune_branches_from_floxmeta_by_pointer_def write_environment_registry_def
        act_bind_def act_match_def act_map_err_def act_ok_def demo_pointer_def)
qed

section \<open>Properties\<close>

text \<open>
  C39. However it was changed, and whatever failed, the registry has one entry for each directory,
  under the hash of its path; an entry is never empty, and the environments of an entry follow each
  other in time without repeating the one before.
\<close>

theorem registry_consistent:
  assumes "(registry_step exec path_hash)\<^sup>*\<^sup>* w w'" and "rw_file w = None" and "rw_file w' = Some reg"
  shows "distinct (map ent_path_hash reg) \<and>
    (\<forall>entry \<in> set reg. ent_path_hash entry = path_hash (ent_path entry) \<and> ent_envs entry \<noteq> [] \<and>
       (\<forall>i. Suc i < length (ent_envs entry) \<longrightarrow>
          re_created_at (ent_envs entry ! i) \<le> re_created_at (ent_envs entry ! Suc i) \<and>
          re_pointer (ent_envs entry ! i) \<noteq> re_pointer (ent_envs entry ! Suc i)))"
proof -
  have "reg_inv path_hash reg"
    using registry.inv_reachable [OF assms(2,1)] assms(3) by (simp add: file_inv_def)
  then show ?thesis
    by (auto simp: reg_inv_def entry_inv_def successively_conv_nth follows_def)
qed

lemma registry_consistent_witness:
  "\<exists>reg. rw_file (snd (ensure_registered no_registry_faults 9 demo_path_hash [''project'', ''.flox''] (PointerPath ''mine'')
       (demo_registry_world None))) = Some reg \<and> distinct (map ent_path_hash reg)"
proof -
  let ?w' = "snd (ensure_registered no_registry_faults 9 demo_path_hash [''project'', ''.flox''] (PointerPath ''mine'') (demo_registry_world None))"
  have step: "(registry_step (\<lambda>_. small_git demo_hist) demo_path_hash)\<^sup>*\<^sup>* (demo_registry_world None) ?w'"
    by (rule r_into_rtranclp, rule registry_step.register)
  obtain reg where reg: "rw_file ?w' = Some reg"
    by (simp add: ensure_registered_file no_registry_faults_def demo_registry_world_def register_env_def entry_for_hash_def
        entry_register_env_def is_same_as_latest_env_def latest_env_def write_environment_registry_def Let_def)
  then show ?thesis
    using registry_consistent [OF step _ reg] by (simp add: demo_registry_world_def)
qed

text \<open>
  An environment that was registered is the latest one of its directory, and registering it again
  changes nothing; deregistering it restores the registry as it was before.
\<close>

theorem deregistering_undoes_registering:
  assumes "ensure_registered faults now path_hash dot_flox ptr w = (Ok (), w1)" and "rw_file w = Some reg"
    and "reg_inv path_hash reg" and "rf_lock faults' = None" and "rf_read faults' = None" and "rf_write faults' = None"
  shows "(\<exists>reg1 entry. rw_file w1 = Some reg1 \<and> entry_for_hash reg1 (path_hash dot_flox) = Some entry \<and>
       is_same_as_latest_env entry ptr) \<and>
    ensure_registered faults' now' path_hash dot_flox ptr w1 = (Ok (), w1) \<and>
    (w1 = w \<or> deregister faults' path_hash dot_flox ptr w1 = (Ok (), w))"
proof -
  obtain reg1 r where reg1: "register_env now dot_flox (path_hash dot_flox) ptr reg = (reg1, r)"
    by fastforce
  obtain entry where entry: "entry_for_hash reg1 (path_hash dot_flox) = Some entry" "is_same_as_latest_env entry ptr"
    using registered_latest [OF reg1] by blast
  have again: "register_env now' dot_flox (path_hash dot_flox) ptr reg1 = (reg1, None)"
    using entry update_entry_same [OF entry(1)] by (simp add: register_env_def entry_register_env_def)
  have w1: "w1 = w\<lparr> rw_file := Some reg1 \<rparr>" "r = None \<Longrightarrow> w1 = w"
    using assms(1,2) reg1 register_env_None [of now dot_flox "path_hash dot_flox" ptr reg reg1]
    by (auto simp: ensure_registered_file write_environment_registry_def split: option.splits if_splits)
  have "deregister faults' path_hash dot_flox ptr w1 = (Ok (), w)" if "r \<noteq> None"
  proof -
    obtain env where "r = Some env"
      using \<open>r \<noteq> None\<close> by blast
    then have "deregister_env (path_hash dot_flox) ptr reg1 = (Ok env, reg)"
      using register_then_deregister [OF assms(3)] reg1 by simp
    moreover have "w1\<lparr> rw_file := Some reg \<rparr> = w"
      using w1(1) assms(2) by (cases w) simp
    ultimately show ?thesis
      using w1(1) assms(4-6) by (simp add: deregister_file write_environment_registry_def)
  qed
  moreover have contents: "rw_file w1 = Some reg1"
    using w1(1) by simp
  moreover have "ensure_registered faults' now' path_hash dot_flox ptr w1 = (Ok (), w1)"
    using contents again assms(4,5) by (simp add: ensure_registered_file)
  ultimately show ?thesis
    using entry w1(2) by blast
qed

lemma deregistering_undoes_registering_witness:
  "deregister no_registry_faults demo_path_hash [''project'', ''.flox''] (PointerPath ''mine'')
     (snd (ensure_registered no_registry_faults 9 demo_path_hash [''project'', ''.flox''] (PointerPath ''mine'')
        (demo_registry_world (Some demo_registry)))) = (Ok (), demo_registry_world (Some demo_registry))"
proof -
  let ?run = "ensure_registered no_registry_faults 9 demo_path_hash [''project'', ''.flox''] (PointerPath ''mine'') (demo_registry_world (Some demo_registry))"
  have unfolded: "fst ?run = Ok ()" "snd ?run \<noteq> demo_registry_world (Some demo_registry)"
    by (simp_all add: ensure_registered_file no_registry_faults_def demo_registry_world_def demo_registry_def register_env_def entry_for_hash_def
        entry_register_env_def is_same_as_latest_env_def latest_env_def demo_managed_def demo_path_hash_def
        write_environment_registry_def Let_def)
  then have "?run = (Ok (), snd ?run)"
    by (metis prod.collapse)
  from deregistering_undoes_registering [OF this _ demo_registry_inv, of no_registry_faults 0] show ?thesis
    using unfolded(2) by (simp add: demo_registry_world_def no_registry_faults_def)
qed

text \<open>
  C40. A garbage collection that succeeds leaves the directories that still exist in the registry. On
  a git that behaves as documented, the branch of every managed environment of a directory that is
  gone has been deleted, and the branches of the others are where they were. The branches meant are
  those that are not at the same time the sync branch of a gone environment of the same owner: an
  environment can be named like the branch of another one, as names may contain the dot that
  separates name and hash, and its sync branch is fetched and pruned under that name. The names of
  the environments that are gone are names that git reads as branch names.
\<close>

theorem garbage_collection_prunes:
  assumes "garbage_collect faults exec path_hash exists w = (Ok reg', w')" and "rw_file w = Some reg"
    and "reg_inv path_hash reg" and "\<forall>pointer. git_documented (exec pointer) view hist"
    and "clones_ok hist view (rw_clones w)" and "\<forall>path. CHR ''.'' \<notin> set (path_hash path)"
    and "\<forall>(path, pointer) \<in> set (managed_envs reg). \<not> exists path \<longrightarrow> name_ok (mp_name pointer)"
  shows "rw_file w' = Some reg' \<and> reg' = filter (\<lambda>entry. exists (ent_path entry)) reg \<and>
    (\<forall>(path, pointer) \<in> set (managed_envs reg).
       let branch = branch_name path_hash pointer path
       in (\<forall>(path', pointer') \<in> set (managed_envs reg). \<not> exists path' \<longrightarrow>
             mp_owner pointer' = mp_owner pointer \<longrightarrow> mp_name pointer' \<noteq> branch) \<longrightarrow>
          head_of view (rw_clones w') (mp_owner pointer) branch =
            (if exists path then head_of view (rw_clones w) (mp_owner pointer) branch else None))"
proof -
  let ?gone = "filter (\<lambda>entry. \<not> exists (ent_path entry)) reg"
  obtain clones where pruned: "prune_all exec path_hash (managed_envs ?gone) (rw_clones w) = (Ok (), clones)"
    and written: "rw_file w' = Some reg'" "reg' = filter (\<lambda>entry. exists (ent_path entry)) reg" "rw_clones w' = clones"
  proof -
    have faults: "rf_lock faults = None" "rf_read faults = None"
      using assms(1,2) by (auto simp: garbage_collect_file split: option.splits)
    obtain r clones where prune: "prune_nonexistent exec path_hash exists reg (rw_clones w) = (r, clones)"
      by (cases "prune_nonexistent exec path_hash exists reg (rw_clones w)")
    with assms(1,2) faults obtain reg2 where reg2: "r = Ok reg2"
      "act_bind (write_environment_registry faults reg2) (\<lambda>_. act_ok reg2) (w\<lparr> rw_clones := clones \<rparr>) = (Ok reg', w')"
      by (cases r) (simp_all add: garbage_collect_file)
    then have "reg' = reg2" "rw_file w' = Some reg'" "rw_clones w' = clones"
      by (auto simp: act_bind_Inr_iff write_environment_registry_def act_ok_def split: option.splits)
    then show thesis
      using that prune reg2(1) by (simp add: prune_nonexistent_result prune_entries_all)
  qed
  have sub: "(path, pointer) \<in> set (managed_envs ?gone) \<longleftrightarrow> (path, pointer) \<in> set (managed_envs reg) \<and> \<not> exists path" for path pointer
    by (auto simp: in_managed_envs)
  have "\<forall>(path, pointer) \<in> set (managed_envs ?gone). name_ok (mp_name pointer)"
    using assms(7) sub by fast
  note result = prune_all_Ok [OF assms(4,5) this pruned]
  have free: "\<not> sync_branch_of (managed_envs ?gone) (mp_owner pointer) branch"
    if "\<forall>(path', pointer') \<in> set (managed_envs reg). \<not> exists path' \<longrightarrow>
        mp_owner pointer' = mp_owner pointer \<longrightarrow> mp_name pointer' \<noteq> branch" for pointer branch
    using that sub unfolding sync_branch_of_def by blast
  have "head_of view clones (mp_owner pointer) (branch_name path_hash pointer path) =
      (if exists path then head_of view (rw_clones w) (mp_owner pointer) (branch_name path_hash pointer path) else None)"
    if "(path, pointer) \<in> set (managed_envs reg)"
      and "\<forall>(path', pointer') \<in> set (managed_envs reg). \<not> exists path' \<longrightarrow>
        mp_owner pointer' = mp_owner pointer \<longrightarrow> mp_name pointer' \<noteq> branch_name path_hash pointer path" for path pointer
  proof (cases "exists path")
    case False
    then have "(path, pointer) \<in> set (managed_envs ?gone)"
      using that(1) sub by blast
    from conjunct1 [OF result, THEN bspec, OF this] show ?thesis
      using False free [OF that(2)] by simp
  next
    case True
    have "branch_name path_hash pointer path \<noteq> branch_name path_hash pointer' path'"
      if gone: "(path', pointer') \<in> set (managed_envs ?gone)" for path' pointer'
    proof
      assume "branch_name path_hash pointer path = branch_name path_hash pointer' path'"
      then have "path_hash path = path_hash path'"
        using assms(6) by (intro branch_name_hash) auto
      moreover obtain entry where entry: "entry \<in> set reg" "ent_path entry = path"
        using \<open>(path, pointer) \<in> set (managed_envs reg)\<close> by (auto simp: in_managed_envs)
      moreover obtain entry' where entry': "entry' \<in> set reg" "ent_path entry' = path'"
        using gone by (auto simp: in_managed_envs)
      ultimately have "path = path'"
        using reg_inv_paths [OF assms(3) entry(1) entry'(1)] by simp
      then show False
        using gone sub True by simp
    qed
    then have "\<forall>(path', pointer') \<in> set (managed_envs ?gone). mp_owner pointer \<noteq> mp_owner pointer' \<or>
        branch_name path_hash pointer path \<noteq> branch_name path_hash pointer' path'"
      by fast
    from conjunct2 [OF result, THEN spec, THEN spec, THEN mp, THEN mp, OF free [OF that(2)] this] show ?thesis
      using True by simp
  qed
  then show ?thesis
    using written by (auto simp: Let_def)
qed

lemma garbage_collection_prunes_witness:
  "\<exists>w'. garbage_collect no_registry_faults (\<lambda>_. small_git demo_hist) demo_path_hash (\<lambda>_. False) (demo_registry_world (Some demo_registry)) =
       (Ok [], w') \<and>
     head_of id (rw_clones w') ''owner'' ''myenv.1a2b3c4d'' = None"
proof -
  obtain reg' w' where run: "garbage_collect no_registry_faults (\<lambda>_. small_git demo_hist) demo_path_hash (\<lambda>_. False)
      (demo_registry_world (Some demo_registry)) = (Ok reg', w')"
    using demo_collect by (metis is_ok.elims(2) prod.collapse)
  have managed: "managed_envs demo_registry = [([''project'', ''.flox''], demo_pointer)]"
    by (simp add: managed_envs_def demo_registry_def managed_env_def demo_managed_def)
  have names: "mp_name demo_pointer = ''myenv''" "mp_owner demo_pointer = ''owner''"
    by (simp_all add: demo_pointer_def)
  have "rw_file (demo_registry_world (Some demo_registry)) = Some demo_registry"
    by (simp add: demo_registry_world_def)
  from garbage_collection_prunes [OF run this demo_registry_inv, of id demo_hist] show ?thesis
    using demo_git demo_clones_ok run demo_names(1) names demo_names_eq
    by (simp add: managed demo_path_hash_def)
qed

end
