(* ===== verification/Spec2Isabelle.thy ===== *)
theory Spec2Isabelle
  imports Executive Generations Compose Managed Auto_Activate Commits Managed_Sync Registry
begin

text \<open>
  A verification development for the Rust sources of flox, a package and environment manager
  (\<open>src/cli\<close>; all paths below are relative to it).

  \<^bold>\<open>The program.\<close> An environment is a directory \<open>.flox\<close> with a manifest, the lockfile computed from it
  and links to what was built. A user changes an environment with \<open>flox install\<close>, \<open>uninstall\<close>, \<open>edit\<close>
  and \<open>upgrade\<close>; each of them computes a new manifest, locks it against the catalog, builds it and swaps
  the directory. A manifest can include other environments, whose manifests are composed with it. A
  managed environment keeps its manifests as generations on a branch of a git repository, which is
  pushed to and pulled from FloxHub. Activating an environment starts or attaches to an activation
  shared by all shells that use it, computes variables, and prints scripts for the shell; a prompt hook
  activates and deactivates environments as the user changes directories.

  \<^bold>\<open>Foundations.\<close>
  \<^item> \<open>Prelude\<close>: a fallible function returns \<open>Err e\<close> or \<open>Ok a\<close> (the two sides of a sum); an operation on
    a state is an \<open>action\<close>, a function from the state to the result and the state afterwards, so that what
    a failing operation has already changed is visible. \<open>act_bind\<close> is Rust's \<open>?\<close>. Two locales:
    \<open>transition_system\<close> (an invariant of the initial states that every step keeps holds in every
    reachable state) and \<open>action_relation\<close> (a reflexive and transitive relation between the states
    before and after holds of a sequence of actions when it holds of each).
  \<^item> \<open>Text\<close>: strings as lists of UTF-8 bytes, with the methods of \<open>str\<close> the program calls.
  \<^item> \<open>Ordered_Map\<close>: \<open>BTreeMap\<close> as a sorted association list; \<open>map_spec\<close> and its extension
    \<open>ordered_map_spec\<close> are its interface, interpreted on \<open>bm_insert\<close>, \<open>bm_remove\<close> and \<open>bm_get\<close>.

  \<^bold>\<open>Activations.\<close>
  \<^item> \<open>Activations\<close> (\<open>flox-core/src/activations.rs\<close>): \<open>ActivationState\<close> is \<open>state.json\<close>, the attached
    processes by pid, the start that is ready or starting, and the executive; \<open>start_or_attach\<close>, \<open>detach\<close>,
    \<open>cleanup_pid\<close> and the setters are its operations, \<open>act_inv\<close> its invariant.
  \<^item> \<open>Executive\<close> (\<open>flox-activations/src/cli/\<close>): the programs that take the lock of that file in turn.
    \<open>World\<close> is the file and the directories of the starts; \<open>world_step\<close> is one critical section of one
    program, so every interleaving of shells and executive is a sequence of steps. The invariant
    \<open>world_inv\<close> says that every start in use has its directory, except the starts that the detach of
    their last process left behind as ready (\<open>left_behind\<close>, the one defect of the protocol). From it
    follow when an attaching shell finds what it needs, and that the executive removes no live process
    after any history. The event loop's guard
    (\<open>allow_remonitor\<close>) is shown to stop after its limit.
  \<^item> \<open>Path_Vars\<close>, \<open>Env_Diff\<close>, \<open>Gen_Rc\<close> (\<open>flox-activations/src/cli/*.rs\<close>, \<open>env_diff.rs\<close>, \<open>start_diff.rs\<close>,
    \<open>attach_diff/\<close>, \<open>gen_rc/\<close>, \<open>hook.rs\<close>, \<open>deactivate.rs\<close>, \<open>shell_gen/src/lib.rs\<close>): the values of \<open>PATH\<close> and its
    relatives, the difference an activation makes and records, and the text of the startup and
    deactivation scripts of bash, zsh, fish and tcsh. The statements of a script have a meaning
    (\<open>run_stmts\<close>) on the environment of a shell; \<open>activation_stack\<close> is the relation between a shell and the
    layers it has activated in place, up to a set of variables that profiles, the user and the scripts
    themselves (\<open>own_vars\<close>, the prompt among them) may change.
  \<^item> \<open>Auto_Activate\<close> (\<open>flox/src/commands/hook_env.rs\<close>, \<open>deactivate.rs\<close>, \<open>flox-core/src/hook_actions.rs\<close>): the
    prompt hook with its queue of requested deactivations, the plan for the discovered environments,
    the user's consent and the two variables that are its memory. What it deactivates restores the
    environment of the shell; what it activates was allowed; run again in the same directory it settles,
    also when activations fail (\<open>next_context\<close> is one prompt with its outcomes).

  \<^bold>\<open>Manifests and locking.\<close>
  \<^item> \<open>Manifest_Types\<close>, \<open>Migrate\<close> (\<open>flox-manifest/src/parsed/\<close>, \<open>migrate/\<close>): the typed manifest, the four older
    schemas and the migrations, with what they keep and what they lose.
  \<^item> \<open>Compose\<close> (\<open>flox-manifest/src/compose/\<close>): the shallow merger and the composition of a list of
    manifests. Three locales (\<open>overriding_merge\<close>, \<open>warning_merge\<close>, \<open>appending_merge\<close>) state what a pairwise
    merge does to one field and prove what the composition of a list does to it; they are interpreted
    for every field of the manifest.
  \<^item> \<open>Pkg_Lookup\<close>, \<open>Locked_Packages\<close>, \<open>Lock_Manifest\<close> (\<open>flox-manifest/src/interfaces/pkg_lookup/\<close>, \<open>lockfile/\<close>,
    \<open>flox-rust-sdk/src/providers/lock_manifest.rs\<close>): groups of packages, the lockfile, and locking: reuse of
    the previous lockfile, resolution of the rest, and the checks on what the catalog answered.

  \<^bold>\<open>Changing an environment.\<close>
  \<^item> \<open>Pkg_Args\<close>, \<open>Install\<close> (\<open>flox-manifest/src/raw/mod.rs\<close>, \<open>flox-rust-sdk/src/models/environment/install.rs\<close>,
    \<open>uninstall.rs\<close>): the arguments of the commands and the modifications of the manifest they ask for.
  \<^item> \<open>Core_Environment\<close>, \<open>Commits\<close> (\<open>core_environment.rs\<close>, \<open>copy_dir_recursive\<close> of \<open>mod.rs\<close>): the files of an
    environment (\<open>EnvWorld\<close>: the directory, its backup and the temporary copy) and the transactions on
    them, with a fault for each file operation; then what an edit, an installation and an upgrade
    guarantee when they succeed, and what is left of the old environment when they fail.

  \<^bold>\<open>Managed environments.\<close>
  \<^item> \<open>Generations\<close> (\<open>generations.rs\<close>): the history of an environment as an append-only list and the table
    derived from it. \<open>metadata_step\<close> is one change, with a switch to any generation that the code
    accepts; \<open>agm_inv\<close> relates the table and the history, and holds until a switch to generation 0
    (\<open>zeroed\<close>), after which there is no table.
  \<^item> \<open>Git\<close> (\<open>flox-rust-sdk/src/providers/git.rs\<close>): the calls of \<open>git\<close> and the reading of its output.
  \<^item> \<open>Floxmeta\<close>, \<open>Managed\<close> (\<open>floxmeta_branch.rs\<close>, \<open>floxmeta.rs\<close>, \<open>managed_environment.rs\<close>): the two branches of an
    environment in the clone, the generation lock, opening, pushing and pulling. The locales
    \<open>repo_reader\<close> and \<open>repo_relation\<close> say which steps of a pull or a push change the repository;
    interpreted with "unchanged", "only advances" and "confined to the own branches" they give the
    safety of both operations without going through their code three times.
  \<^item> \<open>Registry\<close> (\<open>env_registry.rs\<close>): the registry of the directories of a user and its garbage collection.
  \<^item> \<open>Managed_Changes\<close> (\<open>managed_environment.rs\<close>, the writing part of \<open>generations.rs\<close>): every change of a
    managed environment, which is a transaction of the checkout (of \<open>Core_Environment\<close>), a commit of the
    checkout as a generation from a temporary clone, and the generation lock. \<open>FloxmetaGit\<close> holds the
    two ways to run \<open>git\<close> and the contents of a commit, \<open>git_records\<close> what staging, committing and pushing
    are documented to do. \<open>managed_step\<close> is one change with any outcome; \<open>keeps_generations\<close> and
    \<open>reads_only\<close>, two interpretations of \<open>action_relation\<close>, hold of every step of every change, from
    every branch whose files are \<open>stored\<close>; it is \<open>sound\<close> when its generations can also be read.
  \<^item> \<open>Managed_Sync\<close>: what these changes achieve: no sequence of them loses the files of a generation, a recorded change
    leaves checkout, current generation and lock in agreement, switching restores the files of a
    generation, and a failed commit leaves a checkout that blocks later changes.

  \<^bold>\<open>Parameters.\<close> What is not under \<open>src\<close> is an argument of the definitions that use it: the \<open>git\<close> program
  (its documented behaviour is the predicate \<open>git_documented\<close>, which the small implementation
  \<open>small_git\<close> satisfies), the catalog service and the locker of flakes, the builder, \<open>toml_edit\<close>,
  \<open>serde_json\<close>, \<open>zlib\<close> and \<open>base64\<close>, the URL and \<open>shell_escape\<close> crates, semantic versions, the clock,
  process liveness, terminal input and what the file system answers. Hypotheses about them are
  premises of the theorems, and each such theorem has a witness with concrete functions.

  \<^bold>\<open>Bounds.\<close> \<open>usize\<close> values are natural numbers below \<open>usize_max\<close> with the overflow written out
  (\<open>wrapping_add\<close>, \<open>saturating_add\<close>); parsed \<open>u8\<close>, \<open>u32\<close> and \<open>u64\<close> values are checked against their width. No definition
  has fuel: loops are structural recursions, folds, or recursions with a proof of termination. The
  walks over a hash map have their order as a parameter.

  \<^bold>\<open>Not modelled.\<close> Command line parsing, dialogs and messages (\<open>flox/src/commands\<close> and \<open>utils\<close> other than the
  hook): they call the operations above and print. Building, publishing and containers
  (\<open>providers/build.rs\<close>, \<open>publish.rs\<close>, \<open>container_builder.rs\<close>): they run \<open>make\<close>, \<open>nix\<close> and \<open>git\<close> and parse what these
  print. The HTTP clients, of which two are generated; events and metrics; the systemd unit printer;
  the detection of projects by \<open>flox init\<close>. The TOML documents with their comments
  (\<open>flox-manifest/src/interfaces\<close>) are parameters of the transactions. Threads, signals and sockets of the
  executive appear as the events they cause.
\<close>

end
